(* ===== verification/Prelude.thy ===== *)
theory Prelude
  imports Main "HOL-Library.Word"
begin

text \<open>
  What every component of the sidecar shares: the three ways a Rust call can end, a mutex with
  the poison flag of \<open>std::sync::Mutex\<close>, durations and instants in nanoseconds, and generic
  lemmas on lists and association lists. Nothing here models a line of the program; the
  components are written over it.
\<close>

named_theorems outcome_simps \<open>equations of the outcome combinators\<close>
named_theorems mutex_simps \<open>equations of the mutex operations\<close>

section \<open>How a call ends\<close>

text \<open>
  A Rust function that returns \<open>anyhow::Result\<close> ends with a value or an error; any call can
  also unwind. The three are kept apart because the program treats them differently: an error is
  handled by \<open>?\<close> and \<open>inspect_err\<close>, an unwind runs destructors only and poisons every mutex
  whose guard is alive.
\<close>

datatype ('e, 'a) outcome = Ok 'a | Err 'e | Panic

fun is_ok :: "('e, 'a) outcome \<Rightarrow> bool" where
  "is_ok (Ok x) = True"
| "is_ok (Err e) = False"
| "is_ok Panic = False"

fun bind_outcome :: "('e, 'a) outcome \<Rightarrow> ('a \<Rightarrow> ('e, 'b) outcome) \<Rightarrow> ('e, 'b) outcome" where
  "bind_outcome (Ok x) f = f x"
| "bind_outcome (Err e) f = Err e"
| "bind_outcome Panic f = Panic"

fun map_outcome :: "('a \<Rightarrow> 'b) \<Rightarrow> ('e, 'a) outcome \<Rightarrow> ('e, 'b) outcome" where
  "map_outcome f (Ok x) = Ok (f x)"
| "map_outcome f (Err e) = Err e"
| "map_outcome f Panic = Panic"

lemmas outcome_eqs [outcome_simps] =
  is_ok.simps bind_outcome.simps map_outcome.simps

lemma is_ok_iff: "is_ok r \<longleftrightarrow> (\<exists>x. r = Ok x)"
  by (cases r) auto

lemma map_outcome_eq_Ok [simp]: "map_outcome f r = Ok y \<longleftrightarrow> (\<exists>x. r = Ok x \<and> y = f x)"
  by (cases r) auto

lemma bind_outcome_eq_Ok: "bind_outcome r f = Ok y \<longleftrightarrow> (\<exists>x. r = Ok x \<and> f x = Ok y)"
  by (cases r) auto

section \<open>Mutexes\<close>

text \<open>
  \<open>std::sync::Mutex\<close> as one thread sees it: the guarded value, whether some thread holds the
  guard now, and whether a thread unwound while it held it. \<open>try_lock\<close> answers without blocking;
  a mutex that is held answers \<open>WouldBlock\<close> whether or not it is poisoned.
\<close>

record 'a mutex =
  mx_val :: 'a
  mx_held :: bool
  mx_poisoned :: bool

datatype 'a try_lock = Acquired 'a | WouldBlock | Poisoned 'a

definition new_mutex :: "'a \<Rightarrow> 'a mutex" where
  "new_mutex v = \<lparr>mx_val = v, mx_held = False, mx_poisoned = False\<rparr>"

definition try_lock :: "'a mutex \<Rightarrow> 'a try_lock" where
  "try_lock m =
     (if mx_held m then WouldBlock
      else if mx_poisoned m then Poisoned (mx_val m)
      else Acquired (mx_val m))"

text \<open>\<open>try_lock().ok()\<close>: a busy and a poisoned mutex both read as nothing.\<close>

definition try_lock_ok :: "'a mutex \<Rightarrow> 'a option" where
  "try_lock_ok m = (case try_lock m of Acquired v \<Rightarrow> Some v | WouldBlock \<Rightarrow> None | Poisoned v \<Rightarrow> None)"

lemma try_lock_new [mutex_simps]: "try_lock (new_mutex v) = Acquired v"
  by (simp add: try_lock_def new_mutex_def)

lemma try_lock_ok_new [mutex_simps]: "try_lock_ok (new_mutex v) = Some v"
  by (simp add: try_lock_ok_def mutex_simps)

lemma mx_val_new [simp]: "mx_val (new_mutex v) = v"
  and mx_poisoned_new [simp]: "\<not> mx_poisoned (new_mutex v)"
  and mx_held_new [simp]: "\<not> mx_held (new_mutex v)"
  by (simp_all add: new_mutex_def)

lemma try_lock_ok_iff:
  "try_lock_ok m = Some v \<longleftrightarrow> \<not> mx_held m \<and> \<not> mx_poisoned m \<and> v = mx_val m"
  by (auto simp: try_lock_ok_def try_lock_def)

section \<open>Durations and instants\<close>

text \<open>
  \<open>std::time::Duration\<close> is a count of nanoseconds of at most \<open>u64::MAX\<close> seconds and
  999999999 nanoseconds; \<open>+\<close> on durations panics beyond that. An \<open>Instant\<close> is a reading of the
  monotonic clock in nanoseconds; \<open>elapsed\<close> saturates at zero, as subtraction on \<open>nat\<close> does.
\<close>

type_synonym nanos = nat

definition duration_max :: nanos where
  "duration_max = (2 ^ 64 - 1) * 1000000000 + 999999999"

definition from_secs :: "nat \<Rightarrow> nanos" where
  "from_secs s = s * 1000000000"

definition from_millis :: "nat \<Rightarrow> nanos" where
  "from_millis ms = ms * 1000000"

definition as_secs :: "nanos \<Rightarrow> nat" where
  "as_secs d = d div 1000000000"

definition as_millis :: "nanos \<Rightarrow> nat" where
  "as_millis d = d div 1000000"

definition duration_add :: "nanos \<Rightarrow> nanos \<Rightarrow> nanos option" where
  "duration_add a b = (if a + b \<le> duration_max then Some (a + b) else None)"

definition elapsed :: "nanos \<Rightarrow> nanos \<Rightarrow> nanos" where
  "elapsed since now = now - since"

lemma as_secs_from_secs [simp]: "as_secs (from_secs s) = s"
  by (simp add: as_secs_def from_secs_def)

lemma elapsed_mono: "now \<le> later \<Longrightarrow> elapsed since now \<le> elapsed since later"
  by (simp add: elapsed_def)

section \<open>Lists and association lists\<close>

text \<open>\<open>iter().position(..)\<close> and \<open>get(i)\<close>.\<close>

fun position :: "('a \<Rightarrow> bool) \<Rightarrow> 'a list \<Rightarrow> nat option" where
  "position P [] = None"
| "position P (x # xs) = (if P x then Some 0 else map_option Suc (position P xs))"

fun nth_opt :: "'a list \<Rightarrow> nat \<Rightarrow> 'a option" where
  "nth_opt [] i = None"
| "nth_opt (x # xs) 0 = Some x"
| "nth_opt (x # xs) (Suc i) = nth_opt xs i"

lemma position_None: "position P xs = None \<longleftrightarrow> (\<forall>x\<in>set xs. \<not> P x)"
  by (induction xs) auto

lemma position_split:
  "position P xs = Some i \<Longrightarrow>
     \<exists>us x vs. xs = us @ x # vs \<and> length us = i \<and> P x \<and> (\<forall>u\<in>set us. \<not> P u)"
proof (induction xs arbitrary: i)
  case Nil
  then show ?case by simp
next
  case (Cons y ys)
  show ?case
  proof (cases "P y")
    case True
    with Cons.prems show ?thesis by (intro exI [of _ "[]"]) auto
  next
    case False
    with Cons.prems obtain j where j: "position P ys = Some j" "i = Suc j" by auto
    from Cons.IH [OF j(1)] obtain us x vs
      where "ys = us @ x # vs" "length us = j" "P x" "\<forall>u\<in>set us. \<not> P u" by blast
    with False j(2) show ?thesis by (intro exI [of _ "y # us"]) auto
  qed
qed

lemma position_Some:
  "position P xs = Some i \<longleftrightarrow> i < length xs \<and> P (xs ! i) \<and> (\<forall>j<i. \<not> P (xs ! j))"
proof (induction xs arbitrary: i)
  case (Cons x xs)
  then show ?case by (cases i) (auto simp: All_less_Suc2)
qed simp

lemma nth_opt_Some: "nth_opt xs i = Some x \<longleftrightarrow> i < length xs \<and> xs ! i = x"
  by (induction xs i rule: nth_opt.induct) auto

lemma nth_opt_None: "nth_opt xs i = None \<longleftrightarrow> length xs \<le> i"
  by (induction xs i rule: nth_opt.induct) auto

lemma nth_opt_lt [simp]: "i < length xs \<Longrightarrow> nth_opt xs i = Some (xs ! i)"
  by (simp add: nth_opt_Some)

lemma distinct_fst_filter: "distinct (map fst xs) \<Longrightarrow> distinct (map fst (filter P xs))"
  by (induction xs) auto

lemma map_of_filter_other:
  "k \<noteq> c \<Longrightarrow> map_of (filter (\<lambda>e. fst e \<noteq> c) xs) k = map_of xs k"
  by (induction xs) auto

lemma map_of_filter_same: "map_of (filter (\<lambda>e. fst e \<noteq> c) xs) c = None"
  by (induction xs) auto

lemma filter_fst_neq_id: "c \<notin> fst ` set xs \<Longrightarrow> filter (\<lambda>e. fst e \<noteq> c) xs = xs"
  by (induction xs) auto

lemma last_in_set_map: "xs \<noteq> [] \<Longrightarrow> f (last xs) \<in> f ` set xs"
  by simp

text \<open>\<open>Option<Vec<T>>\<close> from an iterator of options: all values, or nothing at the first hole.\<close>

fun collect_options :: "'a option list \<Rightarrow> 'a list option" where
  "collect_options [] = Some []"
| "collect_options (None # xs) = None"
| "collect_options (Some x # xs) = map_option ((#) x) (collect_options xs)"

lemma collect_options_map_Some [simp]: "collect_options (map Some xs) = Some xs"
  by (induction xs) auto

lemma collect_options_Some: "collect_options xs = Some ys \<longleftrightarrow> xs = map Some ys"
proof (induction xs arbitrary: ys rule: collect_options.induct)
  case (3 x xs)
  then show ?case by (cases ys) auto
qed auto

lemma collect_options_None: "collect_options xs = None \<longleftrightarrow> None \<in> set xs"
  by (induction xs rule: collect_options.induct) auto

lemma collect_options_map:
  "(\<And>x. x \<in> set xs \<Longrightarrow> f x = Some (g x)) \<Longrightarrow> collect_options (map f xs) = Some (map g xs)"
  by (induction xs) auto

lemma collect_options_map_None:
  "collect_options (map f xs) = None \<longleftrightarrow> (\<exists>x\<in>set xs. f x = None)"
  unfolding collect_options_None by (simp add: image_iff) (metis)

lemma collect_options_length: "collect_options xs = Some ys \<Longrightarrow> length ys = length xs"
  by (simp add: collect_options_Some)

end
