(* ===== verification/Env.thy ===== *)
theory Env
  imports Rust_Text
begin

text \<open>
  \<open>env_str\<close>, \<open>env_parse\<close> and \<open>env_truthy\<close> of \<open>src/config.rs\<close>: every knob of the sidecar is an
  environment variable read through one of the three. The environment is a map from names to the
  values that are valid Unicode; \<open>std::env::var\<close> answers \<open>Err\<close> for the others, which the code
  turns into an absent one.
\<close>

type_synonym environment = "string \<rightharpoonup> string"

definition env_str :: "environment \<Rightarrow> string \<Rightarrow> string \<Rightarrow> string" where
  "env_str env key dflt =
     (case env key of
        None \<Rightarrow> dflt
      | Some v \<Rightarrow> if trim v = [] then dflt else v)"

definition env_parse :: "(string \<Rightarrow> 'a option) \<Rightarrow> environment \<Rightarrow> string \<Rightarrow> 'a \<Rightarrow> 'a" where
  "env_parse parse env key dflt =
     (case env key of
        None \<Rightarrow> dflt
      | Some v \<Rightarrow> (case parse (trim v) of None \<Rightarrow> dflt | Some x \<Rightarrow> x))"

definition env_truthy :: "environment \<Rightarrow> string \<Rightarrow> bool" where
  "env_truthy env key =
     (lowercase (trim (env_str env key [])) \<in> set [''1'', ''true'', ''on'', ''yes''])"

lemma env_str_absent [text_simps]: "env key = None \<Longrightarrow> env_str env key dflt = dflt"
  by (simp add: env_str_def)

lemma env_str_blank: "env key = Some v \<Longrightarrow> trim v = [] \<Longrightarrow> env_str env key dflt = dflt"
  by (simp add: env_str_def)

lemma env_parse_absent [text_simps]: "env key = None \<Longrightarrow> env_parse parse env key dflt = dflt"
  by (simp add: env_parse_def)

lemma env_parse_junk:
  "env key = Some v \<Longrightarrow> parse (trim v) = None \<Longrightarrow> env_parse parse env key dflt = dflt"
  by (simp add: env_parse_def)

lemma env_truthy_absent [text_simps]: "env key = None \<Longrightarrow> \<not> env_truthy env key"
  by (simp add: env_truthy_def env_str_absent lowercase_def)

text \<open>A number written in decimal is read back, and what is read is always in the type's range.\<close>

lemma env_parse_number:
  "env key = Some (show_nat n) \<Longrightarrow> n \<le> hi \<Longrightarrow> env_parse (parse_unsigned hi) env key dflt = n"
  by (simp add: env_parse_def parse_show_nat)

lemma env_parse_bound: "dflt \<le> hi \<Longrightarrow> env_parse (parse_unsigned hi) env key dflt \<le> hi"
  by (auto simp: env_parse_def parse_unsigned_bound split: option.splits)

lemma env_parse_signed_bounds:
  "lo \<le> dflt \<Longrightarrow> dflt \<le> hi \<Longrightarrow>
     lo \<le> env_parse (parse_signed lo hi) env key dflt \<and> env_parse (parse_signed lo hi) env key dflt \<le> hi"
  using parse_signed_bounds [of lo hi]
  by (auto simp: env_parse_def split: option.splits)

end
