(* ===== verification/Wedge.thy ===== *)
theory Wedge
  imports Env
begin

text \<open>
  \<open>src/wedge.rs\<close>: the wedge detector. What holds an engine and since when, the ceilings, what
  the watchdog does about a holder, the refusal a caller gets, and the watchdog's ticks with the
  lines it writes.
\<close>

section \<open>Phases and ceilings\<close>

datatype phase = Building | Running

fun phase_name :: "phase \<Rightarrow> string" where
  "phase_name Building = ''building''"
| "phase_name Running = ''running''"

record wedge_policy =
  running_after :: nanos
  building_after :: nanos
  unload_wait :: nanos
  poll :: nanos
  exit_after_wedged :: "nanos option"

definition wedge_policy_from_env :: "environment \<Rightarrow> wedge_policy" where
  "wedge_policy_from_env env =
     (let running = from_secs (env_parse parse_u64 env ''WEDGE_RUNNING_AFTER_SECONDS'' 900)
      in \<lparr>running_after = running,
          building_after = from_secs (env_parse parse_u64 env ''WEDGE_BUILDING_AFTER_SECONDS'' 3600),
          unload_wait = from_secs (env_parse parse_u64 env ''UNLOAD_LOCK_WAIT_SECONDS'' 30),
          poll = from_millis (env_parse parse_u64 env ''WEDGE_POLL_MS'' 50),
          exit_after_wedged =
            (if env_truthy env ''WEDGE_EXIT''
             then Some (from_secs
               (env_parse parse_u64 env ''WEDGE_EXIT_AFTER_SECONDS'' (as_secs running)))
             else None)\<rparr>)"

fun ceiling :: "wedge_policy \<Rightarrow> phase \<Rightarrow> nanos" where
  "ceiling policy Building = building_after policy"
| "ceiling policy Running = running_after policy"

record in_flight =
  if_phase :: phase
  if_label :: string
  if_since :: nanos

text \<open>
  \<open>write_inflight\<close> waits for the slot's own mutex, which is only ever held for an assignment, and
  heals its poison; \<open>inflight_now\<close> never waits and reads a busy or poisoned slot as nothing.
\<close>

definition write_inflight :: "in_flight option \<Rightarrow> in_flight option mutex \<Rightarrow> in_flight option mutex" where
  "write_inflight rec slot = slot\<lparr>mx_val := rec, mx_held := False, mx_poisoned := False\<rparr>"

definition inflight_now :: "in_flight option mutex \<Rightarrow> in_flight option" where
  "inflight_now slot = (case try_lock_ok slot of None \<Rightarrow> None | Some holder \<Rightarrow> holder)"

lemma inflight_now_write [mutex_simps]: "inflight_now (write_inflight rec slot) = rec"
  by (simp add: inflight_now_def write_inflight_def try_lock_ok_def try_lock_def)

section \<open>The refusal\<close>

record engine_wedged =
  ew_what :: string
  ew_activity :: string
  ew_elapsed :: nanos
  ew_wedged :: bool

definition dquote :: string where
  "dquote = [CHR 0x22]"

definition show_engine_wedged :: "engine_wedged \<Rightarrow> string" where
  "show_engine_wedged e =
     (let seconds = show_nat (as_secs (ew_elapsed e)) in
      if ew_wedged e then
        ''the '' @ ew_what e @ '' engine is WEDGED: `'' @ ew_activity e @ ''` has held it for ''
        @ seconds @ ''s, past its ceiling. An ONNX Runtime ''
        @ ''call cannot be cancelled from outside, so this request is refused instead of queueing behind ''
        @ ''it forever '' @ em_dash @ '' see /health (status '' @ dquote @ ''wedged'' @ dquote
        @ ''), then POST /unload or restart the sidecar''
      else
        ''the '' @ ew_what e @ '' engine is busy (`''
        @ (if ew_activity e = [] then ''no activity recorded'' else ew_activity e)
        @ ''`) and did not come free within '' @ seconds @ ''s '' @ em_dash
        @ '' refusing rather than queueing without a ceiling'')"

datatype patience = Until_The_Holder_Is_Wedged | At_Most nanos

section \<open>What the watchdog does about a holder\<close>

datatype wedge_action = Nothing | Report | Exit

fun severity :: "wedge_action \<Rightarrow> nat" where
  "severity Nothing = 0"
| "severity Report = 1"
| "severity Exit = 2"

lemma severity_inject [simp]: "severity a = severity b \<longleftrightarrow> a = b"
  by (cases a; cases b) simp_all

text \<open>The actions in the order of their severity, so that the policy can be stated as monotone.\<close>

instantiation wedge_action :: linorder
begin

definition less_eq_wedge_action :: "wedge_action \<Rightarrow> wedge_action \<Rightarrow> bool" where
  "less_eq_wedge_action a b = (severity a \<le> severity b)"

definition less_wedge_action :: "wedge_action \<Rightarrow> wedge_action \<Rightarrow> bool" where
  "less_wedge_action a b = (severity a < severity b)"

instance
  by standard (auto simp: less_eq_wedge_action_def less_wedge_action_def)

end

text \<open>
  \<open>None\<close> is the panic of \<open>ceiling + after\<close>: \<open>Duration\<close> addition beyond \<open>u64::MAX\<close> seconds.
\<close>

definition wedge_verdict :: "phase \<Rightarrow> nanos \<Rightarrow> wedge_policy \<Rightarrow> wedge_action option" where
  "wedge_verdict ph took policy =
     (let limit = ceiling policy ph in
      if took < limit then Some Nothing
      else (case exit_after_wedged policy of
          None \<Rightarrow> Some Report
        | Some after \<Rightarrow>
            (case duration_add limit after of
               None \<Rightarrow> None
             | Some deadline \<Rightarrow> if deadline \<le> took then Some Exit else Some Report)))"

lemma wedge_verdict_nothing: "wedge_verdict ph t p = Some Nothing \<longleftrightarrow> t < ceiling p ph"
  by (auto simp: wedge_verdict_def Let_def split: option.splits if_splits)

lemma wedge_verdict_exit:
  "wedge_verdict ph t p = Some Exit \<longleftrightarrow>
     (\<exists>after. exit_after_wedged p = Some after \<and> ceiling p ph + after \<le> duration_max
        \<and> ceiling p ph + after \<le> t)"
  by (auto simp: wedge_verdict_def Let_def duration_add_def split: option.splits if_splits)

lemma wedge_verdict_panic:
  "wedge_verdict ph t p = None \<longleftrightarrow>
     (\<exists>after. exit_after_wedged p = Some after \<and> duration_max < ceiling p ph + after
        \<and> ceiling p ph \<le> t)"
  by (auto simp: wedge_verdict_def Let_def duration_add_def split: option.splits if_splits)

lemma wedge_verdict_never_exits:
  "exit_after_wedged p = None \<Longrightarrow>
     wedge_verdict ph t p = Some (if t < ceiling p ph then Nothing else Report)"
  by (simp add: wedge_verdict_def Let_def)

text \<open>
  The watchdog never softens. For a holder that stays, a later look gives the same action or
  a more severe one, whatever the ceilings.
\<close>

theorem wedge_verdict_mono:
  "t \<le> u \<Longrightarrow> wedge_verdict ph t p = Some a \<Longrightarrow> wedge_verdict ph u p = Some b \<Longrightarrow> a \<le> b"
  by (auto simp: wedge_verdict_def Let_def duration_add_def less_eq_wedge_action_def
      split: option.splits if_splits)

definition sample_policy :: wedge_policy where
  "sample_policy = \<lparr>running_after = 900, building_after = 3600, unload_wait = 30, poll = 1,
     exit_after_wedged = Some 900\<rparr>"

lemma wedge_verdict_mono_witness: "Report \<le> Exit"
  by (rule wedge_verdict_mono [of 900 1800 Running sample_policy])
    (simp_all add: wedge_verdict_def duration_add_def duration_max_def sample_policy_def)


text \<open>
  The addition of the exit delay can panic. With the exit opted in and a delay that takes the
  sum past the largest \<open>Duration\<close>, the verdict on every holder past its ceiling is a panic, which
  ends the watchdog task before it has written a line.
\<close>

theorem wedge_exit_delay_panics:
  "exit_after_wedged p = Some after \<Longrightarrow> duration_max < ceiling p ph + after \<Longrightarrow>
     wedge_verdict ph t p = (if t < ceiling p ph then Some Nothing else None)"
  by (simp add: wedge_verdict_def Let_def duration_add_def)

lemma wedge_exit_delay_panics_witness:
  "wedge_verdict Running (from_secs 900)
     (wedge_policy_from_env [''WEDGE_EXIT'' \<mapsto> ''1'',
        ''WEDGE_EXIT_AFTER_SECONDS'' \<mapsto> show_nat u64_max]) = None"
proof -
  let ?env = "[''WEDGE_EXIT'' \<mapsto> ''1'', ''WEDGE_EXIT_AFTER_SECONDS'' \<mapsto> show_nat u64_max]"
  let ?p = "wedge_policy_from_env ?env"
  have "trim ''1'' = ''1''" by code_simp
  moreover have "lowercase ''1'' \<in> set [''1'', ''true'', ''on'', ''yes'']" by code_simp
  ultimately have "env_truthy ?env ''WEDGE_EXIT''" by (simp add: env_truthy_def env_str_def)
  then have "exit_after_wedged ?p = Some (from_secs u64_max)" "ceiling ?p Running = from_secs 900"
    by (simp_all add: wedge_policy_from_env_def env_parse_number env_parse_absent)
  then show ?thesis
    using wedge_exit_delay_panics [of ?p "from_secs u64_max" Running "from_secs 900"]
    by (simp add: duration_max_def from_secs_def u64_max_def)
qed

section \<open>The watchdog\<close>

text \<open>
  One tick looks at both engines, embed first. The flags hold one announcement per wedge; the
  watchdog ends with the process exit or with the panic of the verdict. Each engine is read with
  the clock at its own reading.
\<close>

datatype watch_line =
    Wedged_Line string in_flight nanos
  | Exiting_Line string in_flight nanos

datatype engine_watch = Flag bool | Exit_Process | Task_Panics

type_synonym observation = "in_flight option \<times> nanos"

definition watch_engine ::
  "wedge_policy \<Rightarrow> string \<Rightarrow> observation \<Rightarrow> bool \<Rightarrow> engine_watch \<times> watch_line list" where
  "watch_engine policy engine obs announced =
     (case fst obs of
        None \<Rightarrow> (Flag False, [])
      | Some holder \<Rightarrow>
          (let took = elapsed (if_since holder) (snd obs)
           in case wedge_verdict (if_phase holder) took policy of
                None \<Rightarrow> (Task_Panics, [])
              | Some Nothing \<Rightarrow> (Flag False, [])
              | Some Report \<Rightarrow>
                  if announced then (Flag True, [])
                  else (Flag True, [Wedged_Line engine holder took])
              | Some Exit \<Rightarrow> (Exit_Process, [Exiting_Line engine holder took])))"

datatype watchdog = Watching bool bool | Exited | Died

fun watch_tick ::
  "wedge_policy \<Rightarrow> observation \<times> observation \<Rightarrow> watchdog \<Rightarrow> watchdog \<times> watch_line list" where
  "watch_tick policy (em, re) (Watching a b) =
     (case watch_engine policy ''embed'' em a of
        (Exit_Process, ls) \<Rightarrow> (Exited, ls)
      | (Task_Panics, ls) \<Rightarrow> (Died, ls)
      | (Flag a', ls) \<Rightarrow>
          (case watch_engine policy ''rerank'' re b of
             (Exit_Process, ms) \<Rightarrow> (Exited, ls @ ms)
           | (Task_Panics, ms) \<Rightarrow> (Died, ls @ ms)
           | (Flag b', ms) \<Rightarrow> (Watching a' b', ls @ ms)))"
| "watch_tick policy obs Exited = (Exited, [])"
| "watch_tick policy obs Died = (Died, [])"

fun watch_run ::
  "wedge_policy \<Rightarrow> (observation \<times> observation) list \<Rightarrow> watchdog \<Rightarrow> watchdog \<times> watch_line list" where
  "watch_run policy [] w = (w, [])"
| "watch_run policy (obs # rest) w =
     (case watch_tick policy obs w of
        (w', ls) \<Rightarrow> (case watch_run policy rest w' of (w'', ms) \<Rightarrow> (w'', ls @ ms)))"

definition spawn_wedge_watchdog ::
  "wedge_policy \<Rightarrow> (observation \<times> observation) list \<Rightarrow> watchdog \<times> watch_line list" where
  "spawn_wedge_watchdog policy ticks = watch_run policy ticks (Watching False False)"

lemma watch_engine_no_exit:
  "exit_after_wedged p = None \<Longrightarrow>
     watch_engine p engine obs a =
       (case fst obs of
          None \<Rightarrow> (Flag False, [])
        | Some h \<Rightarrow>
            (let took = elapsed (if_since h) (snd obs)
             in if took < ceiling p (if_phase h) then (Flag False, [])
                else (Flag True, if a then [] else [Wedged_Line engine h took])))"
  by (auto simp: watch_engine_def wedge_verdict_never_exits Let_def split: option.splits)

text \<open>The lines an idle rerank slot leaves out: only the embedding engine's holder is reported.\<close>

lemma watch_run_one_holder:
  assumes "exit_after_wedged p = None" and "sorted ts"
    and "a \<longrightarrow> (\<forall>t\<in>set ts. ceiling p (if_phase h) \<le> elapsed (if_since h) t)"
  shows "snd (watch_run p (map (\<lambda>t. ((Some h, t), (None, t))) ts) (Watching a b)) =
    (case filter (\<lambda>t. \<not> a \<and> ceiling p (if_phase h) \<le> elapsed (if_since h) t) ts of
       [] \<Rightarrow> []
     | t # _ \<Rightarrow> [Wedged_Line ''embed'' h (elapsed (if_since h) t)])"
  using assms
proof (induction ts arbitrary: a b)
  case (Cons t ts)
  have later: "elapsed (if_since h) t \<le> elapsed (if_since h) u" if "u \<in> set ts" for u
    using that Cons.prems(2) by (simp add: elapsed_mono)
  show ?case
  proof (cases "elapsed (if_since h) t < ceiling p (if_phase h)")
    case True
    with Cons.prems have "\<not> a" by auto
    with True Cons.prems Cons.IH [of False False] show ?thesis
      by (simp add: watch_engine_no_exit Let_def split: prod.splits)
  next
    case False
    then have "\<forall>u\<in>set ts. ceiling p (if_phase h) \<le> elapsed (if_since h) u"
      using later by fastforce
    with False Cons.prems Cons.IH [of True False] show ?thesis
      by (auto simp: watch_engine_no_exit Let_def split: prod.splits)
  qed
qed simp



end
