(* ===== verification/Config.thy ===== *)
theory Config
  imports Wedge
begin

text \<open>
  \<open>src/config.rs\<close>: the knobs of the sidecar and \<open>Config::from_env\<close>. Paths are their text;
  \<open>usize\<close> is 64 bits wide.
\<close>

definition dense_model :: string where
  "dense_model = ''BAAI/bge-m3 (dense, FP32)''"

definition sparse_model :: string where
  "sparse_model = ''BAAI/bge-m3 (learned sparse, FP32)''"

definition dual_model :: string where
  "dual_model = ''BAAI/bge-m3 (dense+sparse heads, FP32, one session)''"

definition rerank_model :: string where
  "rerank_model = ''bge-reranker-v2-m3''"

record config =
  cf_provider :: string
  device_id :: int
  max_batch :: nat
  intra_threads :: nat
  embed_max_length :: nat
  rerank_max_length :: nat
  cache_dir :: string
  qwen_tokenizer_path :: string
  tokenize_max_texts :: nat
  max_body_bytes :: nat
  pin_input_shape :: string
  mxr_cache_base :: string
  engine_cache_rungs :: nat
  wedge :: wedge_policy
  idle_unload :: "nanos option"

definition config_from_env :: "environment \<Rightarrow> config" where
  "config_from_env env =
     \<lparr>cf_provider = env_str env ''ORT_PROVIDER'' [],
      device_id = env_parse parse_i32 env ''ORT_DEVICE_ID'' 0,
      max_batch = env_parse parse_u64 env ''MAX_BATCH'' 64,
      intra_threads = env_parse parse_u64 env ''ORT_THREADS'' 0,
      embed_max_length = env_parse parse_u64 env ''EMBED_MAX_LENGTH'' 256,
      rerank_max_length = env_parse parse_u64 env ''RERANK_MAX_LENGTH'' 1024,
      cache_dir = env_str env ''MODEL_CACHE_DIR'' ''.model-cache'',
      qwen_tokenizer_path = env_str env ''QWEN_TOKENIZER'' ''../qwen-tokenizer/tokenizer.json'',
      tokenize_max_texts = env_parse parse_u64 env ''TOKENIZE_MAX_TEXTS'' 4096,
      max_body_bytes = env_parse parse_u64 env ''MAX_BODY_BYTES'' (2 * 1024 * 1024),
      pin_input_shape = env_str env ''PIN_INPUT_SHAPE'' ''auto'',
      mxr_cache_base = env_str env ''ORT_MIGRAPHX_MODEL_CACHE_PATH'' [],
      engine_cache_rungs = env_parse parse_u64 env ''EMBED_ENGINE_CACHE_RUNGS'' 1,
      wedge = wedge_policy_from_env env,
      idle_unload =
        (let seconds = env_parse parse_u64 env ''SIDECAR_IDLE_UNLOAD_SECONDS'' 0
         in if seconds = 0 then None else Some (from_secs seconds))\<rparr>"

lemma config_defaults:
  "max_batch (config_from_env Map.empty) = 64"
  "embed_max_length (config_from_env Map.empty) = 256"
  "pin_input_shape (config_from_env Map.empty) = ''auto''"
  "mxr_cache_base (config_from_env Map.empty) = []"
  "idle_unload (config_from_env Map.empty) = None"
  by (simp_all add: config_from_env_def text_simps)

lemma config_blank_base:
  "env ''ORT_MIGRAPHX_MODEL_CACHE_PATH'' = Some v \<Longrightarrow> trim v = [] \<Longrightarrow>
     mxr_cache_base (config_from_env env) = []"
  by (simp add: config_from_env_def env_str_blank)


end
