(* ===== verification/Compile_Cache.thy ===== *)
theory Compile_Cache
  imports Config
begin

text \<open>
  \<open>src/compile_cache.rs\<close>: where each engine's compiled programs live (one directory per engine
  and pinned shape), how their growth is measured across a pass, and the lease that points the
  process-global path variables at one slice for as long as it is held.
\<close>

definition embed_cache_engine :: string where
  "embed_cache_engine = ''dual''"

definition rerank_cache_engine :: string where
  "rerank_cache_engine = ''rerank''"

section \<open>Slices\<close>

record cache_shape =
  cs_batch :: nat
  cs_seq :: nat

definition cache_shape_new :: "nat \<Rightarrow> nat \<Rightarrow> cache_shape" where
  "cache_shape_new batch seq = \<lparr>cs_batch = batch, cs_seq = seq\<rparr>"

definition unpinned_batch :: "nat \<Rightarrow> cache_shape" where
  "unpinned_batch seq = \<lparr>cs_batch = 0, cs_seq = seq\<rparr>"

definition slug :: "cache_shape \<Rightarrow> string" where
  "slug s =
     (if cs_batch s = 0 then ''s'' @ show_nat (cs_seq s)
      else ''b'' @ show_nat (cs_batch s) @ ''s'' @ show_nat (cs_seq s))"

definition trim_end_slashes :: "string \<Rightarrow> string" where
  "trim_end_slashes s = rev (dropWhile (\<lambda>c. c = CHR ''/'') (rev s))"

definition engine_cache_dir :: "string \<Rightarrow> string \<Rightarrow> cache_shape \<Rightarrow> string" where
  "engine_cache_dir base engine shape =
     trim_end_slashes base @ ''/'' @ engine @ ''-'' @ slug shape"

text \<open>A separator that neither digits nor the first part contain cuts a text in one way only.\<close>

lemma append_sep_inject:
  "c \<notin> set us \<Longrightarrow> c \<notin> set vs \<Longrightarrow> us @ c # xs = vs @ c # ys \<Longrightarrow> us = vs \<and> xs = ys"
proof (induction us arbitrary: vs)
  case Nil
  then show ?case by (cases vs) auto
next
  case (Cons u us)
  then show ?case by (cases vs) auto
qed

lemma digits_avoid:
  "\<not> is_digit c \<Longrightarrow> c \<notin> set (show_nat n)"
  using show_nat_digits [of n] by (auto simp: list_all_iff)

lemma not_digit_letters [simp]:
  "\<not> is_digit (CHR ''s'')" "\<not> is_digit (CHR ''b'')" "\<not> is_digit (CHR ''-'')"
  by (simp_all add: is_digit_def)

lemma slug_inject: "slug s = slug t \<longleftrightarrow> s = t"
proof
  assume eq: "slug s = slug t"
  have "cs_batch s = cs_batch t \<and> cs_seq s = cs_seq t"
  proof (cases "cs_batch s = 0 \<or> cs_batch t = 0")
    case True
    with eq show ?thesis by (auto simp: slug_def split: if_splits)
  next
    case False
    with eq have "show_nat (cs_batch s) @ CHR ''s'' # show_nat (cs_seq s) =
        show_nat (cs_batch t) @ CHR ''s'' # show_nat (cs_seq t)"
      by (simp add: slug_def)
    from append_sep_inject [OF _ _ this] show ?thesis by (simp add: digits_avoid)
  qed
  then show "s = t" by simp
qed simp

lemma slug_no_dash: "CHR ''-'' \<notin> set (slug s)"
  by (auto simp: slug_def digits_avoid)

text \<open>
  A cache hit means the same engine at the same shape. Under one base directory, two engines or
  two shapes never share a slice: the directory determines the engine's name, the batch and the
  sequence length, and the unpinned batch is told apart from every pinned one.
\<close>

theorem engine_cache_dir_inject:
  "engine_cache_dir base e s = engine_cache_dir base f t \<longleftrightarrow> e = f \<and> s = t"
proof
  assume "engine_cache_dir base e s = engine_cache_dir base f t"
  then have "e @ ''-'' @ slug s = f @ ''-'' @ slug t" by (simp add: engine_cache_dir_def)
  then have "rev (e @ ''-'' @ slug s) = rev (f @ ''-'' @ slug t)" by (rule arg_cong)
  then have "rev (slug s) @ CHR ''-'' # rev e = rev (slug t) @ CHR ''-'' # rev f" by simp
  from append_sep_inject [OF _ _ this] show "e = f \<and> s = t"
    by (simp add: slug_no_dash slug_inject)
qed simp

section \<open>Measuring a compile\<close>

text \<open>
  A directory entry as \<open>tree_bytes\<close> sees it: a file with its length when the metadata can be
  read, or a directory with its entries when it can be listed.
\<close>

datatype dir_entry = File_Entry "nat option" | Dir_Entry "dir_entry list option"

fun entry_bytes :: "dir_entry \<Rightarrow> nat" where
  "entry_bytes (File_Entry (Some len)) = len"
| "entry_bytes (File_Entry None) = 0"
| "entry_bytes (Dir_Entry (Some es)) = sum_list (map entry_bytes es)"
| "entry_bytes (Dir_Entry None) = 0"

definition mxr_cache_mb :: "(string \<Rightarrow> dir_entry list option) \<Rightarrow> string \<Rightarrow> nat" where
  "mxr_cache_mb fs base =
     (if trim base = [] then 0 else entry_bytes (Dir_Entry (fs base)) div (1024 * 1024))"

record compile_watch =
  cw_dir :: string
  cw_before :: nat

definition compile_watch_start ::
  "(string \<Rightarrow> dir_entry list option) \<Rightarrow> string \<Rightarrow> string \<Rightarrow> cache_shape \<Rightarrow> compile_watch" where
  "compile_watch_start fs base engine shape =
     (let dir = (if trim base = [] then [] else engine_cache_dir base engine shape)
      in \<lparr>cw_dir = dir, cw_before = mxr_cache_mb fs dir\<rparr>)"

definition grew_mb :: "(string \<Rightarrow> dir_entry list option) \<Rightarrow> compile_watch \<Rightarrow> nat" where
  "grew_mb fs w = mxr_cache_mb fs (cw_dir w) - cw_before w"

lemma mxr_cache_mb_no_cache [simp]: "mxr_cache_mb fs [] = 0"
  by (simp add: mxr_cache_mb_def)

lemma grew_mb_no_cache: "trim base = [] \<Longrightarrow> grew_mb fs' (compile_watch_start fs base e s) = 0"
  by (simp add: grew_mb_def compile_watch_start_def)

text \<open>The line of a pass; \<open>secs\<close> is the text of \<open>{secs:.1}\<close>.\<close>

definition pass_log_message :: "string \<Rightarrow> string \<Rightarrow> string \<Rightarrow> nat \<Rightarrow> string" where
  "pass_log_message request_id action secs cache_grew_mb =
     (let prefix = (if request_id = [] then [] else ''['' @ request_id @ ''] '')
      in if cache_grew_mb = 0 then prefix @ action @ '' in '' @ secs @ ''s''
         else prefix @ action @ '' in '' @ secs @ ''s '' @ em_dash
           @ '' compiled and cached this input shape (+'' @ show_nat cache_grew_mb @ '' MB)'')"

text \<open>
  A watch sees its own engine at its own shape only. Whatever is written in the meantime to the
  slice of another engine or of another shape, the growth reported stays that of the watched slice.
\<close>

theorem compile_watch_isolated:
  assumes "(f, t) \<noteq> (e, s)"
  shows "grew_mb (fs'(engine_cache_dir base f t := written)) (compile_watch_start fs base e s) =
         grew_mb fs' (compile_watch_start fs base e s)"
proof -
  from assms have "engine_cache_dir base f t \<noteq> engine_cache_dir base e s"
    by (auto simp: engine_cache_dir_inject)
  then show ?thesis by (simp add: grew_mb_def compile_watch_start_def mxr_cache_mb_def Let_def)
qed

lemma compile_watch_isolated_witness:
  "grew_mb ((\<lambda>dir. None)(engine_cache_dir ''/c'' rerank_cache_engine (unpinned_batch 1024) :=
        Some [File_Entry (Some 5000000)]))
     (compile_watch_start (\<lambda>dir. None) ''/c'' embed_cache_engine (cache_shape_new 64 256)) = 0"
  using compile_watch_isolated [of rerank_cache_engine "unpinned_batch 1024" embed_cache_engine
      "cache_shape_new 64 256" "\<lambda>dir. None" "''/c''" "Some [File_Entry (Some 5000000)]" "\<lambda>dir. None"]
  by (simp add: rerank_cache_engine_def embed_cache_engine_def grew_mb_def compile_watch_start_def
      mxr_cache_mb_def)

section \<open>The lease\<close>

text \<open>
  What is global to the process: the two path variables, the lock that serializes them
  (\<open>CACHE_PATH_LOCK\<close>; its poison is ignored, so it is only held or free), and the directories of the
  cache. \<open>create_dir_all\<close> leaves an existing directory as it is.
\<close>

record cache_world =
  model_cache_path :: "string option"
  legacy_cache_path :: "string option"
  path_locked :: bool
  slices :: "string \<rightharpoonup> dir_entry list"

definition create_dir_all ::
  "string \<Rightarrow> (string \<rightharpoonup> dir_entry list) \<Rightarrow> (string \<rightharpoonup> dir_entry list)" where
  "create_dir_all dir fs = (case fs dir of None \<Rightarrow> fs(dir \<mapsto> []) | Some es \<Rightarrow> fs)"

record cache_lease =
  cl_engine :: string
  cl_shape :: cache_shape
  cl_dir :: string
  cl_held :: bool

text \<open>\<open>None\<close>: the caller waits, because another lease holds the lock.\<close>

definition lease_hold ::
  "string \<Rightarrow> string \<Rightarrow> cache_shape \<Rightarrow> cache_world \<Rightarrow> (cache_lease \<times> cache_world) option" where
  "lease_hold base engine shape w =
     (if trim base = []
      then Some (\<lparr>cl_engine = engine, cl_shape = shape, cl_dir = [], cl_held = False\<rparr>, w)
      else if path_locked w then None
      else (let dir = engine_cache_dir base engine shape
            in Some (\<lparr>cl_engine = engine, cl_shape = shape, cl_dir = dir, cl_held = True\<rparr>,
                 w\<lparr>slices := create_dir_all dir (slices w),
                   model_cache_path := Some dir, legacy_cache_path := Some dir,
                   path_locked := True\<rparr>)))"

definition lease_drop :: "cache_lease \<Rightarrow> cache_world \<Rightarrow> cache_world" where
  "lease_drop l w = (if cl_held l then w\<lparr>path_locked := False\<rparr> else w)"

definition covers :: "cache_lease \<Rightarrow> string \<Rightarrow> bool" where
  "covers l engine = (cl_engine l = engine)"

text \<open>
  \<open>wipe\<close>; \<open>left\<close> is what \<open>remove_dir_all\<close> leaves when it fails (\<open>None\<close>: it succeeded), for its error
  is ignored.
\<close>

definition wipe :: "dir_entry list option \<Rightarrow> cache_lease \<Rightarrow> cache_world \<Rightarrow> cache_world" where
  "wipe left l w =
     (if cl_dir l = [] then w
      else w\<lparr>slices := create_dir_all (cl_dir l) ((slices w)(cl_dir l := left))\<rparr>)"

lemma lease_hold_none: "lease_hold base e s w = None \<longleftrightarrow> trim base \<noteq> [] \<and> path_locked w"
  by (simp add: lease_hold_def Let_def)

lemma lease_hold_free: "trim base = [] \<Longrightarrow> lease_hold base e s w = Some
    (\<lparr>cl_engine = e, cl_shape = s, cl_dir = [], cl_held = False\<rparr>, w)"
  by (simp add: lease_hold_def)

lemma wipe_paths [simp]:
  "model_cache_path (wipe left l w) = model_cache_path w"
  "legacy_cache_path (wipe left l w) = legacy_cache_path w"
  "path_locked (wipe left l w) = path_locked w"
  by (simp_all add: wipe_def)

lemma wipe_empties: "cl_dir l \<noteq> [] \<Longrightarrow> slices (wipe None l w) (cl_dir l) = Some []"
  by (simp add: wipe_def create_dir_all_def)

text \<open>
  The leases alive in the process and the world they share, under every interleaving of holds,
  wipes and drops: builds run on their own threads, so nothing orders them.
\<close>

inductive lease_step :: "cache_lease list \<times> cache_world \<Rightarrow> cache_lease list \<times> cache_world \<Rightarrow> bool" where
  take: "lease_hold base e s w = Some (l, w') \<Longrightarrow> lease_step (ls, w) (l # ls, w')"
| clean: "l \<in> set ls \<Longrightarrow> lease_step (ls, w) (ls, wipe left l w)"
| release: "ls = us @ l # vs \<Longrightarrow> lease_step (ls, w) (us @ vs, lease_drop l w)"

inductive lease_reach :: "cache_lease list \<times> cache_world \<Rightarrow> bool" where
  start: "\<not> path_locked w \<Longrightarrow> lease_reach ([], w)"
| step: "lease_reach st \<Longrightarrow> lease_step st st' \<Longrightarrow> lease_reach st'"

definition lease_ok :: "cache_lease list \<times> cache_world \<Rightarrow> bool" where
  "lease_ok st =
     (case filter cl_held (fst st) of
        [] \<Rightarrow> \<not> path_locked (snd st)
      | [l] \<Rightarrow> path_locked (snd st) \<and> model_cache_path (snd st) = Some (cl_dir l)
          \<and> legacy_cache_path (snd st) = Some (cl_dir l)
      | _ \<Rightarrow> False)"

lemma lease_ok_step: "lease_step st st' \<Longrightarrow> lease_ok st \<Longrightarrow> lease_ok st'"
proof (induction rule: lease_step.induct)
  case (take base e s w l w' ls)
  then show ?case
    by (auto simp: lease_ok_def lease_hold_def Let_def split: if_splits list.splits)
next
  case (clean l ls w left)
  then show ?case by (auto simp: lease_ok_def split: list.splits)
next
  case (release ls us l vs w)
  then show ?case
    by (cases "filter cl_held us"; cases "filter cl_held vs")
      (auto simp: lease_ok_def lease_drop_def split: list.splits if_splits)
qed

lemma lease_reach_ok: "lease_reach st \<Longrightarrow> lease_ok st"
  by (induction rule: lease_reach.induct) (auto simp: lease_ok_def [of "([], _)"] lease_ok_step)

text \<open>
  C16: while a lease is held, the process-global path variables point at its own slice. Whatever the
  other threads hold, wipe or drop, the variables that the execution provider reads lazily are those
  of the one lease that holds the lock, and no second lease is held beside it.
\<close>

theorem lease_owns_path:
  assumes "lease_reach (ls, w)" and "l \<in> set ls" and "cl_held l"
  shows "model_cache_path w = Some (cl_dir l) \<and> legacy_cache_path w = Some (cl_dir l)
    \<and> filter cl_held ls = [l]"
proof -
  from assms(2,3) obtain held where held: "filter cl_held ls = held" "l \<in> set held" by auto
  then show ?thesis
    using lease_reach_ok [OF assms(1)] by (auto simp: lease_ok_def split: list.splits)
qed

definition empty_world :: cache_world where
  "empty_world = \<lparr>model_cache_path = None, legacy_cache_path = None, path_locked = False,
     slices = Map.empty\<rparr>"

lemma lease_owns_path_witness:
  "model_cache_path (snd (the (lease_hold ''/c'' ''dual'' (cache_shape_new 64 256) empty_world)))
     = Some ''/c/dual-b64s256''"
proof -
  let ?r = "the (lease_hold ''/c'' ''dual'' (cache_shape_new 64 256) empty_world)"
  have t: "trim ''/c'' \<noteq> []" and d: "engine_cache_dir ''/c'' ''dual'' (cache_shape_new 64 256)
      = ''/c/dual-b64s256''" by code_simp+
  then have h: "lease_hold ''/c'' ''dual'' (cache_shape_new 64 256) empty_world = Some (fst ?r, snd ?r)"
    and l: "cl_held (fst ?r)" "cl_dir (fst ?r) = ''/c/dual-b64s256''"
    by (simp_all add: lease_hold_def empty_world_def Let_def)
  have "lease_reach ([fst ?r], snd ?r)"
    by (rule lease_reach.step [OF lease_reach.start lease_step.take [OF h]])
      (simp add: empty_world_def)
  from lease_owns_path [OF this _ l(1)] l(2) show ?thesis by simp
qed

end
