(* ===== verification/Vram.thy ===== *)
theory Vram
  imports Compile_Cache
begin

text \<open>
  \<open>src/vram.rs\<close>: what building an engine cost on the card, published only when the build was
  alone for its whole window. The rule, the window as the atomic steps it takes on the two
  process-wide counters, and the ledger with its discard counters.
\<close>

section \<open>The rule\<close>

datatype attribution = Measured nat | Overlapped | Not_Sampled | No_Growth

definition attribute :: "bool \<Rightarrow> nat \<Rightarrow> nat \<Rightarrow> nat option \<Rightarrow> nat option \<Rightarrow> attribution" where
  "attribute alone_at_start marks_at_start marks_at_end before after =
     (case (before, after) of
        (Some b, Some a) \<Rightarrow>
          if \<not> alone_at_start \<or> marks_at_start \<noteq> marks_at_end then Overlapped
          else if b < a then Measured (a - b) else No_Growth
      | _ \<Rightarrow> Not_Sampled)"

lemma attribute_measured:
  "attribute al m n before after = Measured g \<longleftrightarrow>
     al \<and> m = n \<and> (\<exists>b a. before = Some b \<and> after = Some a \<and> b < a \<and> g = a - b)"
  by (auto simp: attribute_def split: option.splits)

section \<open>The window\<close>

text \<open>
  One build's \<open>SoloBuildWindow\<close> by the atomic operations of \<open>open\<close> (load the mark, count itself
  in, bump the mark when it was not alone), \<open>close\<close> (load the mark again) and \<open>drop\<close> (count itself
  out; it also ends a build that left with an error or a panic, without \<open>close\<close>). \<open>Building\<close> is the
  time between the return of \<open>open\<close> and \<open>close\<close> or \<open>drop\<close>: the engine is built there. The flag
  \<open>joined\<close> of a window is no state of the program: it records that some other window was building
  at the same time.
\<close>

datatype window =
    Closed_Out
  | Marked nat
  | Counted nat
  | In_Build bool nat
  | Verdict bool nat nat

record vram_state =
  builds_in_flight :: nat
  overlap_marks :: nat
  windows :: "nat \<Rightarrow> window"
  joined :: "nat \<Rightarrow> bool"

fun counted_in :: "window \<Rightarrow> bool" where
  "counted_in Closed_Out = False"
| "counted_in (Marked m) = False"
| "counted_in (Counted m) = True"
| "counted_in (In_Build al m) = True"
| "counted_in (Verdict al m e) = True"

fun is_building :: "window \<Rightarrow> bool" where
  "is_building (In_Build al m) = True"
| "is_building w = False"

definition enter_build :: "nat \<Rightarrow> bool \<Rightarrow> nat \<Rightarrow> vram_state \<Rightarrow> vram_state" where
  "enter_build i al m s =
     s\<lparr>windows := (windows s)(i := In_Build al m),
       joined := (\<lambda>j. if j = i then (\<exists>k. k \<noteq> i \<and> is_building (windows s k))
                      else joined s j \<or> is_building (windows s j))\<rparr>"

inductive window_step :: "vram_state \<Rightarrow> vram_state \<Rightarrow> bool" where
  load_mark: "windows s i = Closed_Out \<Longrightarrow>
     window_step s (s\<lparr>windows := (windows s)(i := Marked (overlap_marks s))\<rparr>)"
| count_alone: "windows s i = Marked m \<Longrightarrow> builds_in_flight s = 0 \<Longrightarrow>
     window_step s (enter_build i True m (s\<lparr>builds_in_flight := 1\<rparr>))"
| count_joining: "windows s i = Marked m \<Longrightarrow> builds_in_flight s \<noteq> 0 \<Longrightarrow>
     window_step s (s\<lparr>builds_in_flight := builds_in_flight s + 1,
                      windows := (windows s)(i := Counted m)\<rparr>)"
| bump_mark: "windows s i = Counted m \<Longrightarrow>
     window_step s (enter_build i False m (s\<lparr>overlap_marks := overlap_marks s + 1\<rparr>))"
| close: "windows s i = In_Build al m \<Longrightarrow>
     window_step s (s\<lparr>windows := (windows s)(i := Verdict al m (overlap_marks s))\<rparr>)"
| drop: "windows s i = In_Build al m \<or> windows s i = Verdict al m e \<Longrightarrow>
     window_step s (s\<lparr>builds_in_flight := builds_in_flight s - 1,
                      windows := (windows s)(i := Closed_Out),
                      joined := (joined s)(i := False)\<rparr>)"

inductive window_reach :: "vram_state \<Rightarrow> bool" where
  start: "windows s = (\<lambda>_. Closed_Out) \<Longrightarrow> builds_in_flight s = 0 \<Longrightarrow> joined s = (\<lambda>_. False) \<Longrightarrow>
    window_reach s"
| step: "window_reach s \<Longrightarrow> window_step s s' \<Longrightarrow> window_reach s'"

inductive_cases window_stepE: "window_step s s'"

text \<open>What a window still knows of itself: whether it was alone, and the mark it started from.\<close>

fun alone_mark :: "window \<Rightarrow> nat option" where
  "alone_mark (In_Build True m) = Some m"
| "alone_mark (Verdict True m e) = Some m"
| "alone_mark w = None"

text \<open>
  The counter counts exactly the windows inside it; no mark is ahead of the global one; of two
  windows inside, at most one was alone, and once the other has finished opening the global mark has
  passed the one it started from; and a window that was joined knows it by its marks.
\<close>

fun mark_read :: "window \<Rightarrow> nat option" where
  "mark_read Closed_Out = None"
| "mark_read (Marked m) = Some m"
| "mark_read (Counted m) = Some m"
| "mark_read (In_Build al m) = Some m"
| "mark_read (Verdict al m e) = Some m"

definition count_ok :: "vram_state \<Rightarrow> bool" where
  "count_ok s \<longleftrightarrow> finite {i. counted_in (windows s i)} \<and>
     builds_in_flight s = card {i. counted_in (windows s i)}"

definition marks_ok :: "vram_state \<Rightarrow> bool" where
  "marks_ok s \<longleftrightarrow> (\<forall>i m. mark_read (windows s i) = Some m \<longrightarrow> m \<le> overlap_marks s)"

fun opened :: "window \<Rightarrow> bool" where
  "opened (In_Build al m) = True"
| "opened (Verdict al m e) = True"
| "opened w = False"

definition pairs_ok :: "vram_state \<Rightarrow> bool" where
  "pairs_ok s \<longleftrightarrow> (\<forall>i j m. i \<noteq> j \<longrightarrow> alone_mark (windows s i) = Some m \<longrightarrow>
      counted_in (windows s j) \<longrightarrow>
      alone_mark (windows s j) = None \<and> (opened (windows s j) \<longrightarrow> m < overlap_marks s))"

definition joined_ok :: "vram_state \<Rightarrow> bool" where
  "joined_ok s \<longleftrightarrow>
     (\<forall>i m. windows s i = In_Build True m \<longrightarrow> joined s i \<longrightarrow> m < overlap_marks s) \<and>
     (\<forall>i m e. windows s i = Verdict True m e \<longrightarrow> joined s i \<longrightarrow> m < e)"

lemma counted_update:
  "{j. counted_in ((f(i := w)) j)} =
     (if counted_in w then insert i {j. counted_in (f j)} else {j. counted_in (f j)} - {i})"
  by auto

lemma counted_zero: "count_ok s \<Longrightarrow> builds_in_flight s = 0 \<Longrightarrow> \<not> counted_in (windows s i)"
  by (auto simp: count_ok_def)

lemma count_ok_step: "window_step s s' \<Longrightarrow> count_ok s \<Longrightarrow> count_ok s'"
proof (induction rule: window_step.induct)
  case (count_alone s i m)
  then have "{j. counted_in (windows s j)} = {}" by (auto simp: counted_zero)
  with count_alone show ?case
    unfolding count_ok_def enter_build_def by (simp add: counted_update del: fun_upd_apply)
next
  case (drop s i al m e)
  then have "counted_in (windows s i)" by auto
  with drop.prems show ?case
    unfolding count_ok_def by (simp add: counted_update card_Diff_singleton del: fun_upd_apply)
qed (auto simp: count_ok_def enter_build_def counted_update card_insert_if insert_absorb
    simp del: fun_upd_apply)

lemma marks_okD:
  assumes "marks_ok s"
  shows "windows s i = Marked m \<Longrightarrow> m \<le> overlap_marks s"
    "windows s i = Counted m \<Longrightarrow> m \<le> overlap_marks s"
    "windows s i = In_Build al m \<Longrightarrow> m \<le> overlap_marks s"
    "windows s i = Verdict al m e \<Longrightarrow> m \<le> overlap_marks s"
  using assms unfolding marks_ok_def by (metis mark_read.simps)+

lemma pairs_okD:
  "pairs_ok s \<Longrightarrow> i \<noteq> j \<Longrightarrow> counted_in (windows s j) \<Longrightarrow> alone_mark (windows s j) = Some m \<Longrightarrow>
     alone_mark (windows s i) = None"
  unfolding pairs_ok_def by (cases "alone_mark (windows s i)") fastforce+

lemma marks_ok_step: "window_step s s' \<Longrightarrow> marks_ok s \<Longrightarrow> marks_ok s'"
proof (induction rule: window_step.induct)
  case (bump_mark s i m)
  then have "m \<le> overlap_marks s" by (simp add: marks_okD)
  with bump_mark show ?case by (auto simp: marks_ok_def enter_build_def le_SucI)
next
  case (count_alone s i m)
  then have "m \<le> overlap_marks s" by (simp add: marks_okD)
  with count_alone show ?case by (auto simp: marks_ok_def enter_build_def)
next
  case (count_joining s i m)
  then have "m \<le> overlap_marks s" by (simp add: marks_okD)
  with count_joining show ?case by (auto simp: marks_ok_def)
next
  case (close s i al m)
  then have "m \<le> overlap_marks s" by (simp add: marks_okD)
  with close show ?case by (auto simp: marks_ok_def)
qed (auto simp: marks_ok_def)

lemma alone_mark_read: "alone_mark w = Some m \<Longrightarrow> mark_read w = Some m \<and> counted_in w \<and> opened w"
  by (cases w rule: alone_mark.cases) auto

lemma pairs_ok_step:
  assumes "window_step s s'" and "count_ok s" and "marks_ok s" and "pairs_ok s"
  shows "pairs_ok s'"
  using assms
proof (induction rule: window_step.induct)
  case (count_alone s i m)
  then have "\<not> counted_in (windows s k)" for k by (simp add: counted_zero)
  moreover from this have "alone_mark (windows s k) = None" for k
    using alone_mark_read by (cases "alone_mark (windows s k)") blast+
  ultimately show ?case by (simp add: pairs_ok_def enter_build_def)
next
  case (bump_mark s i m)
  then have le: "\<And>k n. alone_mark (windows s k) = Some n \<Longrightarrow> n < Suc (overlap_marks s)"
    by (auto simp: marks_ok_def less_Suc_eq_le dest!: alone_mark_read)
  with bump_mark show ?case
    by (auto simp: pairs_ok_def enter_build_def)
next
  case (close s i al m)
  show ?case
  proof (cases al)
    case True
    with close have "alone_mark (windows s k) = None" if "k \<noteq> i" for k
      using pairs_okD [of s k i m] that by simp
    with True close show ?thesis by (auto simp: pairs_ok_def)
  next
    case False
    with close show ?thesis by (auto simp: pairs_ok_def)
  qed
qed (auto simp: pairs_ok_def)

lemma building_opened: "is_building w \<Longrightarrow> counted_in w \<and> opened w"
  by (cases w) auto

lemma joined_ok_step:
  assumes "window_step s s'" and "count_ok s" and "marks_ok s" and "pairs_ok s" and "joined_ok s"
  shows "joined_ok s'"
  using assms
proof (induction rule: window_step.induct)
  case (count_alone s i m)
  then have nb: "\<not> is_building (windows s k)" for k using counted_zero building_opened by blast
  then have "windows s k \<noteq> In_Build True n" for k n by (metis is_building.simps(1))
  with nb count_alone show ?case
    by (auto simp: joined_ok_def enter_build_def)
next
  case (bump_mark s i m)
  then have "\<And>k n. windows s k = In_Build True n \<Longrightarrow> n \<le> overlap_marks s"
    by (simp add: marks_okD)
  with bump_mark show ?case
    by (auto simp: joined_ok_def enter_build_def less_Suc_eq_le less_SucI)
next
  case (close s i al m)
  then show ?case by (cases al) (auto simp: joined_ok_def)
qed (auto simp: joined_ok_def)

lemma window_reach_ok:
  "window_reach s \<Longrightarrow> count_ok s \<and> marks_ok s \<and> pairs_ok s \<and> joined_ok s"
proof (induction rule: window_reach.induct)
  case (start s)
  then show ?case by (simp add: count_ok_def marks_ok_def pairs_ok_def joined_ok_def)
next
  case (step s s')
  then show ?case
    using count_ok_step marks_ok_step pairs_ok_step joined_ok_step by blast
qed

definition window_verdict :: "window \<Rightarrow> nat option \<Rightarrow> nat option \<Rightarrow> attribution option" where
  "window_verdict w before after =
     (case w of Verdict al m e \<Rightarrow> Some (attribute al m e before after) | _ \<Rightarrow> None)"


text \<open>
  No build is lost from the count. The process-wide counter is at all times the number of builds
  that counted themselves in and have not left, error and panic exits included, so a machine with no
  build in flight is never stuck at "overlapped".
\<close>

theorem builds_in_flight_exact:
  assumes "window_reach s"
  shows "builds_in_flight s = card {i. counted_in (windows s i)} \<and>
    (builds_in_flight s = 0 \<longrightarrow> (\<forall>i. \<not> counted_in (windows s i)))"
proof -
  from window_reach_ok [OF assms] have ok: "count_ok s" by blast
  then show ?thesis using counted_zero [OF ok] unfolding count_ok_def by blast
qed

definition idle_vram :: vram_state where
  "idle_vram = \<lparr>builds_in_flight = 0, overlap_marks = 0, windows = (\<lambda>_. Closed_Out),
     joined = (\<lambda>_. False)\<rparr>"

definition one_window :: "window \<Rightarrow> nat \<Rightarrow> vram_state" where
  "one_window w n = \<lparr>builds_in_flight = n, overlap_marks = 0,
     windows = (\<lambda>_. Closed_Out)(0 := w), joined = (\<lambda>_. False)\<rparr>"

lemma reach_idle: "window_reach idle_vram"
  by (rule window_reach.start) (simp_all add: idle_vram_def)

lemma reach_marked: "window_reach (one_window (Marked 0) 0)"
  using window_reach.step [OF reach_idle window_step.load_mark [of idle_vram 0]]
  by (simp add: idle_vram_def one_window_def)

lemma reach_building: "window_reach (one_window (In_Build True 0) 1)"
proof -
  have "enter_build 0 True 0 (one_window (Marked 0) 0\<lparr>builds_in_flight := 1\<rparr>) =
      one_window (In_Build True 0) 1"
    by (auto simp: enter_build_def one_window_def fun_eq_iff)
  then show ?thesis
    using window_reach.step [OF reach_marked window_step.count_alone [of "one_window (Marked 0) 0" 0 0]]
    by (simp add: one_window_def)
qed

lemma reach_verdict: "window_reach (one_window (Verdict True 0 0) 1)"
  using window_reach.step [OF reach_building
      window_step.close [of "one_window (In_Build True 0) 1" 0 True 0]]
  by (simp add: one_window_def)


lemma builds_in_flight_exact_witness:
  "card {i. counted_in (windows (one_window (Verdict True 0 0) 1) i)} = 1"
  using builds_in_flight_exact [OF reach_verdict] by (simp add: one_window_def)

section \<open>The ledger\<close>

record vram_ledger =
  vl_embed :: "nat option"
  vl_rerank :: "nat option"
  discarded_overlaps :: nat
  discarded_not_sampled :: nat
  discarded_no_growth :: nat

definition vram_ledger_default :: vram_ledger where
  "vram_ledger_default = \<lparr>vl_embed = None, vl_rerank = None, discarded_overlaps = 0,
     discarded_not_sampled = 0, discarded_no_growth = 0\<rparr>"

fun ledger_record :: "string \<Rightarrow> attribution \<Rightarrow> vram_ledger \<Rightarrow> vram_ledger" where
  "ledger_record engine (Measured b) l =
     (if engine = embed_cache_engine then l\<lparr>vl_embed := Some b\<rparr>
      else if engine = rerank_cache_engine then l\<lparr>vl_rerank := Some b\<rparr>
      else l\<lparr>discarded_not_sampled := discarded_not_sampled l + 1\<rparr>)"
| "ledger_record engine Overlapped l = l\<lparr>discarded_overlaps := discarded_overlaps l + 1\<rparr>"
| "ledger_record engine Not_Sampled l = l\<lparr>discarded_not_sampled := discarded_not_sampled l + 1\<rparr>"
| "ledger_record engine No_Growth l = l\<lparr>discarded_no_growth := discarded_no_growth l + 1\<rparr>"

datatype vram_reason = No_Sample_Available | All_Overlapped | Invisible_Growth | Nothing_Built

definition unavailable_reason :: "vram_ledger \<Rightarrow> vram_reason option" where
  "unavailable_reason l =
     (if vl_embed l \<noteq> None \<or> vl_rerank l \<noteq> None then None
      else Some (if discarded_not_sampled l > 0 then No_Sample_Available
                 else if discarded_overlaps l > 0 then All_Overlapped
                 else if discarded_no_growth l > 0 then Invisible_Growth
                 else Nothing_Built))"

text \<open>\<open>record\<close> heals a poisoned ledger and \<open>snapshot\<close> reads through the poison, but never waits.\<close>

definition vram_record :: "string \<Rightarrow> attribution \<Rightarrow> vram_ledger mutex \<Rightarrow> vram_ledger mutex" where
  "vram_record engine at m =
     m\<lparr>mx_val := ledger_record engine at (mx_val m), mx_poisoned := False\<rparr>"

definition vram_snapshot :: "vram_ledger mutex \<Rightarrow> vram_ledger option \<times> vram_ledger mutex" where
  "vram_snapshot m =
     (case try_lock m of
        Acquired l \<Rightarrow> (Some l, m)
      | WouldBlock \<Rightarrow> (None, m)
      | Poisoned l \<Rightarrow> (Some l, m\<lparr>mx_poisoned := False\<rparr>))"

text \<open>The sample of the resolved adapter; \<open>process_vram\<close> asks DXGI.\<close>

definition vram_sample :: "(int \<Rightarrow> nat option) \<Rightarrow> int option \<Rightarrow> nat option" where
  "vram_sample process_vram adapter =
     (case adapter of None \<Rightarrow> None | Some dml_device_id \<Rightarrow> process_vram dml_device_id)"

definition builds_filed :: "vram_ledger \<Rightarrow> nat" where
  "builds_filed l = discarded_overlaps l + discarded_not_sampled l + discarded_no_growth l"

definition is_figure :: "string \<times> attribution \<Rightarrow> bool" where
  "is_figure r = (case snd r of
       Measured b \<Rightarrow> fst r = embed_cache_engine \<or> fst r = rerank_cache_engine | _ \<Rightarrow> False)"

lemma engines_differ [simp]: "embed_cache_engine \<noteq> rerank_cache_engine" "rerank_cache_engine \<noteq> embed_cache_engine"
  by (simp_all add: embed_cache_engine_def rerank_cache_engine_def)

lemma ledger_record_filed:
  "builds_filed (ledger_record e at l) = builds_filed l + (if is_figure (e, at) then 0 else 1)"
  by (cases at) (auto simp: builds_filed_def is_figure_def)

definition has_figure :: "vram_ledger \<Rightarrow> bool" where
  "has_figure l = (vl_embed l \<noteq> None \<or> vl_rerank l \<noteq> None)"

lemma ledger_record_figure:
  "has_figure (ledger_record e at l) \<longleftrightarrow> is_figure (e, at) \<or> has_figure l"
  by (cases at) (auto simp: has_figure_def is_figure_def)

lemma fold_ledger_filed:
  "builds_filed (fold (\<lambda>(e, at). ledger_record e at) rs l) =
      builds_filed l + length (filter (\<lambda>r. \<not> is_figure r) rs)"
  by (induction rs arbitrary: l) (auto simp: ledger_record_filed)

lemma fold_ledger_figure:
  "has_figure (fold (\<lambda>(e, at). ledger_record e at) rs l) \<longleftrightarrow>
      (\<exists>r\<in>set rs. is_figure r) \<or> has_figure l"
  by (induction rs arbitrary: l) (auto simp: ledger_record_figure)

lemma unavailable_reason_None: "unavailable_reason l = None \<longleftrightarrow> has_figure l"
  by (auto simp: unavailable_reason_def has_figure_def)

text \<open>
  The ledger accounts for every build. After any sequence of builds the discard counters add up
  to the builds that gave no figure, and the wire says why there is nothing to show exactly when no
  build gave a figure for an engine the ledger knows.
\<close>

theorem ledger_accounts_for_builds:
  "builds_filed (fold (\<lambda>(e, at). ledger_record e at) rs vram_ledger_default) =
     length (filter (\<lambda>r. \<not> is_figure r) rs) \<and>
   (unavailable_reason (fold (\<lambda>(e, at). ledger_record e at) rs vram_ledger_default) = None \<longleftrightarrow>
     (\<exists>r\<in>set rs. is_figure r))"
  by (simp add: fold_ledger_filed fold_ledger_figure unavailable_reason_None)
    (simp add: vram_ledger_default_def builds_filed_def has_figure_def)

lemma vram_snapshot_heals:
  "\<not> mx_held m \<Longrightarrow> vram_snapshot m = (Some (mx_val m), m\<lparr>mx_poisoned := False\<rparr>)"
  by (cases m) (simp add: vram_snapshot_def try_lock_def)

end
