(* ===== verification/Log_Days.thy ===== *)
theory Log_Days
  imports Rust_Text
begin

text \<open>
  The calendar of \<open>src/logging.rs\<close>: \<open>day_and_clock\<close> from unix seconds to the day and clock texts of
  a log path, and its inverse \<open>day_start\<close>. Both work on \<open>i64\<close>; \<open>day_and_clock\<close> takes a \<open>u64\<close> of
  seconds, so every intermediate value is below \<open>2 ^ 48\<close> in size and the arithmetic is that of the
  integers. \<open>div_euclid\<close> and \<open>rem_euclid\<close> by a positive number are \<open>div\<close> and \<open>mod\<close>.
\<close>

section \<open>The civil date of a day number\<close>

definition civil_from_days :: "int \<Rightarrow> int \<times> int \<times> int" where
  "civil_from_days days =
     (let z = days + 719468;
          era = z div 146097;
          doe = z mod 146097;
          yoe = (doe - doe div 1460 + doe div 36524 - doe div 146096) div 365;
          y = yoe + era * 400;
          doy = doe - (365 * yoe + yoe div 4 - yoe div 100);
          mp = (5 * doy + 2) div 153;
          d = doy - (153 * mp + 2) div 5 + 1;
          m = (if mp < 10 then mp + 3 else mp - 9);
          year = (if m \<le> 2 then y + 1 else y)
      in (year, m, d))"

definition pad_int :: "nat \<Rightarrow> int \<Rightarrow> string" where
  "pad_int w i = pad_zeros w (show_int i)"

definition day_text :: "int \<times> int \<times> int \<Rightarrow> string" where
  "day_text c = (case c of (year, m, d) \<Rightarrow>
     pad_int 4 year @ ''-'' @ pad_int 2 m @ ''-'' @ pad_int 2 d)"

definition clock_text :: "nat \<Rightarrow> string" where
  "clock_text secs =
     pad_zeros 2 (show_nat (secs div 3600)) @ ''-'' @
     pad_zeros 2 (show_nat ((secs mod 3600) div 60)) @ ''-'' @
     pad_zeros 2 (show_nat (secs mod 60))"

definition day_and_clock :: "nat \<Rightarrow> string \<times> string" where
  "day_and_clock unix_seconds =
     (day_text (civil_from_days (int (unix_seconds div 86400))),
      clock_text (unix_seconds mod 86400))"

definition day_start :: "int \<Rightarrow> int \<Rightarrow> int \<Rightarrow> int" where
  "day_start year month day =
     (let y = year - (if month \<le> 2 then 1 else 0);
          era = y div 400;
          yoe = y - era * 400;
          mp = (if month > 2 then month - 3 else month + 9);
          doy = (153 * mp + 2) div 5 + day - 1;
          doe = yoe * 365 + yoe div 4 - yoe div 100 + doy
      in (era * 146097 + doe - 719468) * 86400)"

section \<open>The calendar is right\<close>

lemma div_between: "0 < (n::int) \<Longrightarrow> k * n \<le> x \<Longrightarrow> x < (k + 1) * n \<Longrightarrow> x div n = k"
  by (rule int_div_pos_eq [of x n k "x - k * n"]) (auto simp: algebra_simps)

text \<open>Every day of an era is in one year of it: by centuries, four-year cycles and years.\<close>

lemma era_day_split:
  assumes "0 \<le> (doe::int)" "doe < 146097"
  obtains c q a doy where "doe = 36524 * c + 1461 * q + 365 * a + doy"
    "0 \<le> c" "c \<le> 3" "0 \<le> q" "q \<le> 24" "0 \<le> a" "a \<le> 3" "0 \<le> doy"
    "doy \<le> 364 \<or> (doy = 365 \<and> a = 3 \<and> (q < 24 \<or> c = 3))"
proof -
  define c where "c = min 3 (doe div 36524)"
  define r where "r = doe - 36524 * c"
  define q where "q = r div 1461"
  define s where "s = r - 1461 * q"
  define a where "a = min 3 (s div 365)"
  have c: "0 \<le> c" "c \<le> 3" "0 \<le> r" "r < 36524 \<or> (c = 3 \<and> r \<le> 36524)"
    using assms unfolding c_def r_def by (auto simp: min_def)
  then have q: "0 \<le> q" "q \<le> 24" unfolding q_def by auto
  have s: "0 \<le> s" "s \<le> 1460" unfolding s_def q_def by presburger+
  then have a: "0 \<le> a" "a \<le> 3" unfolding a_def by (auto simp: min_def)
  show ?thesis
  proof (rule that)
    show "doe = 36524 * c + 1461 * q + 365 * a + (s - 365 * a)"
      by (simp add: s_def r_def)
    show "0 \<le> s - 365 * a" using s unfolding a_def by (auto simp: min_def)
    show "s - 365 * a \<le> 364 \<or> (s - 365 * a = 365 \<and> a = 3 \<and> (q < 24 \<or> c = 3))"
    proof (cases "s div 365 < 3")
      case True
      then have "a = s div 365" by (simp add: a_def)
      then have "s - 365 * a \<le> 364" by presburger
      then show ?thesis ..
    next
      case False
      then have "a = 3" by (simp add: a_def)
      moreover have "q < 24 \<or> c = 3 \<or> s < 1460" using c(4) q unfolding s_def by auto
      ultimately show ?thesis using s by auto
    qed
  qed (use c q a in auto)
qed

lemma era_year:
  assumes doe: "doe = 36524 * c + 1461 * q + 365 * a + doy"
    and b: "0 \<le> c" "c \<le> 3" "0 \<le> q" "q \<le> 24" "0 \<le> a" "a \<le> 3" "0 \<le> (doy::int)"
    and l: "doy \<le> 364 \<or> (doy = 365 \<and> a = 3 \<and> (q < 24 \<or> c = 3))"
  defines "yoe \<equiv> (doe - doe div 1460 + doe div 36524 - doe div 146096) div 365"
  shows "yoe = 100 * c + 4 * q + a"
    and "doe - (365 * yoe + yoe div 4 - yoe div 100) = doy"
proof -
  have c146: "doe div 36524 - doe div 146096 = c"
  proof (cases "c = 3 \<and> q = 24 \<and> a = 3 \<and> doy = 365")
    case True
    with doe show ?thesis by simp
  next
    case False
    then have "1461 * q + 365 * a + doy < 36524" using b l by auto
    then have "doe div 36524 = c" "doe div 146096 = 0"
      using doe b by (auto intro!: div_between)
    then show ?thesis by simp
  qed
  define t where "t = 24 * c + q + 365 * a + doy"
  have "doe = 1460 * (25 * c + q) + t" using doe by (simp add: t_def algebra_simps)
  then have d1460: "doe div 1460 = 25 * c + q + t div 1460" by simp
  have t: "0 \<le> t" "t < 2920" using b l by (auto simp: t_def)
  have tdoy: "0 \<le> doy - t div 1460 \<and> doy - t div 1460 < 365"
  proof (cases "t < 1460")
    case True
    with t have "t div 1460 = 0" by simp
    with True b l show ?thesis by (auto simp: t_def)
  next
    case False
    with t have "t div 1460 = 1" by (intro div_between) auto
    with False b l show ?thesis by (auto simp: t_def)
  qed
  have "doe - doe div 1460 + doe div 36524 - doe div 146096 =
      365 * (100 * c + 4 * q + a) + (doy - t div 1460)"
    using c146 d1460 doe by simp
  with tdoy show y: "yoe = 100 * c + 4 * q + a"
    unfolding yoe_def by (intro div_between) auto
  have "yoe div 4 = 25 * c + q" "yoe div 100 = c"
    using b unfolding y by (auto intro!: div_between)
  then show "doe - (365 * yoe + yoe div 4 - yoe div 100) = doy"
    using doe y by simp
qed

lemma civil_from_days_inverse:
  assumes c: "civil_from_days days = (year, m, d)"
  shows "day_start year m d = days * 86400" "1 \<le> m" "m \<le> 12" "1 \<le> d" "d \<le> 31"
    "0 \<le> days + 719468 \<Longrightarrow> 0 \<le> year"
    "days < 2932897 \<Longrightarrow> year \<le> 9999"
proof -
  define z where "z = days + 719468"
  define era where "era = z div 146097"
  define doe where "doe = z mod 146097"
  have zed: "z = era * 146097 + doe" by (simp add: era_def doe_def)
  have doe_lt: "0 \<le> doe" "doe < 146097" by (simp_all add: doe_def)
  then obtain ce q a doy where doe: "doe = 36524 * ce + 1461 * q + 365 * a + doy"
    and b: "0 \<le> ce" "ce \<le> 3" "0 \<le> q" "q \<le> 24" "0 \<le> a" "a \<le> 3" "0 \<le> doy"
    and l: "doy \<le> 364 \<or> (doy = 365 \<and> a = 3 \<and> (q < 24 \<or> ce = 3))"
    by (rule era_day_split)
  define yoe where "yoe = (doe - doe div 1460 + doe div 36524 - doe div 146096) div 365"
  note year = era_year [OF doe b l, folded yoe_def]
  have yoe: "0 \<le> yoe" "yoe < 400" using b year(1) by auto
  define mp where "mp = (5 * doy + 2) div 153"
  have mp: "0 \<le> mp" "mp \<le> 11" using b l by (auto simp: mp_def)
  define mo where "mo = (if mp < 10 then mp + 3 else mp - 9)"
  have "civil_from_days days =
      (if mo \<le> 2 then yoe + era * 400 + 1 else yoe + era * 400, mo, doy - (153 * mp + 2) div 5 + 1)"
    unfolding civil_from_days_def Let_def z_def [symmetric] era_def [symmetric] doe_def [symmetric]
      yoe_def [symmetric] year(2) mp_def [symmetric] mo_def [symmetric] by (rule refl)
  with c have eqs: "m = mo" "d = doy - (153 * mp + 2) div 5 + 1"
    "year = yoe + era * 400 + (if m \<le> 2 then 1 else 0)" by auto
  note mon = eqs(1) [unfolded mo_def]
  show m: "1 \<le> m" "m \<le> 12" using mp mon by auto
  define k where "k = (153 * mp + 2) div 5"
  have "5 * doy + 2 = 153 * mp + (5 * doy + 2) mod 153" by (simp add: mp_def)
  moreover have "153 * mp + 2 = 5 * k + (153 * mp + 2) mod 5" by (simp add: k_def)
  moreover have "0 \<le> (5 * doy + 2) mod 153" "(5 * doy + 2) mod 153 < 153"
    "0 \<le> (153 * mp + 2) mod 5" "(153 * mp + 2) mod 5 < 5" by simp_all
  ultimately show "1 \<le> d" "d \<le> 31" unfolding eqs(2) k_def [symmetric] by linarith+
  have mp': "(if m > 2 then m - 3 else m + 9) = mp" "year - (if m \<le> 2 then 1 else 0) = yoe + era * 400"
    using mp mon eqs(3) by auto
  have era': "(yoe + era * 400) div 400 = era" using yoe by simp
  show "day_start year m d = days * 86400"
    unfolding day_start_def Let_def mp' era' using eqs(2) year(2) zed
    by (simp add: z_def algebra_simps)
  show "0 \<le> year" if "0 \<le> days + 719468"
  proof -
    from that zed doe_lt have "0 \<le> era" by (simp add: z_def)
    with yoe eqs(3) show ?thesis by auto
  qed
  show "year \<le> 9999" if "days < 2932897"
  proof -
    from that have z: "z < 3652365" by (simp add: z_def)
    with zed doe_lt have "era \<le> 24" by linarith
    then consider "era \<le> 23" | "era = 24" "yoe \<le> 398" | "era = 24" "yoe = 399"
      using yoe by linarith
    then show ?thesis
    proof cases
      case 3
      with year(1) b have "ce = 3" "q = 24" "a = 3" by linarith+
      with 3 z zed doe have "doy < 306" by simp
      then have "mp < 10" by (simp add: mp_def)
      then have "\<not> m \<le> 2" using mp mon by simp
      with 3 eqs(3) show ?thesis by simp
    qed (use eqs(3) yoe in \<open>auto split: if_splits\<close>)
  qed
qed

section \<open>The day texts can be read back\<close>

lemma length_show_nat: "n < 10 ^ k \<Longrightarrow> 0 < k \<Longrightarrow> length (show_nat n) \<le> k"
proof (induction n arbitrary: k rule: show_nat.induct)
  case (1 n)
  show ?case
  proof (cases "n < 10")
    case True
    with 1 show ?thesis by (simp add: show_nat.simps [of n])
  next
    case False
    with 1(2,3) obtain j where k: "k = Suc j" "0 < j" by (cases k; cases "k - 1") auto
    with 1(2) have "n div 10 < 10 ^ j" by (simp add: less_mult_imp_div_less)
    with 1(1) [OF False this k(2)] False k show ?thesis by (simp add: show_nat.simps [of n])
  qed
qed

lemma pad_zeros_digits: "list_all is_digit s \<Longrightarrow> list_all is_digit (pad_zeros w s)"
  by (auto simp: pad_zeros_def list_all_iff is_digit_def)

lemma parse_padded:
  assumes "int n \<le> hi" "lo \<le> 0"
  shows "parse_signed lo hi (pad_zeros w (show_nat n)) = Some (int n)"
proof -
  let ?s = "pad_zeros w (show_nat n)"
  have d: "list_all is_digit ?s" by (simp add: pad_zeros_digits)
  have ne: "?s \<noteq> []" by (simp add: pad_zeros_def)
  with d have "is_digit (hd ?s)" by (cases ?s) auto
  with d ne assms show ?thesis by (simp add: parse_signed_def digits_val_pad)
qed

lemma pad_int_nat: "0 \<le> i \<Longrightarrow> pad_int w i = pad_zeros w (show_nat (nat i))"
  by (simp add: pad_int_def show_int_def)

lemma pad_int_len: "0 \<le> i \<Longrightarrow> i < 10 ^ w \<Longrightarrow> 0 < w \<Longrightarrow> length (pad_int w i) = w"
  using length_show_nat [of "nat i" w] by (simp add: pad_int_nat nat_less_iff)

lemma parse_pad_int:
  "0 \<le> i \<Longrightarrow> i \<le> hi \<Longrightarrow> lo \<le> 0 \<Longrightarrow> parse_signed lo hi (pad_int w i) = Some i"
  by (simp add: pad_int_nat parse_padded)

end
