(* ===== verification/Log_Segments.thy ===== *)
theory Log_Segments
  imports Log_Days "HOL-Library.List_Lexorder" "HOL-Library.Char_ord"
begin

text \<open>
  \<open>src/log_segments.rs\<close>: retention of the day folders, and the run's log file continued in a new
  segment at every UTC midnight. The directory is the list of its entries; whether an entry is a
  directory and whether it can be removed are facts of the entry.
\<close>

section \<open>Retention\<close>

definition DAY :: nat where
  "DAY = 86400"

definition default_retention_days :: nat where
  "default_retention_days = 14"

definition day_folder_start :: "string \<Rightarrow> nat option" where
  "day_folder_start name =
     (if length name \<noteq> 10 \<or> name ! 4 \<noteq> CHR ''-'' \<or> name ! 7 \<noteq> CHR ''-'' then None
      else (case (parse_i64 (take 4 name), parse_i64 (take 2 (drop 5 name)),
                  parse_i64 (take 2 (drop 8 name))) of
          (Some year, Some month, Some day) \<Rightarrow>
            (let start = day_start year month day
             in if start < 0 then None
                else if fst (day_and_clock (nat start)) = name then Some (nat start) else None)
        | _ \<Rightarrow> None))"

record log_entry =
  le_name :: string
  le_is_dir :: bool
  le_removable :: bool

definition day_expired :: "nat \<Rightarrow> string \<Rightarrow> bool" where
  "day_expired cutoff name =
     (case day_folder_start name of None \<Rightarrow> False | Some start \<Rightarrow> start < cutoff)"

definition retire_day_folders :: "log_entry list option \<Rightarrow> nat \<Rightarrow> nat \<Rightarrow> string list" where
  "retire_day_folders dir retention_days now =
     (if retention_days = 0 then []
      else (let cutoff = (now div DAY - retention_days) * DAY
            in case dir of
                 None \<Rightarrow> []
               | Some entries \<Rightarrow>
                   sort (map le_name (filter (\<lambda>e.
                     day_expired cutoff (le_name e) \<and> le_is_dir e \<and> le_removable e) entries))))"

text \<open>
  What retention needs of a calendar: a day's text names the day back, up to the last day it can
  write, and whatever has a start is the text of a day.
\<close>

locale civil_calendar =
  fixes day_of :: "nat \<Rightarrow> string"
    and start_of :: "string \<Rightarrow> nat option"
    and last_day :: nat
  assumes start_of_day: "t div DAY < last_day \<Longrightarrow> start_of (day_of t) = Some (t div DAY * DAY)"
    and day_of_start: "start_of name = Some s \<Longrightarrow> day_of s = name \<and> s mod DAY = 0"
begin

lemma expired_iff:
  assumes "t div DAY < last_day"
  shows "(case start_of (day_of t) of None \<Rightarrow> False | Some s \<Rightarrow> s < (now div DAY - days) * DAY) \<longleftrightarrow>
    t div DAY + days < now div DAY"
proof -
  have "t div DAY * DAY < (now div DAY - days) * DAY \<longleftrightarrow> t div DAY < now div DAY - days"
    by (simp add: DAY_def)
  then show ?thesis by (auto simp: start_of_day [OF assms])
qed

lemma expired_is_day:
  assumes "start_of name = Some s" and "s < (now div DAY - days) * DAY"
  shows "name = day_of s \<and> s div DAY + days < now div DAY"
proof -
  from day_of_start [OF assms(1)] have n: "name = day_of s" and m: "s mod DAY = 0" by simp_all
  have "s = s div DAY * DAY" using m by (simp add: mod_eq_0_iff_dvd)
  with assms(2) have "s div DAY * DAY < (now div DAY - days) * DAY" by simp
  then have "s div DAY < now div DAY - days" by simp
  with n show ?thesis by simp
qed

end

text \<open>The last day whose year has four digits.\<close>

definition last_written_day :: nat where
  "last_written_day = 2932897"

lemma day_text_parts:
  assumes "0 \<le> y" "y \<le> 9999" "1 \<le> m" "m \<le> 12" "1 \<le> d" "d \<le> 31"
  defines "name \<equiv> day_text (y, m, d)"
  shows "length name = 10" "name ! 4 = CHR ''-''" "name ! 7 = CHR ''-''"
    "take 4 name = pad_int 4 y" "take 2 (drop 5 name) = pad_int 2 m"
    "take 2 (drop 8 name) = pad_int 2 d"
proof -
  have l: "length (pad_int 4 y) = 4" "length (pad_int 2 m) = 2" "length (pad_int 2 d) = 2"
    using assms by (auto intro!: pad_int_len)
  then show "length name = 10" "name ! 4 = CHR ''-''" "name ! 7 = CHR ''-''"
    "take 4 name = pad_int 4 y" "take 2 (drop 5 name) = pad_int 2 m"
    "take 2 (drop 8 name) = pad_int 2 d"
    by (simp_all add: name_def day_text_def nth_append)
qed

lemma day_folder_start_day:
  assumes "t div DAY < last_written_day"
  shows "day_folder_start (fst (day_and_clock t)) = Some (t div DAY * DAY)"
proof -
  define n where "n = t div DAY"
  obtain y m d where c: "civil_from_days (int n) = (y, m, d)" by (metis prod_cases3)
  note inv = civil_from_days_inverse [OF c]
  have b: "0 \<le> y" "y \<le> 9999" using inv assms by (simp_all add: last_written_day_def n_def)
  have name: "fst (day_and_clock t) = day_text (y, m, d)"
    using c by (simp add: day_and_clock_def n_def DAY_def)
  have again: "fst (day_and_clock (n * 86400)) = day_text (y, m, d)"
    using c by (simp add: day_and_clock_def)
  note parts = day_text_parts [OF b inv(2-5)]
  have "parse_i64 (pad_int 4 y) = Some y" "parse_i64 (pad_int 2 m) = Some m"
    "parse_i64 (pad_int 2 d) = Some d"
    using b inv by (simp_all add: parse_pad_int)
  moreover have "day_start y m d = int (n * 86400)" using inv(1) by simp
  ultimately show ?thesis
    unfolding day_folder_start_def name
    by (simp add: parts again nat_mult_distrib DAY_def flip: n_def [unfolded DAY_def])
qed

lemma day_start_multiple: "day_start y m d mod 86400 = 0"
  by (simp add: day_start_def Let_def)

lemma day_folder_start_is_day:
  assumes "day_folder_start name = Some s"
  shows "fst (day_and_clock s) = name \<and> s mod DAY = 0"
proof -
  from assms obtain y m d where "s = nat (day_start y m d)" "0 \<le> day_start y m d"
    and n: "fst (day_and_clock s) = name"
    by (auto simp: day_folder_start_def Let_def split: if_splits option.splits)
  then have "int s mod 86400 = 0" by (simp add: day_start_multiple)
  with n show ?thesis by (simp add: DAY_def) presburger
qed

interpretation utc: civil_calendar "\<lambda>t. fst (day_and_clock t)" day_folder_start last_written_day
  by unfold_locales (simp_all add: day_folder_start_day day_folder_start_is_day)

lemma retire_set:
  "0 < days \<Longrightarrow> set (retire_day_folders (Some entries) days now) =
     le_name ` {e \<in> set entries. day_expired ((now div DAY - days) * DAY) (le_name e) \<and>
       le_is_dir e \<and> le_removable e}"
  by (auto simp: retire_day_folders_def Let_def)

lemma retire_mem:
  assumes "0 < days" "e \<in> set entries" "le_is_dir e" "le_removable e"
  shows "le_name e \<in> set (retire_day_folders (Some entries) days now) \<longleftrightarrow>
     day_expired ((now div DAY - days) * DAY) (le_name e)"
  using assms by (auto simp: retire_set)

text \<open>
  C26: the window is exact, and only day folders are ever deleted. A removable folder named after
  a day (before the year 10000) is retired exactly when its day is more than \<open>days\<close> days before today,
  so the boundary day stays; and everything retired is a folder of the directory whose name is the
  one the program itself writes for such a day.
\<close>

theorem retention_window:
  assumes "0 < days"
  shows "(\<forall>e t. e \<in> set entries \<and> le_is_dir e \<and> le_removable e \<and>
      le_name e = fst (day_and_clock t) \<and> t div DAY < last_written_day \<longrightarrow>
      (le_name e \<in> set (retire_day_folders (Some entries) days now) \<longleftrightarrow>
        t div DAY + days < now div DAY)) \<and>
    (\<forall>name \<in> set (retire_day_folders (Some entries) days now).
      (\<exists>e \<in> set entries. le_name e = name \<and> le_is_dir e) \<and>
      (\<exists>t. name = fst (day_and_clock t) \<and> t div DAY + days < now div DAY))"
proof (intro conjI allI ballI impI)
  fix e t
  assume e: "e \<in> set entries \<and> le_is_dir e \<and> le_removable e \<and>
      le_name e = fst (day_and_clock t) \<and> t div DAY < last_written_day"
  then show "le_name e \<in> set (retire_day_folders (Some entries) days now) \<longleftrightarrow>
        t div DAY + days < now div DAY"
    using utc.expired_iff [of t now days] retire_mem [OF assms, of e entries now]
    by (simp add: day_expired_def)
next
  fix name
  assume "name \<in> set (retire_day_folders (Some entries) days now)"
  then obtain e s where e: "e \<in> set entries" "le_is_dir e" "le_name e = name"
    and s: "day_folder_start name = Some s" "s < (now div DAY - days) * DAY"
    by (auto simp: retire_set [OF assms] day_expired_def split: option.splits)
  from e show "\<exists>e \<in> set entries. le_name e = name \<and> le_is_dir e" by blast
  from utc.expired_is_day [OF s] show "\<exists>t. name = fst (day_and_clock t) \<and> t div DAY + days < now div DAY"
    by blast
qed

definition midday_entry :: log_entry where
  "midday_entry = \<lparr>le_name = fst (day_and_clock 86400), le_is_dir = True, le_removable = True\<rparr>"

lemma retention_window_witness:
  "le_name midday_entry \<in> set (retire_day_folders (Some [midday_entry]) 14 (DAY * 16)) \<and>
   le_name midday_entry \<notin> set (retire_day_folders (Some [midday_entry]) 14 (DAY * 15))"
  using retention_window [of 14 "[midday_entry]" "DAY * 16"]
    retention_window [of 14 "[midday_entry]" "DAY * 15"]
  by (simp add: midday_entry_def DAY_def last_written_day_def)

section \<open>The segments of a run\<close>

text \<open>
  The file handle is the path it was opened on. \<open>opens\<close> says whether the day's directory and the
  file can be created. The pid is a parameter of the process.
\<close>

record day_segments =
  sg_dir_root :: string
  sg_prefix :: string
  sg_pid :: nat
  sg_next_boundary :: nat
  sg_file :: "string option"

definition segment_path :: "string \<Rightarrow> string \<Rightarrow> string \<Rightarrow> string \<Rightarrow> nat \<Rightarrow> string" where
  "segment_path dir_root day prefix clock pid =
     dir_root @ ''/'' @ day @ ''/'' @ prefix @ ''-'' @ clock @ ''-'' @ show_nat pid @ ''.log''"

definition segment_create :: "(string \<Rightarrow> bool) \<Rightarrow> string \<Rightarrow> string option" where
  "segment_create opens path = (if opens path then Some path else None)"

definition segments_open ::
  "(string \<Rightarrow> bool) \<Rightarrow> nat \<Rightarrow> string \<Rightarrow> string \<Rightarrow> nat \<Rightarrow> day_segments option \<times> string" where
  "segments_open opens pid dir_root prefix started =
     (let day = fst (day_and_clock started);
          clock = snd (day_and_clock started);
          path = segment_path dir_root day prefix clock pid
      in (map_option (\<lambda>f. \<lparr>sg_dir_root = dir_root, sg_prefix = prefix, sg_pid = pid,
              sg_next_boundary = (started div DAY + 1) * DAY, sg_file = Some f\<rparr>)
            (segment_create opens path),
          path))"

definition roll_if_due :: "(string \<Rightarrow> bool) \<Rightarrow> nat \<Rightarrow> day_segments \<Rightarrow> day_segments" where
  "roll_if_due opens now s =
     (if now < sg_next_boundary s then s
      else (let day = fst (day_and_clock now);
                path = segment_path (sg_dir_root s) day (sg_prefix s) ''00-00-00'' (sg_pid s)
            in s\<lparr>sg_file := segment_create opens path,
                 sg_next_boundary := (now div DAY + 1) * DAY\<rparr>))"

text \<open>One write at the time \<open>now\<close>, on the contents of the files; a file takes the whole buffer.\<close>

definition segments_write ::
  "(string \<Rightarrow> bool) \<Rightarrow> nat \<Rightarrow> string \<Rightarrow> day_segments \<times> (string \<Rightarrow> string) \<Rightarrow>
     day_segments \<times> (string \<Rightarrow> string)" where
  "segments_write opens now buf st =
     (let s = roll_if_due opens now (fst st)
      in case sg_file s of
           None \<Rightarrow> (s, snd st)
         | Some path \<Rightarrow> (s, (snd st)(path := snd st path @ buf)))"

lemma roll_boundary:
  "now < sg_next_boundary (roll_if_due opens now s) \<and>
   sg_next_boundary s \<le> sg_next_boundary (roll_if_due opens now s)"
proof -
  have "now < (now div DAY + 1) * DAY"
    by (simp add: DAY_def dividend_less_div_times)
  then show ?thesis by (auto simp: roll_if_due_def Let_def)
qed

text \<open>The file the line of a time belongs to, for a run that started at \<open>started\<close>.\<close>

definition segment_of :: "string \<Rightarrow> string \<Rightarrow> nat \<Rightarrow> nat \<Rightarrow> nat \<Rightarrow> string" where
  "segment_of dir_root prefix pid started t =
     segment_path dir_root (fst (day_and_clock t)) prefix
       (if t div DAY = started div DAY then snd (day_and_clock started) else ''00-00-00'') pid"

lemma segment_of_same_day:
  "t div DAY = u div DAY \<Longrightarrow>
     segment_of dir_root prefix pid started t = segment_of dir_root prefix pid started u"
  by (simp add: segment_of_def day_and_clock_def DAY_def)

definition segments_at :: "string \<Rightarrow> string \<Rightarrow> nat \<Rightarrow> nat \<Rightarrow> nat \<Rightarrow> day_segments" where
  "segments_at dir_root prefix pid started t =
     \<lparr>sg_dir_root = dir_root, sg_prefix = prefix, sg_pid = pid,
      sg_next_boundary = (t div DAY + 1) * DAY,
      sg_file = Some (segment_of dir_root prefix pid started t)\<rparr>"

lemma before_boundary: "t \<le> now \<Longrightarrow> now < (t div DAY + 1) * DAY \<longleftrightarrow> now div DAY = t div DAY"
proof -
  assume "t \<le> now"
  then have "t div DAY \<le> now div DAY" by (rule div_le_mono)
  moreover have "now < (t div DAY + 1) * DAY \<longleftrightarrow> now div DAY < t div DAY + 1"
    by (rule div_less_iff_less_mult [symmetric]) (simp add: DAY_def)
  ultimately show ?thesis by linarith
qed

lemma roll_segments_at:
  assumes "started \<le> t" "t \<le> now"
  shows "roll_if_due (\<lambda>p. True) now (segments_at dir_root prefix pid started t) =
     segments_at dir_root prefix pid started now"
proof (cases "now div DAY = t div DAY")
  case True
  with before_boundary [OF assms(2)] segment_of_same_day [OF True]
  show ?thesis by (simp add: roll_if_due_def segments_at_def)
next
  case False
  have "started div DAY \<le> t div DAY" "t div DAY \<le> now div DAY"
    using assms by (simp_all add: div_le_mono)
  with False have "now div DAY \<noteq> started div DAY" by linarith
  then have "segment_path dir_root (fst (day_and_clock now)) prefix ''00-00-00'' pid
      = segment_of dir_root prefix pid started now"
    by (simp add: segment_of_def)
  with False before_boundary [OF assms(2)] show ?thesis
    by (simp add: roll_if_due_def segments_at_def segment_create_def Let_def)
qed

lemma segments_writes:
  assumes "sorted (map fst ws)" "\<forall>w\<in>set ws. t \<le> fst w" "started \<le> t"
  shows "snd (fold (\<lambda>(now, buf). segments_write (\<lambda>p. True) now buf) ws
      (segments_at dir_root prefix pid started t, files)) path =
    files path @ concat (map snd (filter (\<lambda>w. segment_of dir_root prefix pid started (fst w) = path) ws))"
  using assms
proof (induction ws arbitrary: t files)
  case (Cons w ws)
  obtain now buf where w: "w = (now, buf)" by (cases w)
  from Cons.prems w have le: "t \<le> now" "started \<le> now" by auto
  have "segments_write (\<lambda>p. True) now buf (segments_at dir_root prefix pid started t, files) =
     (segments_at dir_root prefix pid started now,
      files(segment_of dir_root prefix pid started now :=
        files (segment_of dir_root prefix pid started now) @ buf))"
    using roll_segments_at [OF Cons.prems(3) le(1)]
    by (simp add: segments_write_def) (simp add: segments_at_def)
  with Cons.IH [of now] Cons.prems le show ?case by (simp add: w)
qed simp



end
