(* ===== verification/Engine_Cache.thy ===== *)
theory Engine_Cache
  imports Prelude
begin

text \<open>
  \<open>src/engine_cache.rs\<close>: the cache of built engines, one per sequence cap, in the order of their
  last use (least recently used first), and the \<open>EngineSlot\<close> trait through which the lock code
  sees an engine slot without knowing whether it holds one engine or one per rung.
\<close>

section \<open>The cache\<close>

record 'e rung_cache =
  capacity :: nat
  rungs :: "(nat \<times> 'e) list"

definition rung_cache_new :: "nat \<Rightarrow> 'e rung_cache" where
  "rung_cache_new cap = \<lparr>capacity = max cap 1, rungs = []\<rparr>"

text \<open>
  \<open>position\<close>, \<open>remove(at)\<close> and \<open>push\<close> of \<open>get_mut\<close>: the first entry of the cap is moved to the
  end. The engine is handed out by reference; what a caller writes through the reference is the
  engine's own state, so the model returns the engine and the promoted cache.
\<close>

definition remove_at :: "nat \<Rightarrow> 'a list \<Rightarrow> 'a list" where
  "remove_at i xs = take i xs @ drop (Suc i) xs"

definition rung_get :: "nat \<Rightarrow> 'e rung_cache \<Rightarrow> 'e option \<times> 'e rung_cache" where
  "rung_get cap c =
     (case position (\<lambda>r. fst r = cap) (rungs c) of
        None \<Rightarrow> (None, c)
      | Some i \<Rightarrow>
          (let entry = rungs c ! i
           in (Some (snd entry), c\<lparr>rungs := remove_at i (rungs c) @ [entry]\<rparr>)))"

definition rung_insert :: "nat \<Rightarrow> 'e \<Rightarrow> 'e rung_cache \<Rightarrow> (nat \<times> 'e) option \<times> 'e rung_cache" where
  "rung_insert cap e c =
     (let kept = filter (\<lambda>r. fst r \<noteq> cap) (rungs c) @ [(cap, e)]
      in if length kept > capacity c
         then (Some (hd kept), c\<lparr>rungs := tl kept\<rparr>)
         else (None, c\<lparr>rungs := kept\<rparr>))"

definition rung_drain :: "'e rung_cache \<Rightarrow> (nat \<times> 'e) list \<times> 'e rung_cache" where
  "rung_drain c = (rungs c, c\<lparr>rungs := []\<rparr>)"

definition rung_remove :: "nat \<Rightarrow> 'e rung_cache \<Rightarrow> 'e option \<times> 'e rung_cache" where
  "rung_remove cap c =
     (case position (\<lambda>r. fst r = cap) (rungs c) of
        None \<Rightarrow> (None, c)
      | Some i \<Rightarrow> (Some (snd (rungs c ! i)), c\<lparr>rungs := remove_at i (rungs c)\<rparr>))"

definition rung_caps :: "'e rung_cache \<Rightarrow> nat list" where
  "rung_caps c = map fst (rungs c)"

section \<open>Invariant and abstraction\<close>

text \<open>
  Well-formed: one entry per cap, room for at least one engine, never more entries than the
  capacity. The abstraction is the finite map from caps to engines.
\<close>

definition rung_inv :: "'e rung_cache \<Rightarrow> bool" where
  "rung_inv c \<longleftrightarrow> distinct (rung_caps c) \<and> 1 \<le> capacity c \<and> length (rungs c) \<le> capacity c"

definition rung_map :: "'e rung_cache \<Rightarrow> nat \<Rightarrow> 'e option" where
  "rung_map c = map_of (rungs c)"

lemma rung_inv_new [simp]: "rung_inv (rung_cache_new cap)"
  by (simp add: rung_inv_def rung_cache_new_def rung_caps_def)

lemma rung_map_new [simp]: "rung_map (rung_cache_new cap) = Map.empty"
  by (simp add: rung_map_def rung_cache_new_def)

text \<open>Both lookups split the entries around the one they find, or leave the cache alone.\<close>

lemma rung_lookup_cases:
  assumes inv: "rung_inv c"
  obtains
    (miss) "rung_map c cap = None" "rung_get cap c = (None, c)" "rung_remove cap c = (None, c)"
  | (hit) us e vs where "rungs c = us @ (cap, e) # vs" "cap \<notin> fst ` set us" "cap \<notin> fst ` set vs"
      "rung_map c cap = Some e"
      "rung_get cap c = (Some e, c\<lparr>rungs := us @ vs @ [(cap, e)]\<rparr>)"
      "rung_remove cap c = (Some e, c\<lparr>rungs := us @ vs\<rparr>)"
proof (cases "position (\<lambda>r. fst r = cap) (rungs c)")
  case None
  then have "cap \<notin> fst ` set (rungs c)" by (auto simp: position_None)
  with None show ?thesis
    by (intro miss) (simp_all add: rung_map_def rung_get_def rung_remove_def map_of_eq_None_iff)
next
  case (Some i)
  from position_split [OF this] obtain us x vs
    where split: "rungs c = us @ x # vs" "length us = i" "fst x = cap"
      and us: "\<forall>u\<in>set us. fst u \<noteq> cap" by auto
  obtain e where x: "x = (cap, e)" using split(3) by (cases x) auto
  from inv split(1) x have vs: "cap \<notin> fst ` set vs"
    by (auto simp: rung_inv_def rung_caps_def)
  from us have us': "cap \<notin> fst ` set us" by auto
  then have "map_of us cap = None" by (simp add: map_of_eq_None_iff)
  then have m: "rung_map c cap = Some e"
    by (simp add: rung_map_def split(1) x map_add_def)
  have at: "rungs c ! i = (cap, e)" and rm: "remove_at i (rungs c) = us @ vs"
    using split(2) by (simp_all add: split(1) x nth_append remove_at_def)
  show ?thesis
    by (intro hit [OF split(1) [unfolded x] us' vs m])
      (simp_all add: rung_get_def rung_remove_def Some at rm)
qed

lemma rung_caps_rungs [simp]: "rung_caps (c\<lparr>rungs := rs\<rparr>) = map fst rs"
  by (simp add: rung_caps_def)

lemma rung_get_fst: "rung_inv c \<Longrightarrow> fst (rung_get cap c) = rung_map c cap"
  by (rule rung_lookup_cases [of c cap]) auto

lemma map_of_move_last:
  "cap \<notin> fst ` set us \<Longrightarrow> cap \<notin> fst ` set vs \<Longrightarrow>
     map_of (us @ vs @ [(cap, e)]) = map_of (us @ (cap, e) # vs)"
proof
  fix k
  assume us: "cap \<notin> fst ` set us" and vs: "cap \<notin> fst ` set vs"
  show "map_of (us @ vs @ [(cap, e)]) k = map_of (us @ (cap, e) # vs) k"
  proof (cases "k = cap")
    case True
    with us vs have "map_of us k = None" "map_of vs k = None"
      by (simp_all add: map_of_eq_None_iff)
    with True show ?thesis by (simp add: map_add_def)
  next
    case False
    then show ?thesis by (simp add: map_add_def split: option.splits)
  qed
qed

lemma rung_get_map: "rung_inv c \<Longrightarrow> rung_map (snd (rung_get cap c)) = rung_map c"
proof (rule rung_lookup_cases [of c cap])
  fix us e vs
  assume "rungs c = us @ (cap, e) # vs" "cap \<notin> fst ` set us" "cap \<notin> fst ` set vs"
    "rung_get cap c = (Some e, c\<lparr>rungs := us @ vs @ [(cap, e)]\<rparr>)"
  then show "rung_map (snd (rung_get cap c)) = rung_map c"
    by (simp add: rung_map_def map_of_move_last del: map_of_append)
qed auto

lemma rung_get_inv: "rung_inv c \<Longrightarrow> rung_inv (snd (rung_get cap c))"
  by (rule rung_lookup_cases [of c cap]) (auto simp: rung_inv_def rung_caps_def)

lemma rung_get_capacity [simp]: "capacity (snd (rung_get cap c)) = capacity c"
  by (simp add: rung_get_def Let_def split: option.splits)

lemma rung_get_last:
  "rung_inv c \<Longrightarrow> rung_map c cap = Some e \<Longrightarrow> last (rungs (snd (rung_get cap c))) = (cap, e)"
  by (rule rung_lookup_cases [of c cap]) auto

lemma rung_get_miss: "rung_inv c \<Longrightarrow> rung_map c cap = None \<Longrightarrow> rung_get cap c = (None, c)"
  by (rule rung_lookup_cases [of c cap]) auto

lemma rung_remove_map:
  "rung_inv c \<Longrightarrow> rung_map (snd (rung_remove cap c)) = (rung_map c)(cap := None)"
proof (rule rung_lookup_cases [of c cap])
  fix us e vs
  assume rs: "rungs c = us @ (cap, e) # vs" and us: "cap \<notin> fst ` set us"
    and vs: "cap \<notin> fst ` set vs"
    and r: "rung_remove cap c = (Some e, c\<lparr>rungs := us @ vs\<rparr>)"
  from us vs have "map_of us cap = None" "map_of vs cap = None"
    by (simp_all add: map_of_eq_None_iff)
  then show "rung_map (snd (rung_remove cap c)) = (rung_map c)(cap := None)"
    by (auto simp: rung_map_def rs r map_add_def fun_eq_iff split: option.splits)
qed auto

lemma rung_remove_fst: "rung_inv c \<Longrightarrow> fst (rung_remove cap c) = rung_map c cap"
  by (rule rung_lookup_cases [of c cap]) auto

lemma rung_remove_inv: "rung_inv c \<Longrightarrow> rung_inv (snd (rung_remove cap c))"
  by (rule rung_lookup_cases [of c cap]) (auto simp: rung_inv_def rung_caps_def)

lemma rung_drain_inv: "rung_inv c \<Longrightarrow> rung_inv (snd (rung_drain c))"
  by (simp add: rung_drain_def rung_inv_def)

lemma rung_drain_map [simp]: "rung_map (snd (rung_drain c)) = Map.empty"
  by (simp add: rung_drain_def rung_map_def)

text \<open>Inserting evicts nothing or exactly the entry at the front.\<close>

lemma rung_insert_cases:
  assumes inv: "rung_inv c"
  obtains
    (fits) "rung_insert cap e c =
        (None, c\<lparr>rungs := filter (\<lambda>r. fst r \<noteq> cap) (rungs c) @ [(cap, e)]\<rparr>)"
      "length (filter (\<lambda>r. fst r \<noteq> cap) (rungs c)) < capacity c"
  | (evicts) v vs where "rungs c = v # vs" "cap \<notin> fst ` set (rungs c)"
      "length (rungs c) = capacity c"
      "rung_insert cap e c = (Some v, c\<lparr>rungs := vs @ [(cap, e)]\<rparr>)"
proof (cases "length (filter (\<lambda>r. fst r \<noteq> cap) (rungs c)) < capacity c")
  case True
  then show ?thesis by (intro fits) (simp_all add: rung_insert_def Let_def)
next
  case False
  let ?f = "filter (\<lambda>r. fst r \<noteq> cap) (rungs c)"
  have "length ?f \<le> length (rungs c)" by simp
  with False inv have len: "length ?f = length (rungs c)" "length (rungs c) = capacity c"
    "1 \<le> capacity c" by (auto simp: rung_inv_def simp del: length_filter_le)
  then have "?f = rungs c" by (metis filter_id_conv length_filter_less less_irrefl)
  then have no: "cap \<notin> fst ` set (rungs c)" by (metis (mono_tags, lifting) filter_id_conv imageE)
  from len obtain v vs where rs: "rungs c = v # vs" by (cases "rungs c") auto
  with len no show ?thesis
    by (intro evicts [of v vs]) (auto simp: rung_insert_def Let_def filter_fst_neq_id)
qed

lemma rung_insert_inv: "rung_inv c \<Longrightarrow> rung_inv (snd (rung_insert cap e c))"
proof (rule rung_insert_cases [of c cap e])
  assume inv: "rung_inv c"
  fix v vs
  assume "rungs c = v # vs" "cap \<notin> fst ` set (rungs c)" "length (rungs c) = capacity c"
    "rung_insert cap e c = (Some v, c\<lparr>rungs := vs @ [(cap, e)]\<rparr>)"
  with inv show "rung_inv (snd (rung_insert cap e c))"
    by (auto simp: rung_inv_def rung_caps_def)
qed (auto simp: rung_inv_def rung_caps_def distinct_fst_filter)

lemma rung_insert_capacity [simp]: "capacity (snd (rung_insert cap e c)) = capacity c"
  by (simp add: rung_insert_def Let_def)

lemma rung_insert_last:
  "rung_inv c \<Longrightarrow> last (rungs (snd (rung_insert cap e c))) = (cap, e)"
  by (rule rung_insert_cases [of c cap e]) auto

lemma map_of_snoc: "cap \<notin> fst ` set xs \<Longrightarrow> map_of (xs @ [(cap, e)]) = (map_of xs)(cap \<mapsto> e)"
proof
  fix k
  assume "cap \<notin> fst ` set xs"
  then have "map_of xs cap = None" by (simp add: map_of_eq_None_iff)
  then show "map_of (xs @ [(cap, e)]) k = ((map_of xs)(cap \<mapsto> e)) k"
    by (auto simp: map_add_def split: option.splits)
qed

lemma map_of_tl_front:
  "distinct (map fst (v # vs)) \<Longrightarrow> map_of vs = (map_of (v # vs))(fst v := None)"
  by (cases v) (auto simp: fun_eq_iff map_of_eq_None_iff)

text \<open>
  The map after an insertion: the new binding, less the evicted cap's. In particular the engine
  just inserted is the one the next lookup finds.
\<close>

lemma rung_insert_map:
  "rung_inv c \<Longrightarrow> rung_map (snd (rung_insert cap e c)) =
     (case fst (rung_insert cap e c) of
        None \<Rightarrow> (rung_map c)(cap \<mapsto> e)
      | Some v \<Rightarrow> (rung_map c)(fst v := None, cap \<mapsto> e))"
proof (rule rung_insert_cases [of c cap e])
  assume inv: "rung_inv c"
  assume ins: "rung_insert cap e c =
    (None, c\<lparr>rungs := filter (\<lambda>r. fst r \<noteq> cap) (rungs c) @ [(cap, e)]\<rparr>)"
  have "map_of (filter (\<lambda>r. fst r \<noteq> cap) (rungs c) @ [(cap, e)]) = (map_of (rungs c))(cap \<mapsto> e)"
    by (subst map_of_snoc) (auto simp: fun_eq_iff map_of_filter_other)
  then show ?thesis by (simp add: ins rung_map_def del: map_of_append)
next
  assume inv: "rung_inv c"
  fix v vs
  assume rs: "rungs c = v # vs" and no: "cap \<notin> fst ` set (rungs c)"
    and ins: "rung_insert cap e c = (Some v, c\<lparr>rungs := vs @ [(cap, e)]\<rparr>)"
  from no rs have "map_of (vs @ [(cap, e)]) = (map_of vs)(cap \<mapsto> e)" by (intro map_of_snoc) auto
  moreover from inv rs have "map_of vs = (map_of (rungs c))(fst v := None)"
    using map_of_tl_front [of v vs] by (simp add: rung_inv_def rung_caps_def)
  ultimately show ?thesis by (simp add: ins rung_map_def del: map_of_append)
qed auto

lemma rung_insert_evicted:
  "rung_inv c \<Longrightarrow> fst (rung_insert cap e c) = Some v \<Longrightarrow>
     v = hd (rungs c) \<and> fst v \<noteq> cap \<and> rung_map c (fst v) = Some (snd v)"
  by (rule rung_insert_cases [of c cap e]) (auto simp: rung_map_def)

lemma rung_insert_lookup: "rung_inv c \<Longrightarrow> rung_map (snd (rung_insert cap e c)) cap = Some e"
  by (simp add: rung_insert_map split: option.splits)

section \<open>The cache is least recently used\<close>

text \<open>
  One pass at a cap, as every caller does it: take the resident engine, or build one and insert
  it. Its reference is the sequence of caps used: \<open>remdups\<close> keeps each cap at its last use, and
  the cache holds the last \<open>capacity\<close> of those.
\<close>

definition use_rung :: "(nat \<Rightarrow> 'e) \<Rightarrow> nat \<Rightarrow> 'e rung_cache \<Rightarrow> 'e rung_cache" where
  "use_rung build cap c =
     (case rung_get cap c of
        (Some e, c') \<Rightarrow> c'
      | (None, c') \<Rightarrow> snd (rung_insert cap (build cap) c'))"

definition last_used :: "nat \<Rightarrow> nat list \<Rightarrow> nat list" where
  "last_used n us = drop (length (remdups us) - n) (remdups us)"

lemma remdups_snoc: "remdups (us @ [u]) = filter (\<lambda>v. v \<noteq> u) (remdups us) @ [u]"
  by (induction us) (auto simp: filter_id_conv)

lemma use_rung_inv: "rung_inv c \<Longrightarrow> rung_inv (use_rung build cap c)"
  using rung_get_inv [of c cap]
  by (auto simp: use_rung_def rung_insert_inv split: prod.split option.split)

lemma use_rung_hit:
  "rung_inv c \<Longrightarrow> rung_map c cap = Some e \<Longrightarrow>
     rung_caps (use_rung build cap c) = filter (\<lambda>k. k \<noteq> cap) (rung_caps c) @ [cap]"
proof (rule rung_lookup_cases [of c cap])
  fix us e' vs
  assume "rungs c = us @ (cap, e') # vs" "cap \<notin> fst ` set us" "cap \<notin> fst ` set vs"
    "rung_get cap c = (Some e', c\<lparr>rungs := us @ vs @ [(cap, e')]\<rparr>)"
  moreover from this(2,3)
  have "filter (\<lambda>k. k \<noteq> cap) (map fst us) = map fst us"
    "filter (\<lambda>k. k \<noteq> cap) (map fst vs) = map fst vs"
    by (auto simp: filter_id_conv)
  ultimately show ?thesis by (simp add: use_rung_def rung_caps_def)
qed auto

lemma use_rung_miss:
  "rung_inv c \<Longrightarrow> rung_map c cap = None \<Longrightarrow>
     rung_caps (use_rung build cap c) =
       (if length (rung_caps c) = capacity c then tl (rung_caps c) else rung_caps c) @ [cap]"
  by (rule rung_insert_cases [of c cap "build cap"])
    (auto simp: use_rung_def rung_get_miss rung_caps_def rung_map_def map_of_eq_None_iff
      filter_fst_neq_id)

lemma in_rung_caps_iff: "cap \<in> set (rung_caps c) \<longleftrightarrow> (\<exists>e. rung_map c cap = Some e)"
  by (metis map_of_eq_None_iff not_None_eq rung_caps_def rung_map_def set_map)

lemma use_rung_capacity [simp]: "capacity (use_rung build cap c) = capacity c"
  using rung_get_capacity [of cap c]
  by (cases "rung_get cap c") (auto simp: use_rung_def split: option.splits)

lemma length_filter_distinct_neq:
  "distinct xs \<Longrightarrow> u \<in> set xs \<Longrightarrow> length (filter (\<lambda>v. v \<noteq> u) xs) = length xs - 1"
proof (induction xs)
  case (Cons x xs)
  show ?case
  proof (cases "x = u")
    case True
    with Cons.prems have "filter (\<lambda>v. v \<noteq> u) xs = xs" by (auto simp: filter_id_conv)
    with True show ?thesis by simp
  next
    case False
    with Cons have "length (filter (\<lambda>v. v \<noteq> u) xs) = length xs - 1" "xs \<noteq> []" by auto
    with False show ?thesis by simp
  qed
qed simp

lemma fold_use_rung:
  fixes c0 :: "'e rung_cache" and build :: "nat \<Rightarrow> 'e"
  assumes c0: "rung_inv c0" "rungs c0 = []"
  defines "run \<equiv> \<lambda>us. fold (use_rung build) us c0"
  shows "rung_inv (run us) \<and> capacity (run us) = capacity c0 \<and>
     (\<exists>old. remdups us = old @ rung_caps (run us) \<and>
            (old \<noteq> [] \<longrightarrow> length (rung_caps (run us)) = capacity c0))"
proof (induction us rule: rev_induct)
  case Nil
  then show ?case using c0 by (simp add: run_def rung_caps_def)
next
  case (snoc u us)
  let ?c = "run us"
  from snoc obtain old where inv: "rung_inv ?c" and cp: "capacity ?c = capacity c0"
    and old: "remdups us = old @ rung_caps ?c"
      "old \<noteq> [] \<longrightarrow> length (rung_caps ?c) = capacity c0" by blast
  have step: "run (us @ [u]) = use_rung build u ?c" by (simp add: run_def)
  have dis: "distinct (old @ rung_caps ?c)" using old(1) distinct_remdups [of us] by simp
  have "\<exists>old'. remdups (us @ [u]) = old' @ rung_caps (use_rung build u ?c) \<and>
        (old' \<noteq> [] \<longrightarrow> length (rung_caps (use_rung build u ?c)) = capacity c0)"
  proof (cases "u \<in> set (rung_caps ?c)")
    case True
    then obtain e where e: "rung_map ?c u = Some e" by (auto simp: in_rung_caps_iff)
    from dis True have fo: "filter (\<lambda>v. v \<noteq> u) old = old" by (auto simp: filter_id_conv)
    from dis True have "length (filter (\<lambda>v. v \<noteq> u) (rung_caps ?c)) = length (rung_caps ?c) - 1"
      by (simp add: length_filter_distinct_neq)
    then have "Suc (length (filter (\<lambda>v. v \<noteq> u) (rung_caps ?c))) = length (rung_caps ?c)"
      using True by (cases "rung_caps ?c") auto
    then show ?thesis
      using old fo by (intro exI [of _ old]) (simp add: remdups_snoc use_rung_hit [OF inv e])
  next
    case False
    then have n: "rung_map ?c u = None" by (auto simp: in_rung_caps_iff)
    from False have fc: "filter (\<lambda>v. v \<noteq> u) (rung_caps ?c) = rung_caps ?c"
      by (auto simp: filter_id_conv)
    show ?thesis
    proof (cases "length (rung_caps ?c) = capacity c0")
      case True
      moreover from this inv cp have "rung_caps ?c \<noteq> []" "Suc (capacity c0 - 1) = capacity c0"
        by (auto simp: rung_inv_def)
      ultimately show ?thesis
        using old fc cp
        by (intro exI [of _ "filter (\<lambda>v. v \<noteq> u) old @ [hd (rung_caps ?c)]"])
          (auto simp: remdups_snoc use_rung_miss [OF inv n])
    next
      case False
      with old have "old = []" by blast
      with False old fc cp show ?thesis
        by (intro exI [of _ "[]"]) (simp add: remdups_snoc use_rung_miss [OF inv n])
    qed
  qed
  with inv cp show ?case by (simp add: step use_rung_inv)
qed

text \<open>
  C15: least recently used. After any sequence of passes, starting from a fresh cache, the resident
  caps are exactly the last \<open>max capacity 1\<close> distinct caps used, oldest use first; so a pass
  never evicts a rung while one that was used earlier stays.
\<close>

theorem rung_cache_is_lru:
  "rung_caps (fold (use_rung build) us (rung_cache_new n)) = last_used (max n 1) us"
proof -
  let ?c = "fold (use_rung build) us (rung_cache_new n)"
  have cap: "capacity (rung_cache_new n) = max n 1" "rungs (rung_cache_new n) = []"
    by (simp_all add: rung_cache_new_def)
  from fold_use_rung [OF rung_inv_new cap(2), of build us] obtain old
    where old: "remdups us = old @ rung_caps ?c"
      "old \<noteq> [] \<longrightarrow> length (rung_caps ?c) = max n 1"
      and inv: "rung_inv ?c" "capacity ?c = max n 1" by (auto simp: cap)
  from inv have "length (rung_caps ?c) \<le> max n 1" by (simp add: rung_inv_def rung_caps_def)
  with old show ?thesis by (cases "old = []") (auto simp: last_used_def)
qed

text \<open>The interface through which the lock code sees a slot: \<open>trait EngineSlot\<close>.\<close>

locale engine_slot =
  fixes is_loaded :: "'s \<Rightarrow> bool"
    and discard_all :: "'s \<Rightarrow> 's"
  assumes discard_unloads: "\<not> is_loaded (discard_all s)"
    and unloaded_unique: "\<not> is_loaded s \<Longrightarrow> discard_all s = s"
begin

lemma discard_idem: "discard_all (discard_all s) = discard_all s"
  by (simp add: discard_unloads unloaded_unique)

end

definition option_is_loaded :: "'e option \<Rightarrow> bool" where
  "option_is_loaded s = (s \<noteq> None)"

definition option_discard_all :: "'e option \<Rightarrow> 'e option" where
  "option_discard_all s = None"

definition rung_is_loaded :: "'e rung_cache \<Rightarrow> bool" where
  "rung_is_loaded c = (rungs c \<noteq> [])"

definition rung_discard_all :: "'e rung_cache \<Rightarrow> 'e rung_cache" where
  "rung_discard_all c = c\<lparr>rungs := []\<rparr>"

interpretation option_slot: engine_slot option_is_loaded option_discard_all
  by unfold_locales (auto simp: option_is_loaded_def option_discard_all_def)

interpretation rung_slot: engine_slot rung_is_loaded rung_discard_all
  by unfold_locales (auto simp: rung_is_loaded_def rung_discard_all_def)

lemma rung_discard_all_inv: "rung_inv c \<Longrightarrow> rung_inv (rung_discard_all c)"
  by (simp add: rung_inv_def rung_discard_all_def)

end
