(* ===== verification/Envelope.thy ===== *)
theory Envelope
  imports Config
begin

text \<open>
  The envelope a request runs in: \<open>Limits\<close> and \<open>positive_or\<close> of \<open>src/state.rs\<close>, and the decisions
  of \<open>src/inference.rs\<close> that are taken before an engine is locked (the batch of a rerank, the cap of
  an embed, whether the input shape is pinned and how many texts fill a pinned batch).
\<close>

record limits =
  max_length :: nat
  lm_batch :: nat

definition positive_or :: "nat \<Rightarrow> nat \<Rightarrow> nat" where
  "positive_or value fallback = (if value = 0 then fallback else value)"

definition clamp :: "nat \<Rightarrow> nat \<Rightarrow> nat \<Rightarrow> nat" where
  "clamp lo hi x = max lo (min hi x)"

definition limits_resolve :: "config \<Rightarrow> nat \<Rightarrow> nat \<Rightarrow> limits" where
  "limits_resolve cfg req_length req_batch =
     \<lparr>max_length = clamp 16 8192 (positive_or req_length (embed_max_length cfg)),
      lm_batch = max (positive_or req_batch (max_batch cfg)) 1\<rparr>"

definition rerank_batch :: "config \<Rightarrow> nat \<Rightarrow> nat" where
  "rerank_batch cfg requested = max (positive_or requested (max_batch cfg)) 1"

definition should_pin_shape :: "string \<Rightarrow> string \<Rightarrow> bool" where
  "should_pin_shape setting provider =
     (let s = lowercase (trim setting)
      in if s \<in> set [''1'', ''true'', ''on'', ''yes''] then True
         else if s \<in> set [''0'', ''false'', ''off'', ''no''] then False
         else provider = ''migraphx'')"

definition embed_batch_texts :: "config \<Rightarrow> string \<Rightarrow> nat" where
  "embed_batch_texts cfg provider =
     (let b = max (max_batch cfg) 1
      in if should_pin_shape (pin_input_shape cfg) provider \<and> 2 \<le> b then b - 1 else b)"

definition cap_for :: "string \<Rightarrow> nat \<Rightarrow> nat option \<Rightarrow> nat" where
  "cap_for kind requested loaded =
     (case (kind = ''query'', loaded) of
        (True, Some resident) \<Rightarrow> resident
      | _ \<Rightarrow> requested)"

lemma clamp_bounds: "lo \<le> hi \<Longrightarrow> lo \<le> clamp lo hi x \<and> clamp lo hi x \<le> hi"
  by (auto simp: clamp_def)

text \<open>
  No setting can ask for a shape the model cannot run. Whatever the request and the
  configuration say, an embed runs at a cap between 16 and the model's 8192 and at a batch of at least
  one; a knob the request carries wins over the configured one, and the embed and rerank batches of
  the same request agree.
\<close>

theorem limits_resolve_envelope:
  "16 \<le> max_length (limits_resolve cfg l b) \<and> max_length (limits_resolve cfg l b) \<le> 8192 \<and>
   1 \<le> lm_batch (limits_resolve cfg l b) \<and>
   (16 \<le> l \<and> l \<le> 8192 \<longrightarrow> max_length (limits_resolve cfg l b) = l) \<and>
   (0 < b \<longrightarrow> lm_batch (limits_resolve cfg l b) = b) \<and>
   lm_batch (limits_resolve cfg l b) = rerank_batch cfg b"
  using clamp_bounds [of 16 8192]
  by (auto simp: limits_resolve_def rerank_batch_def positive_or_def clamp_def)

lemma limits_resolve_envelope_witness:
  "max_length (limits_resolve (config_from_env Map.empty) 512 8) = 512"
  using limits_resolve_envelope [of "config_from_env Map.empty" 512 8] by simp

lemma cap_for_query: "cap_for ''query'' requested (Some resident) = resident"
  by (simp add: cap_for_def)

lemma cap_for_none [simp]: "cap_for kind requested None = requested"
  by (simp add: cap_for_def split: bool.splits)

end
