(* ===== verification/F32.thy ===== *)
theory F32
  imports Prelude
begin

text \<open>
  Rust's \<open>f32\<close>: IEEE 754 binary32 with rounding to nearest, ties to even, as the program uses it
  (\<open>+\<close>, \<open>*\<close>, \<open>/\<close>, \<open>sqrt\<close>, comparisons). A value is its 32 bits. Each operation is computed exactly on
  sign, significand and exponent and rounded once; a quotient or a root that is not exact carries
  a sticky bit below the rounding position. There is one NaN, for the program never looks at a
  payload.
\<close>

type_synonym f32 = "32 word"

datatype f32_num = Nan | Inf bool | Fin bool nat int

definition f32_nan :: f32 where "f32_nan = 0x7FC00000"

definition f32_decode :: "f32 \<Rightarrow> f32_num" where
  "f32_decode x =
     (let n = unat x; s = (2 ^ 31 \<le> n); ex = (n div 2 ^ 23) mod 256; fr = n mod 2 ^ 23
      in if ex = 255 then (if fr = 0 then Inf s else Nan)
         else if ex = 0 then Fin s fr (-149)
         else Fin s (fr + 2 ^ 23) (int ex - 150))"

fun bit_len :: "nat \<Rightarrow> nat" where
  "bit_len n = (if n = 0 then 0 else Suc (bit_len (n div 2)))"

declare bit_len.simps [simp del]

text \<open>\<open>m / 2 ^ k\<close> rounded to the nearest integer, ties to even.\<close>

definition round_shift :: "nat \<Rightarrow> nat \<Rightarrow> nat" where
  "round_shift m k =
     (let q = m div 2 ^ k; r = m mod 2 ^ k; half = 2 ^ k
      in if 2 * r < half \<or> (2 * r = half \<and> even q) then q else q + 1)"

definition f32_pack :: "bool \<Rightarrow> nat \<Rightarrow> f32" where
  "f32_pack s bits = of_nat (bits + (if s then 2 ^ 31 else 0))"

text \<open>The bits of \<open>M * 2 ^ q\<close>, \<open>M\<close> of at most 25 bits after a carry, \<open>q\<close> the weight of the last place.\<close>

definition f32_assemble :: "bool \<Rightarrow> nat \<Rightarrow> int \<Rightarrow> f32" where
  "f32_assemble s M q =
     (let (M', q') = (if 2 ^ 24 \<le> M then (M div 2, q + 1) else (M, q))
      in if M' < 2 ^ 23 then f32_pack s M'
         else if 255 \<le> q' + 150 then f32_pack s (255 * 2 ^ 23)
         else f32_pack s (nat (q' + 150) * 2 ^ 23 + (M' - 2 ^ 23)))"

definition f32_round :: "bool \<Rightarrow> nat \<Rightarrow> int \<Rightarrow> f32" where
  "f32_round s m e =
     (if m = 0 then f32_pack s 0
      else (let q = max (int (bit_len m) - 24 + e) (-149)
            in f32_assemble s
                 (if q \<le> e then m * 2 ^ nat (e - q) else round_shift m (nat (q - e))) q))"

definition sign_of_two :: "bool \<Rightarrow> bool \<Rightarrow> bool" where
  "sign_of_two s t = (s \<noteq> t)"

definition with_sign :: "bool \<Rightarrow> nat \<Rightarrow> int" where
  "with_sign s m = (if s then - int m else int m)"

fun add_num :: "f32_num \<Rightarrow> f32_num \<Rightarrow> f32" where
  "add_num Nan y = f32_nan"
| "add_num x Nan = f32_nan"
| "add_num (Inf s) (Inf t) = (if s = t then f32_pack s (255 * 2 ^ 23) else f32_nan)"
| "add_num (Inf s) (Fin t m e) = f32_pack s (255 * 2 ^ 23)"
| "add_num (Fin t m e) (Inf s) = f32_pack s (255 * 2 ^ 23)"
| "add_num (Fin s m e) (Fin t n f) =
     (let g = min e f;
          v = with_sign s (m * 2 ^ nat (e - g)) + with_sign t (n * 2 ^ nat (f - g))
      in if v = 0 then f32_pack (s \<and> t \<and> m = 0 \<and> n = 0) 0
         else f32_round (v < 0) (nat \<bar>v\<bar>) g)"

fun mul_num :: "f32_num \<Rightarrow> f32_num \<Rightarrow> f32" where
  "mul_num Nan y = f32_nan"
| "mul_num x Nan = f32_nan"
| "mul_num (Inf s) (Inf t) = f32_pack (sign_of_two s t) (255 * 2 ^ 23)"
| "mul_num (Inf s) (Fin t m e) = (if m = 0 then f32_nan else f32_pack (sign_of_two s t) (255 * 2 ^ 23))"
| "mul_num (Fin t m e) (Inf s) = (if m = 0 then f32_nan else f32_pack (sign_of_two t s) (255 * 2 ^ 23))"
| "mul_num (Fin s m e) (Fin t n f) = f32_round (sign_of_two s t) (m * n) (e + f)"

fun div_num :: "f32_num \<Rightarrow> f32_num \<Rightarrow> f32" where
  "div_num Nan y = f32_nan"
| "div_num x Nan = f32_nan"
| "div_num (Inf s) (Inf t) = f32_nan"
| "div_num (Inf s) (Fin t m e) = f32_pack (sign_of_two s t) (255 * 2 ^ 23)"
| "div_num (Fin s m e) (Inf t) = f32_pack (sign_of_two s t) 0"
| "div_num (Fin s m e) (Fin t n f) =
     (if n = 0 then (if m = 0 then f32_nan else f32_pack (sign_of_two s t) (255 * 2 ^ 23))
      else (let w = m * 2 ^ 60
            in f32_round (sign_of_two s t) (2 * (w div n) + (if w mod n = 0 then 0 else 1)) (e - f - 61)))"

fun isqrt :: "nat \<Rightarrow> nat" where
  "isqrt n =
     (if n = 0 then 0
      else (let r = 2 * isqrt (n div 4) in if (r + 1) * (r + 1) \<le> n then r + 1 else r))"

declare isqrt.simps [simp del]

fun sqrt_num :: "f32_num \<Rightarrow> f32" where
  "sqrt_num Nan = f32_nan"
| "sqrt_num (Inf s) = (if s then f32_nan else f32_pack False (255 * 2 ^ 23))"
| "sqrt_num (Fin s m e) =
     (if m = 0 then f32_pack s 0
      else if s then f32_nan
      else (let (n, f) = (if even e then (m, e) else (2 * m, e - 1));
                w = n * 2 ^ 60; r = isqrt w
            in f32_round False (2 * r + (if r * r = w then 0 else 1)) (f div 2 - 31)))"

definition f32_add :: "f32 \<Rightarrow> f32 \<Rightarrow> f32" where
  "f32_add x y = add_num (f32_decode x) (f32_decode y)"

definition f32_mul :: "f32 \<Rightarrow> f32 \<Rightarrow> f32" where
  "f32_mul x y = mul_num (f32_decode x) (f32_decode y)"

definition f32_div :: "f32 \<Rightarrow> f32 \<Rightarrow> f32" where
  "f32_div x y = div_num (f32_decode x) (f32_decode y)"

definition f32_sqrt :: "f32 \<Rightarrow> f32" where
  "f32_sqrt x = sqrt_num (f32_decode x)"

text \<open>Comparison; every comparison with a NaN is false.\<close>

fun le_num :: "f32_num \<Rightarrow> f32_num \<Rightarrow> bool" where
  "le_num Nan y = False"
| "le_num x Nan = False"
| "le_num (Inf s) (Inf t) = (s \<or> \<not> t)"
| "le_num (Inf s) (Fin t m e) = s"
| "le_num (Fin t m e) (Inf s) = (\<not> s)"
| "le_num (Fin s m e) (Fin t n f) =
     (let g = min e f
      in with_sign s (m * 2 ^ nat (e - g)) \<le> with_sign t (n * 2 ^ nat (f - g)))"

definition f32_ge :: "f32 \<Rightarrow> f32 \<Rightarrow> bool" where
  "f32_ge x y = le_num (f32_decode y) (f32_decode x)"

definition f32_eq :: "f32 \<Rightarrow> f32 \<Rightarrow> bool" where
  "f32_eq x y = (f32_ge x y \<and> f32_ge y x)"

definition f32_is_nan :: "f32 \<Rightarrow> bool" where
  "f32_is_nan x = (f32_decode x = Nan)"

section \<open>Laws the components use\<close>

lemma add_num_commute: "add_num x y = add_num y x"
  by (cases x; cases y) (auto simp: min.commute Let_def add.commute conj_ac)

lemma sign_of_two_commute: "sign_of_two s t = sign_of_two t s"
  by (auto simp: sign_of_two_def)

lemma mul_num_commute: "mul_num x y = mul_num y x"
  by (cases x; cases y) (auto simp: mult.commute add.commute sign_of_two_commute)

lemma f32_add_commute: "f32_add x y = f32_add y x"
  by (simp add: f32_add_def add_num_commute)

lemma f32_mul_commute: "f32_mul x y = f32_mul y x"
  by (simp add: f32_mul_def mul_num_commute)

lemma f32_ge_nan: "f32_ge x y \<Longrightarrow> \<not> f32_is_nan x \<and> \<not> f32_is_nan y"
  by (cases "f32_decode x"; cases "f32_decode y") (auto simp: f32_ge_def f32_is_nan_def)

lemma f32_nan_is_nan [simp]: "f32_is_nan f32_nan"
  by (simp add: f32_is_nan_def f32_nan_def f32_decode_def)

lemma with_sign_scale: "with_sign s (m * 2 ^ k) = with_sign s m * 2 ^ k"
  by (simp add: with_sign_def)

lemma scaled_le:
  assumes "g \<le> e" "g \<le> f" "h \<le> g"
  shows "with_sign s (m * 2 ^ nat (e - g)) \<le> with_sign t (n * 2 ^ nat (f - g)) \<longleftrightarrow>
         with_sign s (m * 2 ^ nat (e - h)) \<le> with_sign t (n * 2 ^ nat (f - h))"
proof -
  have "nat (e - h) = nat (e - g) + nat (g - h)" "nat (f - h) = nat (f - g) + nat (g - h)"
    using assms by simp_all
  then show ?thesis by (simp add: with_sign_scale power_add mult.assoc [symmetric])
qed

lemma le_num_trans: "le_num x y \<Longrightarrow> le_num y z \<Longrightarrow> le_num x z"
proof (cases x; cases y; cases z)
  fix s m e t n f u k g
  assume xyz: "x = Fin s m e" "y = Fin t n f" "z = Fin u k g" and le: "le_num x y" "le_num y z"
  define h where "h = min e (min f g)"
  have le1: "with_sign s (m * 2 ^ nat (e - min e f)) \<le> with_sign t (n * 2 ^ nat (f - min e f))"
    and le2: "with_sign t (n * 2 ^ nat (f - min f g)) \<le> with_sign u (k * 2 ^ nat (g - min f g))"
    using le by (simp_all add: xyz Let_def)
  have "with_sign s (m * 2 ^ nat (e - h)) \<le> with_sign t (n * 2 ^ nat (f - h))"
    by (rule iffD1 [OF scaled_le le1]) (auto simp: h_def)
  also have "\<dots> \<le> with_sign u (k * 2 ^ nat (g - h))"
    by (rule iffD1 [OF scaled_le le2]) (auto simp: h_def)
  finally have le3: "with_sign s (m * 2 ^ nat (e - h)) \<le> with_sign u (k * 2 ^ nat (g - h))" .
  have "with_sign s (m * 2 ^ nat (e - min e g)) \<le> with_sign u (k * 2 ^ nat (g - min e g))"
    by (rule iffD2 [OF scaled_le le3]) (auto simp: h_def)
  then show "le_num x z" by (simp add: xyz Let_def)
qed auto

lemma f32_ge_trans: "f32_ge x y \<Longrightarrow> f32_ge y z \<Longrightarrow> f32_ge x z"
  unfolding f32_ge_def by (rule le_num_trans)

text \<open>The root is the integer square root.\<close>

lemma isqrt_bounds: "isqrt n * isqrt n \<le> n \<and> n < (isqrt n + 1) * (isqrt n + 1)"
proof (induction n rule: isqrt.induct)
  case (1 n)
  show ?case
  proof (cases "n = 0")
    case True
    then show ?thesis by (simp add: isqrt.simps)
  next
    case False
    define a where "a = isqrt (n div 4)"
    from 1 False have a: "a * a \<le> n div 4" "n div 4 < (a + 1) * (a + 1)" by (simp_all add: a_def)
    then have lo: "4 * (a * a) \<le> n" and hi: "n < 4 * ((a + 1) * (a + 1))" by linarith+
    then have "2 * a * (2 * a) \<le> n" "n < (2 * a + 2) * (2 * a + 2)" by (simp_all add: algebra_simps)
    moreover have "isqrt n = (if (2 * a + 1) * (2 * a + 1) \<le> n then 2 * a + 1 else 2 * a)"
      using False by (subst isqrt.simps) (simp add: a_def Let_def)
    ultimately show ?thesis by (auto simp: not_le)
  qed
qed

lemma isqrt_eq:
  assumes "r * r \<le> n" "n < (r + 1) * (r + 1)"
  shows "isqrt n = r"
proof -
  note b = isqrt_bounds [of n]
  have "isqrt n < r + 1"
  proof (rule ccontr)
    assume "\<not> isqrt n < r + 1"
    then have "(r + 1) * (r + 1) \<le> isqrt n * isqrt n" by (intro mult_le_mono) simp_all
    with b assms(2) show False by linarith
  qed
  moreover have "r < isqrt n + 1"
  proof (rule ccontr)
    assume "\<not> r < isqrt n + 1"
    then have "(isqrt n + 1) * (isqrt n + 1) \<le> r * r" by (intro mult_le_mono) simp_all
    with b assms(1) show False by linarith
  qed
  ultimately show ?thesis by simp
qed

lemma bit_len_eq: "2 ^ k \<le> n \<Longrightarrow> n < 2 ^ Suc k \<Longrightarrow> bit_len n = Suc k"
proof (induction k arbitrary: n)
  case 0
  then have "n = 1" by simp
  then show ?case by (simp add: bit_len.simps)
next
  case (Suc k)
  then have "bit_len (n div 2) = Suc k" by (intro Suc.IH) auto
  moreover have "n \<noteq> 0" using Suc.prems by auto
  ultimately show ?case by (simp add: bit_len.simps [of n])
qed

text \<open>The arithmetic of one, for concrete runs.\<close>

definition f32_one :: f32 where "f32_one = 0x3F800000"

lemma decode_one: "f32_decode f32_one = Fin False 8388608 (-23)"
  by (simp add: f32_decode_def f32_one_def)

lemma decode_zero: "f32_decode 0 = Fin False 0 (-149)"
  by (simp add: f32_decode_def)

lemma round_one:
  assumes "bit_len m = Suc (23 + k)" "m = 2 ^ (23 + k)" "e = - 23 - int k"
  shows "f32_round False m e = f32_one"
proof -
  have q: "max (int (bit_len m) - 24 + e) (- 149) = - 23" using assms by simp
  have "round_shift m k = 2 ^ 23" if "0 < k"
    using that by (simp add: round_shift_def assms(2) power_add)
  then have "(if - 23 \<le> e then m * 2 ^ nat (e - - 23) else round_shift m (nat (- 23 - e))) = 2 ^ 23"
    using assms(2,3) by (cases "k = 0") auto
  moreover have "f32_assemble False (2 ^ 23) (- 23) = f32_one"
    by (simp add: f32_assemble_def f32_pack_def f32_one_def)
  moreover have "(m = 0) = False" using assms(2) by simp
  ultimately show ?thesis by (simp only: f32_round_def Let_def q if_False)
qed

lemma mul_one_one: "f32_mul f32_one f32_one = f32_one"
proof -
  have "f32_round False 70368744177664 (- 46) = f32_one"
    by (rule round_one [of _ 23]) (simp_all add: bit_len_eq [of 46])
  then show ?thesis by (simp add: f32_mul_def decode_one sign_of_two_def)
qed

lemma add_zero_one: "f32_add 0 f32_one = f32_one"
proof -
  have "f32_round False (2 ^ 149) (- 149) = f32_one"
    by (rule round_one [of _ 126]) (simp_all add: bit_len_eq [of 149])
  then show ?thesis by (simp add: f32_add_def decode_one decode_zero with_sign_def)
qed

lemma sqrt_one: "f32_sqrt f32_one = f32_one"
proof -
  have "isqrt (16777216 * 2 ^ 60) = 2 ^ 42" by (rule isqrt_eq) simp_all
  moreover have "f32_round False (2 ^ 43) (- 43) = f32_one"
    by (rule round_one [of _ 20]) (simp_all add: bit_len_eq [of 43])
  ultimately show ?thesis by (simp add: f32_sqrt_def decode_one)
qed

lemma div_one_one: "f32_div f32_one f32_one = f32_one"
proof -
  have "f32_round False (2 ^ 61) (- 61) = f32_one"
    by (rule round_one [of _ 38]) (simp_all add: bit_len_eq [of 61])
  then show ?thesis by (simp add: f32_div_def decode_one sign_of_two_def)
qed

end
