(* ===== verification/Errors.thy ===== *)
theory Errors
  imports Wedge F32
begin

text \<open>
  The errors an inference call can return, as the program tells them apart: \<open>anyhow::Error\<close> carries
  the typed errors \<open>EngineWedged\<close> (\<open>src/wedge.rs\<close>) and \<open>CanaryFailed\<close> (\<open>src/canary.rs\<close>), the errors
  of the libraries and the messages made with \<open>bail!\<close>, under any number of contexts. \<open>downcast_ref\<close>
  looks through the contexts.
\<close>

record canary_outcome =
  co_cosine :: f32
  co_attempts :: nat

datatype app_error =
    Lib_Error string
  | Message string
  | Engine_Wedged engine_wedged
  | Canary_Failed canary_outcome
  | Context string app_error

fun downcast_wedged :: "app_error \<Rightarrow> engine_wedged option" where
  "downcast_wedged (Engine_Wedged w) = Some w"
| "downcast_wedged (Context c e) = downcast_wedged e"
| "downcast_wedged (Lib_Error m) = None"
| "downcast_wedged (Message m) = None"
| "downcast_wedged (Canary_Failed k) = None"

fun downcast_canary :: "app_error \<Rightarrow> canary_outcome option" where
  "downcast_canary (Canary_Failed k) = Some k"
| "downcast_canary (Context c e) = downcast_canary e"
| "downcast_canary (Lib_Error m) = None"
| "downcast_canary (Message m) = None"
| "downcast_canary (Engine_Wedged w) = None"

text \<open>\<open>{:#}\<close>: the chain of contexts; \<open>fixed4\<close> is the text of \<open>{:.4}\<close> of a float.\<close>

definition show_canary_failed :: "(f32 \<Rightarrow> string) \<Rightarrow> canary_outcome \<Rightarrow> string" where
  "show_canary_failed fixed4 k =
     ''canary cosine '' @ fixed4 (co_cosine k) @ '' after '' @ show_nat (co_attempts k)
     @ '' run(s) (threshold 0.99) '' @ em_dash
     @ '' the engine's output does not match the reference''"

fun show_error :: "(f32 \<Rightarrow> string) \<Rightarrow> app_error \<Rightarrow> string" where
  "show_error fixed4 (Lib_Error m) = m"
| "show_error fixed4 (Message m) = m"
| "show_error fixed4 (Engine_Wedged w) = show_engine_wedged w"
| "show_error fixed4 (Canary_Failed k) = show_canary_failed fixed4 k"
| "show_error fixed4 (Context c e) = c @ '': '' @ show_error fixed4 e"

text \<open>The two typed errors exclude each other.\<close>

lemma downcast_disjoint: "downcast_wedged e = None \<or> downcast_canary e = None"
  by (induction e) auto

end
