(* ===== verification/Row_Layout.thy ===== *)
theory Row_Layout
  imports Envelope Errors
begin

text \<open>
  The row layout of \<open>src/inference.rs\<close>: \<open>pin_shape\<close> gives every chunk of a batch one shape,
  \<open>unpin_rows\<close> takes the real rows back out, \<open>embed_settling\<close> re-runs a batch that came back short,
  and \<open>aligned_scores\<close> raises sorted scores back into document order.
\<close>

section \<open>Pinning\<close>

text \<open>\<open>chunks(n)\<close>; the code calls it with a positive size only (zero panics in Rust).\<close>

function chunks :: "nat \<Rightarrow> 'a list \<Rightarrow> 'a list list" where
  "chunks n xs = (if n = 0 \<or> xs = [] then [] else take n xs # chunks n (drop n xs))"
  by pat_completeness auto
termination by (relation "measure (length \<circ> snd)") auto

declare chunks.simps [simp del]

text \<open>The loop that fills the last chunk: one ruler at a time until the length is a multiple.\<close>

function fill_chunk :: "nat \<Rightarrow> 'a \<Rightarrow> 'a list \<Rightarrow> 'a list" where
  "fill_chunk b ruler rows =
     (if b = 0 \<or> length rows mod b = 0 then rows else fill_chunk b ruler (rows @ [ruler]))"
  by pat_completeness auto
termination
proof (relation "measure (\<lambda>(b, r, rows). (b - length rows mod b) mod b)")
  fix b :: nat and ruler :: 'a and rows :: "'a list"
  assume "\<not> (b = 0 \<or> length rows mod b = 0)"
  then have "0 < length rows mod b" "length rows mod b < b" by simp_all
  then show "((b, ruler, rows @ [ruler]), b, ruler, rows) \<in>
      measure (\<lambda>(b, r, rows). (b - length rows mod b) mod b)"
    by (auto simp: mod_Suc)
qed simp

declare fill_chunk.simps [simp del]

definition push_text :: "'a \<Rightarrow> 'a list \<times> nat list \<Rightarrow> 'a list \<times> nat list" where
  "push_text text st = (fst st @ [text], snd st @ [length (fst st)])"

definition push_chunk :: "nat \<Rightarrow> 'a \<Rightarrow> 'a list \<Rightarrow> 'a list \<times> nat list \<Rightarrow> 'a list \<times> nat list" where
  "push_chunk b ruler chunk st =
     (let (rows, positions) = fold push_text chunk (fst st @ [ruler], snd st)
      in (fill_chunk b ruler rows, positions))"

definition pin_shape :: "'a list \<Rightarrow> nat \<Rightarrow> 'a \<Rightarrow> 'a list \<times> nat list" where
  "pin_shape texts b ruler = fold (push_chunk b ruler) (chunks (b - 1) texts) ([], [])"

text \<open>The text of the ruler: 4096 times five words, more tokens than any cap.\<close>

definition ruler_text :: string where
  "ruler_text = concat (replicate 4096 ''lorem ipsum dolor sit amet '')"

text \<open>\<open>unpin_rows\<close> takes each row out of its place, so a repeated position yields no second row.\<close>

fun take_rows :: "'a option list \<Rightarrow> nat list \<Rightarrow> 'a list" where
  "take_rows taken [] = []"
| "take_rows taken (i # is) =
     (case taken ! i of
        None \<Rightarrow> take_rows taken is
      | Some x \<Rightarrow> x # take_rows (taken[i := None]) is)"

definition unpin_rows :: "'a list \<Rightarrow> nat list \<Rightarrow> (app_error, 'a list) outcome" where
  "unpin_rows rows positions =
     (let needed = (if positions = [] then 0 else Max (set positions) + 1)
      in if length rows < needed
         then Err (Message (''pinned embed returned '' @ show_nat (length rows)
           @ '' row(s), need at least '' @ show_nat needed @ '' to unpin''))
         else Ok (take_rows (map Some rows) positions))"

lemma concat_chunks: "0 < n \<Longrightarrow> concat (chunks n xs) = xs"
proof (induction n xs rule: chunks.induct)
  case (1 n xs)
  then show ?case by (cases "xs = []") (simp_all add: chunks.simps [of n xs] chunks.simps [of n "[]"])
qed

lemma chunks_length: "c \<in> set (chunks n xs) \<Longrightarrow> c \<noteq> [] \<and> length c \<le> n"
proof (induction n xs rule: chunks.induct)
  case (1 n xs)
  then show ?case by (cases "n = 0 \<or> xs = []") (auto simp: chunks.simps [of n xs])
qed

lemma length_chunks: "0 < n \<Longrightarrow> length (chunks n xs) = (length xs + n - 1) div n"
proof (induction n xs rule: chunks.induct)
  case (1 n xs)
  show ?case
  proof (cases "xs = []")
    case True
    with 1(2) show ?thesis by (simp add: chunks.simps)
  next
    case False
    with 1 have "length (chunks n xs) = Suc ((length xs - n + n - 1) div n)"
      by (simp add: chunks.simps [of n xs])
    also have "\<dots> = (length xs + n - 1) div n"
    proof (cases "length xs < n")
      case True
      moreover have "1 \<le> length xs" using \<open>xs \<noteq> []\<close> by (cases xs) auto
      ultimately have "(n - 1) div n = 0" "(length xs + n - 1) div n = 1"
        using 1(2) by (auto intro!: div_nat_eqI)
      with True show ?thesis by simp
    next
      case False
      then have "length xs + n - 1 = (length xs - n + n - 1) + n" using 1(2) by simp
      with 1(2) show ?thesis by (metis div_add_self2 less_irrefl add.commute plus_1_eq_Suc)
    qed
    finally show ?thesis .
  qed
qed

lemma fill_chunk_replicate:
  "0 < b \<Longrightarrow> fill_chunk b r xs = xs @ replicate ((b - length xs mod b) mod b) r"
proof (induction b r xs rule: fill_chunk.induct)
  case (1 b r xs)
  show ?case
  proof (cases "length xs mod b = 0")
    case True
    then show ?thesis by (simp add: fill_chunk.simps)
  next
    case False
    have lt: "length xs mod b < b" using 1(2) by simp
    from 1 False have "fill_chunk b r xs =
        xs @ [r] @ replicate ((b - Suc (length xs) mod b) mod b) r"
      by (simp add: fill_chunk.simps [of b r xs])
    also have "[r] @ replicate ((b - Suc (length xs) mod b) mod b) r =
        replicate ((b - length xs mod b) mod b) r"
      using False lt by (auto simp: mod_Suc replicate_append_same simp flip: replicate_Suc)
    finally show ?thesis .
  qed
qed

lemma fold_push_text:
  "fold push_text ts (rows, ps) = (rows @ ts, ps @ [length rows ..< length rows + length ts])"
proof (induction ts arbitrary: rows ps)
  case (Cons t ts)
  have "[length rows ..< length rows + length (t # ts)] =
      length rows # [Suc (length rows) ..< Suc (length rows) + length ts]"
    by (subst upt_conv_Cons) simp_all
  with Cons show ?case by (simp add: push_text_def)
qed simp

definition chunk_rows :: "nat \<Rightarrow> 'a \<Rightarrow> 'a list \<Rightarrow> 'a list" where
  "chunk_rows b ruler c = ruler # c @ replicate (b - 1 - length c) ruler"

lemma length_chunk_rows: "length c \<le> b - 1 \<Longrightarrow> 0 < b \<Longrightarrow> length (chunk_rows b r c) = b"
  by (simp add: chunk_rows_def)

lemma push_chunk_rows:
  assumes "2 \<le> b" "c \<noteq> []" "length c \<le> b - 1" "length rows mod b = 0"
  shows "push_chunk b ruler c (rows, ps) =
    (rows @ chunk_rows b ruler c, ps @ [Suc (length rows) ..< Suc (length rows) + length c])"
proof -
  have "(b - (length rows + 1 + length c) mod b) mod b = b - 1 - length c"
  proof (cases "length c = b - 1")
    case True
    then have "length rows + 1 + length c = length rows + b" using assms(1) by simp
    with assms(4) True show ?thesis by simp
  next
    case False
    from assms(4) obtain k where "length rows = b * k" by (auto simp: mod_eq_0_iff_dvd)
    then have "length rows + 1 + length c = (1 + length c) + b * k" by simp
    moreover have "((1 + length c) + b * k) mod b = (1 + length c) mod b" by (rule mod_mult_self2)
    moreover have "1 + length c < b" using False assms by simp
    ultimately have "(length rows + 1 + length c) mod b = 1 + length c" by simp
    with assms show ?thesis by simp
  qed
  with assms(1) show ?thesis
    by (simp add: push_chunk_def fold_push_text fill_chunk_replicate chunk_rows_def)
qed

lemma nth_seq: "map ((!) (xs @ ys @ zs)) [length xs ..< length xs + length ys] = ys"
  by (rule nth_equalityI) (simp_all add: nth_append)

text \<open>What the positions of a layout promise: they are in range, all different, in increasing order.\<close>

lemma push_chunks:
  assumes "2 \<le> b" "\<forall>c\<in>set cs. c \<noteq> [] \<and> length c \<le> b - 1" "length rows mod b = 0"
    "\<forall>p\<in>set ps. p < length rows" "distinct ps"
  shows "\<exists>ps'. fold (push_chunk b ruler) cs (rows, ps) =
      (rows @ concat (map (chunk_rows b ruler) cs), ps @ ps') \<and>
     map ((!) (rows @ concat (map (chunk_rows b ruler) cs))) ps' = concat cs \<and>
     (\<forall>p\<in>set (ps @ ps'). p < length (rows @ concat (map (chunk_rows b ruler) cs))) \<and>
     distinct (ps @ ps')"
  using assms(2-)
proof (induction cs arbitrary: rows ps)
  case (Cons c cs)
  define rows' where "rows' = rows @ chunk_rows b ruler c"
  define here where "here = [Suc (length rows) ..< Suc (length rows) + length c]"
  have c: "c \<noteq> []" "length c \<le> b - 1" using Cons.prems(1) by simp_all
  have len: "length rows' = length rows + b"
    using c assms(1) by (simp add: rows'_def length_chunk_rows)
  have step: "push_chunk b ruler c (rows, ps) = (rows', ps @ here)"
    using push_chunk_rows [OF assms(1) c Cons.prems(2)] by (simp add: rows'_def here_def)
  have "\<forall>p\<in>set (ps @ here). p < length rows'" "distinct (ps @ here)" "length rows' mod b = 0"
    using Cons.prems c assms(1) by (auto simp: len here_def)
  with Cons.IH [of rows' "ps @ here"] Cons.prems(1) obtain ps' where
    ih: "fold (push_chunk b ruler) cs (rows', ps @ here) =
        (rows' @ concat (map (chunk_rows b ruler) cs), (ps @ here) @ ps')"
      "map ((!) (rows' @ concat (map (chunk_rows b ruler) cs))) ps' = concat cs"
      "\<forall>p\<in>set ((ps @ here) @ ps'). p < length (rows' @ concat (map (chunk_rows b ruler) cs))"
      "distinct ((ps @ here) @ ps')" by auto
  have "map ((!) (rows' @ concat (map (chunk_rows b ruler) cs))) here = c"
    using nth_seq [of "rows @ [ruler]" c] by (simp add: rows'_def chunk_rows_def here_def)
  with ih step show ?case by (intro exI [of _ "here @ ps'"]) (simp add: rows'_def)
qed simp

lemma pin_shape_spec:
  assumes "2 \<le> b"
  shows "fst (pin_shape texts b ruler) = concat (map (chunk_rows b ruler) (chunks (b - 1) texts))"
    and "map ((!) (fst (pin_shape texts b ruler))) (snd (pin_shape texts b ruler)) = texts"
    and "\<forall>p\<in>set (snd (pin_shape texts b ruler)). p < length (fst (pin_shape texts b ruler))"
    and "distinct (snd (pin_shape texts b ruler))"
proof -
  have "\<forall>c\<in>set (chunks (b - 1) texts). c \<noteq> [] \<and> length c \<le> b - 1" using chunks_length by blast
  from push_chunks [OF assms this, of "[]" "[]" ruler] obtain ps' where
    "pin_shape texts b ruler = (concat (map (chunk_rows b ruler) (chunks (b - 1) texts)), ps')"
    "map ((!) (concat (map (chunk_rows b ruler) (chunks (b - 1) texts)))) ps'
       = concat (chunks (b - 1) texts)"
    "\<forall>p\<in>set ps'. p < length (concat (map (chunk_rows b ruler) (chunks (b - 1) texts)))"
    "distinct ps'"
    by (auto simp: pin_shape_def)
  moreover have "concat (chunks (b - 1) texts) = texts" using assms by (intro concat_chunks) simp
  ultimately show "fst (pin_shape texts b ruler) = concat (map (chunk_rows b ruler) (chunks (b - 1) texts))"
    "map ((!) (fst (pin_shape texts b ruler))) (snd (pin_shape texts b ruler)) = texts"
    "\<forall>p\<in>set (snd (pin_shape texts b ruler)). p < length (fst (pin_shape texts b ruler))"
    "distinct (snd (pin_shape texts b ruler))"
    by simp_all
qed

section \<open>Layouts and unpinning\<close>

lemma take_rows_nth:
  "distinct is \<Longrightarrow> \<forall>i\<in>set is. i < length taken \<and> taken ! i \<noteq> None \<Longrightarrow>
     take_rows taken is = map (\<lambda>i. the (taken ! i)) is"
proof (induction "is" arbitrary: taken)
  case (Cons i "is")
  then have "take_rows (taken[i := None]) is = map (\<lambda>j. the (taken[i := None] ! j)) is"
    by (intro Cons.IH) (auto simp: nth_list_update)
  with Cons.prems show ?case by (auto simp: nth_list_update)
qed simp

lemma unpin_rows_ok:
  assumes "distinct ps" "\<forall>p\<in>set ps. p < length rows"
  shows "unpin_rows rows ps = Ok (map ((!) rows) ps)"
proof -
  have "ps \<noteq> [] \<Longrightarrow> Max (set ps) < length rows" using assms(2) by simp
  then show ?thesis
    using assms by (auto simp: unpin_rows_def Let_def take_rows_nth not_less Suc_le_eq)
qed

lemma unpin_rows_short:
  "p \<in> set ps \<Longrightarrow> length rows \<le> p \<Longrightarrow> \<exists>m. unpin_rows rows ps = Err (Message m)"
proof -
  assume "p \<in> set ps" "length rows \<le> p"
  then have "ps \<noteq> []" "length rows \<le> Max (set ps)" by (auto intro: order_trans Max_ge)
  then show ?thesis by (simp add: unpin_rows_def)
qed

text \<open>A layout: rows sent to the engine, and the position of every text among them.\<close>

locale row_layout =
  fixes layout :: "'a list \<Rightarrow> 'a list \<times> nat list"
  assumes layout_selects: "map ((!) (fst (layout texts))) (snd (layout texts)) = texts"
    and layout_in_range: "p \<in> set (snd (layout texts)) \<Longrightarrow> p < length (fst (layout texts))"
    and layout_distinct: "distinct (snd (layout texts))"
begin

lemma layout_positions: "length (snd (layout texts)) = length texts"
  using layout_selects [of texts] by (metis length_map)

text \<open>An engine that answers row by row is read back text by text, whatever rows were added.\<close>

lemma unpin_inverts:
  "unpin_rows (map f (fst (layout texts)) @ extra) (snd (layout texts)) = Ok (map f texts)"
proof -
  let ?l = "layout texts"
  have "unpin_rows (map f (fst ?l) @ extra) (snd ?l) = Ok (map ((!) (map f (fst ?l) @ extra)) (snd ?l))"
    by (rule unpin_rows_ok [OF layout_distinct]) (auto dest: layout_in_range)
  also have "map ((!) (map f (fst ?l) @ extra)) (snd ?l) = map f (map ((!) (fst ?l)) (snd ?l))"
    by (auto simp: nth_append dest: layout_in_range)
  finally show ?thesis by (simp add: layout_selects)
qed

end

interpretation pinned: row_layout "\<lambda>texts. pin_shape texts (Suc (Suc b)) ruler" for b ruler
proof
  have two: "2 \<le> Suc (Suc b)" by simp
  fix texts :: "'a list" and p
  show "map ((!) (fst (pin_shape texts (Suc (Suc b)) ruler)))
      (snd (pin_shape texts (Suc (Suc b)) ruler)) = texts"
    by (rule pin_shape_spec(2) [OF two])
  show "p \<in> set (snd (pin_shape texts (Suc (Suc b)) ruler)) \<Longrightarrow>
      p < length (fst (pin_shape texts (Suc (Suc b)) ruler))"
    by (rule bspec [OF pin_shape_spec(3) [OF two]])
  show "distinct (snd (pin_shape texts (Suc (Suc b)) ruler))"
    by (rule pin_shape_spec(4) [OF two])
qed

interpretation natural: row_layout "\<lambda>texts. (texts, [0 ..< length texts])"
proof
  fix texts :: "'a list" and p
  show "map ((!) (fst (texts, [0 ..< length texts]))) (snd (texts, [0 ..< length texts])) = texts"
    by (simp only: fst_conv snd_conv map_nth)
qed simp_all

lemma unpin_pinned:
  assumes "2 \<le> b"
  shows "unpin_rows (map f (fst (pin_shape texts b ruler)) @ extra) (snd (pin_shape texts b ruler)) =
    Ok (map f texts)"
proof -
  from assms obtain n where "b = Suc (Suc n)" by (cases b; cases "b - 1") auto
  then show ?thesis by (simp add: pinned.unpin_inverts)
qed

text \<open>
  C20: pinning loses no text and mixes none up. At every batch of at least two, an engine that
  answers each row of the pinned layout independently is read back as the answers of the texts, in
  the order they were sent; rows the engine returns beyond the layout change nothing.
\<close>

theorem pin_unpin_roundtrip:
  assumes "2 \<le> b"
  shows "unpin_rows (map f (fst (pin_shape texts b ruler)) @ extra) (snd (pin_shape texts b ruler)) =
    Ok (map f texts)"
  using assms by (rule unpin_pinned)

lemma pin_unpin_roundtrip_witness:
  "unpin_rows (map (\<lambda>x. x + 1) (fst (pin_shape [10, 20, 30] 3 (0 :: nat))) @ [])
     (snd (pin_shape [10, 20, 30] 3 (0 :: nat))) = Ok [11, 21, 31]"
  using pin_unpin_roundtrip [of 3 "\<lambda>x. x + 1" "[10, 20, 30 :: nat]" 0 "[]"] by simp

lemma unpin_short_layout:
  assumes "2 \<le> b" "texts \<noteq> []" and "length rows \<le> last (snd (pin_shape texts b ruler))"
  shows "\<exists>m. unpin_rows rows (snd (pin_shape texts b ruler)) = Err (Message m)"
proof -
  have "snd (pin_shape texts b ruler) \<noteq> []"
    using pin_shape_spec(2) [OF assms(1), of texts ruler] assms(2) by auto
  then show ?thesis using assms(3) by (intro unpin_rows_short [OF last_in_set])
qed

text \<open>
  Every chunk has the same shape. The pinned rows are a whole number of batches, each one led by
  the ruler, and there are as many batches as the texts need at one row per batch for the ruler.
\<close>

theorem pinned_batches_uniform:
  assumes "2 \<le> b"
  shows "length (fst (pin_shape texts b ruler)) = b * ((length texts + b - 2) div (b - 1)) \<and>
    (\<forall>k < (length texts + b - 2) div (b - 1). fst (pin_shape texts b ruler) ! (b * k) = ruler)"
proof -
  let ?cs = "chunks (b - 1) texts"
  have lens: "\<forall>c\<in>set ?cs. length (chunk_rows b ruler c) = b"
    using chunks_length [of _ "b - 1" texts] assms by (auto intro: length_chunk_rows)
  have n: "length ?cs = (length texts + b - 2) div (b - 1)"
    using assms length_chunks [of "b - 1" texts] by (simp add: numeral_2_eq_2)
  have "length (concat (map (chunk_rows b ruler) cs)) = b * length cs \<and>
     (\<forall>k < length cs. concat (map (chunk_rows b ruler) cs) ! (b * k) = ruler)"
    if "\<forall>c\<in>set cs. length (chunk_rows b ruler c) = b" for cs
    using that
  proof (induction cs)
    case (Cons c cs)
    show ?case
    proof (intro conjI allI impI)
      fix k assume "k < length (c # cs)"
      with Cons show "concat (map (chunk_rows b ruler) (c # cs)) ! (b * k) = ruler"
        by (cases k) (simp_all add: nth_append, simp add: chunk_rows_def)
    qed (use Cons in simp)
  qed simp
  with lens n show ?thesis by (simp add: pin_shape_spec(1) [OF assms])
qed

lemma pinned_batches_uniform_witness:
  "length (fst (pin_shape [1, 2, 3] 3 (0 :: nat))) = 6"
  using pinned_batches_uniform [of 3 "[1, 2, 3 :: nat]" 0] by simp

text \<open>
  The number of texts the sidecar reports fills exactly one batch. Under pinning, a call with
  \<open>embed_batch_texts\<close> texts is laid out in exactly one batch of the configured size, and one text more
  costs a second batch.
\<close>

theorem embed_batch_texts_fill_one_batch:
  assumes "should_pin_shape (pin_input_shape cfg) provider" and "2 \<le> max_batch cfg"
    and "length texts = embed_batch_texts cfg provider"
  shows "length (fst (pin_shape texts (max_batch cfg) ruler)) = max_batch cfg \<and>
    length (fst (pin_shape (t # texts) (max_batch cfg) ruler)) = 2 * max_batch cfg"
proof -
  let ?b = "max_batch cfg"
  have n: "length texts = ?b - 1" using assms by (simp add: embed_batch_texts_def Let_def max_def)
  with assms(2) have "(length texts + ?b - 2) div (?b - 1) = 1" "(length (t # texts) + ?b - 2) div (?b - 1) = 2"
    by (auto intro!: div_nat_eqI)
  then show ?thesis
    using pinned_batches_uniform [OF assms(2), of texts ruler]
      pinned_batches_uniform [OF assms(2), of "t # texts" ruler] by simp
qed

definition pinning_config :: config where
  "pinning_config = (config_from_env Map.empty)\<lparr>max_batch := 3, pin_input_shape := ''1''\<rparr>"

lemma embed_batch_texts_fill_one_batch_witness:
  "length (fst (pin_shape [1, 2] 3 (0 :: nat))) = 3"
proof -
  have p: "should_pin_shape (pin_input_shape pinning_config) ''cuda''" "max_batch pinning_config = 3"
    "embed_batch_texts pinning_config ''cuda'' = 2"
  proof -
    have "lowercase (trim ''1'') \<in> set [''1'', ''true'', ''on'', ''yes'']" by code_simp
    then have pin: "should_pin_shape ''1'' provider" for provider
      unfolding should_pin_shape_def Let_def by (simp only: if_True)
    show "max_batch pinning_config = 3" "should_pin_shape (pin_input_shape pinning_config) ''cuda''"
      "embed_batch_texts pinning_config ''cuda'' = 2"
      by (simp_all add: pinning_config_def pin embed_batch_texts_def)
  qed
  then show ?thesis
    using embed_batch_texts_fill_one_batch [of pinning_config "''cuda''" "[1, 2 :: nat]" 0] by simp
qed

section \<open>Settling\<close>

text \<open>
  One pass of the engine is a call with effects: it takes the state of the engine and returns what
  the session returned beside the new state. \<open>settle\<close> is the loop with the attempts that remain.
\<close>

definition settle_attempts :: nat where
  "settle_attempts = 3"

type_synonym ('s, 'a) pass = "'s \<Rightarrow> (app_error, 'a list) outcome \<times> 's"

fun settle :: "string \<Rightarrow> nat \<Rightarrow> ('s, 'a) pass \<Rightarrow> nat \<Rightarrow> nat \<Rightarrow> 's \<Rightarrow> (app_error, 'a list) outcome \<times> 's" where
  "settle what expected pass 0 short s =
     (Err (Message (what @ '': the session kept returning short batches ('' @ show_nat short @ '' of ''
        @ show_nat expected @ '' row(s)) after '' @ show_nat settle_attempts
        @ '' run(s) '' @ em_dash @ '' refusing to serve a partial result'')), s)"
| "settle what expected pass (Suc left) short s =
     (case pass s of
        (Ok rows, s') \<Rightarrow>
          if expected \<le> length rows then (Ok rows, s')
          else settle what expected pass left (length rows) s'
      | (Err e, s') \<Rightarrow>
          if 0 < left then settle what expected pass left short s' else (Err e, s')
      | (Panic, s') \<Rightarrow> (Panic, s'))"

definition embed_settling ::
  "string \<Rightarrow> nat \<Rightarrow> bool \<Rightarrow> ('s, 'a) pass \<Rightarrow> 's \<Rightarrow> (app_error, 'a list) outcome \<times> 's" where
  "embed_settling what expected retry_short pass s =
     (if \<not> retry_short then pass s else settle what expected pass settle_attempts 0 s)"

lemma settle_full: "fst (settle what n pass k short s) = Ok rows \<Longrightarrow> n \<le> length rows"
  by (induction k arbitrary: short s)
    (auto split: prod.splits outcome.splits if_splits)

text \<open>The state after \<open>k\<close> passes, and what pass \<open>k\<close> returned, when the same batch runs again and again.\<close>

fun passes :: "('s, 'a) pass \<Rightarrow> nat \<Rightarrow> 's \<Rightarrow> 's" where
  "passes pass 0 s = s"
| "passes pass (Suc k) s = passes pass k (snd (pass s))"

definition full_at :: "nat \<Rightarrow> ('s, 'a) pass \<Rightarrow> nat \<Rightarrow> 's \<Rightarrow> 'a list \<Rightarrow> bool" where
  "full_at n pass k s rows \<longleftrightarrow> fst (pass (passes pass k s)) = Ok rows \<and> n \<le> length rows"

lemma settle_first_full:
  "k < left \<Longrightarrow> full_at n pass k s rows \<Longrightarrow>
     \<forall>j<k. fst (pass (passes pass j s)) \<noteq> Panic \<and> (\<forall>r. \<not> full_at n pass j s r) \<Longrightarrow>
     settle what n pass left short s = (Ok rows, passes pass (Suc k) s)"
proof (induction left arbitrary: k short s)
  case (Suc left)
  obtain r s' where p: "pass s = (r, s')" by (cases "pass s")
  show ?case
  proof (cases k)
    case 0
    with Suc.prems(2) p show ?thesis by (simp add: full_at_def)
  next
    case (Suc j)
    have sh: "passes pass (Suc i) s = passes pass i s'" for i using p by simp
    have "full_at n pass j s' rows" using Suc.prems(2) Suc sh by (simp add: full_at_def)
    moreover have "\<forall>i<j. fst (pass (passes pass i s')) \<noteq> Panic \<and> (\<forall>r. \<not> full_at n pass i s' r)"
      using Suc.prems(3) Suc sh by (metis Suc_less_eq full_at_def)
    ultimately have ih: "settle what n pass left sh' s' = (Ok rows, passes pass (Suc j) s')" for sh'
      using Suc.IH [of j s'] Suc.prems(1) Suc by simp
    have first: "r \<noteq> Panic" "\<forall>rs. r = Ok rs \<longrightarrow> \<not> n \<le> length rs"
      using Suc.prems(3) Suc p by (auto simp: full_at_def)
    have "0 < left" using Suc.prems(1) Suc by simp
    with first ih show ?thesis by (cases r) (simp_all add: p Suc)
  qed
qed simp

text \<open>
  A partial batch is never served, and a session that settles within three runs is. With the
  retry on, a result has at least as many rows as were asked for; and when one of the first three
  runs of the batch is full, no earlier run having panicked, the call returns the rows of the first
  full run, after exactly that many runs.
\<close>

theorem embed_settling_serves_full_batches:
  "(fst (embed_settling what n True pass s) = Ok rows \<longrightarrow> n \<le> length rows) \<and>
   (k < 3 \<and> full_at n pass k s full \<and>
     (\<forall>j<k. fst (pass (passes pass j s)) \<noteq> Panic \<and> (\<forall>r. \<not> full_at n pass j s r)) \<longrightarrow>
     embed_settling what n True pass s = (Ok full, passes pass (Suc k) s))"
  using settle_full [of what n pass settle_attempts 0 s rows]
    settle_first_full [of k settle_attempts n pass s full what 0]
  by (simp add: embed_settling_def settle_attempts_def)

definition second_run_full :: "(nat, nat) pass" where
  "second_run_full s = (if s = 0 then (Ok [7], 1) else (Ok [7, 8], s + 1))"

lemma embed_settling_serves_full_batches_witness:
  "embed_settling ''embed'' 2 True second_run_full 0 = (Ok [7, 8], 2)"
  using embed_settling_serves_full_batches [of "''embed''" 2 second_run_full 0 "[]" 1 "[7, 8]"]
  by (simp add: full_at_def second_run_full_def less_Suc_eq)

section \<open>Aligned scores\<close>

definition f32_neg :: "f32 \<Rightarrow> f32" where
  "f32_neg x = xor x 0x80000000"

text \<open>\<open>expf\<close> is the platform's exponential, which IEEE 754 does not fix.\<close>

definition sigmoid :: "(f32 \<Rightarrow> f32) \<Rightarrow> f32 \<Rightarrow> f32" where
  "sigmoid expf x = f32_div 0x3F800000 (f32_add 0x3F800000 (expf (f32_neg x)))"

definition aligned_scores :: "(f32 \<Rightarrow> f32) \<Rightarrow> nat \<Rightarrow> (nat \<times> f32) list \<Rightarrow> f32 list" where
  "aligned_scores expf count results =
     fold (\<lambda>(index, raw) scores.
         if index < count then scores[index := sigmoid expf raw] else scores)
       results (replicate count 0)"

lemma length_fold_scores:
  "length (fold (\<lambda>(index, raw) scores. if index < n then scores[index := f raw] else scores) rs ss) =
     length ss"
  by (induction rs arbitrary: ss) (auto split: prod.splits)

lemma fold_scores_other:
  "i \<notin> fst ` set rs \<Longrightarrow>
     fold (\<lambda>(index, raw) scores. if index < n then scores[index := f raw] else scores) rs ss ! i = ss ! i"
  by (induction rs arbitrary: ss) (auto split: prod.splits)

lemma fold_scores_nth:
  "distinct (map fst rs) \<Longrightarrow> (i, raw) \<in> set rs \<Longrightarrow> i < n \<Longrightarrow> length ss = n \<Longrightarrow>
     fold (\<lambda>(index, raw) scores. if index < n then scores[index := f raw] else scores) rs ss ! i = f raw"
proof (induction rs arbitrary: ss)
  case (Cons r rs)
  obtain j q where r: "r = (j, q)" by (cases r)
  show ?case
  proof (cases "i = j")
    case True
    with Cons.prems r have "i \<notin> fst ` set rs" "raw = q" by force+
    with True Cons.prems r show ?thesis by (simp add: fold_scores_other)
  next
    case False
    with Cons r show ?thesis by simp
  qed
qed simp

text \<open>
  Scores go back to their own documents. However the reranker sorted its results, when it
  returned one result per document each position holds the sigmoid of its document's raw score;
  there is one score per document in any case.
\<close>

theorem scores_follow_documents:
  assumes "distinct (map fst results)"
  shows "length (aligned_scores expf n results) = n \<and>
    (\<forall>i<n. (\<forall>raw. (i, raw) \<in> set results \<longrightarrow> aligned_scores expf n results ! i = sigmoid expf raw) \<and>
      (i \<notin> fst ` set results \<longrightarrow> aligned_scores expf n results ! i = 0))"
  using assms
  by (auto simp: aligned_scores_def length_fold_scores fold_scores_nth fold_scores_other)

lemma scores_follow_documents_witness:
  "aligned_scores (\<lambda>x. x) 2 [(1, 5), (0, 9)] ! 1 = sigmoid (\<lambda>x. x) 5"
proof -
  have "distinct (map fst [(1 :: nat, 5 :: f32), (0, 9)])" by simp
  from scores_follow_documents [OF this, of "\<lambda>x. x" 2, THEN conjunct2, rule_format, of 1]
  show ?thesis by simp
qed

end
