(* ===== verification/Canary.thy ===== *)
theory Canary
  imports Row_Layout
begin

text \<open>
  \<open>src/canary.rs\<close>: the build-time canary. The stored form of the reference vector, the cosine, the
  bounded check a freshly built engine must pass, and the verdict a build keeps of itself. The
  reference vector is the data of \<open>canary-reference.f32le\<close>, a parameter here; the loading of the
  engine around the check is in theory \<open>Inference\<close>.
\<close>

definition canary_text :: string where
  "canary_text = ''A canary sentence for the bge-m3 engine self-check: '' @
     ''the quick brown fox jumps over the lazy dog 0123456789.''"

text \<open>The bits of \<open>0.99f32\<close> and \<open>0.999f32\<close>, and of \<open>-1.0f32\<close>.\<close>

definition canary_min_cosine :: f32 where
  "canary_min_cosine = 0x3F7D70A4"

definition verified_min_cosine :: f32 where
  "verified_min_cosine = 0x3F7FBE77"

definition f32_minus_one :: f32 where
  "f32_minus_one = 0xBF800000"

section \<open>The stored reference\<close>

type_synonym byte = "8 word"

definition to_le_bytes :: "f32 \<Rightarrow> byte list" where
  "to_le_bytes w =
     [ucast w, ucast (drop_bit 8 w), ucast (drop_bit 16 w), ucast (drop_bit 24 w)]"

definition from_le_bytes :: "byte \<Rightarrow> byte \<Rightarrow> byte \<Rightarrow> byte \<Rightarrow> f32" where
  "from_le_bytes a b c d =
     or (ucast a) (or (push_bit 8 (ucast b)) (or (push_bit 16 (ucast c)) (push_bit 24 (ucast d))))"

text \<open>\<open>chunks_exact(4)\<close> drops a scored chunk that is not full.\<close>

fun decode_reference :: "byte list \<Rightarrow> f32 list" where
  "decode_reference (a # b # c # d # rest) = from_le_bytes a b c d # decode_reference rest"
| "decode_reference rest = []"

definition encode_reference :: "f32 list \<Rightarrow> byte list" where
  "encode_reference vector = concat (map to_le_bytes vector)"

lemma from_to_le_bytes:
  "from_le_bytes (ucast w) (ucast (drop_bit 8 w)) (ucast (drop_bit 16 w)) (ucast (drop_bit 24 w)) = w"
proof (rule bit_word_eqI)
  fix n assume "n < LENGTH(32)"
  then show "bit (from_le_bytes (ucast w) (ucast (drop_bit 8 w)) (ucast (drop_bit 16 w))
      (ucast (drop_bit 24 w))) n \<longleftrightarrow> bit w n"
    unfolding from_le_bytes_def by (cases "n < 24"; cases "n < 16") (auto simp: bit_simps)
qed

lemma le_byte_parts:
  "(ucast (from_le_bytes a b c d) :: byte) = a"
  "(ucast (drop_bit 8 (from_le_bytes a b c d)) :: byte) = b"
  "(ucast (drop_bit 16 (from_le_bytes a b c d)) :: byte) = c"
  "(ucast (drop_bit 24 (from_le_bytes a b c d)) :: byte) = d"
  unfolding from_le_bytes_def
  by (rule bit_word_eqI, auto simp: bit_simps dest: bit_imp_le_length)+

lemma to_from_le_bytes: "to_le_bytes (from_le_bytes a b c d) = [a, b, c, d]"
  by (simp add: to_le_bytes_def le_byte_parts)

lemma decode_encode_reference: "decode_reference (encode_reference v) = v"
  by (induction v) (simp_all add: encode_reference_def to_le_bytes_def from_to_le_bytes)

text \<open>
  What the generator writes, the reader reads. Encoding a vector and decoding it gives the
  vector bit for bit, NaNs and infinities included; and every file of whole \<open>f32\<close>s is the encoding
  of what is read from it.
\<close>

theorem reference_roundtrip:
  "decode_reference (encode_reference v) = v \<and>
   (length bytes mod 4 = 0 \<longrightarrow> encode_reference (decode_reference bytes) = bytes)"
proof
  show "decode_reference (encode_reference v) = v" by (rule decode_encode_reference)
  show "length bytes mod 4 = 0 \<longrightarrow> encode_reference (decode_reference bytes) = bytes"
    by (induction bytes rule: decode_reference.induct)
      (simp_all add: encode_reference_def to_from_le_bytes)
qed

lemma reference_roundtrip_witness:
  "encode_reference (decode_reference [0, 0, 0x80, 0x3F]) = [0, 0, 0x80, 0x3F]"
  using reference_roundtrip [of "[]" "[0, 0, 0x80, 0x3F]"] by simp

section \<open>The cosine\<close>

definition dot_step :: "f32 \<times> f32 \<Rightarrow> f32 \<times> f32 \<times> f32 \<Rightarrow> f32 \<times> f32 \<times> f32" where
  "dot_step xy acc =
     (case (xy, acc) of ((x, y), (dot, na, nb)) \<Rightarrow>
        (f32_add dot (f32_mul x y), f32_add na (f32_mul x x), f32_add nb (f32_mul y y)))"

definition cosine :: "f32 list \<Rightarrow> f32 list \<Rightarrow> f32" where
  "cosine a b =
     (if length a \<noteq> length b \<or> a = [] then f32_minus_one
      else (case fold dot_step (zip a b) (0, 0, 0) of (dot, na, nb) \<Rightarrow>
          if f32_eq na 0 \<or> f32_eq nb 0 then f32_minus_one
          else f32_div dot (f32_mul (f32_sqrt na) (f32_sqrt nb))))"

lemma cosine_mismatch: "length a \<noteq> length b \<Longrightarrow> cosine a b = f32_minus_one"
  by (simp add: cosine_def)

lemma minus_one_below: "\<not> f32_ge f32_minus_one canary_min_cosine"
  by (simp add: f32_ge_def f32_minus_one_def canary_min_cosine_def f32_decode_def with_sign_def)

lemma fold_dot_swap:
  "fold dot_step (zip b a) (dot, nb, na) =
     (case fold dot_step (zip a b) (dot, na, nb) of (d, m, n) \<Rightarrow> (d, n, m))"
proof (induction a arbitrary: b dot na nb)
  case (Cons x xs)
  then show ?case
    by (cases b) (auto simp: dot_step_def f32_mul_commute split: prod.splits)
qed simp

lemma cosine_commute: "cosine a b = cosine b a"
proof (cases "length a = length b")
  case True
  then show ?thesis
    using fold_dot_swap [of b a 0 0 0]
    by (auto simp: cosine_def f32_mul_commute split: prod.splits)
qed (simp add: cosine_def)

section \<open>The check\<close>

text \<open>
  One run of an engine: rows of a dense and a sparse vector for a batch of texts at a batch size,
  with the engine's own state.
\<close>

type_synonym ('e, 'sp) embed_call =
  "string list \<Rightarrow> nat \<Rightarrow> 'e \<Rightarrow> (app_error, (f32 list \<times> 'sp) list) outcome \<times> 'e"

definition canary_batch :: "limits \<Rightarrow> bool \<Rightarrow> string list \<times> nat" where
  "canary_batch lim pin =
     (if pin \<and> 2 \<le> lm_batch lim
      then (let (expanded, positions) = pin_shape [canary_text] (lm_batch lim) ruler_text
            in (expanded, positions ! 0))
      else ([canary_text], 0))"

fun canary_runs ::
  "f32 list \<Rightarrow> (('e, f32 list \<times> 'sp) pass) \<Rightarrow> nat \<Rightarrow> nat \<Rightarrow> f32 \<Rightarrow> 'e \<Rightarrow>
     (app_error, canary_outcome) outcome \<times> 'e" where
  "canary_runs reference run at_row 0 scored e =
     (Err (Canary_Failed \<lparr>co_cosine = scored, co_attempts = settle_attempts\<rparr>), e)"
| "canary_runs reference run at_row (Suc left) scored e =
     (case run e of
        (Ok rows, e') \<Rightarrow>
          (case nth_opt rows at_row of
             Some row \<Rightarrow>
               (let cos = cosine (fst row) reference
                in if f32_ge cos canary_min_cosine
                   then (Ok \<lparr>co_cosine = cos, co_attempts = settle_attempts - left\<rparr>, e')
                   else canary_runs reference run at_row left cos e')
           | None \<Rightarrow> canary_runs reference run at_row left scored e')
      | (Err err, e') \<Rightarrow>
          if 0 < left then canary_runs reference run at_row left scored e'
          else (Err (Context ''canary run failed outright'' err), e')
      | (Panic, e') \<Rightarrow> (Panic, e'))"

definition canary_check ::
  "f32 list \<Rightarrow> ('e, 'sp) embed_call \<Rightarrow> limits \<Rightarrow> bool \<Rightarrow> 'e \<Rightarrow>
     (app_error, canary_outcome) outcome \<times> 'e" where
  "canary_check reference embed_rows lim pin e =
     (case canary_batch lim pin of (texts, at_row) \<Rightarrow>
        canary_runs reference (embed_rows texts (lm_batch lim)) at_row settle_attempts f32_minus_one e)"

lemma canary_runs_ok:
  "fst (canary_runs reference run at_row left scored e) = Ok k \<Longrightarrow> left \<le> settle_attempts \<Longrightarrow>
     f32_ge (co_cosine k) canary_min_cosine \<and> 1 \<le> co_attempts k \<and> co_attempts k \<le> settle_attempts \<and>
     (\<exists>e' rows row. fst (run e') = Ok rows \<and> nth_opt rows at_row = Some row \<and>
        co_cosine k = cosine (fst row) reference)"
proof (induction left arbitrary: scored e)
  case (Suc left)
  obtain r e' where r: "run e = (r, e')" by (cases "run e")
  show ?case
  proof (cases r)
    case (Ok rows)
    show ?thesis
    proof (cases "nth_opt rows at_row")
      case None
      with Ok r Suc show ?thesis by simp
    next
      case (Some row)
      show ?thesis
      proof (cases "f32_ge (cosine (fst row) reference) canary_min_cosine")
        case True
        with Ok r Some Suc.prems have "k = \<lparr>co_cosine = cosine (fst row) reference,
            co_attempts = settle_attempts - left\<rparr>" by simp
        moreover have "1 \<le> settle_attempts - left" using Suc.prems(2) by simp
        ultimately show ?thesis
          using True Some Ok r by (cases row) (auto intro!: exI [of _ e])
      next
        case False
        with Ok r Some Suc show ?thesis by (simp add: Let_def)
      qed
    qed
  next
    case (Err err)
    with r Suc show ?thesis by (auto split: if_splits)
  next
    case Panic
    with r Suc show ?thesis by simp
  qed
qed simp



section \<open>The verdict a build keeps of itself\<close>

record self_check =
  sc_cosine :: "f32 option"
  sc_attempts :: nat
  sc_serving :: bool
  sc_verified :: bool
  sc_since :: nanos

definition self_check_passed :: "canary_outcome \<Rightarrow> nanos \<Rightarrow> self_check" where
  "self_check_passed k now =
     \<lparr>sc_cosine = Some (co_cosine k), sc_attempts = co_attempts k, sc_serving = True,
      sc_verified = f32_ge (co_cosine k) verified_min_cosine, sc_since = now\<rparr>"

definition self_check_failed :: "canary_outcome option \<Rightarrow> nanos \<Rightarrow> self_check" where
  "self_check_failed k now =
     \<lparr>sc_cosine = map_option co_cosine k,
      sc_attempts = (case k of None \<Rightarrow> 0 | Some o' \<Rightarrow> co_attempts o'), sc_serving = False,
      sc_verified = False, sc_since = now\<rparr>"

text \<open>\<open>record_self_check\<close>: the cell is healed when an earlier panic poisoned it.\<close>

definition record_self_check ::
  "(app_error, canary_outcome) outcome \<Rightarrow> nanos \<Rightarrow> self_check option mutex \<Rightarrow> self_check option mutex" where
  "record_self_check r now cell =
     (case r of
        Ok k \<Rightarrow> cell\<lparr>mx_val := Some (self_check_passed k now), mx_poisoned := False\<rparr>
      | Err e \<Rightarrow> cell\<lparr>mx_val := Some (self_check_failed (downcast_canary e) now), mx_poisoned := False\<rparr>
      | Panic \<Rightarrow> cell)"

lemma verified_above_serving: "f32_ge verified_min_cosine canary_min_cosine"
  by (simp add: f32_ge_def verified_min_cosine_def canary_min_cosine_def f32_decode_def with_sign_def)

lemma canary_check_failure_carries_score:
  "canary_runs reference run at_row 0 scored e =
     (Err (Canary_Failed \<lparr>co_cosine = scored, co_attempts = 3\<rparr>), e)"
  by (simp add: settle_attempts_def)

text \<open>
  The two bars are ordered and the recorded verdict is the check's. Whatever a check returns,
  the record says serving exactly when the check passed; a verified build is a serving one, its cosine
  clears both bars; and an engine that threw instead of scoring has no cosine at all.
\<close>

theorem self_check_record_honest:
  assumes "fst (canary_check reference embed_rows lim pin e) = r"
    and "mx_val (record_self_check r now cell) = Some c"
    and "r \<noteq> Panic"
  shows "(sc_serving c \<longleftrightarrow> is_ok r) \<and>
    (sc_verified c \<longrightarrow> sc_serving c \<and> (\<exists>x. sc_cosine c = Some x \<and> f32_ge x verified_min_cosine \<and>
       f32_ge x canary_min_cosine)) \<and>
    (sc_cosine c = None \<longleftrightarrow> (\<exists>err. r = Err err \<and> downcast_canary err = None))"
  using assms(2,3) f32_ge_trans [OF _ verified_above_serving]
  by (cases r) (auto simp: record_self_check_def self_check_passed_def self_check_failed_def)

lemma self_check_record_honest_witness:
  "\<not> sc_serving (self_check_failed None 9)"
proof -
  define call :: "(nat, nat) embed_call" where "call = (\<lambda>texts b e. (Err (Lib_Error ''x''), e))"
  have r: "fst (canary_check [] call \<lparr>max_length = 256, lm_batch = 1\<rparr> False (0 :: nat)) =
      Err (Context ''canary run failed outright'' (Lib_Error ''x''))"
    by (simp add: canary_check_def canary_batch_def call_def settle_attempts_def numeral_3_eq_3)
  have m: "mx_val (record_self_check (Err (Context ''canary run failed outright'' (Lib_Error ''x''))) 9
      (new_mutex None)) = Some (self_check_failed None 9)"
    by (simp add: record_self_check_def)
  from self_check_record_honest [OF r m] show ?thesis by simp
qed

end
