(* ===== verification/Tokens.thy ===== *)
theory Tokens
  imports Config
begin

text \<open>
  \<open>src/tokens.rs\<close>: the registry of tokenizers this build can count with, and the accounting of what
  a request's texts cost. The tokenizers library is a parameter: \<open>parse\<close> reads a file into a
  tokenizer, \<open>encode\<close> counts a text with special tokens or refuses it; \<open>is_file\<close> and the listing of
  the snapshot directory are answers of the file system.
\<close>

definition bge_tokenizer :: string where "bge_tokenizer = ''bge''"
definition qwen_tokenizer :: string where "qwen_tokenizer = ''qwen''"

record tokenizer_source =
  ts_name :: string
  ts_path :: "string option"

record 't tokenizer_entry =
  te_name :: string
  te_source :: "string option"
  te_tokenizer :: "'t option"

type_synonym 't tokenizer_registry = "'t tokenizer_entry list"

definition path_join :: "string \<Rightarrow> string \<Rightarrow> string" where
  "path_join a b = (if a = [] then b else if last a = CHR ''/'' then a @ b else a @ ''/'' @ b)"

text \<open>\<open>read_dir\<close> gives the directory's entries or an error; an entry itself may be an error.\<close>

definition find_tokenizer_file ::
  "(string \<Rightarrow> string option list option) \<Rightarrow> (string \<Rightarrow> bool) \<Rightarrow> string \<Rightarrow> string option" where
  "find_tokenizer_file read_dir is_file dir =
     (case read_dir (path_join (path_join dir ''models--BAAI--bge-m3'') ''snapshots'') of
        None \<Rightarrow> None
      | Some entries \<Rightarrow>
          find is_file (map (\<lambda>p. path_join p ''tokenizer.json'') (List.map_filter id entries)))"

definition load_tokenizer_row ::
  "(string \<Rightarrow> bool) \<Rightarrow> (string \<Rightarrow> 't option) \<Rightarrow> tokenizer_source \<Rightarrow> 't tokenizer_entry" where
  "load_tokenizer_row is_file parse src =
     (case ts_path src of
        Some path \<Rightarrow>
          if is_file path
          then \<lparr>te_name = ts_name src, te_source = Some path, te_tokenizer = parse path\<rparr>
          else \<lparr>te_name = ts_name src, te_source = None, te_tokenizer = None\<rparr>
      | None \<Rightarrow> \<lparr>te_name = ts_name src, te_source = None, te_tokenizer = None\<rparr>)"

definition from_sources ::
  "(string \<Rightarrow> bool) \<Rightarrow> (string \<Rightarrow> 't option) \<Rightarrow> tokenizer_source list \<Rightarrow> 't tokenizer_registry" where
  "from_sources is_file parse sources = map (load_tokenizer_row is_file parse) sources"

definition registry_load ::
  "(string \<Rightarrow> string option list option) \<Rightarrow> (string \<Rightarrow> bool) \<Rightarrow> (string \<Rightarrow> 't option) \<Rightarrow> config \<Rightarrow>
     't tokenizer_registry" where
  "registry_load read_dir is_file parse cfg =
     from_sources is_file parse
       [\<lparr>ts_name = bge_tokenizer, ts_path = find_tokenizer_file read_dir is_file (cache_dir cfg)\<rparr>,
        \<lparr>ts_name = qwen_tokenizer, ts_path = Some (qwen_tokenizer_path cfg)\<rparr>]"

definition registry_entry :: "'t tokenizer_registry \<Rightarrow> string \<Rightarrow> 't tokenizer_entry option" where
  "registry_entry reg name = find (\<lambda>e. te_name e = name) reg"

definition registry_names :: "'t tokenizer_registry \<Rightarrow> string" where
  "registry_names reg =
     join '', '' (map (\<lambda>e. [CHR 0x27] @ te_name e @ [CHR 0x27]) reg)"

definition describe_row :: "'t tokenizer_entry \<Rightarrow> string" where
  "describe_row e =
     (let quoted = [CHR 0x27] @ te_name e @ [CHR 0x27]
      in case (te_source e, te_tokenizer e) of
           (Some path, Some t) \<Rightarrow> quoted @ '' <- '' @ path
         | (Some path, None) \<Rightarrow> quoted @ '' UNAVAILABLE (would not parse: '' @ path @ '')''
         | (None, t) \<Rightarrow> quoted @ '' UNAVAILABLE (no file found)'')"

definition registry_describe :: "'t tokenizer_registry \<Rightarrow> string" where
  "registry_describe reg = join '', '' (map describe_row reg)"

section \<open>Counting\<close>

record token_report =
  tu_token_count :: "nat list"
  tu_truncated :: "bool list"
  tu_max_length :: nat
  tu_accounting :: bool

definition token_usage_default :: token_report where
  "token_usage_default =
     \<lparr>tu_token_count = [], tu_truncated = [], tu_max_length = 0, tu_accounting = False\<rparr>"

definition count_tokens :: "('t \<Rightarrow> string \<Rightarrow> nat option) \<Rightarrow> 't \<Rightarrow> string list \<Rightarrow> nat option list" where
  "count_tokens encode tokenizer texts = map (encode tokenizer) texts"

definition usage_from_counts :: "nat option list \<Rightarrow> nat \<Rightarrow> token_report" where
  "usage_from_counts counts cap =
     (case collect_options counts of
        None \<Rightarrow> token_usage_default\<lparr>tu_max_length := cap\<rparr>
      | Some measured \<Rightarrow>
          \<lparr>tu_token_count = measured, tu_truncated = map (\<lambda>n. cap < n) measured,
           tu_max_length = cap, tu_accounting = True\<rparr>)"

definition token_usage ::
  "('t \<Rightarrow> string \<Rightarrow> nat option) \<Rightarrow> 't option \<Rightarrow> string list \<Rightarrow> nat \<Rightarrow> token_report" where
  "token_usage encode counter texts cap =
     (case counter of
        None \<Rightarrow> token_usage_default\<lparr>tu_max_length := cap\<rparr>
      | Some t \<Rightarrow> usage_from_counts (count_tokens encode t texts) cap)"

lemma usage_max_length [simp]: "tu_max_length (usage_from_counts counts cap) = cap"
  by (simp add: usage_from_counts_def split: option.split)

text \<open>
  Unknown is never reported as clean. The accounting of a response is all or nothing: it is on
  exactly when there is a counter and it counted every text, and then there is one count and one flag
  per text, each flag saying whether that text's count exceeds the cap; one refused text leaves both
  lists empty, so no text can be read as proven not truncated.
\<close>

theorem token_usage_all_or_nothing:
  "(tu_accounting (token_usage encode counter texts cap) \<longleftrightarrow>
      (\<exists>t. counter = Some t \<and> (\<forall>x\<in>set texts. encode t x \<noteq> None))) \<and>
   (if tu_accounting (token_usage encode counter texts cap)
    then (\<forall>i < length texts.
        encode (the counter) (texts ! i) = Some (tu_token_count (token_usage encode counter texts cap) ! i) \<and>
        tu_truncated (token_usage encode counter texts cap) ! i =
          (cap < tu_token_count (token_usage encode counter texts cap) ! i)) \<and>
      length (tu_token_count (token_usage encode counter texts cap)) = length texts \<and>
      length (tu_truncated (token_usage encode counter texts cap)) = length texts
    else tu_token_count (token_usage encode counter texts cap) = [] \<and>
      tu_truncated (token_usage encode counter texts cap) = [])"
proof (cases counter)
  case None
  then show ?thesis by (simp add: token_usage_def token_usage_default_def)
next
  case (Some t)
  show ?thesis
  proof (cases "collect_options (map (encode t) texts)")
    case None
    then have "None \<in> encode t ` set texts" by (simp add: collect_options_None)
    then have "\<exists>x\<in>set texts. encode t x = None" by (metis imageE)
    with None Some show ?thesis
      by (auto simp: token_usage_def count_tokens_def usage_from_counts_def token_usage_default_def)
  next
    case (Some ms)
    then have ms: "map (encode t) texts = map Some ms" by (simp add: collect_options_Some)
    then have len: "length ms = length texts" by (metis length_map)
    from ms have "\<forall>i<length texts. encode t (texts ! i) = Some (ms ! i)"
      by (metis len nth_map)
    moreover from this have "\<forall>x\<in>set texts. encode t x \<noteq> None"
      by (metis in_set_conv_nth option.distinct(1))
    ultimately show ?thesis
      using Some \<open>counter = Some t\<close> len
      by (simp add: token_usage_def count_tokens_def usage_from_counts_def)
  qed
qed

lemma token_usage_all_or_nothing_witness:
  "tu_accounting (token_usage (\<lambda>t x. Some (length x)) (Some ()) [''ab''] 1)"
  using token_usage_all_or_nothing [of "\<lambda>t x. Some (length x)" "Some ()" "[''ab'']" 1] by simp

section \<open>The registry\<close>

text \<open>
  A name is known by its declaration, available by its file. Both names are registered in every
  deployment and no other is; a row can count exactly when its file was found and parsed, and its
  source, when it has one, is a file. So an unknown name is the caller's mistake and an unavailable
  one is the machine's.
\<close>

theorem registry_rows:
  "(registry_entry (registry_load read_dir is_file parse cfg) name = None \<longleftrightarrow>
      name \<noteq> ''bge'' \<and> name \<noteq> ''qwen'') \<and>
   (registry_entry (registry_load read_dir is_file parse cfg) name = Some e \<longrightarrow>
      te_name e = name \<and>
      (\<forall>t. te_tokenizer e = Some t \<longleftrightarrow>
         (\<exists>p. te_source e = Some p \<and> is_file p \<and> parse p = Some t)))"
  by (auto simp: registry_entry_def registry_load_def from_sources_def load_tokenizer_row_def
      bge_tokenizer_def qwen_tokenizer_def split: option.splits if_splits)

lemma registry_rows_witness:
  "registry_entry (registry_load (\<lambda>d. None) (\<lambda>p. True) (\<lambda>p. Some ()) (config_from_env Map.empty)) ''gpt'' = None"
  using registry_rows [of "\<lambda>d. None" "\<lambda>p. True" "\<lambda>p. Some ()" "config_from_env Map.empty" "''gpt''"] by simp

end
