(* ===== verification/Adapters.thy ===== *)
theory Adapters
  imports Rust_Text
begin

text \<open>
  \<open>src/adapters.rs\<close>: the operator's device id counts hardware adapters in high-performance order,
  the DirectML provider indexes the plain enumeration; \<open>map_device\<close> links them by LUID. Off Windows
  the card's name is parsed out of a \<open>rocminfo\<close> report. The DXGI enumerations and the report are
  parameters: they are answers of the system.
\<close>

record resolved_adapter =
  ra_name :: string
  ra_vram_mb :: nat
  ra_luid :: string
  ra_requested_device :: int
  ra_dml_device_id :: int

record adapter_desc =
  ad_luid :: int
  ad_name :: string
  ad_vram_mb :: nat
  ad_software :: bool

definition map_device ::
  "adapter_desc list \<Rightarrow> adapter_desc list \<Rightarrow> nat \<Rightarrow> (nat \<times> adapter_desc) option" where
  "map_device hp plain device =
     (case nth_opt (filter (\<lambda>a. \<not> ad_software a) hp) device of
        None \<Rightarrow> None
      | Some target \<Rightarrow>
          (case position (\<lambda>p. ad_luid p = ad_luid target) plain of
             None \<Rightarrow> None
           | Some dml_index \<Rightarrow> Some (dml_index, target)))"

definition hex_digit :: "nat \<Rightarrow> char" where
  "hex_digit d = (if d < 10 then char_of (48 + d) else char_of (87 + d))"

fun show_hex :: "nat \<Rightarrow> string" where
  "show_hex n = (if n < 16 then [hex_digit n] else show_hex (n div 16) @ [hex_digit (n mod 16)])"

declare show_hex.simps [simp del]

text \<open>\<open>{:#x}\<close> of an \<open>i64\<close> is its two's complement; \<open>as i32\<close> keeps the low 32 bits.\<close>

definition luid_text :: "int \<Rightarrow> string" where
  "luid_text luid = ''0x'' @ show_hex (nat (luid mod 2 ^ 64))"

definition as_i32 :: "nat \<Rightarrow> int" where
  "as_i32 n = (int n + 2 ^ 31) mod 2 ^ 32 - 2 ^ 31"

definition resolve_windows ::
  "adapter_desc list option \<Rightarrow> adapter_desc list option \<Rightarrow> int \<Rightarrow> resolved_adapter option" where
  "resolve_windows high_performance plain device_id =
     (if device_id < 0 then None
      else (case (high_performance, plain) of
          (Some hp, Some pl) \<Rightarrow>
            (case map_device hp pl (nat device_id) of
               None \<Rightarrow> None
             | Some (dml_index, a) \<Rightarrow>
                 Some \<lparr>ra_name = ad_name a, ra_vram_mb = ad_vram_mb a,
                       ra_luid = luid_text (ad_luid a), ra_requested_device = device_id,
                       ra_dml_device_id = as_i32 dml_index\<rparr>)
        | _ \<Rightarrow> None))"

section \<open>The \<open>rocminfo\<close> report\<close>

fun split_lines :: "string \<Rightarrow> string list" where
  "split_lines [] = []"
| "split_lines (c # cs) =
     (if c = CHR 0x0A then [] # split_lines cs
      else (case split_lines cs of [] \<Rightarrow> [[c]] | l # ls \<Rightarrow> (c # l) # ls))"

definition strip_prefix :: "string \<Rightarrow> string \<Rightarrow> string option" where
  "strip_prefix p s = (if starts_with p s then Some (drop (length p) s) else None)"

definition rocm_line :: "string \<Rightarrow> string option \<times> string list \<Rightarrow> string option \<times> string list" where
  "rocm_line line st =
     (let trimmed = trim line
      in if starts_with ''Agent '' trimmed then (None, snd st)
         else case strip_prefix ''Marketing Name:'' trimmed of
             Some name \<Rightarrow> (Some (trim name), snd st)
           | None \<Rightarrow>
               if starts_with ''Device Type:'' trimmed \<and> ends_with ''GPU'' trimmed
               then (case fst st of
                   None \<Rightarrow> st
                 | Some name \<Rightarrow> (None, snd st @ [name]))
               else st)"

definition gpu_marketing_name :: "string \<Rightarrow> nat \<Rightarrow> string option" where
  "gpu_marketing_name report i =
     nth_opt (snd (fold rocm_line (split_lines report) (None, []))) i"

definition resolve_rocm :: "string option \<Rightarrow> int \<Rightarrow> resolved_adapter option" where
  "resolve_rocm report device_id =
     (let i = (if device_id < 0 then 0 else nat device_id)
      in case report of
           None \<Rightarrow> None
         | Some stdout \<Rightarrow>
             (case gpu_marketing_name stdout i of
                None \<Rightarrow> None
              | Some name \<Rightarrow>
                  Some \<lparr>ra_name = name, ra_vram_mb = 0, ra_luid = [],
                        ra_requested_device = device_id, ra_dml_device_id = -1\<rparr>))"

section \<open>Properties\<close>

text \<open>
  The index handed to DirectML is the operator's card. A mapping, when there is one, names the
  device-th hardware adapter of the high-performance order and the first position of the plain
  order with the same LUID; there is none exactly when the id is past the hardware adapters or the
  card is missing from the plain order.
\<close>

theorem map_device_links_by_luid:
  "(map_device hp plain device = Some (i, a) \<longleftrightarrow>
      device < length (filter (\<lambda>a. \<not> ad_software a) hp) \<and>
      a = filter (\<lambda>a. \<not> ad_software a) hp ! device \<and>
      i < length plain \<and> ad_luid (plain ! i) = ad_luid a \<and>
      (\<forall>j<i. ad_luid (plain ! j) \<noteq> ad_luid a)) \<and>
   (map_device hp plain device = None \<longleftrightarrow>
      length (filter (\<lambda>a. \<not> ad_software a) hp) \<le> device \<or>
      (\<forall>p\<in>set plain. ad_luid p \<noteq> ad_luid (filter (\<lambda>a. \<not> ad_software a) hp ! device)))"
proof -
  let ?hw = "filter (\<lambda>a. \<not> ad_software a) hp"
  have at: "i < length plain \<and> ad_luid (plain ! i) = l \<and> (\<forall>j<i. ad_luid (plain ! j) \<noteq> l) \<longleftrightarrow>
      position (\<lambda>p. ad_luid p = l) plain = Some i" for l
    by (simp add: position_Some)
  show ?thesis
  proof (cases "device < length ?hw")
    case True
    then show ?thesis
      using at [of "ad_luid (?hw ! device)"]
        position_None [of "\<lambda>p. ad_luid p = ad_luid (?hw ! device)" plain]
      by (cases "position (\<lambda>p. ad_luid p = ad_luid (?hw ! device)) plain") (auto simp: map_device_def)
  next
    case False
    then have "nth_opt ?hw device = None" by (simp add: nth_opt_None)
    with False show ?thesis by (simp add: map_device_def)
  qed
qed

text \<open>What one agent of a report says, as the trimmed lines the scan looks at.\<close>

record rocm_agent =
  ag_title :: string
  ag_name :: string
  ag_gpu :: bool

definition agent_lines :: "rocm_agent \<Rightarrow> string list" where
  "agent_lines a = [''Agent '' @ ag_title a, ''Marketing Name: '' @ ag_name a,
     ''Device Type: '' @ (if ag_gpu a then ''GPU'' else ''CPU'')]"

lemma starts_with_append [simp]: "starts_with p (p @ s)"
  by (simp add: starts_with_def)

lemma strip_all_step:
  "strip_one es s = Some r \<Longrightarrow> strip_all es s = strip_all es r"
  by (simp add: strip_all.simps [of es s])

lemma trim_space [simp]: "trim (CHR '' '' # s) = trim s"
proof -
  have "strip_one white_space (CHR '' '' # s) = Some s" by (simp add: white_space_def)
  then have "trim_start (CHR '' '' # s) = trim_start s"
    unfolding trim_start_def by (rule strip_all_step)
  then show ?thesis by (simp add: trim_def)
qed

definition wf_agent :: "rocm_agent \<Rightarrow> bool" where
  "wf_agent a \<longleftrightarrow> trim (ag_name a) = ag_name a \<and>
     (\<forall>l\<in>set (agent_lines a). trim l = l \<and> CHR 0x0A \<notin> set l)"

lemma rocm_agent_lines:
  assumes "wf_agent a"
  shows "\<exists>q. fold rocm_line (agent_lines a) (p, gs) = (q, gs @ (if ag_gpu a then [ag_name a] else []))"
proof -
  from assms have t: "trim (''Agent '' @ ag_title a) = ''Agent '' @ ag_title a"
    "trim (''Marketing Name: '' @ ag_name a) = ''Marketing Name: '' @ ag_name a"
    "trim (''Device Type: '' @ (if ag_gpu a then ''GPU'' else ''CPU'')) =
       ''Device Type: '' @ (if ag_gpu a then ''GPU'' else ''CPU'')"
    "trim (ag_name a) = ag_name a"
    by (auto simp: wf_agent_def agent_lines_def)
  have "rocm_line (''Agent '' @ ag_title a) st = (None, snd st)" for st
    unfolding rocm_line_def t(1) by (simp add: starts_with_def)
  moreover have "rocm_line (''Marketing Name: '' @ ag_name a) st = (Some (ag_name a), snd st)" for st
    unfolding rocm_line_def t(2) using t(4) by (simp add: starts_with_def strip_prefix_def)
  moreover have "rocm_line (''Device Type: '' @ (if ag_gpu a then ''GPU'' else ''CPU'')) (Some n, gs) =
     (if ag_gpu a then (None, gs @ [n]) else (Some n, gs))" for n
    unfolding rocm_line_def t(3) by (simp add: starts_with_def strip_prefix_def ends_with_def)
  ultimately show ?thesis by (simp add: agent_lines_def)
qed

lemma rocm_agents:
  "\<forall>a\<in>set as. wf_agent a \<Longrightarrow>
     snd (fold rocm_line (concat (map agent_lines as)) (p, gs)) = gs @ map ag_name (filter ag_gpu as)"
proof (induction as arbitrary: p gs)
  case (Cons a as)
  then obtain q where "fold rocm_line (agent_lines a) (p, gs) =
      (q, gs @ (if ag_gpu a then [ag_name a] else []))"
    using rocm_agent_lines [of a p gs] by auto
  with Cons show ?case by simp
qed simp

lemma split_line: "CHR 0x0A \<notin> set l \<Longrightarrow> split_lines (l @ CHR 0x0A # s) = l # split_lines s"
  by (induction l) auto

definition unlines :: "string list \<Rightarrow> string" where
  "unlines ls = concat (map (\<lambda>l. l @ [CHR 0x0A]) ls)"

lemma split_unlines: "\<forall>l\<in>set ls. CHR 0x0A \<notin> set l \<Longrightarrow> split_lines (unlines ls) = ls"
  by (induction ls) (auto simp: unlines_def split_line)

text \<open>
  A measurement is never labelled with a processor. For a report that lists its agents with
  title, marketing name and device type, the name found for an index is that of the GPU agent with
  that index in report order; the agents that are no GPU are skipped, wherever they stand.
\<close>

theorem gpu_names_in_report_order:
  assumes "\<forall>a\<in>set as. wf_agent a"
  shows "gpu_marketing_name (unlines (concat (map agent_lines as))) i =
     nth_opt (map ag_name (filter ag_gpu as)) i"
proof -
  have "split_lines (unlines (concat (map agent_lines as))) = concat (map agent_lines as)"
    using assms by (intro split_unlines) (auto simp: wf_agent_def)
  then show ?thesis using rocm_agents [OF assms] by (simp add: gpu_marketing_name_def)
qed

lemma gpu_names_in_report_order_witness:
  "gpu_marketing_name (unlines (concat (map agent_lines
      [\<lparr>ag_title = ''1'', ag_name = ''Ryzen'', ag_gpu = False\<rparr>,
       \<lparr>ag_title = ''2'', ag_name = ''R9700'', ag_gpu = True\<rparr>]))) 0 = Some ''R9700''"
proof -
  have "wf_agent \<lparr>ag_title = ''1'', ag_name = ''Ryzen'', ag_gpu = False\<rparr>"
    "wf_agent \<lparr>ag_title = ''2'', ag_name = ''R9700'', ag_gpu = True\<rparr>"
    by code_simp+
  then show ?thesis
    by (subst gpu_names_in_report_order) auto
qed

end
