(* ===== verification/State.thy ===== *)
theory State
  imports Engine_Cache Vram Canary Tokens Adapters
begin

text \<open>
  \<open>src/state.rs\<close> and \<open>src/bookkeeping.rs\<close>: the state of the process and its bookkeeping. \<open>'e\<close> is the
  embedding engine, \<open>'r\<close> the reranker, \<open>'t\<close> a tokenizer. Beside the fields of \<open>AppState\<close> the record
  holds the process-global cache world that the leases guard.
\<close>

record ('e, 'r, 't) app_state =
  st_config :: config
  embed_engine :: "'e rung_cache mutex"
  embed_inflight :: "in_flight option mutex"
  rerank_engine :: "'r option mutex"
  rerank_inflight :: "in_flight option mutex"
  activity :: "string mutex"
  pinned_provider :: "string option"
  active_provider :: "string option mutex"
  last_provider_error :: "string option mutex"
  committed_embed_cap :: nat
  loaded_max_batch :: "nat option mutex"
  loaded_embed_dimension :: "nat option mutex"
  st_adapter :: "resolved_adapter option"
  st_vram :: "vram_ledger mutex"
  st_self_check :: "self_check option mutex"
  last_request :: "nanos mutex"
  st_tokenizers :: "'t tokenizer_registry"
  cache_paths :: cache_world

text \<open>\<open>Engines::new\<close> and the construction in \<open>main\<close>.\<close>

definition new_state ::
  "config \<Rightarrow> resolved_adapter option \<Rightarrow> 't tokenizer_registry \<Rightarrow> nanos \<Rightarrow> cache_world \<Rightarrow> ('e, 'r, 't) app_state" where
  "new_state cfg adapter toks now w =
     \<lparr>st_config = cfg,
      embed_engine = new_mutex (rung_cache_new (engine_cache_rungs cfg)),
      embed_inflight = new_mutex None, rerank_engine = new_mutex None,
      rerank_inflight = new_mutex None, activity = new_mutex ''idle'', pinned_provider = None,
      active_provider = new_mutex None, last_provider_error = new_mutex None,
      committed_embed_cap = 0, loaded_max_batch = new_mutex None,
      loaded_embed_dimension = new_mutex None, st_adapter = adapter,
      st_vram = new_mutex vram_ledger_default, st_self_check = new_mutex None,
      last_request = new_mutex now, st_tokenizers = toks, cache_paths = w\<rparr>"

definition dml_device_id :: "('e, 'r, 't) app_state \<Rightarrow> int" where
  "dml_device_id st =
     (case st_adapter st of None \<Rightarrow> device_id (st_config st) | Some a \<Rightarrow> ra_dml_device_id a)"

definition token_counter :: "('e, 'r, 't) app_state \<Rightarrow> 't option" where
  "token_counter st = Option.bind (registry_entry (st_tokenizers st) bge_tokenizer) te_tokenizer"

section \<open>Bookkeeping\<close>

text \<open>\<open>record\<close> waits for a cell that is only ever held for an assignment, and heals its poison.\<close>

definition record_cell :: "'a \<Rightarrow> 'a option mutex \<Rightarrow> 'a option mutex" where
  "record_cell v cell = cell\<lparr>mx_val := Some v, mx_held := False, mx_poisoned := False\<rparr>"

definition committed_cap :: "('e, 'r, 't) app_state \<Rightarrow> nat option" where
  "committed_cap st = (if committed_embed_cap st = 0 then None else Some (committed_embed_cap st))"

definition commit_cap :: "nat \<Rightarrow> ('e, 'r, 't) app_state \<Rightarrow> ('e, 'r, 't) app_state" where
  "commit_cap cap st = st\<lparr>committed_embed_cap := cap\<rparr>"

definition settle_cap :: "'e rung_cache \<Rightarrow> ('e, 'r, 't) app_state \<Rightarrow> ('e, 'r, 't) app_state" where
  "settle_cap cache st =
     st\<lparr>committed_embed_cap := (if rung_caps cache = [] then 0 else last (rung_caps cache))\<rparr>"

definition record_max_batch :: "nat \<Rightarrow> ('e, 'r, 't) app_state \<Rightarrow> ('e, 'r, 't) app_state" where
  "record_max_batch used st = st\<lparr>loaded_max_batch := record_cell used (loaded_max_batch st)\<rparr>"

definition record_embed_dimension :: "nat option \<Rightarrow> ('e, 'r, 't) app_state \<Rightarrow> ('e, 'r, 't) app_state" where
  "record_embed_dimension dim st =
     (case dim of
        None \<Rightarrow> st
      | Some d \<Rightarrow> st\<lparr>loaded_embed_dimension := record_cell d (loaded_embed_dimension st)\<rparr>)"

definition dense_dimension :: "'a list list \<Rightarrow> nat option" where
  "dense_dimension rows = (case rows of [] \<Rightarrow> None | r # rs \<Rightarrow> Some (length r))"

text \<open>
  \<open>remember_engine\<close>; the evicted engine is handed to a thread of its own, so what is left of it is
  that it is dropped. The second component is that engine.
\<close>

definition remember_engine ::
  "nat \<Rightarrow> 'e \<Rightarrow> 'e rung_cache \<Rightarrow> 'e rung_cache \<times> (nat \<times> 'e) option" where
  "remember_engine cap engine cache =
     (case rung_insert cap engine cache of (evicted, cache') \<Rightarrow> (cache', evicted))"

text \<open>\<open>usize\<close> arithmetic: the products wrap at 64 bits in a release build.\<close>

definition attention_peak_mb :: "64 word \<Rightarrow> 64 word \<Rightarrow> 64 word" where
  "attention_peak_mb batch seq = (batch * 16 * seq * seq * 4 * 2) div (1024 * 1024)"

definition set_activity :: "string \<Rightarrow> ('e, 'r, 't) app_state \<Rightarrow> ('e, 'r, 't) app_state" where
  "set_activity label st =
     (if mx_poisoned (activity st) then st
      else st\<lparr>activity := (activity st)\<lparr>mx_val := label\<rparr>\<rparr>)"

section \<open>Stamps\<close>

text \<open>
  \<open>InFlightStamp::enter\<close> stamps the engine and mirrors the label into \<open>activity\<close>; its drop clears the
  stamp, on every exit.
\<close>

definition stamp_embed :: "phase \<Rightarrow> string \<Rightarrow> nanos \<Rightarrow> ('e, 'r, 't) app_state \<Rightarrow> ('e, 'r, 't) app_state" where
  "stamp_embed ph label now st =
     (set_activity label st)\<lparr>embed_inflight := write_inflight
        (Some \<lparr>if_phase = ph, if_label = label, if_since = now\<rparr>) (embed_inflight st)\<rparr>"

definition unstamp_embed :: "('e, 'r, 't) app_state \<Rightarrow> ('e, 'r, 't) app_state" where
  "unstamp_embed st = st\<lparr>embed_inflight := write_inflight None (embed_inflight st)\<rparr>"

definition stamp_rerank :: "phase \<Rightarrow> string \<Rightarrow> nanos \<Rightarrow> ('e, 'r, 't) app_state \<Rightarrow> ('e, 'r, 't) app_state" where
  "stamp_rerank ph label now st =
     (set_activity label st)\<lparr>rerank_inflight := write_inflight
        (Some \<lparr>if_phase = ph, if_label = label, if_since = now\<rparr>) (rerank_inflight st)\<rparr>"

definition unstamp_rerank :: "('e, 'r, 't) app_state \<Rightarrow> ('e, 'r, 't) app_state" where
  "unstamp_rerank st = st\<lparr>rerank_inflight := write_inflight None (rerank_inflight st)\<rparr>"

section \<open>Laws\<close>

named_theorems state_simps \<open>what each state update leaves and changes\<close>

text \<open>The mirror: the committed cap is what the cache holds most recently used.\<close>

definition cap_mirror :: "('e, 'r, 't) app_state \<Rightarrow> bool" where
  "cap_mirror st \<longleftrightarrow>
     committed_embed_cap st =
       (let caps = rung_caps (mx_val (embed_engine st)) in if caps = [] then 0 else last caps)"

lemma settle_cap_mirror: "mx_val (embed_engine st) = cache \<Longrightarrow> cap_mirror (settle_cap cache st)"
  by (simp add: cap_mirror_def settle_cap_def)

lemma new_state_mirror: "cap_mirror (new_state cfg adapter toks now w)"
  by (simp add: cap_mirror_def new_state_def rung_cache_new_def rung_caps_def)

lemma record_cell_reads: "try_lock_ok (record_cell v cell) = Some (Some v)"
  by (simp add: record_cell_def try_lock_ok_def try_lock_def)

lemma remember_engine_inv: "rung_inv c \<Longrightarrow> rung_inv (fst (remember_engine cap e c))"
  using rung_insert_inv [of c cap e] by (cases "rung_insert cap e c") (simp add: remember_engine_def)

lemma remember_engine_last:
  "rung_inv c \<Longrightarrow> last (rungs (fst (remember_engine cap e c))) = (cap, e)"
  using rung_insert_last [of c cap e] by (cases "rung_insert cap e c") (simp add: remember_engine_def)

lemma remember_engine_lookup:
  "rung_inv c \<Longrightarrow> rung_map (fst (remember_engine cap e c)) cap = Some e"
  using rung_insert_lookup [of c cap e] by (cases "rung_insert cap e c") (simp add: remember_engine_def)

lemma set_activity_other [state_simps]:
  "embed_engine (set_activity l st) = embed_engine st"
  "rerank_engine (set_activity l st) = rerank_engine st"
  "embed_inflight (set_activity l st) = embed_inflight st"
  "rerank_inflight (set_activity l st) = rerank_inflight st"
  "committed_embed_cap (set_activity l st) = committed_embed_cap st"
  "st_config (set_activity l st) = st_config st"
  "pinned_provider (set_activity l st) = pinned_provider st"
  "cache_paths (set_activity l st) = cache_paths st"
  "st_tokenizers (set_activity l st) = st_tokenizers st"
  by (simp_all add: set_activity_def)

lemma stamp_embed_other [state_simps]:
  "embed_engine (stamp_embed ph l now st) = embed_engine st"
  "rerank_engine (stamp_embed ph l now st) = rerank_engine st"
  "rerank_inflight (stamp_embed ph l now st) = rerank_inflight st"
  "committed_embed_cap (stamp_embed ph l now st) = committed_embed_cap st"
  "st_config (stamp_embed ph l now st) = st_config st"
  "cache_paths (stamp_embed ph l now st) = cache_paths st"
  by (simp_all add: stamp_embed_def state_simps)

lemma stamp_embed_reads:
  "inflight_now (embed_inflight (stamp_embed ph l now st)) =
     Some \<lparr>if_phase = ph, if_label = l, if_since = now\<rparr>"
  by (simp add: stamp_embed_def mutex_simps)

lemma unstamp_embed_reads: "inflight_now (embed_inflight (unstamp_embed st)) = None"
  by (simp add: unstamp_embed_def mutex_simps)

lemma record_embed_dimension_other [state_simps]:
  "committed_embed_cap (record_embed_dimension d st) = committed_embed_cap st"
  "embed_engine (record_embed_dimension d st) = embed_engine st"
  "st_config (record_embed_dimension d st) = st_config st"
  by (simp_all add: record_embed_dimension_def split: option.split)

lemma settle_cap_other [state_simps]:
  "embed_engine (settle_cap c st) = embed_engine st"
  "rerank_engine (settle_cap c st) = rerank_engine st"
  "embed_inflight (settle_cap c st) = embed_inflight st"
  "st_config (settle_cap c st) = st_config st"
  "cache_paths (settle_cap c st) = cache_paths st"
  by (simp_all add: settle_cap_def)

end
