(* ===== verification/Provider.thy ===== *)
theory Provider
  imports State "HOL-Library.Multiset" "HOL-Library.List_Lexorder" "HOL-Library.Char_ord"
begin

text \<open>
  \<open>src/provider.rs\<close>: which execution provider a request resolves to, what is refused before a
  session is built, the session load around the one call of the library, and the provenance of the
  binary. Parameters: the features compiled into the binary, the file system's answers, the
  library's session constructor, the SHA-256 of the \<open>sha2\<close> crate, and the verdict of the memory
  window of a build (theory \<open>Vram\<close> says what that verdict means).
\<close>

section \<open>Names of providers\<close>

record flavor =
  has_cuda :: bool
  has_dml :: bool
  has_migraphx :: bool

definition compiled_providers :: "flavor \<Rightarrow> string list" where
  "compiled_providers fl =
     (if has_cuda fl then [''cuda''] else []) @ (if has_dml fl then [''dml''] else []) @
     (if has_migraphx fl then [''migraphx''] else []) @ [''cpu'']"

definition effective_provider :: "config \<Rightarrow> string \<Rightarrow> string" where
  "effective_provider cfg hint =
     (let value = (if cf_provider cfg = [] then hint else cf_provider cfg);
          p = lowercase (trim value)
      in if p \<in> set [''cuda'', ''dml'', ''migraphx'', ''cpu''] then p else ''auto'')"

definition pin_provider :: "string \<Rightarrow> ('e, 'r, 't) app_state \<Rightarrow> string \<times> ('e, 'r, 't) app_state" where
  "pin_provider hint st =
     (case pinned_provider st of
        Some p \<Rightarrow> (p, st)
      | None \<Rightarrow> (let p = effective_provider (st_config st) hint
                  in (p, st\<lparr>pinned_provider := Some p\<rparr>)))"

definition resolution_order :: "flavor \<Rightarrow> string \<Rightarrow> string list" where
  "resolution_order fl provider =
     (if provider = ''cuda'' then [''cuda'']
      else if provider = ''dml'' then [''dml'']
      else if provider = ''migraphx'' then [''migraphx'']
      else if provider = ''cpu'' then [''cpu'']
      else filter (\<lambda>c. c \<in> set (compiled_providers fl)) [''cuda'', ''migraphx'', ''dml''] @ [''cpu''])"

definition required_provider_libraries :: "string \<Rightarrow> string list" where
  "required_provider_libraries provider =
     (if provider = ''cuda''
      then [''onnxruntime_providers_shared.dll'', ''onnxruntime_providers_cuda.dll''] else [])"

definition preflight_provider ::
  "flavor \<Rightarrow> (string \<Rightarrow> bool) \<Rightarrow> string \<Rightarrow> string \<Rightarrow> (app_error, unit) outcome" where
  "preflight_provider fl exists exe_dir provider =
     (if provider = ''auto'' \<or> provider = ''cpu'' then Ok ()
      else if provider \<notin> set (compiled_providers fl)
      then Err (Message (''execution provider `'' @ provider
        @ ''` was requested, but this binary was built without it (compiled: ''
        @ join '', '' (compiled_providers fl) @ ''). Rebuild with `--features '' @ provider @ ''` ''
        @ em_dash @ '' no configuration change can add an EP that is not in the binary.''))
      else (let missing = filter (\<lambda>lib. \<not> exists (path_join exe_dir lib))
                  (required_provider_libraries provider)
            in if missing \<noteq> []
               then Err (Message (''execution provider `'' @ provider
                 @ ''` is compiled in, but its runtime libraries are missing from `'' @ exe_dir
                 @ ''`: '' @ join '', '' missing
                 @ ''. ONNX Runtime resolves these from the EXECUTABLE'' @ [CHR 0x27]
                 @ ''S directory, not PATH '' @ em_dash @ '' copy them next to the exe (README, ''
                 @ dquote @ ''Build'' @ dquote
                 @ ''): a package that ships only the binary fails here every time.''))
               else Ok ()))"

definition linux_flavour :: "string \<Rightarrow> string" where
  "linux_flavour osrelease =
     (if contains_str ''microsoft'' (lowercase osrelease) then ''wsl'' else ''linux'')"

text \<open>\<open>target_os\<close> is \<open>std::env::consts::OS\<close>; \<open>osrelease\<close> the kernel's file, when it can be read.\<close>

definition host_os :: "string \<Rightarrow> string option \<Rightarrow> string" where
  "host_os target_os osrelease =
     (if target_os = ''windows'' then ''windows''
      else if target_os \<noteq> ''linux'' then target_os
      else (case osrelease of Some release \<Rightarrow> linux_flavour release | None \<Rightarrow> ''linux''))"

section \<open>Execution providers and session options\<close>

datatype ep = Cuda_Ep | Dml_Ep | Migraphx_Ep

record ep_dispatch =
  ep_kind :: ep
  ep_device :: int
  ep_error_on_failure :: bool

definition execution_providers :: "string \<Rightarrow> int \<Rightarrow> int \<Rightarrow> ep_dispatch list" where
  "execution_providers provider cuda_id dml_id =
     (let cuda = (\<lambda>hard. \<lparr>ep_kind = Cuda_Ep, ep_device = cuda_id, ep_error_on_failure = hard\<rparr>);
          dml = (\<lambda>hard. \<lparr>ep_kind = Dml_Ep, ep_device = dml_id, ep_error_on_failure = hard\<rparr>);
          migraphx = (\<lambda>hard. \<lparr>ep_kind = Migraphx_Ep, ep_device = cuda_id, ep_error_on_failure = hard\<rparr>)
      in if provider = ''cuda'' then [cuda True]
         else if provider = ''dml'' then [dml True]
         else if provider = ''migraphx'' then [migraphx True]
         else if provider = ''cpu'' then []
         else [cuda False, migraphx False, dml False])"

record session_options =
  so_max_length :: nat
  so_cache_dir :: string
  so_providers :: "ep_dispatch list"
  so_threads :: "nat option"

definition shared_options :: "('e, 'r, 't) app_state \<Rightarrow> string \<Rightarrow> nat \<Rightarrow> session_options" where
  "shared_options st provider len =
     \<lparr>so_max_length = len, so_cache_dir = cache_dir (st_config st),
      so_providers = execution_providers provider (device_id (st_config st)) (dml_device_id st),
      so_threads = (if intra_threads (st_config st) = 0 then None
                    else Some (intra_threads (st_config st)))\<rparr>"

section \<open>Loading a session\<close>

text \<open>
  \<open>build_on_first_working\<close>: the candidates in order, with the effects of the attempts threaded
  through; the name of the one that built, or no name and the last error.
\<close>

fun try_candidates ::
  "app_error \<Rightarrow> string list \<Rightarrow> (string \<Rightarrow> 's \<Rightarrow> (app_error, 'a) outcome \<times> 's) \<Rightarrow> 's \<Rightarrow>
     (string \<times> (app_error, 'a) outcome) \<times> 's" where
  "try_candidates err [] attempt s = (([], Err err), s)"
| "try_candidates err (c # cs) attempt s =
     (case attempt c s of
        (Ok built, s') \<Rightarrow> ((c, Ok built), s')
      | (Err e, s') \<Rightarrow> try_candidates e cs attempt s'
      | (Panic, s') \<Rightarrow> (([], Panic), s'))"

definition build_on_first_working ::
  "string list \<Rightarrow> (string \<Rightarrow> 's \<Rightarrow> (app_error, 'a) outcome \<times> 's) \<Rightarrow> 's \<Rightarrow>
     (string \<times> (app_error, 'a) outcome) \<times> 's" where
  "build_on_first_working candidates attempt s =
     try_candidates (Message ''no execution provider was offered to try'') candidates attempt s"

text \<open>\<open>if let Ok(..) = lock()\<close>: a poisoned cell is left as it is.\<close>

definition write_if_healthy :: "'a \<Rightarrow> 'a mutex \<Rightarrow> 'a mutex" where
  "write_if_healthy v m = (if mx_poisoned m then m else m\<lparr>mx_val := v\<rparr>)"

definition record_session_outcome ::
  "(f32 \<Rightarrow> string) \<Rightarrow> string \<Rightarrow> (app_error, 'a) outcome \<Rightarrow> ('e, 'r, 't) app_state \<Rightarrow> ('e, 'r, 't) app_state" where
  "record_session_outcome fixed4 provider built st =
     (case built of
        Ok engine \<Rightarrow>
          st\<lparr>active_provider := write_if_healthy (Some provider) (active_provider st),
             last_provider_error := write_if_healthy None (last_provider_error st)\<rparr>
      | Err e \<Rightarrow>
          st\<lparr>last_provider_error := write_if_healthy (Some (show_error fixed4 e)) (last_provider_error st)\<rparr>
      | Panic \<Rightarrow> st)"

text \<open>What a session load asks of the rest of the machine.\<close>

record machine =
  m_flavor :: flavor
  m_exists :: "string \<Rightarrow> bool"
  m_exe_dir :: string
  m_fixed4 :: "f32 \<Rightarrow> string"
  m_window :: "string \<Rightarrow> attribution"

definition attempt_session ::
  "machine \<Rightarrow> string \<Rightarrow> (string \<Rightarrow> (app_error, 'a) outcome) \<Rightarrow> string \<Rightarrow> ('e, 'r, 't) app_state \<Rightarrow>
     (app_error, 'a) outcome \<times> ('e, 'r, 't) app_state" where
  "attempt_session mach engine build provider st =
     (case preflight_provider (m_flavor mach) (m_exists mach) (m_exe_dir mach) provider of
        Err e \<Rightarrow> (Err e, st)
      | Panic \<Rightarrow> (Panic, st)
      | Ok u \<Rightarrow>
          (case build provider of
             Ok built \<Rightarrow>
               (Ok built, st\<lparr>st_vram := vram_record engine (m_window mach provider) (st_vram st)\<rparr>)
           | Err e \<Rightarrow> (Err e, st)
           | Panic \<Rightarrow> (Panic, st)))"

definition load_session ::
  "machine \<Rightarrow> string \<Rightarrow> string \<Rightarrow> nat \<Rightarrow> cache_lease \<Rightarrow> (string \<Rightarrow> (app_error, 'a) outcome) \<Rightarrow>
     ('e, 'r, 't) app_state \<Rightarrow> (app_error, 'a) outcome \<times> ('e, 'r, 't) app_state" where
  "load_session mach hint engine seq lease build st =
     (if \<not> covers lease engine
      then (Err (Message (''internal: building a `'' @ engine
        @ ''` session while the compiled-model cache path is claimed for `'' @ cl_engine lease @ ''` ''
        @ em_dash @ '' hold the lease for the engine you are about to build'')), st)
      else if cs_seq (cl_shape lease) \<noteq> seq
      then (Err (Message (''internal: building a `'' @ engine @ ''` session at sequence length ''
        @ show_nat seq @ '' while the compiled-model cache path is claimed for sequence length ''
        @ show_nat (cs_seq (cl_shape lease)) @ '' '' @ em_dash
        @ '' hold the lease for the shape you are about to build'')), st)
      else (case pin_provider hint st of (requested, st1) \<Rightarrow>
        (case build_on_first_working (resolution_order (m_flavor mach) requested)
                (attempt_session mach engine build) st1 of
           ((served, built), st2) \<Rightarrow>
             (built, record_session_outcome (m_fixed4 mach) served built st2))))"

definition load_dual ::
  "machine \<Rightarrow> (session_options \<Rightarrow> (app_error, 'e) outcome) \<Rightarrow> string \<Rightarrow> nat \<Rightarrow> cache_lease \<Rightarrow>
     ('e, 'r, 't) app_state \<Rightarrow> (app_error, 'e) outcome \<times> ('e, 'r, 't) app_state" where
  "load_dual mach try_new hint len lease st =
     load_session mach hint embed_cache_engine len lease
       (\<lambda>provider. try_new (shared_options st provider len)) st"

definition load_rerank ::
  "machine \<Rightarrow> (session_options \<Rightarrow> (app_error, 'r) outcome) \<Rightarrow> string \<Rightarrow> cache_lease \<Rightarrow>
     ('e, 'r, 't) app_state \<Rightarrow> (app_error, 'r) outcome \<times> ('e, 'r, 't) app_state" where
  "load_rerank mach try_new hint lease st =
     load_session mach hint rerank_cache_engine (rerank_max_length (st_config st)) lease
       (\<lambda>provider. try_new (shared_options st provider (rerank_max_length (st_config st)))) st"

definition load_size_text :: "attribution \<Rightarrow> string" where
  "load_size_text at =
     (case at of
        Measured bytes \<Rightarrow> show_nat (bytes div (1024 * 1024)) @ '' MB of adapter memory''
      | Overlapped \<Rightarrow> ''adapter memory not attributed (another build overlapped this one)''
      | Not_Sampled \<Rightarrow> ''adapter memory not sampled on this build''
      | No_Growth \<Rightarrow> ''adapter memory unchanged across the build (allocation not visible here)'')"

section \<open>What resolves to what\<close>

lemma effective_provider_cases:
  "effective_provider cfg hint \<in> {''cuda'', ''dml'', ''migraphx'', ''cpu'', ''auto''}"
  by (simp add: effective_provider_def Let_def)

lemma pin_provider_pinned: "pinned_provider (snd (pin_provider hint st)) = Some (fst (pin_provider hint st))"
  by (auto simp: pin_provider_def Let_def split: option.splits)

lemma pin_provider_again:
  "fst (pin_provider hint' (snd (pin_provider hint st))) = fst (pin_provider hint st)"
  by (auto simp: pin_provider_def Let_def split: option.splits)

lemma pin_provider_other [state_simps]:
  "st_config (snd (pin_provider hint st)) = st_config st"
  "active_provider (snd (pin_provider hint st)) = active_provider st"
  "st_vram (snd (pin_provider hint st)) = st_vram st"
  "embed_engine (snd (pin_provider hint st)) = embed_engine st"
  by (simp_all add: pin_provider_def Let_def split: option.splits)

lemma resolution_order_explicit:
  "p \<in> {''cuda'', ''dml'', ''migraphx'', ''cpu''} \<Longrightarrow> resolution_order fl p = [p]"
  by (auto simp: resolution_order_def)

lemma resolution_order_auto:
  "set (resolution_order fl ''auto'') = set (compiled_providers fl) \<and>
   distinct (resolution_order fl ''auto'') \<and> last (resolution_order fl ''auto'') = ''cpu''"
  by (auto simp: resolution_order_def compiled_providers_def)

text \<open>
  What an attempt of a candidate amounts to, apart from the ledger: refused by the preflight, or what
  the constructor returned.
\<close>

definition attempt_result ::
  "machine \<Rightarrow> (string \<Rightarrow> (app_error, 'a) outcome) \<Rightarrow> string \<Rightarrow> (app_error, 'a) outcome" where
  "attempt_result mach build c =
     bind_outcome (preflight_provider (m_flavor mach) (m_exists mach) (m_exe_dir mach) c) (\<lambda>_. build c)"

lemma attempt_session_result: "fst (attempt_session mach engine build c st) = attempt_result mach build c"
  by (simp add: attempt_session_def attempt_result_def split: outcome.splits)

lemma attempt_session_other [state_simps]:
  "active_provider (snd (attempt_session mach engine build c st)) = active_provider st"
  "pinned_provider (snd (attempt_session mach engine build c st)) = pinned_provider st"
  "embed_engine (snd (attempt_session mach engine build c st)) = embed_engine st"
  "st_config (snd (attempt_session mach engine build c st)) = st_config st"
  by (simp_all add: attempt_session_def split: outcome.splits)

lemma try_candidates_keeps:
  "(\<And>c s. f (snd (attempt c s)) = f s) \<Longrightarrow> f (snd (try_candidates e cs attempt st)) = f st"
proof (induction cs arbitrary: e st)
  case (Cons c cs)
  obtain r st' where r: "attempt c st = (r, st')" by (cases "attempt c st")
  with Cons.prems [of c st] have "f st' = f st" by simp
  with Cons r show ?case by (cases r) simp_all
qed simp

lemmas try_candidates_other =
  try_candidates_keeps [where f = active_provider and attempt = "attempt_session mach engine build"
    for mach engine build, OF attempt_session_other(1)]
  try_candidates_keeps [where f = pinned_provider and attempt = "attempt_session mach engine build"
    for mach engine build, OF attempt_session_other(2)]
  try_candidates_keeps [where f = embed_engine and attempt = "attempt_session mach engine build"
    for mach engine build, OF attempt_session_other(3)]
  try_candidates_keeps [where f = st_config and attempt = "attempt_session mach engine build"
    for mach engine build, OF attempt_session_other(4)]

lemma try_candidates_first:
  "fst (try_candidates e cs (attempt_session mach engine build) st) = (served, Ok x) \<longleftrightarrow>
     (\<exists>us vs. cs = us @ served # vs \<and> attempt_result mach build served = Ok x \<and>
        (\<forall>u\<in>set us. \<exists>err. attempt_result mach build u = Err err))"
proof (induction cs arbitrary: e st)
  case (Cons c cs)
  obtain r st' where r: "attempt_session mach engine build c st = (r, st')"
    by (cases "attempt_session mach engine build c st")
  have ar: "attempt_result mach build c = r" using attempt_session_result [of mach engine build c st] r by simp
  show ?case
  proof (cases r)
    case (Ok y)
    with r ar show ?thesis by (auto simp: Cons_eq_append_conv)
  next
    case (Err err)
    have "fst (try_candidates e (c # cs) (attempt_session mach engine build) st) =
        fst (try_candidates err cs (attempt_session mach engine build) st')"
      by (simp add: r Err)
    also have "(\<dots> = (served, Ok x)) \<longleftrightarrow> (\<exists>us vs. cs = us @ served # vs \<and>
        attempt_result mach build served = Ok x \<and>
        (\<forall>u\<in>set us. \<exists>err. attempt_result mach build u = Err err))"
      by (rule Cons.IH)
    also have "\<dots> \<longleftrightarrow> (\<exists>us vs. c # cs = us @ served # vs \<and> attempt_result mach build served = Ok x \<and>
        (\<forall>u\<in>set us. \<exists>err. attempt_result mach build u = Err err))"
      using ar Err by (auto simp: Cons_eq_append_conv) (metis append_Cons set_ConsD)
    finally show ?thesis .
  next
    case Panic
    with r ar show ?thesis by (auto simp: Cons_eq_append_conv)
  qed
qed simp

lemma load_session_unfold:
  assumes "covers lease engine" "cs_seq (cl_shape lease) = seq"
  shows "load_session mach hint engine seq lease build st =
    (case try_candidates (Message ''no execution provider was offered to try'')
        (resolution_order (m_flavor mach) (fst (pin_provider hint st))) (attempt_session mach engine build)
        (snd (pin_provider hint st)) of
       ((served, built), st2) \<Rightarrow> (built, record_session_outcome (m_fixed4 mach) served built st2))"
  using assms by (simp add: load_session_def build_on_first_working_def split: prod.splits)

text \<open>A load changes only the provider cells and the ledger.\<close>

lemma load_session_keeps:
  assumes "\<And>s p. f (s\<lparr>pinned_provider := p\<rparr>) = f s" and "\<And>s v. f (s\<lparr>st_vram := v\<rparr>) = f s"
    and "\<And>s a. f (s\<lparr>active_provider := a\<rparr>) = f s" and "\<And>s b. f (s\<lparr>last_provider_error := b\<rparr>) = f s"
  shows "f (snd (load_session mach hint engine seq lease build st)) = f st"
proof (cases "covers lease engine \<and> cs_seq (cl_shape lease) = seq")
  case True
  have a: "f (snd (attempt_session mach engine build c s)) = f s" for c s
    by (simp add: attempt_session_def assms split: outcome.splits)
  have p: "f (snd (pin_provider hint st)) = f st"
    by (simp add: pin_provider_def Let_def assms split: option.splits)
  define tried where "tried = try_candidates (Message ''no execution provider was offered to try'')
      (resolution_order (m_flavor mach) (fst (pin_provider hint st))) (attempt_session mach engine build)
      (snd (pin_provider hint st))"
  have "f (snd tried) = f st"
    unfolding tried_def by (simp add: try_candidates_keeps [where f = f, OF a] p)
  moreover obtain served built st2 where t: "tried = ((served, built), st2)" by (metis prod.exhaust)
  ultimately show ?thesis using True
    by (simp add: load_session_unfold tried_def [symmetric] t record_session_outcome_def assms split: outcome.split)
qed (auto simp: load_session_def)

lemma load_session_ok_covers:
  assumes "load_session mach hint engine seq lease build st = (Ok x, st')"
  shows "covers lease engine \<and> cs_seq (cl_shape lease) = seq"
  using assms by (auto simp: load_session_def split: if_splits)

lemma load_session_result:
  assumes "load_session mach hint engine seq lease build st = (r, st')"
    and "\<not> mx_poisoned (active_provider st)"
  shows "case r of
      Ok x \<Rightarrow> (\<exists>served us vs. mx_val (active_provider st') = Some served \<and>
         resolution_order (m_flavor mach) (fst (pin_provider hint st)) = us @ served # vs \<and>
         attempt_result mach build served = Ok x \<and> (\<forall>u\<in>set us. \<exists>e. attempt_result mach build u = Err e))
    | _ \<Rightarrow> active_provider st' = active_provider st"
proof (cases "covers lease engine \<and> cs_seq (cl_shape lease) = seq")
  case False
  with assms(1) show ?thesis by (auto simp: load_session_def split: if_splits)
next
  case True
  let ?cs = "resolution_order (m_flavor mach) (fst (pin_provider hint st))"
  let ?e = "Message ''no execution provider was offered to try''"
  obtain served built st2 where t:
    "try_candidates ?e ?cs (attempt_session mach engine build) (snd (pin_provider hint st)) = ((served, built), st2)"
    by (metis prod.exhaust)
  have keep: "active_provider st2 = active_provider st"
    using try_candidates_keeps [where f = active_provider and e = ?e and cs = ?cs
        and st = "snd (pin_provider hint st)" and attempt = "attempt_session mach engine build",
        OF attempt_session_other(1) [of mach engine build]] t
    by (simp add: state_simps)
  from assms(1) True t have res: "r = built" "st' = record_session_outcome (m_fixed4 mach) served built st2"
    by (auto simp: load_session_unfold)
  show ?thesis
  proof (cases built)
    case (Ok x)
    from t have "fst (try_candidates ?e ?cs (attempt_session mach engine build)
        (snd (pin_provider hint st))) = (served, Ok x)" by (simp add: Ok)
    moreover have "mx_val (active_provider st') = Some served"
      using assms(2) by (simp add: res Ok record_session_outcome_def write_if_healthy_def keep)
    ultimately show ?thesis by (auto simp: try_candidates_first res Ok)
  qed (simp_all add: res keep record_session_outcome_def)
qed

lemma attempt_result_Ok:
  "attempt_result mach build c = Ok x \<longleftrightarrow>
     preflight_provider (m_flavor mach) (m_exists mach) (m_exe_dir mach) c = Ok () \<and> build c = Ok x"
  by (simp add: attempt_result_def bind_outcome_eq_Ok)

text \<open>
  What is reported active is what serves. When a load succeeds, the provider recorded as active is
  the first of the candidates, in the order the request resolves to, whose preflight passed and whose
  session was really built, every earlier one having failed; when it fails, the active provider is
  what it was. (The cell is healthy, as it is unless a thread panicked inside the assignment.)
\<close>

theorem active_provider_is_served:
  assumes "load_session mach hint engine seq lease build st = (r, st')"
    and "\<not> mx_poisoned (active_provider st)"
  shows "case r of
      Ok x \<Rightarrow> (\<exists>served us vs. mx_val (active_provider st') = Some served \<and>
         resolution_order (m_flavor mach) (fst (pin_provider hint st)) = us @ served # vs \<and>
         preflight_provider (m_flavor mach) (m_exists mach) (m_exe_dir mach) served = Ok () \<and>
         build served = Ok x \<and> (\<forall>u\<in>set us. \<exists>e. attempt_result mach build u = Err e))
    | _ \<Rightarrow> active_provider st' = active_provider st"
  using load_session_result [OF assms] by (cases r) (auto simp: attempt_result_Ok)

text \<open>
  An explicit provider never falls back. When the pinned provider names one, a load that succeeds was
  built on exactly that provider, so a broken GPU setup fails instead of being served by the CPU.
\<close>

theorem explicit_provider_no_fallback:
  assumes "load_session mach hint engine seq lease build st = (Ok x, st')"
    and "fst (pin_provider hint st) = p" and "p \<noteq> ''auto''"
    and "pinned_provider st = None"
  shows "build p = Ok x \<and> preflight_provider (m_flavor mach) (m_exists mach) (m_exe_dir mach) p = Ok ()"
proof -
  from assms have "p \<in> {''cuda'', ''dml'', ''migraphx'', ''cpu''}"
    using effective_provider_cases [of "st_config st" hint] by (auto simp: pin_provider_def Let_def)
  then have one: "resolution_order (m_flavor mach) p = [p]" by (rule resolution_order_explicit)
  from load_session_ok_covers [OF assms(1)] assms(1,2) one
  have "fst (try_candidates (Message ''no execution provider was offered to try'') [p]
      (attempt_session mach engine build) (snd (pin_provider hint st))) = (p, Ok x)"
    by (auto simp: load_session_unfold split: prod.splits outcome.splits)
  then have "attempt_result mach build p = Ok x"
    by (auto simp: try_candidates_first Cons_eq_append_conv simp del: try_candidates.simps)
  then show ?thesis by (auto simp: attempt_result_def bind_outcome_eq_Ok)
qed

text \<open>
  A session is built only for the engine and the length its lease was taken for. With any other lease
  the load is refused, and nothing at all has changed: no provider is pinned and nothing is built.
\<close>

theorem lease_mismatch_builds_nothing:
  assumes "cl_engine lease \<noteq> engine \<or> cs_seq (cl_shape lease) \<noteq> seq"
  shows "\<exists>m. load_session mach hint engine seq lease build st = (Err (Message m), st)"
  using assms by (auto simp: load_session_def covers_def)

section \<open>Witnesses\<close>

definition plain_machine :: machine where
  "plain_machine = \<lparr>m_flavor = \<lparr>has_cuda = False, has_dml = True, has_migraphx = False\<rparr>,
     m_exists = (\<lambda>p. True), m_exe_dir = ''.'', m_fixed4 = (\<lambda>x. ''0''), m_window = (\<lambda>p. No_Growth)\<rparr>"

definition plain_state :: "string \<Rightarrow> (nat, nat, unit) app_state" where
  "plain_state provider =
     new_state ((config_from_env Map.empty)\<lparr>cf_provider := provider\<rparr>) None [] 0 empty_world"

definition free_lease :: "string \<Rightarrow> nat \<Rightarrow> cache_lease" where
  "free_lease engine seq = \<lparr>cl_engine = engine, cl_shape = unpinned_batch seq, cl_dir = [], cl_held = False\<rparr>"

text \<open>A DirectML build that registers on no card: \<open>auto\<close> serves from the CPU and says so.\<close>

definition cpu_only :: "string \<Rightarrow> (app_error, nat) outcome" where
  "cpu_only p = (if p = ''cpu'' then Ok 7 else Err (Lib_Error ''no device''))"

lemma plain_pin: "pin_provider [] (plain_state []) = (''auto'', (plain_state [])\<lparr>pinned_provider := Some ''auto''\<rparr>)"
  by (simp add: pin_provider_def plain_state_def new_state_def effective_provider_def lowercase_def Let_def)

lemma trim_dml: "lowercase (trim ''dml'') = ''dml''"
  by code_simp

lemma plain_pin_dml: "fst (pin_provider [] (plain_state ''dml'')) = ''dml''"
  by (simp add: pin_provider_def plain_state_def new_state_def effective_provider_def trim_dml Let_def)

lemma active_provider_is_served_witness:
  "mx_val (active_provider (snd (load_session plain_machine [] ''dual'' 256 (free_lease ''dual'' 256)
     cpu_only (plain_state [])))) = Some ''cpu''"
proof -
  let ?l = "load_session plain_machine [] ''dual'' 256 (free_lease ''dual'' 256) cpu_only (plain_state [])"
  have o: "resolution_order (m_flavor plain_machine) ''auto'' = [''dml'', ''cpu'']"
    by (simp add: plain_machine_def resolution_order_def compiled_providers_def)
  have b: "preflight_provider (m_flavor plain_machine) (m_exists plain_machine) (m_exe_dir plain_machine) ''dml'' = Ok ()"
    "preflight_provider (m_flavor plain_machine) (m_exists plain_machine) (m_exe_dir plain_machine) ''cpu'' = Ok ()"
    by (simp_all add: plain_machine_def preflight_provider_def compiled_providers_def
        required_provider_libraries_def)
  have ok: "fst ?l = Ok 7"
    by (simp add: load_session_def covers_def free_lease_def unpinned_batch_def plain_pin
        build_on_first_working_def o attempt_session_def b cpu_only_def)
  have "\<not> mx_poisoned (active_provider (plain_state []))"
    by (simp add: plain_state_def new_state_def)
  from active_provider_is_served [OF surjective_pairing [of ?l] this] ok
  obtain served us vs where s: "mx_val (active_provider (snd ?l)) = Some served"
    "[''dml'', ''cpu''] = us @ served # vs" "cpu_only served = Ok 7"
    by (auto simp: plain_pin o)
  from s(3) have "served = ''cpu''" by (auto simp: cpu_only_def split: if_splits)
  with s(1) show ?thesis by simp
qed

lemma explicit_provider_no_fallback_witness:
  "preflight_provider (m_flavor plain_machine) (m_exists plain_machine) (m_exe_dir plain_machine) ''dml'' = Ok ()"
proof -
  let ?l = "load_session plain_machine [] ''dual'' 256 (free_lease ''dual'' 256) (\<lambda>p. Ok (1 :: nat))
    (plain_state ''dml'')"
  obtain st1 where "pin_provider [] (plain_state ''dml'') = (''dml'', st1)"
    using plain_pin_dml by (metis surjective_pairing)
  then have "fst ?l = Ok 1"
    by (simp add: load_session_def covers_def free_lease_def unpinned_batch_def
        build_on_first_working_def resolution_order_def attempt_session_def plain_machine_def
        preflight_provider_def compiled_providers_def required_provider_libraries_def)
  then have "?l = (Ok 1, snd ?l)" by (metis surjective_pairing)
  from explicit_provider_no_fallback [OF this plain_pin_dml] show ?thesis
    by (simp add: plain_state_def new_state_def)
qed

lemma lease_mismatch_builds_nothing_witness:
  "\<exists>m. load_session plain_machine [] ''dual'' 256 (free_lease ''rerank'' 256) cpu_only (plain_state [])
     = (Err (Message m), plain_state [])"
  by (rule lease_mismatch_builds_nothing) (simp add: free_lease_def)

section \<open>Provenance\<close>

text \<open>
  The files beside the executable by name, with their content when it can be read; \<open>sha\<close> is the
  hexadecimal SHA-256 of a text of bytes.
\<close>

definition short_hash :: "string \<Rightarrow> string" where
  "short_hash hash = (if hash = [] then ''(none)'' else take (min (length hash) 12) hash)"

definition file_extension :: "string \<Rightarrow> string option" where
  "file_extension name =
     (if CHR ''.'' \<in> set (tl name) then Some (rev (takeWhile (\<lambda>c. c \<noteq> CHR ''.'') (rev name))) else None)"

definition is_library :: "string \<Rightarrow> bool" where
  "is_library name =
     (case file_extension name of
        None \<Rightarrow> False
      | Some ext \<Rightarrow> lowercase ext = ''dll'' \<or> lowercase ext = ''so'')"

definition compute_runtime_manifest ::
  "(string \<Rightarrow> string) \<Rightarrow> (string \<times> string option) list option \<Rightarrow> string" where
  "compute_runtime_manifest sha dir =
     (case dir of
        None \<Rightarrow> []
      | Some entries \<Rightarrow>
          (let rows = List.map_filter (\<lambda>(name, content). map_option (\<lambda>c. lowercase name @ '':'' @ sha c) content)
                 (filter (\<lambda>e. is_library (fst e)) entries)
           in if rows = [] then [] else sha (join [CHR 0x0A] (sort rows))))"

lemma mset_map_filter: "mset (List.map_filter f xs) = mset (List.map_filter f ys)" if "mset xs = mset ys"
  using that by (simp add: List.map_filter_def)

text \<open>
  The manifest is a fact of the libraries, not of the listing. Two listings of the executable's
  directory that hold the same files give the same manifest, in whatever order they come; and files
  that are no library do not enter it.
\<close>

theorem manifest_order_independent:
  assumes "mset (filter (\<lambda>e. is_library (fst e)) entries) = mset (filter (\<lambda>e. is_library (fst e)) entries')"
  shows "compute_runtime_manifest sha (Some entries) = compute_runtime_manifest sha (Some entries')"
proof -
  let ?f = "\<lambda>(name, content). map_option (\<lambda>c. lowercase name @ '':'' @ sha c) content"
  let ?r = "List.map_filter ?f (filter (\<lambda>e. is_library (fst e)) entries)"
  let ?r' = "List.map_filter ?f (filter (\<lambda>e. is_library (fst e)) entries')"
  have m: "mset ?r = mset ?r'" by (rule mset_map_filter [OF assms])
  then have "sort ?r = sort ?r'" by (intro properties_for_sort) simp_all
  moreover have "?r = [] \<longleftrightarrow> ?r' = []" using m by (metis mset_zero_iff)
  ultimately show ?thesis by (simp add: compute_runtime_manifest_def)
qed

lemma manifest_order_independent_witness:
  "compute_runtime_manifest (\<lambda>c. c) (Some [(''b.so'', Some ''1''), (''a.dll'', Some ''2''), (''x.txt'', Some ''3'')]) =
   compute_runtime_manifest (\<lambda>c. c) (Some [(''a.dll'', Some ''2''), (''b.so'', Some ''1'')])"
proof (rule manifest_order_independent)
  have "is_library ''b.so''" "is_library ''a.dll''" "\<not> is_library ''x.txt''" by code_simp+
  then show "mset (filter (\<lambda>e. is_library (fst e)) [(''b.so'', Some ''1''), (''a.dll'', Some ''2''), (''x.txt'', Some ''3'')])
    = mset (filter (\<lambda>e. is_library (fst e)) [(''a.dll'', Some ''2''), (''b.so'', Some ''1'')])"
    by simp
qed

end
