(* ===== verification/Engine_Lock.thy ===== *)
theory Engine_Lock
  imports State
begin

text \<open>
  \<open>lock_or_refuse\<close> of \<open>src/inference.rs\<close>: how a caller gets an engine that somebody else may hold.
  The loop is a function of what it observes: at each poll the engine's mutex, the mutex of the
  stamp, and the clock (read once for the holder and once for the patience). A list of polls that
  ends without an answer is a caller that still waits.
\<close>

record 's poll_view =
  pv_engine :: "'s mutex"
  pv_stamp :: "in_flight option mutex"
  pv_now :: nanos
  pv_later :: nanos

datatype 's lock_answer = Locked 's | Refused engine_wedged | Still_Waiting

text \<open>The activity and time of the holder, and the ceiling it is judged by.\<close>

definition holder_view :: "wedge_policy \<Rightarrow> nanos \<Rightarrow> 's poll_view \<Rightarrow> string \<times> nanos \<times> nanos" where
  "holder_view policy waiting_since v =
     (case inflight_now (pv_stamp v) of
        None \<Rightarrow> ([], elapsed waiting_since (pv_now v), running_after policy)
      | Some h \<Rightarrow> (if_label h, elapsed (if_since h) (pv_now v), ceiling policy (if_phase h)))"

fun lock_or_refuse ::
  "('s \<Rightarrow> 's) \<Rightarrow> string \<Rightarrow> wedge_policy \<Rightarrow> patience \<Rightarrow> nanos \<Rightarrow> 's poll_view list \<Rightarrow> 's lock_answer" where
  "lock_or_refuse discard what policy patience waiting_since [] = Still_Waiting"
| "lock_or_refuse discard what policy patience waiting_since (v # vs) =
     (case try_lock (pv_engine v) of
        Acquired slot \<Rightarrow> Locked slot
      | Poisoned slot \<Rightarrow> Locked (discard slot)
      | WouldBlock \<Rightarrow>
          (case holder_view policy waiting_since v of (doing, held_for, limit) \<Rightarrow>
             if limit \<le> held_for
             then Refused \<lparr>ew_what = what, ew_activity = doing, ew_elapsed = held_for, ew_wedged = True\<rparr>
             else (case patience of
                 Until_The_Holder_Is_Wedged \<Rightarrow>
                   lock_or_refuse discard what policy patience waiting_since vs
               | At_Most bound \<Rightarrow>
                   (let waited = elapsed waiting_since (pv_later v)
                    in if bound \<le> waited
                       then Refused \<lparr>ew_what = what, ew_activity = doing, ew_elapsed = waited,
                         ew_wedged = False\<rparr>
                       else lock_or_refuse discard what policy patience waiting_since vs))))"

definition keeps_waiting :: "wedge_policy \<Rightarrow> patience \<Rightarrow> nanos \<Rightarrow> 's poll_view \<Rightarrow> bool" where
  "keeps_waiting policy patience waiting_since v \<longleftrightarrow>
     mx_held (pv_engine v) \<and>
     (case inflight_now (pv_stamp v) of
        None \<Rightarrow> elapsed waiting_since (pv_now v) < running_after policy
      | Some h \<Rightarrow> elapsed (if_since h) (pv_now v) < ceiling policy (if_phase h)) \<and>
     (\<forall>bound. patience = At_Most bound \<longrightarrow> elapsed waiting_since (pv_later v) < bound)"

lemma try_lock_held: "try_lock m = WouldBlock \<longleftrightarrow> mx_held m"
  by (simp add: try_lock_def)

lemma keeps_waiting_step:
  "keeps_waiting policy patience since v \<Longrightarrow>
     lock_or_refuse discard what policy patience since (v # vs) =
       lock_or_refuse discard what policy patience since vs"
  by (auto simp: keeps_waiting_def try_lock_def holder_view_def split: option.splits patience.splits)

lemma answers_step:
  "\<not> keeps_waiting policy patience since v \<Longrightarrow>
     lock_or_refuse discard what policy patience since (v # vs) \<noteq> Still_Waiting"
  by (auto simp: keeps_waiting_def try_lock_def holder_view_def Let_def not_less
      split: option.splits patience.splits)

lemma lock_skips: "\<forall>v\<in>set us. keeps_waiting policy patience since v \<Longrightarrow>
    lock_or_refuse discard what policy patience since (us @ vs) =
      lock_or_refuse discard what policy patience since vs"
  by (induction us) (simp_all add: keeps_waiting_step del: lock_or_refuse.simps)

lemma still_waiting_iff:
  "lock_or_refuse discard what policy patience since vs = Still_Waiting \<longleftrightarrow>
     (\<forall>v\<in>set vs. keeps_waiting policy patience since v)"
proof (induction vs)
  case (Cons v vs)
  show ?case
  proof (cases "keeps_waiting policy patience since v")
    case True
    with Cons show ?thesis by (simp add: keeps_waiting_step del: lock_or_refuse.simps)
  next
    case False
    with answers_step [OF this, of discard what vs] show ?thesis
      by (simp del: lock_or_refuse.simps)
  qed
qed simp

text \<open>
  C12: every wait has a ceiling. A caller is still waiting exactly when at every poll the engine was
  held, its holder was within the ceiling of its phase (an unstamped hold within \<open>running_after\<close> of
  this caller's own wait), and the caller's own patience had not run out; one poll that finds
  otherwise is answered, with the engine or with a refusal.
\<close>

theorem lock_wait_exact:
  "lock_or_refuse discard what policy patience since vs = Still_Waiting \<longleftrightarrow>
     (\<forall>v\<in>set vs. keeps_waiting policy patience since v)"
  by (rule still_waiting_iff)

definition refusal_justified :: "wedge_policy \<Rightarrow> patience \<Rightarrow> nanos \<Rightarrow> 's poll_view \<Rightarrow> engine_wedged \<Rightarrow> bool" where
  "refusal_justified policy patience since v w \<longleftrightarrow>
     mx_held (pv_engine v) \<and>
     (if ew_wedged w
      then (case inflight_now (pv_stamp v) of
          Some h \<Rightarrow> ceiling policy (if_phase h) \<le> elapsed (if_since h) (pv_now v) \<and> ew_activity w = if_label h
            \<and> ew_elapsed w = elapsed (if_since h) (pv_now v)
        | None \<Rightarrow> running_after policy \<le> elapsed since (pv_now v) \<and> ew_activity w = [])
      else (\<exists>bound. patience = At_Most bound \<and> bound \<le> ew_elapsed w))"

lemma refusal_step:
  "lock_or_refuse discard what policy patience since (v # vs) = Refused w \<Longrightarrow>
     \<not> keeps_waiting policy patience since v \<Longrightarrow>
     ew_what w = what \<and> refusal_justified policy patience since v w"
  by (auto simp: keeps_waiting_def refusal_justified_def try_lock_def holder_view_def Let_def not_less
      split: option.splits patience.splits if_splits)

text \<open>
  A refusal says why. Every refusal comes from a poll that found the engine held; one that says
  WEDGED names the holder's own activity and its elapsed time past the ceiling of its phase, or, when
  nothing was stamped, a wait of this caller past \<open>running_after\<close>; and only a caller with bounded
  patience can be refused because the engine is busy.
\<close>

theorem lock_refusal_justified:
  assumes "lock_or_refuse discard what policy patience since vs = Refused w"
  shows "ew_what w = what \<and> (\<exists>v\<in>set vs. refusal_justified policy patience since v w)"
  using assms
proof (induction vs)
  case (Cons v vs)
  show ?case
  proof (cases "keeps_waiting policy patience since v")
    case True
    with Cons show ?thesis by (simp add: keeps_waiting_step del: lock_or_refuse.simps)
  next
    case False
    from refusal_step [OF Cons.prems False] show ?thesis by auto
  qed
qed simp

definition held_view :: "in_flight option \<Rightarrow> nanos \<Rightarrow> nat option poll_view" where
  "held_view h now = \<lparr>pv_engine = (new_mutex None)\<lparr>mx_held := True\<rparr>, pv_stamp = new_mutex h,
     pv_now = now, pv_later = now\<rparr>"

lemma inflight_now_new [mutex_simps]: "inflight_now (new_mutex h) = h"
  by (simp add: inflight_now_def mutex_simps)

lemma lock_wait_exact_witness:
  "lock_or_refuse id ''embed'' sample_policy (At_Most 30) 0
     [held_view (Some \<lparr>if_phase = Running, if_label = ''a'', if_since = 0\<rparr>) 29, held_view None 29] = Still_Waiting"
  by (subst lock_wait_exact)
    (simp add: keeps_waiting_def held_view_def mutex_simps elapsed_def sample_policy_def)

lemma lock_refusal_justified_witness:
  "\<exists>v\<in>set [held_view (Some \<lparr>if_phase = Running, if_label = ''pass'', if_since = 0\<rparr>) 901].
     refusal_justified sample_policy Until_The_Holder_Is_Wedged 5 v
       \<lparr>ew_what = ''embed'', ew_activity = ''pass'', ew_elapsed = 901, ew_wedged = True\<rparr>"
proof -
  have "lock_or_refuse id ''embed'' sample_policy Until_The_Holder_Is_Wedged 5
      [held_view (Some \<lparr>if_phase = Running, if_label = ''pass'', if_since = 0\<rparr>) 901] =
    Refused \<lparr>ew_what = ''embed'', ew_activity = ''pass'', ew_elapsed = 901, ew_wedged = True\<rparr>"
    by (simp add: held_view_def try_lock_def holder_view_def mutex_simps elapsed_def sample_policy_def)
  from lock_refusal_justified [OF this] show ?thesis by blast
qed

text \<open>
  A healthy engine can be refused as WEDGED. The stamp of a request is dropped before its lock
  and set only after it, so between two holders the engine is held with nothing stamped. A caller
  that has waited \<open>running_after\<close> behind any number of healthy holders and polls in that moment is
  refused with the wedge verdict and an empty activity, however recently the engine changed hands.
\<close>

theorem unstamped_hold_refuses_healthy_engine:
  assumes "\<forall>v\<in>set us. mx_held (pv_engine v) \<and>
      (\<exists>h. inflight_now (pv_stamp v) = Some h \<and>
        elapsed (if_since h) (pv_now v) < ceiling policy (if_phase h))"
    and "mx_held (pv_engine v)" and "inflight_now (pv_stamp v) = None"
    and "running_after policy \<le> elapsed since (pv_now v)"
  shows "lock_or_refuse discard what policy Until_The_Holder_Is_Wedged since (us @ v # vs) =
    Refused \<lparr>ew_what = what, ew_activity = [], ew_elapsed = elapsed since (pv_now v), ew_wedged = True\<rparr>"
proof -
  have "\<forall>u\<in>set us. keeps_waiting policy Until_The_Holder_Is_Wedged since u"
    using assms(1) by (auto simp: keeps_waiting_def)
  then have "lock_or_refuse discard what policy Until_The_Holder_Is_Wedged since (us @ v # vs) =
      lock_or_refuse discard what policy Until_The_Holder_Is_Wedged since (v # vs)"
    by (rule lock_skips)
  with assms(2-4) show ?thesis by (simp add: try_lock_def holder_view_def)
qed

lemma unstamped_hold_refuses_healthy_engine_witness:
  "lock_or_refuse id ''embed'' sample_policy Until_The_Holder_Is_Wedged 0
     ([held_view (Some \<lparr>if_phase = Running, if_label = ''a'', if_since = 0\<rparr>) 600,
       held_view (Some \<lparr>if_phase = Running, if_label = ''b'', if_since = 601\<rparr>) 899] @ held_view None 901 # []) =
   Refused \<lparr>ew_what = ''embed'', ew_activity = [], ew_elapsed = 901, ew_wedged = True\<rparr>"
  by (subst unstamped_hold_refuses_healthy_engine)
    (auto simp: held_view_def mutex_simps elapsed_def sample_policy_def)

text \<open>
  What a slot promises the lock: a poisoned one is handed out emptied, so the caller rebuilds. Proved
  once for every \<open>EngineSlot\<close>, used for both.
\<close>

context engine_slot begin

lemma lock_grants:
  assumes "\<not> mx_held (pv_engine v)"
  shows "\<exists>s. lock_or_refuse discard_all what policy patience since (v # vs) = Locked s \<and>
    (if mx_poisoned (pv_engine v) then \<not> is_loaded s else s = mx_val (pv_engine v))"
  using assms by (simp add: try_lock_def discard_unloads)

end

text \<open>
  One panic costs one request. A free engine mutex is always granted, whatever panicked before:
  a healthy one with the engines it holds, a poisoned one emptied, so the request that gets it
  rebuilds instead of failing; this holds for the embedding slot and for the rerank slot.
\<close>

theorem poisoned_engine_is_rebuilt:
  assumes "\<not> mx_held (pv_engine v)" and "\<not> mx_held (pv_engine u)"
  shows "(\<exists>c. lock_or_refuse rung_discard_all what policy patience since (v # vs) = Locked c \<and>
      (if mx_poisoned (pv_engine v) then \<not> rung_is_loaded c else c = mx_val (pv_engine v))) \<and>
    (\<exists>r. lock_or_refuse option_discard_all what policy patience since (u # us) = Locked r \<and>
      (if mx_poisoned (pv_engine u) then \<not> option_is_loaded r else r = mx_val (pv_engine u)))"
  using rung_slot.lock_grants [OF assms(1)] option_slot.lock_grants [OF assms(2)] by simp

lemma poisoned_engine_is_rebuilt_witness:
  "\<exists>r. lock_or_refuse option_discard_all ''rerank'' sample_policy (At_Most 30) 0
     [(held_view None 0)\<lparr>pv_engine := \<lparr>mx_val = Some 4, mx_held = False, mx_poisoned = True\<rparr>\<rparr>] = Locked r
     \<and> \<not> option_is_loaded r"
  using poisoned_engine_is_rebuilt [of
      "\<lparr>pv_engine = new_mutex (rung_cache_new 1 :: nat rung_cache), pv_stamp = new_mutex None, pv_now = 0, pv_later = 0\<rparr>"
      "(held_view None 0)\<lparr>pv_engine := \<lparr>mx_val = Some 4, mx_held = False, mx_poisoned = True\<rparr>\<rparr>"
      "''rerank''" sample_policy "At_Most 30" 0 "[]" "[]"]
  by simp

end
