(* ===== verification/Forward_Pass.thy ===== *)
theory Forward_Pass
  imports Row_Layout
begin

text \<open>
  What the two engines of the vendored \<open>fastembed\<close> share: the block that turns a batch of encodings into the
  input tensors, the run of the session, the tensors it gives back, and the choice of an output by name
  (\<open>vendor-fastembed/src/bgem3_dual/mod.rs\<close> and \<open>reranking/impl.rs\<close>). The tokenizer, \<open>ndarray\<close> and the ONNX
  session are libraries: their calls and the texts of their errors are the fields of \<open>onnx_model\<close>.
\<close>

section \<open>Tensors\<close>

text \<open>A tensor that the session returns: \<open>f32\<close> with its shape and its data in row order, or of another type.\<close>

datatype ort_value = F32_Tensor "nat list" "f32 list" | Other_Value

text \<open>What \<open>ort\<close> promises of a tensor: there are as many values as the shape has places.\<close>

fun tensor_ok :: "ort_value \<Rightarrow> bool" where
  "tensor_ok (F32_Tensor shape data) = (length data = prod_list shape)"
| "tensor_ok Other_Value = True"

definition tensor_rank :: "ort_value \<Rightarrow> nat option" where
  "tensor_rank v = (case v of F32_Tensor shape data \<Rightarrow> Some (length shape) | Other_Value \<Rightarrow> None)"

text \<open>The two-dimensional arrays that go in; a place outside the array is no place (the index panics).\<close>

record 'a array2 =
  ar_rows :: nat
  ar_cols :: nat
  ar_data :: "'a list"

definition array_at :: "'a array2 \<Rightarrow> nat \<Rightarrow> nat \<Rightarrow> 'a option" where
  "array_at a r c = (if r < ar_rows a \<and> c < ar_cols a then nth_opt (ar_data a) (r * ar_cols a + c) else None)"

definition from_shape_vec :: "nat \<Rightarrow> nat \<Rightarrow> 'a list \<Rightarrow> 'a array2 option" where
  "from_shape_vec r c xs =
     (if length xs = r * c then Some \<lparr>ar_rows = r, ar_cols = c, ar_data = xs\<rparr> else None)"

text \<open>\<open>&data[a..b]\<close>: a range past the end panics.\<close>

definition slice_range :: "nat \<Rightarrow> nat \<Rightarrow> 'a list \<Rightarrow> 'a list option" where
  "slice_range a b xs = (if a \<le> b \<and> b \<le> length xs then Some (take (b - a) (drop a xs)) else None)"

section \<open>The libraries\<close>

record encoding =
  enc_ids :: "32 word list"
  enc_mask :: "32 word list"
  enc_types :: "32 word list"

type_synonym session_inputs = "(string \<times> int array2) list"

type_synonym session_outputs = "(string \<times> ort_value) list"

record ('i, 'e) onnx_model =
  om_encode :: "'i list \<Rightarrow> string + encoding list"
  om_need_types :: bool
  om_value :: "int array2 \<Rightarrow> string option"
  om_run :: "session_inputs \<Rightarrow> 'e \<Rightarrow> (app_error, session_outputs) outcome \<times> 'e"
  om_shape_error :: string
  om_extract_error :: string
  om_show_names :: "string list \<Rightarrow> string"
  om_show_shape :: "nat list \<Rightarrow> string"

definition extract_tensor :: "('i, 'e) onnx_model \<Rightarrow> ort_value \<Rightarrow> (app_error, nat list \<times> f32 list) outcome" where
  "extract_tensor om v =
     (case v of F32_Tensor shape data \<Rightarrow> Ok (shape, data) | Other_Value \<Rightarrow> Err (Lib_Error (om_extract_error om)))"

section \<open>One forward pass\<close>

definition flat_ids :: "(encoding \<Rightarrow> 32 word list) \<Rightarrow> encoding list \<Rightarrow> int list" where
  "flat_ids field encodings = concat (map (\<lambda>enc. map uint (field enc)) encodings)"

definition input_arrays ::
  "('i, 'e) onnx_model \<Rightarrow> nat \<Rightarrow> encoding list \<Rightarrow>
     (app_error, int array2 \<times> int array2 \<times> int array2) outcome" where
  "input_arrays om count encodings =
     (case encodings of
        [] \<Rightarrow> Err (Message ''Tokenizer returned empty encodings'')
      | first # rest \<Rightarrow>
          (let len = length (enc_ids first)
           in case (from_shape_vec count len (flat_ids enc_ids encodings),
                    from_shape_vec count len (flat_ids enc_mask encodings),
                    from_shape_vec count len (flat_ids enc_types encodings)) of
                (Some ids, Some attn, Some types) \<Rightarrow> Ok (ids, attn, types)
              | _ \<Rightarrow> Err (Lib_Error (om_shape_error om))))"

definition as_value :: "('i, 'e) onnx_model \<Rightarrow> string \<Rightarrow> int array2 \<Rightarrow> (app_error, session_inputs) outcome" where
  "as_value om name a = (case om_value om a of None \<Rightarrow> Ok [(name, a)] | Some e \<Rightarrow> Err (Lib_Error e))"

definition make_inputs ::
  "('i, 'e) onnx_model \<Rightarrow> int array2 \<Rightarrow> int array2 \<Rightarrow> int array2 \<Rightarrow> (app_error, session_inputs) outcome" where
  "make_inputs om ids attn types =
     bind_outcome (as_value om ''input_ids'' ids) (\<lambda>a.
       bind_outcome (as_value om ''attention_mask'' attn) (\<lambda>b.
         if om_need_types om
         then map_outcome (\<lambda>c. a @ b @ c) (as_value om ''token_type_ids'' types)
         else Ok (a @ b)))"

text \<open>Tokenize, build the tensors, run the session: the part the embedding and the reranking block have in common.\<close>

definition forward_pass ::
  "('i, 'e) onnx_model \<Rightarrow> string \<Rightarrow> 'i list \<Rightarrow> 'e \<Rightarrow>
     (app_error, int array2 \<times> int array2 \<times> session_outputs) outcome \<times> 'e" where
  "forward_pass om what batch e =
     (case om_encode om batch of
        Inl m \<Rightarrow> (Err (Context what (Message m)), e)
      | Inr encodings \<Rightarrow>
          (case input_arrays om (length batch) encodings of
             Err x \<Rightarrow> (Err x, e)
           | Panic \<Rightarrow> (Panic, e)
           | Ok (ids, attn, types) \<Rightarrow>
               (case make_inputs om ids attn types of
                  Err x \<Rightarrow> (Err x, e)
                | Panic \<Rightarrow> (Panic, e)
                | Ok inputs \<Rightarrow>
                    (case om_run om inputs e of (r, e') \<Rightarrow> (map_outcome (\<lambda>outs. (ids, attn, outs)) r, e')))))"

text \<open>The batches of a call, one after another; the first error or panic ends it.\<close>

fun run_batches ::
  "('i list \<Rightarrow> 'e \<Rightarrow> (app_error, 'a list) outcome \<times> 'e) \<Rightarrow> 'i list list \<Rightarrow> 'e \<Rightarrow> (app_error, 'a list) outcome \<times> 'e"
  where
  "run_batches pass [] e = (Ok [], e)"
| "run_batches pass (batch # rest) e =
     (case pass batch e of
        (Ok rows, e') \<Rightarrow>
          (case run_batches pass rest e' of (r, e'') \<Rightarrow> (map_outcome (\<lambda>more_rows. rows @ more_rows) r, e''))
      | (Err x, e') \<Rightarrow> (Err x, e')
      | (Panic, e') \<Rightarrow> (Panic, e'))"

definition in_batches ::
  "('i list \<Rightarrow> 'e \<Rightarrow> (app_error, 'a list) outcome \<times> 'e) \<Rightarrow> 'i list \<Rightarrow> nat \<Rightarrow> 'e \<Rightarrow> (app_error, 'a list) outcome \<times> 'e"
  where
  "in_batches pass texts n e =
     (if n = 0 then (Err (Message ''batch_size must be greater than 0''), e)
      else run_batches pass (chunks n texts) e)"

section \<open>Choosing an output\<close>

definition select_output_key ::
  "('i, 'e) onnx_model \<Rightarrow> (string \<times> nat option) list \<Rightarrow> string \<Rightarrow> nat \<Rightarrow> (app_error, string) outcome" where
  "select_output_key om outs fragment rank =
     (case find (\<lambda>(k, r). contains_str fragment k) outs of
        Some (k, r) \<Rightarrow> Ok k
      | None \<Rightarrow>
          (case filter (\<lambda>(k, r). r = Some rank) outs of
             [(k, r)] \<Rightarrow> Ok k
           | [] \<Rightarrow> Err (Message (''no output named *'' @ fragment @ ''* and no rank-'' @ show_nat rank
               @ '' tensor among the outputs: '' @ om_show_names om (map fst outs)))
           | _ \<Rightarrow> Err (Message (''no output named *'' @ fragment @ ''* and several rank-'' @ show_nat rank
               @ '' outputs '' @ em_dash @ '' cannot pick one safely: '' @ om_show_names om (map fst outs)))))"

definition named_ranks :: "session_outputs \<Rightarrow> (string \<times> nat option) list" where
  "named_ranks outs = map (\<lambda>(k, v). (k, tensor_rank v)) outs"

section \<open>Lemmas\<close>

lemma from_shape_vec_Some: "from_shape_vec r c xs = Some a \<longleftrightarrow> length xs = r * c \<and> a = \<lparr>ar_rows = r, ar_cols = c, ar_data = xs\<rparr>"
  by (auto simp: from_shape_vec_def)

lemma row_place: "r < n \<Longrightarrow> c < m \<Longrightarrow> r * m + c < n * (m :: nat)"
proof -
  assume "r < n" "c < m"
  then have "r * m + c < Suc r * m" by simp
  also have "\<dots> \<le> n * m" using \<open>r < n\<close> by (intro mult_le_mono1) simp
  finally show ?thesis .
qed

lemma array_at_in:
  "from_shape_vec n m xs = Some a \<Longrightarrow> r < n \<Longrightarrow> c < m \<Longrightarrow> array_at a r c = Some (xs ! (r * m + c))"
  by (auto simp: from_shape_vec_Some array_at_def nth_opt_lt row_place)

lemma slice_range_row:
  "r < n \<Longrightarrow> n * m \<le> length xs \<Longrightarrow> slice_range (r * m) (m + r * m) xs = Some (take m (drop (r * m) xs))"
proof -
  assume "r < n" "n * m \<le> length xs"
  then have "Suc r * m \<le> n * m" by (intro mult_le_mono1) simp
  with \<open>n * m \<le> length xs\<close> show ?thesis by (simp add: slice_range_def)
qed

lemma run_batches_Ok_length:
  assumes "\<And>batch e rows. batch \<in> set batches \<Longrightarrow> fst (pass batch e) = Ok rows \<Longrightarrow> length rows = length batch"
    and "fst (run_batches pass batches e) = Ok rows"
  shows "length rows = length (concat batches)"
  using assms
proof (induction batches arbitrary: e rows)
  case (Cons b bs)
  obtain r e' where p: "pass b e = (r, e')" by (cases "pass b e")
  with Cons.prems(2) obtain first where r: "r = Ok first" by (cases r) auto
  obtain q e'' where q: "run_batches pass bs e' = (q, e'')" by (cases "run_batches pass bs e'")
  with Cons.prems(2) p r obtain rest where rest: "q = Ok rest" "rows = first @ rest" by auto
  have "length rest = length (concat bs)" using Cons.IH [of e' rest] Cons.prems(1) q rest by auto
  moreover have "length first = length b" using Cons.prems(1) [of b e first] p r by simp
  ultimately show ?case using rest by simp
qed simp

lemma run_batches_rowwise:
  assumes "\<And>batch e rows. batch \<in> set batches \<Longrightarrow> fst (pass batch e) = Ok rows \<Longrightarrow> rows = map f batch"
    and "fst (run_batches pass batches e) = Ok rows"
  shows "rows = map f (concat batches)"
  using assms
proof (induction batches arbitrary: e rows)
  case (Cons b bs)
  obtain r e' where p: "pass b e = (r, e')" by (cases "pass b e")
  with Cons.prems(2) obtain first where r: "r = Ok first" by (cases r) auto
  obtain q e'' where q: "run_batches pass bs e' = (q, e'')" by (cases "run_batches pass bs e'")
  with Cons.prems(2) p r obtain rest where rest: "q = Ok rest" "rows = first @ rest" by auto
  have "rest = map f (concat bs)" using Cons.IH [of e' rest] Cons.prems(1) q rest by auto
  moreover have "first = map f b" using Cons.prems(1) [of b e first] p r by simp
  ultimately show ?case using rest by simp
qed simp

lemma run_batches_no_panic:
  assumes "\<And>batch e. batch \<in> set batches \<Longrightarrow> fst (pass batch e) \<noteq> Panic"
  shows "fst (run_batches pass batches e) \<noteq> Panic"
  using assms
proof (induction batches arbitrary: e)
  case (Cons b bs)
  obtain r e' where p: "pass b e = (r, e')" by (cases "pass b e")
  have "r \<noteq> Panic" using Cons.prems [of b e] p by simp
  moreover have "fst (run_batches pass bs e') \<noteq> Panic" using Cons.IH Cons.prems by simp
  ultimately show ?case using p by (cases r; cases "run_batches pass bs e'"; cases "fst (run_batches pass bs e')") auto
qed simp

lemma forward_pass_Ok:
  assumes "forward_pass om what batch e = (Ok (ids, attn, outs), e')"
  shows "\<exists>encodings types inputs. om_encode om batch = Inr encodings \<and> encodings \<noteq> [] \<and>
    input_arrays om (length batch) encodings = Ok (ids, attn, types) \<and>
    from_shape_vec (length batch) (length (enc_ids (hd encodings))) (flat_ids enc_ids encodings) = Some ids \<and>
    from_shape_vec (length batch) (length (enc_ids (hd encodings))) (flat_ids enc_mask encodings) = Some attn \<and>
    make_inputs om ids attn types = Ok inputs \<and> om_run om inputs e = (Ok outs, e')"
proof -
  from assms obtain encodings types inputs where e: "om_encode om batch = Inr encodings"
    and i: "input_arrays om (length batch) encodings = Ok (ids, attn, types)"
    and m: "make_inputs om ids attn types = Ok inputs" "om_run om inputs e = (Ok outs, e')"
    by (auto simp: forward_pass_def split: sum.splits outcome.splits prod.splits)
  from i have "encodings \<noteq> [] \<and>
      from_shape_vec (length batch) (length (enc_ids (hd encodings))) (flat_ids enc_ids encodings) = Some ids \<and>
      from_shape_vec (length batch) (length (enc_ids (hd encodings))) (flat_ids enc_mask encodings) = Some attn"
    by (auto simp: input_arrays_def Let_def split: list.splits option.splits)
  with e i m show ?thesis by blast
qed

lemma forward_pass_no_panic:
  assumes "\<And>inputs. fst (om_run om inputs e) \<noteq> Panic"
  shows "fst (forward_pass om what batch e) \<noteq> Panic"
proof -
  have "input_arrays om n encodings \<noteq> Panic" for n encodings
    by (auto simp: input_arrays_def Let_def split: list.splits option.splits)
  moreover have "as_value om name a \<noteq> Panic" for name a
    by (simp add: as_value_def split: option.splits)
  then have "make_inputs om ids attn types \<noteq> Panic" for ids attn types
    unfolding make_inputs_def
    by (cases "as_value om ''input_ids'' ids"; cases "as_value om ''attention_mask'' attn";
        cases "as_value om ''token_type_ids'' types") (auto simp: outcome_simps)
  moreover have "map_outcome f r = Panic \<longleftrightarrow> r = Panic" for f :: "session_outputs \<Rightarrow> int array2 \<times> int array2 \<times> session_outputs" and r :: "(app_error, session_outputs) outcome"
    by (cases r) auto
  ultimately show ?thesis
    unfolding forward_pass_def
    using assms by (simp split: sum.split outcome.split prod.split) (metis fst_conv)
qed

end
