(* ===== verification/Lexical_Head.thy ===== *)
theory Lexical_Head
  imports Forward_Pass "HOL-Library.AList"
begin

text \<open>
  The two heads of the embedding engine as functions of what the session returned: \<open>normalize\<close>
  (\<open>vendor-fastembed/src/common.rs\<close>) for the dense rows, \<open>output_covers_input\<close> and \<open>post_process_bgem3\<close>
  (\<open>vendor-fastembed/src/sparse_text_embedding/impl.rs\<close>) for the sparse ones. The weights of the lexical head
  are a data file and the order in which \<open>ndarray\<close> sums a dot product is its own: both are parameters. A call
  that indexes out of an array, or multiplies vectors of two lengths, panics: \<open>None\<close> here.
\<close>

section \<open>The dense head\<close>

definition normalize_vec :: "f32 list \<Rightarrow> f32 list" where
  "normalize_vec v =
     (let norm = f32_sqrt (fold (\<lambda>x acc. f32_add acc (f32_mul x x)) v 0);
          epsilon = 0x2B8CBCCC
      in map (\<lambda>x. f32_div x (f32_add norm epsilon)) v)"

definition dense_rows :: "nat \<Rightarrow> nat \<Rightarrow> f32 list \<Rightarrow> f32 list list option" where
  "dense_rows count hidden data =
     map_option (map normalize_vec)
       (collect_options (map (\<lambda>row. slice_range (row * hidden) (Suc row * hidden) data) [0 ..< count]))"

section \<open>The sparse head\<close>

record sparse_embedding =
  se_indices :: "nat list"
  se_values :: "f32 list"

record lexical_head =
  lx_weights :: "f32 list"
  lx_bias :: f32
  lx_dot :: "f32 list \<Rightarrow> f32 list \<Rightarrow> f32"

definition output_covers_input :: "nat list \<Rightarrow> nat \<Rightarrow> nat \<Rightarrow> bool" where
  "output_covers_input shape batch_size encoding_length \<longleftrightarrow>
     length shape = 3 \<and> batch_size \<le> shape ! 0 \<and> encoding_length \<le> shape ! 1"

text \<open>\<open>f32::max\<close> gives the other argument when one is a NaN.\<close>

definition f32_max :: "f32 \<Rightarrow> f32 \<Rightarrow> f32" where
  "f32_max x y = (if f32_is_nan x then y else if f32_is_nan y \<or> f32_ge x y then x else y)"

definition f32_gt :: "f32 \<Rightarrow> f32 \<Rightarrow> bool" where
  "f32_gt x y \<longleftrightarrow> f32_ge x y \<and> \<not> f32_ge y x"

text \<open>\<open>hidden_states.slice(s![batch, seq, ..])\<close>, from the shape and the data.\<close>

definition hidden_at :: "nat list \<Rightarrow> f32 list \<Rightarrow> nat \<Rightarrow> nat \<Rightarrow> f32 list option" where
  "hidden_at shape data b s =
     (case shape of
        [n, len, width] \<Rightarrow>
          if b < n \<and> s < len then slice_range ((b * len + s) * width) (Suc (b * len + s) * width) data else None
      | _ \<Rightarrow> None)"

definition token_weight :: "lexical_head \<Rightarrow> f32 list \<Rightarrow> f32 option" where
  "token_weight lx hidden =
     (if length hidden = length (lx_weights lx)
      then Some (f32_max (f32_add (lx_dot lx hidden (lx_weights lx)) (lx_bias lx)) 0)
      else None)"

definition special_tokens :: "int list" where
  "special_tokens = [0, 1, 2, 3]"

text \<open>The map of one text as an association list; the order of a \<open>HashMap\<close> is not looked at.\<close>

definition note_weight :: "nat \<Rightarrow> f32 \<Rightarrow> (nat \<times> f32) list \<Rightarrow> (nat \<times> f32) list" where
  "note_weight i w tw = AList.update i (case map_of tw i of None \<Rightarrow> w | Some old \<Rightarrow> f32_max old w) tw"

fun weigh_tokens ::
  "lexical_head \<Rightarrow> nat list \<Rightarrow> f32 list \<Rightarrow> int array2 \<Rightarrow> int array2 \<Rightarrow> nat \<Rightarrow> nat list \<Rightarrow>
     (nat \<times> f32) list \<Rightarrow> (nat \<times> f32) list option" where
  "weigh_tokens lx shape data ids attn b [] tw = Some tw"
| "weigh_tokens lx shape data ids attn b (s # ss) tw =
     (case (array_at attn b s, array_at ids b s) of
        (Some on, Some token) \<Rightarrow>
          if on = 0 \<or> token \<in> set special_tokens then weigh_tokens lx shape data ids attn b ss tw
          else (case Option.bind (hidden_at shape data b s) (token_weight lx) of
              None \<Rightarrow> None
            | Some w \<Rightarrow>
                weigh_tokens lx shape data ids attn b ss
                  (if f32_gt w 0 then note_weight (nat (token mod 2 ^ 64)) w tw else tw))
      | _ \<Rightarrow> None)"

definition sparse_row :: "(nat \<times> f32) list \<Rightarrow> sparse_embedding" where
  "sparse_row tw =
     (let indices = sort (map fst tw)
      in \<lparr>se_indices = indices, se_values = map (\<lambda>i. the (map_of tw i)) indices\<rparr>)"

definition post_process_bgem3 ::
  "lexical_head \<Rightarrow> nat list \<Rightarrow> f32 list \<Rightarrow> int array2 \<Rightarrow> int array2 \<Rightarrow> sparse_embedding list option" where
  "post_process_bgem3 lx shape data ids attn =
     collect_options (map (\<lambda>b. map_option sparse_row
       (weigh_tokens lx shape data ids attn b [0 ..< ar_cols ids] [])) [0 ..< ar_rows ids])"

section \<open>Order on floats\<close>

lemma le_num_total: "x \<noteq> Nan \<Longrightarrow> y \<noteq> Nan \<Longrightarrow> le_num x y \<or> le_num y x"
  by (cases x; cases y) (auto simp: Let_def min.commute)

lemma f32_ge_total: "\<not> f32_is_nan x \<Longrightarrow> \<not> f32_is_nan y \<Longrightarrow> f32_ge x y \<or> f32_ge y x"
  unfolding f32_ge_def f32_is_nan_def by (rule le_num_total)

lemma f32_ge_refl: "\<not> f32_is_nan x \<Longrightarrow> f32_ge x x"
  using f32_ge_total by blast

lemma f32_gt_no_nan: "f32_gt x y \<Longrightarrow> \<not> f32_is_nan x"
  by (auto simp: f32_gt_def dest: f32_ge_nan)

lemma f32_max_cases: "f32_max x y = x \<or> f32_max x y = y"
  by (simp add: f32_max_def)

lemma f32_max_upper:
  "\<not> f32_is_nan x \<Longrightarrow> \<not> f32_is_nan y \<Longrightarrow> f32_ge (f32_max x y) x \<and> f32_ge (f32_max x y) y"
  using f32_ge_total [of x y] by (auto simp: f32_max_def f32_ge_refl)

section \<open>No panic behind the guard\<close>

lemma dense_rows_Some:
  assumes "count * hidden \<le> length data"
  shows "dense_rows count hidden data =
    Some (map (\<lambda>row. normalize_vec (take hidden (drop (row * hidden) data))) [0 ..< count])"
proof -
  have "collect_options (map (\<lambda>row. slice_range (row * hidden) (Suc row * hidden) data) [0 ..< count]) =
      Some (map (\<lambda>row. take hidden (drop (row * hidden) data)) [0 ..< count])"
    using assms by (intro collect_options_map) (simp add: slice_range_row)
  then show ?thesis by (simp add: dense_rows_def comp_def del: mult_Suc)
qed

lemma hidden_at_in:
  assumes "b < n" and "s < len" and "length data = n * len * width"
  shows "hidden_at [n, len, width] data b s = Some (take width (drop ((b * len + s) * width) data))"
  using assms row_place [OF assms(1,2)] slice_range_row [of "b * len + s" "n * len" width data]
  by (simp add: hidden_at_def)

lemma length_hidden_at: "hidden_at [n, len, width] data b s = Some h \<Longrightarrow> length h = width"
  by (auto simp: hidden_at_def slice_range_def split: if_splits)

lemma weigh_tokens_defined:
  assumes "from_shape_vec n len xs = Some ids" and "from_shape_vec n len ys = Some attn" and "b < n"
    and "n \<le> n'" and "len \<le> len'" and "length data = n' * len' * length (lx_weights lx)"
    and "\<forall>s\<in>set ss. s < len"
  shows "weigh_tokens lx [n', len', length (lx_weights lx)] data ids attn b ss tw \<noteq> None"
  using assms(7)
proof (induction ss arbitrary: tw)
  case (Cons s ss)
  then have s: "s < len" by simp
  then have "hidden_at [n', len', length (lx_weights lx)] data b s =
      Some (take (length (lx_weights lx)) (drop ((b * len' + s) * length (lx_weights lx)) data))"
    using assms by (intro hidden_at_in) simp_all
  moreover from this have "length (take (length (lx_weights lx)) (drop ((b * len' + s) * length (lx_weights lx)) data))
      = length (lx_weights lx)" by (rule length_hidden_at)
  ultimately have "\<exists>w. Option.bind (hidden_at [n', len', length (lx_weights lx)] data b s) (token_weight lx) = Some w"
    by (simp add: token_weight_def)
  with Cons show ?case
    using array_at_in [OF assms(1,3) s] array_at_in [OF assms(2,3) s] by auto
qed simp

lemma post_process_defined:
  assumes "from_shape_vec n len xs = Some ids" and "from_shape_vec n len ys = Some attn"
    and "output_covers_input shape n len" and "length data = prod_list shape"
    and "shape ! 2 = length (lx_weights lx)"
  shows "post_process_bgem3 lx shape data ids attn \<noteq> None"
proof -
  from assms(3) obtain a b c where shape: "shape = [a, b, c]"
    by (auto simp: output_covers_input_def length_Suc_conv eval_nat_numeral)
  have "weigh_tokens lx [a, b, length (lx_weights lx)] data ids attn r [0 ..< len] [] \<noteq> None" if "r < n" for r
    using assms that by (intro weigh_tokens_defined [where n = n and len = len])
      (auto simp: shape output_covers_input_def mult.assoc)
  moreover have "ar_rows ids = n" "ar_cols ids = len" "c = length (lx_weights lx)"
    using assms(1,5) by (auto simp: from_shape_vec_Some shape)
  ultimately show ?thesis
    unfolding post_process_bgem3_def collect_options_map_None shape by simp
qed

section \<open>What a sparse row holds\<close>

text \<open>What one position of a text adds: nothing when it is padding, a special token or not positive.\<close>

definition contribution ::
  "lexical_head \<Rightarrow> nat list \<Rightarrow> f32 list \<Rightarrow> int array2 \<Rightarrow> int array2 \<Rightarrow> nat \<Rightarrow> nat \<Rightarrow> (nat \<times> f32) option" where
  "contribution lx shape data ids attn b s =
     (case (array_at attn b s, array_at ids b s, Option.bind (hidden_at shape data b s) (token_weight lx)) of
        (Some on, Some token, Some w) \<Rightarrow>
          if on = 0 \<or> token \<in> set special_tokens \<or> \<not> f32_gt w 0 then None
          else Some (nat (token mod 2 ^ 64), w)
      | _ \<Rightarrow> None)"

lemma weigh_tokens_fold:
  "weigh_tokens lx shape data ids attn b ss tw = Some tw' \<Longrightarrow>
     tw' = fold (\<lambda>(i, w). note_weight i w) (List.map_filter (contribution lx shape data ids attn b) ss) tw"
  by (induction ss arbitrary: tw)
    (auto simp: List.map_filter_simps contribution_def split: option.splits if_splits)

lemma contribution_no_nan: "contribution lx shape data ids attn b s = Some (i, w) \<Longrightarrow> \<not> f32_is_nan w"
  by (auto simp: contribution_def dest: f32_gt_no_nan split: option.splits if_splits)

lemma note_fold:
  assumes "\<forall>(i, w)\<in>set xs. \<not> f32_is_nan w" and "tw = fold (\<lambda>(i, w). note_weight i w) xs []"
  shows "distinct (map fst tw) \<and> (map_of tw i = None \<longleftrightarrow> i \<notin> fst ` set xs) \<and>
    (\<forall>w. map_of tw i = Some w \<longrightarrow> (i, w) \<in> set xs \<and> (\<forall>w'. (i, w') \<in> set xs \<longrightarrow> f32_ge w w'))"
  using assms
proof (induction xs arbitrary: tw rule: rev_induct)
  case (snoc x xs)
  obtain j v where x: "x = (j, v)" by (cases x)
  define t where "t = fold (\<lambda>(i, w). note_weight i w) xs []"
  have tw: "tw = note_weight j v t" using snoc.prems(2) by (simp add: x t_def)
  note IH = snoc.IH [OF _ t_def, simplified]
  have nan: "\<forall>(i, w)\<in>set xs. \<not> f32_is_nan w" "\<not> f32_is_nan v" using snoc.prems(1) by (auto simp: x)
  note IH = snoc.IH [OF nan(1) t_def]
  have upd: "map_of tw = (map_of t)(j \<mapsto> (case map_of t j of None \<Rightarrow> v | Some old \<Rightarrow> f32_max old v))"
    by (simp add: tw note_weight_def update_conv')
  have d: "distinct (map fst tw)" using IH by (simp add: tw note_weight_def distinct_update)
  show ?case
  proof (cases "i = j")
    case False
    then show ?thesis using IH d by (auto simp: upd x)
  next
    case True
    show ?thesis
    proof (cases "map_of t j")
      case None
      then have "j \<notin> fst ` set xs" using IH True by simp
      then show ?thesis using None d True nan(2) by (force simp: upd x f32_ge_refl)
    next
      case (Some old)
      then have old: "(j, old) \<in> set xs" "\<forall>w'. (j, w') \<in> set xs \<longrightarrow> f32_ge old w'" using IH True by auto
      then have "\<not> f32_is_nan old" using nan(1) by auto
      note up = f32_max_upper [OF this nan(2)]
      have "(j, f32_max old v) \<in> set (xs @ [x])" using f32_max_cases [of old v] old(1) by (auto simp: x)
      moreover have "\<forall>w'. (j, w') \<in> set (xs @ [x]) \<longrightarrow> f32_ge (f32_max old v) w'"
        using up old(2) f32_ge_trans by (auto simp: x)
      ultimately show ?thesis using Some True d old(1) by (force simp: upd x)
    qed
  qed
qed simp

lemma sparse_row_entries:
  assumes "distinct (map fst tw)" and "row = sparse_row tw"
  shows "sorted_wrt (<) (se_indices row)" and "length (se_values row) = length (se_indices row)"
    and "set (se_indices row) = fst ` set tw"
    and "(i, w) \<in> set (zip (se_indices row) (se_values row)) \<longleftrightarrow> map_of tw i = Some w"
proof -
  show "sorted_wrt (<) (se_indices row)"
    using assms by (simp add: sparse_row_def Let_def strict_sorted_iff)
  show "length (se_values row) = length (se_indices row)" "set (se_indices row) = fst ` set tw"
    by (simp_all add: assms(2) sparse_row_def Let_def)
  have "(i, w) \<in> set (zip xs (map f xs)) \<longleftrightarrow> i \<in> set xs \<and> w = f i" for xs :: "nat list" and f
    by (auto simp: zip_map2 zip_same_conv_map)
  then have "(i, w) \<in> set (zip (se_indices row) (se_values row)) \<longleftrightarrow>
      i \<in> fst ` set tw \<and> w = the (map_of tw i)"
    by (simp add: assms(2) sparse_row_def Let_def)
  also have "\<dots> \<longleftrightarrow> map_of tw i = Some w"
    using map_of_eq_None_iff [of tw i] by (cases "map_of tw i") auto
  finally show "(i, w) \<in> set (zip (se_indices row) (se_values row)) \<longleftrightarrow> map_of tw i = Some w" .
qed

lemma post_process_row:
  assumes "post_process_bgem3 lx shape data ids attn = Some rows" and "b < ar_rows ids"
  shows "\<exists>tw. weigh_tokens lx shape data ids attn b [0 ..< ar_cols ids] [] = Some tw \<and> rows ! b = sparse_row tw"
proof -
  have "length rows = ar_rows ids"
    using collect_options_length [OF assms(1) [unfolded post_process_bgem3_def]] by simp
  moreover have "map (\<lambda>r. map_option sparse_row (weigh_tokens lx shape data ids attn r [0 ..< ar_cols ids] []))
      [0 ..< ar_rows ids] ! b = map Some rows ! b"
    using assms(1) by (simp add: post_process_bgem3_def collect_options_Some)
  ultimately have "map_option sparse_row (weigh_tokens lx shape data ids attn b [0 ..< ar_cols ids] []) = Some (rows ! b)"
    using assms(2) by simp
  then show ?thesis by auto
qed

lemma dense_rows_row:
  assumes "dense_rows n hidden data = Some rows" and "i < n"
  shows "\<exists>r. slice_range (i * hidden) (Suc i * hidden) data = Some r \<and> rows ! i = normalize_vec r"
proof -
  from assms(1) obtain rs where c: "collect_options (map (\<lambda>row. slice_range (row * hidden) (Suc row * hidden) data) [0 ..< n]) = Some rs"
    and rows: "rows = map normalize_vec rs" by (auto simp: dense_rows_def)
  have "length rs = n" using collect_options_length [OF c] by simp
  moreover have "map (\<lambda>row. slice_range (row * hidden) (Suc row * hidden) data) [0 ..< n] ! i = map Some rs ! i"
    using c by (simp add: collect_options_Some)
  ultimately show ?thesis using assms(2) rows by simp
qed

text \<open>
  C8: A sparse row holds each token of its text once, with its greatest weight. The indices of row \<open>b\<close> are strictly
  increasing, they are exactly the tokens of text \<open>b\<close> that are neither padding nor special and that have a
  positive weight at some position, and each goes with the greatest of its weights; padding adds nothing.
\<close>

theorem lexical_row_holds_greatest_weights:
  assumes "post_process_bgem3 lx shape data ids attn = Some rows" and "b < ar_rows ids"
  shows "length rows = ar_rows ids \<and> sorted_wrt (<) (se_indices (rows ! b)) \<and>
    length (se_values (rows ! b)) = length (se_indices (rows ! b)) \<and>
    (\<forall>i. i \<in> set (se_indices (rows ! b)) \<longleftrightarrow>
       (\<exists>s<ar_cols ids. \<exists>w. contribution lx shape data ids attn b s = Some (i, w))) \<and>
    (\<forall>(i, w)\<in>set (zip (se_indices (rows ! b)) (se_values (rows ! b))).
       (\<exists>s<ar_cols ids. contribution lx shape data ids attn b s = Some (i, w)) \<and>
       (\<forall>s<ar_cols ids. \<forall>w'. contribution lx shape data ids attn b s = Some (i, w') \<longrightarrow> f32_ge w w'))"
proof -
  let ?c = "contribution lx shape data ids attn b"
  have len: "length rows = ar_rows ids"
    using collect_options_length [OF assms(1) [unfolded post_process_bgem3_def]] by simp
  from post_process_row [OF assms] obtain tw where
    w: "weigh_tokens lx shape data ids attn b [0 ..< ar_cols ids] [] = Some tw"
    and row: "rows ! b = sparse_row tw" by blast
  define xs where "xs = List.map_filter ?c [0 ..< ar_cols ids]"
  have mem: "(i, v) \<in> set xs \<longleftrightarrow> (\<exists>s<ar_cols ids. ?c s = Some (i, v))" for i v
    by (auto simp: xs_def List.map_filter_def) force
  have "\<forall>(i, v)\<in>set xs. \<not> f32_is_nan v" using contribution_no_nan by (auto simp: mem)
  from note_fold [OF this weigh_tokens_fold [OF w, folded xs_def]]
  have n: "distinct (map fst tw)" "map_of tw i = None \<longleftrightarrow> i \<notin> fst ` set xs"
    "map_of tw i = Some v \<Longrightarrow> (i, v) \<in> set xs \<and> (\<forall>v'. (i, v') \<in> set xs \<longrightarrow> f32_ge v v')" for i v by auto
  note e = sparse_row_entries [OF n(1) row]
  have "i \<in> set (se_indices (rows ! b)) \<longleftrightarrow> (\<exists>s<ar_cols ids. \<exists>w. ?c s = Some (i, w))" for i
  proof -
    have "i \<in> set (se_indices (rows ! b)) \<longleftrightarrow> i \<in> fst ` set xs"
      using n(2) [of i] by (auto simp: e(3) map_of_eq_None_iff)
    also have "\<dots> \<longleftrightarrow> (\<exists>w. (i, w) \<in> set xs)" by force
    finally show ?thesis by (auto simp: mem)
  qed
  moreover have "(\<exists>s<ar_cols ids. ?c s = Some (i, v)) \<and> (\<forall>s<ar_cols ids. \<forall>v'. ?c s = Some (i, v') \<longrightarrow> f32_ge v v')"
    if "(i, v) \<in> set (zip (se_indices (rows ! b)) (se_values (rows ! b)))" for i v
    using n(3) [OF that [unfolded e(4)]] mem by blast
  ultimately show ?thesis using len e(1,2) by blast
qed

end
