(* ===== verification/Inference.thy ===== *)
theory Inference
  imports Provider Engine_Lock Lexical_Head
begin

text \<open>
  The embed path of \<open>src/inference.rs\<close> and the validated load of \<open>src/canary.rs\<close>, as state passing:
  a call takes the state of the process and returns how it ended and the state it left. A call that
  unwinds ends with \<open>Panic\<close>, and the state it leaves is the one its destructors leave: the stamp
  cleared, the lease released, the engine's mutex poisoned. What the libraries and the machine
  answer during the request is in the record \<open>request_env\<close>; a call that never gets the engine has
  no result.
\<close>

section \<open>What a request brings with it\<close>

record sparse_vec =
  sv_indices :: "32 word list"
  sv_values :: "f32 list"

text \<open>
  \<open>rq_try_new\<close> and \<open>rq_try_again\<close> are the library's constructor at the first build and at the rebuild
  after a wipe, \<open>rq_left\<close> what \<open>remove_dir_all\<close> left, \<open>rq_clock\<close> the clock at the successive readings of
  one call, \<open>rq_before\<close> and \<open>rq_after\<close> the cache directories when the pass starts and when it is over.
\<close>

record ('e, 't) request_env =
  rq_machine :: machine
  rq_reference :: "f32 list"
  rq_try_new :: "session_options \<Rightarrow> (app_error, 'e) outcome"
  rq_try_again :: "session_options \<Rightarrow> (app_error, 'e) outcome"
  rq_embed :: "('e, sparse_embedding) embed_call"
  rq_encode :: "'t \<Rightarrow> string \<Rightarrow> nat option"
  rq_left :: "dir_entry list option"
  rq_before :: "string \<Rightarrow> dir_entry list option"
  rq_after :: "string \<Rightarrow> dir_entry list option"
  rq_clock :: "nat \<Rightarrow> nanos"

record pass_timings =
  queue_wait_ms :: nat
  session_build_ms :: nat
  inference_ms :: nat
  compile_cache_grew_mb :: nat

record embed_response =
  er_dense :: "f32 list list"
  er_sparse :: "sparse_vec list"
  er_dimension :: "nat option"
  er_usage :: token_report
  er_request_id :: string
  er_timings :: pass_timings

section \<open>The validated load\<close>

definition note_check ::
  "(app_error, canary_outcome) outcome \<Rightarrow> nanos \<Rightarrow> ('e, 'r, 't) app_state \<Rightarrow> ('e, 'r, 't) app_state" where
  "note_check r now st = st\<lparr>st_self_check := record_self_check r now (st_self_check st)\<rparr>"

definition load_validated_dual ::
  "('e, 't) request_env \<Rightarrow> string \<Rightarrow> limits \<Rightarrow> bool \<Rightarrow> cache_lease \<Rightarrow> ('e, 'r, 't) app_state \<Rightarrow>
     (app_error, 'e) outcome \<times> ('e, 'r, 't) app_state" where
  "load_validated_dual rq hint lim pin lease st =
     (case load_dual (rq_machine rq) (rq_try_new rq) hint (max_length lim) lease st of
        (Err e, st1) \<Rightarrow> (Err e, st1)
      | (Panic, st1) \<Rightarrow> (Panic, st1)
      | (Ok engine, st1) \<Rightarrow>
          (case canary_check (rq_reference rq) (rq_embed rq) lim pin engine of
             (Ok k, engine') \<Rightarrow> (Ok engine', note_check (Ok k) (rq_clock rq 3) st1)
           | (Panic, engine') \<Rightarrow> (Panic, st1)
           | (Err failure, engine') \<Rightarrow>
               if cl_dir lease = []
               then (Err (Context ''canary failed with no compiled-model cache configured'' failure),
                     note_check (Err failure) (rq_clock rq 3) st1)
               else (case load_dual (rq_machine rq) (rq_try_again rq) hint (max_length lim) lease
                         (st1\<lparr>cache_paths := wipe (rq_left rq) lease (cache_paths st1)\<rparr>) of
                   (Err e, st2) \<Rightarrow> (Err e, st2)
                 | (Panic, st2) \<Rightarrow> (Panic, st2)
                 | (Ok rebuilt, st2) \<Rightarrow>
                     (case canary_check (rq_reference rq) (rq_embed rq) lim pin rebuilt of
                        (Ok k, rebuilt') \<Rightarrow> (Ok rebuilt', note_check (Ok k) (rq_clock rq 3) st2)
                      | (Panic, rebuilt') \<Rightarrow> (Panic, st2)
                      | (Err failure2, rebuilt') \<Rightarrow>
                          (Err (Context (''canary still failing after a clean recompile '' @ em_dash
                             @ '' refusing to serve garbage embeddings'') failure2),
                           note_check (Err failure2) (rq_clock rq 3) st2)))))"

section \<open>The unpinned path\<close>

text \<open>The lease is granted when the lock comes free: the wait of \<open>CachePathLease::hold\<close> is over.\<close>

definition lease_wait ::
  "string \<Rightarrow> string \<Rightarrow> cache_shape \<Rightarrow> cache_world \<Rightarrow> cache_lease \<times> cache_world" where
  "lease_wait base engine shape w =
     (case lease_hold base engine shape (if trim base = [] then w else w\<lparr>path_locked := False\<rparr>) of
        Some lw \<Rightarrow> lw
      | None \<Rightarrow> (\<lparr>cl_engine = engine, cl_shape = shape, cl_dir = [], cl_held = False\<rparr>, w))"

definition drop_claim :: "cache_lease option \<Rightarrow> ('e, 'r, 't) app_state \<Rightarrow> ('e, 'r, 't) app_state" where
  "drop_claim claim st =
     (case claim of None \<Rightarrow> st | Some l \<Rightarrow> st\<lparr>cache_paths := lease_drop l (cache_paths st)\<rparr>)"

text \<open>The guard is dropped last; a call that unwinds leaves the mutex poisoned.\<close>

definition leave_embed ::
  "bool \<Rightarrow> 'e rung_cache \<Rightarrow> cache_lease option \<Rightarrow> ('e, 'r, 't) app_state \<Rightarrow> ('e, 'r, 't) app_state" where
  "leave_embed panicked cache claim st =
     (unstamp_embed (drop_claim claim st))
       \<lparr>embed_engine := \<lparr>mx_val = cache, mx_held = False, mx_poisoned = panicked\<rparr>\<rparr>"

definition rung_set_last :: "'e \<Rightarrow> 'e rung_cache \<Rightarrow> 'e rung_cache" where
  "rung_set_last e c = c\<lparr>rungs := butlast (rungs c) @ [(fst (last (rungs c)), e)]\<rparr>"

definition building_label :: string where
  "building_label = ''embed: building and canary-checking the session (a first-ever shape compiles ''
     @ ''for minutes; cached shapes load in seconds)''"

definition embed_shape :: "limits \<Rightarrow> cache_shape" where
  "embed_shape lim = cache_shape_new (lm_batch lim) (max_length lim)"

text \<open>
  The engine of the cap: resident, or built under the lease of its slice. The cache, the lease the
  call holds from here on, the milliseconds of the build.
\<close>

definition engine_for_cap ::
  "('e, 't) request_env \<Rightarrow> string \<Rightarrow> limits \<Rightarrow> bool \<Rightarrow> 'e rung_cache \<Rightarrow> ('e, 'r, 't) app_state \<Rightarrow>
     (app_error, 'e rung_cache \<times> cache_lease option \<times> nat) outcome \<times> ('e, 'r, 't) app_state" where
  "engine_for_cap rq hint lim retry cache st =
     (case rung_get (max_length lim) cache of
        (Some e, cache1) \<Rightarrow> (Ok (cache1, None, 0), st)
      | (None, cache1) \<Rightarrow>
          (let st1 = stamp_embed Building building_label (rq_clock rq 2) st;
               (lease, w) = lease_wait (mxr_cache_base (st_config st)) embed_cache_engine (embed_shape lim)
                 (cache_paths st1);
               st2 = commit_cap (max_length lim) (st1\<lparr>cache_paths := w\<rparr>)
           in case load_validated_dual rq hint lim retry lease st2 of
                (Ok built, st3) \<Rightarrow>
                  (Ok (fst (remember_engine (max_length lim) built cache1), Some lease,
                     as_millis (elapsed (rq_clock rq 2) (rq_clock rq 4))), st3)
              | (Err e, st3) \<Rightarrow> (Err e, leave_embed False cache1 (Some lease) (settle_cap cache1 st3))
              | (Panic, st3) \<Rightarrow> (Panic, leave_embed True cache1 (Some lease) st3)))"

definition sparse_wire :: "sparse_embedding \<Rightarrow> sparse_vec" where
  "sparse_wire s = \<lparr>sv_indices = map of_nat (se_indices s), sv_values = se_values s\<rparr>"

definition run_pass ::
  "('e, 't) request_env \<Rightarrow> string list \<Rightarrow> limits \<Rightarrow> bool \<Rightarrow> string \<Rightarrow> nat \<Rightarrow> 'e rung_cache \<Rightarrow>
     cache_lease option \<Rightarrow> nat \<Rightarrow> ('e, 'r, 't) app_state \<Rightarrow>
     (app_error, embed_response) outcome \<times> ('e, 'r, 't) app_state" where
  "run_pass rq texts lim retry request_id queue_ms cache claim build_ms st =
     (let st1 = stamp_embed Running (''embed: embedding '' @ show_nat (length texts) @ '' row(s)'')
            (rq_clock rq 5) (settle_cap cache st);
          watch = compile_watch_start (rq_before rq) (mxr_cache_base (st_config st)) embed_cache_engine
            (embed_shape lim)
      in case rung_get (max_length lim) cache of
           (None, cache1) \<Rightarrow> (Panic, leave_embed True cache1 claim st1)
         | (Some engine, cache1) \<Rightarrow>
             (case embed_settling ''embed'' (length texts) retry (rq_embed rq texts (lm_batch lim)) engine of
                (Panic, engine') \<Rightarrow> (Panic, leave_embed True (rung_set_last engine' cache1) claim st1)
              | (Err e, engine') \<Rightarrow> (Err e, leave_embed False (rung_set_last engine' cache1) claim st1)
              | (Ok rows, engine') \<Rightarrow>
                  (let dense = map fst rows; dim = dense_dimension dense
                   in (Ok \<lparr>er_dense = dense, er_sparse = map (sparse_wire \<circ> snd) rows,
                           er_dimension = dim, er_usage = token_usage_default,
                           er_request_id = request_id,
                           er_timings = \<lparr>queue_wait_ms = queue_ms, session_build_ms = build_ms,
                             inference_ms = as_millis (elapsed (rq_clock rq 6) (rq_clock rq 7)),
                             compile_cache_grew_mb = grew_mb (rq_after rq) watch\<rparr>\<rparr>,
                       leave_embed False (rung_set_last engine' cache1) claim
                         (record_embed_dimension dim st1)))))"

definition embed_natural ::
  "('e, 't) request_env \<Rightarrow> 'e rung_cache poll_view list \<Rightarrow> string list \<Rightarrow> string \<Rightarrow> limits \<Rightarrow> bool \<Rightarrow>
     string \<Rightarrow> ('e, 'r, 't) app_state \<Rightarrow>
     ((app_error, embed_response) outcome \<times> ('e, 'r, 't) app_state) option" where
  "embed_natural rq views texts hint lim retry request_id st =
     (let st1 = set_activity ''embed: waiting for the engine'' st
      in case lock_or_refuse rung_discard_all ''embed'' (wedge (st_config st)) Until_The_Holder_Is_Wedged
              (rq_clock rq 0) views of
           Still_Waiting \<Rightarrow> None
         | Refused w \<Rightarrow> Some (Err (Engine_Wedged w), st1)
         | Locked cache \<Rightarrow>
             (let st2 = st1\<lparr>embed_engine := \<lparr>mx_val = cache, mx_held = True, mx_poisoned = False\<rparr>\<rparr>
              in Some (case engine_for_cap rq hint lim retry cache st2 of
                   (Err e, st3) \<Rightarrow> (Err e, st3)
                 | (Panic, st3) \<Rightarrow> (Panic, st3)
                 | (Ok (cache1, claim, build_ms), st3) \<Rightarrow>
                     run_pass rq texts lim retry request_id
                       (as_millis (elapsed (rq_clock rq 0) (rq_clock rq 1))) cache1 claim build_ms st3)))"

section \<open>The request\<close>

definition request_provider :: "string \<Rightarrow> ('e, 'r, 't) app_state \<Rightarrow> string" where
  "request_provider hint st =
     (case pinned_provider st of Some p \<Rightarrow> p | None \<Rightarrow> effective_provider (st_config st) hint)"

definition unpin_response ::
  "nat list \<Rightarrow> token_report \<Rightarrow> embed_response \<Rightarrow> (app_error, embed_response) outcome" where
  "unpin_response positions usage padded =
     bind_outcome (unpin_rows (er_dense padded) positions) (\<lambda>dense.
       bind_outcome (unpin_rows (er_sparse padded) positions) (\<lambda>sparse.
         Ok (padded\<lparr>er_dense := dense, er_sparse := sparse, er_dimension := dense_dimension dense,
           er_usage := usage\<rparr>)))"

definition embed_blocking ::
  "('e, 't) request_env \<Rightarrow> 'e rung_cache poll_view list \<Rightarrow> string list \<Rightarrow> string \<Rightarrow> string \<Rightarrow> limits \<Rightarrow>
     string \<Rightarrow> ('e, 'r, 't) app_state \<Rightarrow>
     ((app_error, embed_response) outcome \<times> ('e, 'r, 't) app_state) option" where
  "embed_blocking rq views texts kind hint lim0 request_id st =
     (let lim = lim0\<lparr>max_length := cap_for kind (max_length lim0) (committed_cap st)\<rparr>;
          st1 = record_max_batch (lm_batch lim) st;
          usage = token_usage (rq_encode rq) (token_counter st) texts (max_length lim);
          retry = should_pin_shape (pin_input_shape (st_config st)) (request_provider hint st)
      in if retry \<and> 2 \<le> lm_batch lim
         then (case pin_shape texts (lm_batch lim) ruler_text of (expanded, positions) \<Rightarrow>
           map_option (\<lambda>(r, st'). (bind_outcome r (unpin_response positions usage), st'))
             (embed_natural rq views expanded hint lim retry request_id st1))
         else map_option (\<lambda>(r, st'). (map_outcome (er_usage_update (\<lambda>_. usage)) r, st'))
             (embed_natural rq views texts hint lim retry request_id st1))"

section \<open>The cache under the guard\<close>

lemma rung_get_at_end:
  assumes "rung_inv c" "rungs c = us @ [(cap, e)]"
  shows "rung_get cap c = (Some e, c)"
proof (rule rung_lookup_cases [OF assms(1), of cap])
  assume "rung_map c cap = None"
  with assms(2) show ?thesis by (simp add: rung_map_def map_add_def split: option.splits)
next
  fix vs e' ws
  assume h: "rungs c = vs @ (cap, e') # ws" "cap \<notin> fst ` set vs" "cap \<notin> fst ` set ws"
    "rung_get cap c = (Some e', c\<lparr>rungs := vs @ ws @ [(cap, e')]\<rparr>)"
  have "ws = []"
  proof (rule ccontr)
    assume "ws \<noteq> []"
    then have "last (rungs c) \<in> set ws" using h(1) by simp
    with assms(2) h(3) show False by force
  qed
  with h(1) assms(2) have "e' = e" by simp
  with h(1,4) \<open>ws = []\<close> show ?thesis by simp
qed

lemma rung_set_last_caps [simp]: "rungs c \<noteq> [] \<Longrightarrow> rung_caps (rung_set_last e c) = rung_caps c"
  by (cases "rungs c" rule: rev_cases) (simp_all add: rung_set_last_def rung_caps_def)

lemma rung_set_last_inv: "rung_inv c \<Longrightarrow> rungs c \<noteq> [] \<Longrightarrow> rung_inv (rung_set_last e c)"
proof -
  assume "rung_inv c" "rungs c \<noteq> []"
  moreover have "capacity (rung_set_last e c) = capacity c" by (simp add: rung_set_last_def)
  moreover have "length (rungs (rung_set_last e c)) = length (rungs c)"
    using \<open>rungs c \<noteq> []\<close> by (simp add: rung_set_last_def)
  ultimately show ?thesis by (simp add: rung_inv_def)
qed

lemma rung_get_hit_last:
  assumes "rung_inv c" "rung_get cap c = (Some e, c')"
  shows "rung_inv c' \<and> (\<exists>us. rungs c' = us @ [(cap, e)])"
proof -
  have "rung_inv c'" using rung_get_inv [OF assms(1), of cap] assms(2) by simp
  moreover have "\<exists>us. rungs c' = us @ [(cap, e)]"
    by (rule rung_lookup_cases [OF assms(1), of cap]) (use assms(2) in auto)
  ultimately show ?thesis by blast
qed

lemma remember_engine_end:
  assumes "rung_inv c"
  shows "\<exists>us. rungs (fst (remember_engine cap e c)) = us @ [(cap, e)]"
proof -
  have "rung_map (fst (remember_engine cap e c)) cap = Some e" by (rule remember_engine_lookup [OF assms])
  then have "rungs (fst (remember_engine cap e c)) \<noteq> []" by (auto simp: rung_map_def)
  with remember_engine_last [OF assms, of cap e] show ?thesis
    by (metis append_butlast_last_id)
qed

lemma rung_get_miss_same:
  assumes "rung_inv c" "rung_get cap c = (None, c')"
  shows "c' = c"
  by (rule rung_lookup_cases [OF assms(1), of cap]) (use assms(2) in auto)

section \<open>Exits\<close>

lemma leave_embed_exits:
  "mx_val (embed_engine (leave_embed p c claim st)) = c"
  "\<not> mx_held (embed_engine (leave_embed p c claim st))"
  "mx_poisoned (embed_engine (leave_embed p c claim st)) = p"
  "inflight_now (embed_inflight (leave_embed p c claim st)) = None"
  "committed_embed_cap (leave_embed p c claim st) = committed_embed_cap st"
  by (simp_all add: leave_embed_def unstamp_embed_def drop_claim_def mutex_simps split: option.split)

text \<open>How a call that had the engine may leave the process.\<close>

definition left_clean :: "('x, 'y) outcome \<Rightarrow> ('e, 'r, 't) app_state \<Rightarrow> bool" where
  "left_clean r st \<longleftrightarrow>
     \<not> mx_held (embed_engine st) \<and> (mx_poisoned (embed_engine st) \<longleftrightarrow> r = Panic) \<and>
     inflight_now (embed_inflight st) = None \<and> rung_inv (mx_val (embed_engine st)) \<and>
     (r \<noteq> Panic \<longrightarrow> cap_mirror st)"

lemma leave_settled_clean:
  assumes "rung_inv c" "rung_caps c = rung_caps c0"
  shows "left_clean (Err e) (leave_embed False c claim (settle_cap c0 st))"
  using assms
  by (simp add: left_clean_def leave_embed_exits cap_mirror_def settle_cap_def Let_def)

lemma engine_for_cap_fail:
  assumes "rung_inv cache" and "engine_for_cap rq hint lim retry cache st = (r, st')"
    and "\<not> is_ok r"
  shows "left_clean r st'"
proof (cases "rung_get (max_length lim) cache")
  case (Pair hit c)
  with assms(2,3) have hit: "hit = None" by (cases hit) (auto simp: engine_for_cap_def)
  with Pair have "c = cache" using rung_get_miss_same [OF assms(1)] by simp
  with Pair hit assms show ?thesis
    by (auto simp: engine_for_cap_def left_clean_def leave_embed_exits cap_mirror_def settle_cap_def
        Let_def split: prod.splits outcome.splits)
qed

lemma engine_for_cap_ok:
  assumes "rung_inv cache"
    and "engine_for_cap rq hint lim retry cache st = (Ok (cache1, claim, ms), st')"
  shows "rung_inv cache1 \<and> (\<exists>us e. rungs cache1 = us @ [(max_length lim, e)])"
proof (cases "rung_get (max_length lim) cache")
  case (Pair hit c)
  show ?thesis
  proof (cases hit)
    case (Some e)
    with Pair assms(2) have "c = cache1" by (simp add: engine_for_cap_def)
    with rung_get_hit_last [OF assms(1)] Pair Some show ?thesis by blast
  next
    case None
    with Pair have "c = cache" using rung_get_miss_same [OF assms(1)] by simp
    with Pair None assms(2) obtain built where
      "cache1 = fst (remember_engine (max_length lim) built cache)"
      by (auto simp: engine_for_cap_def Let_def split: prod.splits outcome.splits)
    with remember_engine_inv [OF assms(1)] remember_engine_end [OF assms(1)] show ?thesis by metis
  qed
qed

lemma run_pass_clean:
  assumes "rung_inv cache" "rungs cache = us @ [(max_length lim, e)]"
    and "run_pass rq texts lim retry request_id q cache claim b st = (r, st')"
  shows "left_clean r st'"
proof -
  have get: "rung_get (max_length lim) cache = (Some e, cache)" by (rule rung_get_at_end [OF assms(1,2)])
  have ne: "rungs cache \<noteq> []" using assms(2) by simp
  have caps: "rung_caps (rung_set_last e' cache) = rung_caps cache" for e' using ne by simp
  have inv: "rung_inv (rung_set_last e' cache)" for e' by (rule rung_set_last_inv [OF assms(1) ne])
  from assms(3) show ?thesis
    by (auto simp: run_pass_def get Let_def left_clean_def leave_embed_exits inv cap_mirror_def caps
        state_simps settle_cap_def
        split: prod.splits outcome.splits)
qed

lemma embed_left_clean:
  assumes "embed_natural rq views texts hint lim retry request_id st = Some (r, st')"
    and "lock_or_refuse rung_discard_all ''embed'' (wedge (st_config st)) Until_The_Holder_Is_Wedged
           (rq_clock rq 0) views = Locked cache"
    and "rung_inv cache"
  shows "left_clean r st'"
proof -
  define st2 where "st2 = (set_activity ''embed: waiting for the engine'' st)
     \<lparr>embed_engine := \<lparr>mx_val = cache, mx_held = True, mx_poisoned = False\<rparr>\<rparr>"
  obtain x st3 where e: "engine_for_cap rq hint lim retry cache st2 = (x, st3)"
    by (cases "engine_for_cap rq hint lim retry cache st2")
  show ?thesis
  proof (cases x)
    case (Ok t)
    obtain cache1 claim ms where t: "t = (cache1, claim, ms)" by (cases t)
    from engine_for_cap_ok [OF assms(3) e [unfolded Ok t]] obtain us en
      where c: "rung_inv cache1" "rungs cache1 = us @ [(max_length lim, en)]" by blast
    from assms(1,2) e Ok t have "run_pass rq texts lim retry request_id
        (as_millis (elapsed (rq_clock rq 0) (rq_clock rq 1))) cache1 claim ms st3 = (r, st')"
      by (simp add: embed_natural_def st2_def)
    then show ?thesis by (rule run_pass_clean [OF c])
  next
    case (Err er)
    with assms(1,2) e have "r = Err er" "st' = st3" by (simp_all add: embed_natural_def st2_def)
    with engine_for_cap_fail [OF assms(3) e] Err show ?thesis by (simp add: left_clean_def)
  next
    case Panic
    with assms(1,2) e have "r = Panic" "st' = st3" by (simp_all add: embed_natural_def st2_def)
    with engine_for_cap_fail [OF assms(3) e] Panic show ?thesis by (simp add: left_clean_def)
  qed
qed

text \<open>
  A request leaves the engine as the next one needs it. Whenever a request that got the engine
  ends, in a result or in any error, its mutex is free and healthy, no stamp is left behind, the
  cache is well formed and the committed cap is that of the most recently used resident engine; a
  request that unwound leaves the mutex free, unstamped and poisoned, so that the next caller heals it.
\<close>

theorem embed_leaves_clean:
  assumes "embed_natural rq views texts hint lim retry request_id st = Some (r, st')"
    and "lock_or_refuse rung_discard_all ''embed'' (wedge (st_config st)) Until_The_Holder_Is_Wedged
           (rq_clock rq 0) views = Locked cache"
    and "rung_inv cache"
  shows "left_clean r st'"
  using assms by (rule embed_left_clean)

section \<open>Where a panic can come from\<close>

lemma settle_no_panic:
  "(\<And>s. fst (pass s) \<noteq> Panic) \<Longrightarrow> fst (settle what n pass k short s) \<noteq> Panic"
proof (induction k arbitrary: short s)
  case (Suc k)
  obtain r s' where r: "pass s = (r, s')" by (cases "pass s")
  with Suc.prems [of s] have "r \<noteq> Panic" by simp
  then show ?case using Suc r by (cases r) auto
qed simp

lemma embed_settling_no_panic:
  "(\<And>s. fst (pass s) \<noteq> Panic) \<Longrightarrow> fst (embed_settling what n retry pass s) \<noteq> Panic"
  by (simp add: embed_settling_def settle_no_panic)

lemma canary_no_panic:
  "(\<And>e. fst (run e) \<noteq> Panic) \<Longrightarrow> fst (canary_runs reference run at_row k scored e) \<noteq> Panic"
proof (induction k arbitrary: scored e)
  case (Suc k)
  obtain r e' where r: "run e = (r, e')" by (cases "run e")
  with Suc.prems [of e] have "r \<noteq> Panic" by simp
  then show ?case using Suc r by (cases r) (auto simp: Let_def split: option.split)
qed simp

lemma preflight_no_panic: "preflight_provider fl ex dir p \<noteq> Panic"
  by (simp add: preflight_provider_def Let_def)

lemma try_candidates_no_panic:
  "(\<And>c s. fst (attempt c s) \<noteq> Panic) \<Longrightarrow> snd (fst (try_candidates e cs attempt s)) \<noteq> Panic"
proof (induction cs arbitrary: e s)
  case (Cons c cs)
  obtain r s' where r: "attempt c s = (r, s')" by (cases "attempt c s")
  with Cons.prems [of c s] have "r \<noteq> Panic" by simp
  then show ?case using Cons r by (cases r) auto
qed simp

lemma attempt_session_no_panic:
  "(\<And>p. build p \<noteq> Panic) \<Longrightarrow> fst (attempt_session mach engine build c s) \<noteq> Panic"
  using preflight_no_panic by (auto simp: attempt_session_def split: outcome.splits)

lemma load_session_no_panic:
  assumes "\<And>p. build p \<noteq> Panic"
  shows "fst (load_session mach hint engine seq lease build st) \<noteq> Panic"
proof (cases "covers lease engine \<and> cs_seq (cl_shape lease) = seq")
  case True
  define tried where "tried = try_candidates (Message ''no execution provider was offered to try'')
      (resolution_order (m_flavor mach) (fst (pin_provider hint st))) (attempt_session mach engine build)
      (snd (pin_provider hint st))"
  have "snd (fst tried) \<noteq> Panic"
    unfolding tried_def by (intro try_candidates_no_panic attempt_session_no_panic assms)
  then obtain e b s where t: "tried = ((e, b), s)" "b \<noteq> Panic" by (cases tried) auto
  from True show ?thesis
    by (simp add: load_session_unfold tried_def [symmetric] t)
qed (auto simp: load_session_def)

text \<open>The libraries of a request that never panic.\<close>

definition never_panics :: "('e, 't) request_env \<Rightarrow> bool" where
  "never_panics rq \<longleftrightarrow> (\<forall>op. rq_try_new rq op \<noteq> Panic \<and> rq_try_again rq op \<noteq> Panic) \<and>
     (\<forall>ts b e. fst (rq_embed rq ts b e) \<noteq> Panic)"

lemma load_dual_no_panic:
  "(\<And>op. try_new op \<noteq> Panic) \<Longrightarrow> fst (load_dual mach try_new hint len lease st) \<noteq> Panic"
  by (simp add: load_dual_def load_session_no_panic)

lemma canary_check_no_panic:
  "(\<And>ts b e. fst (embed_rows ts b e) \<noteq> Panic) \<Longrightarrow> fst (canary_check reference embed_rows lim pin e) \<noteq> Panic"
  by (simp add: canary_check_def canary_no_panic split: prod.split)

lemma request_calls_no_panic:
  assumes "never_panics rq"
  shows "load_dual mach (rq_try_new rq) hint len lease s \<noteq> (Panic, s')"
    and "load_dual mach (rq_try_again rq) hint len lease s \<noteq> (Panic, s')"
    and "canary_check reference (rq_embed rq) lim pin e \<noteq> (Panic, e')"
    and "embed_settling w n retry (rq_embed rq texts bt) e \<noteq> (Panic, e')"
  using assms load_dual_no_panic [of "rq_try_new rq" mach hint len lease s]
    load_dual_no_panic [of "rq_try_again rq" mach hint len lease s]
    canary_check_no_panic [of "rq_embed rq" reference lim pin e]
    embed_settling_no_panic [of "rq_embed rq texts bt" w n retry e]
  by (auto simp: never_panics_def)

lemma load_validated_no_panic:
  "never_panics rq \<Longrightarrow> load_validated_dual rq hint lim pin lease st \<noteq> (Panic, st')"
  by (auto simp: load_validated_dual_def request_calls_no_panic split: prod.splits outcome.splits)

text \<open>
  The \<open>expect\<close> on the request path cannot fire. If neither the constructors nor the session
  panic, no request panics: the engine the call looks up after building is always there, at every
  capacity of the cache and whatever had to be evicted for it.
\<close>

theorem just_loaded_never_fires:
  assumes "embed_natural rq views texts hint lim retry request_id st = Some (r, st')"
    and "never_panics rq"
    and "\<And>cache. lock_or_refuse rung_discard_all ''embed'' (wedge (st_config st))
           Until_The_Holder_Is_Wedged (rq_clock rq 0) views = Locked cache \<Longrightarrow> rung_inv cache"
  shows "r \<noteq> Panic"
proof (cases "lock_or_refuse rung_discard_all ''embed'' (wedge (st_config st))
    Until_The_Holder_Is_Wedged (rq_clock rq 0) views")
  case (Locked cache)
  note inv = assms(3) [OF Locked]
  define st2 where "st2 = (set_activity ''embed: waiting for the engine'' st)
     \<lparr>embed_engine := \<lparr>mx_val = cache, mx_held = True, mx_poisoned = False\<rparr>\<rparr>"
  obtain x st3 where e: "engine_for_cap rq hint lim retry cache st2 = (x, st3)"
    by (cases "engine_for_cap rq hint lim retry cache st2")
  from e have "x \<noteq> Panic"
    by (auto simp: engine_for_cap_def Let_def load_validated_no_panic [OF assms(2)]
        split: prod.splits option.splits outcome.splits)
  show ?thesis
  proof (cases x)
    case (Ok t)
    obtain cache1 claim ms where t: "t = (cache1, claim, ms)" by (cases t)
    from engine_for_cap_ok [OF inv e [unfolded Ok t]] obtain us en
      where c: "rung_inv cache1" "rungs cache1 = us @ [(max_length lim, en)]" by blast
    from assms(1) Locked e Ok t have "run_pass rq texts lim retry request_id
        (as_millis (elapsed (rq_clock rq 0) (rq_clock rq 1))) cache1 claim ms st3 = (r, st')"
      by (simp add: embed_natural_def st2_def)
    then show ?thesis
      by (auto simp: run_pass_def rung_get_at_end [OF c] Let_def request_calls_no_panic [OF assms(2)]
          split: prod.splits outcome.splits)
  qed (use assms(1) Locked e \<open>x \<noteq> Panic\<close> in \<open>auto simp: embed_natural_def st2_def\<close>)
qed (use assms(1) in \<open>auto simp: embed_natural_def\<close>)

section \<open>What a caller gets\<close>

lemma run_pass_ok:
  assumes "run_pass rq texts lim retry request_id q cache claim b st = (Ok resp, st')"
    and "\<And>e rows. fst (rq_embed rq texts (lm_batch lim) e) = Ok rows \<Longrightarrow> rows = map f texts"
  shows "er_dense resp = map (fst \<circ> f) texts \<and> er_sparse resp = map (sparse_wire \<circ> snd \<circ> f) texts \<and>
    er_dimension resp = dense_dimension (er_dense resp) \<and> er_request_id resp = request_id"
proof -
  have s: "fst (embed_settling what n retry (rq_embed rq texts (lm_batch lim)) e) = Ok rows \<Longrightarrow> rows = map f texts"
    for what n e rows
  proof -
    have "fst (settle what n (rq_embed rq texts (lm_batch lim)) k short e) = Ok rows \<Longrightarrow> rows = map f texts" for k short
    proof (induction k arbitrary: short e)
      case (Suc k)
      then show ?case
        using assms(2) [of e rows] by (auto split: if_splits prod.splits outcome.splits)
    qed simp
    moreover assume "fst (embed_settling what n retry (rq_embed rq texts (lm_batch lim)) e) = Ok rows"
    ultimately show ?thesis using assms(2) [of e rows] by (auto simp: embed_settling_def split: if_splits)
  qed
  from assms(1) obtain engine cache1 e' rows where
    "embed_settling ''embed'' (length texts) retry (rq_embed rq texts (lm_batch lim)) engine = (Ok rows, e')"
    and resp: "er_dense resp = map fst rows" "er_sparse resp = map (sparse_wire \<circ> snd) rows"
      "er_dimension resp = dense_dimension (map fst rows)" "er_request_id resp = request_id"
    by (auto simp: run_pass_def Let_def split: prod.splits option.splits outcome.splits)
  then have "rows = map f texts" using s by (metis fst_conv)
  with resp show ?thesis by (simp add: comp_assoc)
qed

lemma embed_natural_ok:
  assumes "embed_natural rq views texts hint lim retry request_id st = Some (Ok resp, st')"
    and "\<And>e rows. fst (rq_embed rq texts (lm_batch lim) e) = Ok rows \<Longrightarrow> rows = map f texts"
  shows "er_dense resp = map (fst \<circ> f) texts \<and> er_sparse resp = map (sparse_wire \<circ> snd \<circ> f) texts \<and>
    er_dimension resp = dense_dimension (er_dense resp) \<and> er_request_id resp = request_id"
proof -
  from assms(1) obtain q cache claim ms st3 where
    "run_pass rq texts lim retry request_id q cache claim ms st3 = (Ok resp, st')"
    by (auto simp: embed_natural_def Let_def split: lock_answer.splits prod.splits outcome.splits)
  from run_pass_ok [OF this assms(2)] show ?thesis .
qed

lemma embed_blocking_faithful:
  assumes "embed_blocking rq views texts kind hint lim request_id st = Some (Ok resp, st')"
    and "\<And>ts e rows. fst (rq_embed rq ts (lm_batch lim) e) = Ok rows \<Longrightarrow> rows = map f ts"
  shows "er_dense resp = map (fst \<circ> f) texts \<and> er_sparse resp = map (sparse_wire \<circ> snd \<circ> f) texts \<and>
    er_dimension resp = dense_dimension (er_dense resp) \<and> er_request_id resp = request_id \<and>
    er_usage resp = token_usage (rq_encode rq) (token_counter st) texts
      (cap_for kind (max_length lim) (committed_cap st))"
proof -
  define lim' where "lim' = lim\<lparr>max_length := cap_for kind (max_length lim) (committed_cap st)\<rparr>"
  define retry where "retry = should_pin_shape (pin_input_shape (st_config st)) (request_provider hint st)"
  define usage where "usage = token_usage (rq_encode rq) (token_counter st) texts (max_length lim')"
  define st1 where "st1 = record_max_batch (lm_batch lim') st"
  note folds = lim'_def [symmetric] retry_def [symmetric] usage_def [symmetric] st1_def [symmetric]
  have u: "usage = token_usage (rq_encode rq) (token_counter st) texts
      (cap_for kind (max_length lim) (committed_cap st))" by (simp add: usage_def lim'_def)
  have b: "lm_batch lim' = lm_batch lim" by (simp add: lim'_def)
  show ?thesis
  proof (cases "retry \<and> 2 \<le> lm_batch lim'")
    case True
    obtain expanded positions where p: "pin_shape texts (lm_batch lim') ruler_text = (expanded, positions)"
      by (cases "pin_shape texts (lm_batch lim') ruler_text")
    from assms(1) True p obtain padded where
      n: "embed_natural rq views expanded hint lim' retry request_id st1 = Some (Ok padded, st')"
      and up: "unpin_response positions usage padded = Ok resp"
      unfolding embed_blocking_def Let_def folds
      by (auto simp: bind_outcome_eq_Ok)
    note nat = embed_natural_ok [OF n assms(2) [folded b]]
    have "unpin_rows (map g expanded) positions = Ok (map g texts)" for g :: "string \<Rightarrow> 'z"
      using unpin_pinned [of "lm_batch lim'" g texts ruler_text "[]"] True p by simp
    then have "unpin_rows (er_dense padded) positions = Ok (map (fst \<circ> f) texts)"
      "unpin_rows (er_sparse padded) positions = Ok (map (sparse_wire \<circ> snd \<circ> f) texts)"
      using nat by simp_all
    with up have "resp = padded\<lparr>er_dense := map (fst \<circ> f) texts,
        er_sparse := map (sparse_wire \<circ> snd \<circ> f) texts,
        er_dimension := dense_dimension (map (fst \<circ> f) texts), er_usage := usage\<rparr>"
      by (simp add: unpin_response_def)
    with nat u show ?thesis by simp
  next
    case False
    from assms(1) False obtain plain where
      n: "embed_natural rq views texts hint lim' retry request_id st1 = Some (Ok plain, st')"
      and r: "resp = plain\<lparr>er_usage := usage\<rparr>"
      unfolding embed_blocking_def Let_def folds by auto
    from embed_natural_ok [OF n assms(2) [folded b]] r u show ?thesis by simp
  qed
qed

text \<open>
  Pinning is invisible to the caller. With an engine that embeds each text on its own, every
  response carries, for the texts the caller sent and in that order, exactly the engine's dense and
  sparse rows, whether or not the batch was padded with rulers; its width is that of a returned row,
  its token accounting is about the caller's texts at the cap the request ran at, and the request id is
  echoed.
\<close>

theorem embed_response_faithful:
  assumes "embed_blocking rq views texts kind hint lim request_id st = Some (Ok resp, st')"
    and "\<And>ts e rows. fst (rq_embed rq ts (lm_batch lim) e) = Ok rows \<Longrightarrow> rows = map f ts"
  shows "er_dense resp = map (fst \<circ> f) texts \<and> er_sparse resp = map (sparse_wire \<circ> snd \<circ> f) texts \<and>
    er_dimension resp = dense_dimension (er_dense resp) \<and> er_request_id resp = request_id \<and>
    er_usage resp = token_usage (rq_encode rq) (token_counter st) texts
      (cap_for kind (max_length lim) (committed_cap st))"
  using assms by (rule embed_blocking_faithful)

section \<open>What a panic leaves behind\<close>

lemma load_dual_cap: "load_dual mach try_new hint len lease st = (r, st') \<Longrightarrow>
    committed_embed_cap st' = committed_embed_cap st"
  using load_session_keeps [of committed_embed_cap mach hint embed_cache_engine len lease
      "\<lambda>p. try_new (shared_options st p len)" st]
  by (simp add: load_dual_def)

lemma load_validated_cap:
  assumes "load_validated_dual rq hint lim pin lease st = (r, st')"
  shows "committed_embed_cap st' = committed_embed_cap st"
proof -
  obtain x st1 where l: "load_dual (rq_machine rq) (rq_try_new rq) hint (max_length lim) lease st = (x, st1)"
    by (metis prod.exhaust)
  obtain y st2 where l2: "load_dual (rq_machine rq) (rq_try_again rq) hint (max_length lim) lease
      (st1\<lparr>cache_paths := wipe (rq_left rq) lease (cache_paths st1)\<rparr>) = (y, st2)" by (metis prod.exhaust)
  from load_dual_cap [OF l] load_dual_cap [OF l2] assms show ?thesis
    by (auto simp: load_validated_dual_def l l2 note_check_def split: outcome.splits prod.splits if_splits)
qed

lemma engine_for_cap_panic_cap:
  assumes "rung_inv cache" "engine_for_cap rq hint lim retry cache st = (Panic, st')"
  shows "committed_embed_cap st' = max_length lim"
  using assms(2)
  by (auto simp: engine_for_cap_def Let_def leave_embed_exits commit_cap_def
      split: option.splits prod.splits outcome.splits dest!: load_validated_cap)

lemma run_pass_panic_cap:
  assumes "rung_inv cache" "rungs cache = us @ [(max_length lim, e)]"
    and "run_pass rq texts lim retry request_id q cache claim b st = (Panic, st')"
  shows "committed_embed_cap st' = max_length lim"
proof -
  have caps: "rung_caps cache \<noteq> []" "last (rung_caps cache) = max_length lim"
    using assms(2) by (simp_all add: rung_caps_def)
  from assms(3) show ?thesis
    by (auto simp: run_pass_def rung_get_at_end [OF assms(1,2)] Let_def leave_embed_exits state_simps
        settle_cap_def caps split: prod.splits outcome.splits)
qed

text \<open>
  C39: a panic leaves a cap committed that no engine holds. After a request that unwound, the committed
  cap is the one that request ran at, the poisoned cache is handed out empty to the next caller, and
  every query that arrives before another build settles the cap is moved to it, whatever length its
  caller asked for.
\<close>

theorem panic_leaves_stale_cap:
  assumes "embed_natural rq views texts hint lim retry request_id st = Some (Panic, st')"
    and "lock_or_refuse rung_discard_all ''embed'' (wedge (st_config st)) Until_The_Holder_Is_Wedged
           (rq_clock rq 0) views = Locked cache"
    and "rung_inv cache" and "0 < max_length lim" and "pv_engine v = embed_engine st'"
  shows "cap_for ''query'' n (committed_cap st') = max_length lim \<and>
    (\<exists>c. lock_or_refuse rung_discard_all what policy patience since (v # vs) = Locked c \<and> rung_caps c = [])"
proof -
  define st2 where "st2 = (set_activity ''embed: waiting for the engine'' st)
     \<lparr>embed_engine := \<lparr>mx_val = cache, mx_held = True, mx_poisoned = False\<rparr>\<rparr>"
  obtain x st3 where e: "engine_for_cap rq hint lim retry cache st2 = (x, st3)"
    by (cases "engine_for_cap rq hint lim retry cache st2")
  have "committed_embed_cap st' = max_length lim"
  proof (cases x)
    case (Ok t)
    obtain cache1 claim ms where t: "t = (cache1, claim, ms)" by (cases t)
    from engine_for_cap_ok [OF assms(3) e [unfolded Ok t]] obtain us en
      where c: "rung_inv cache1" "rungs cache1 = us @ [(max_length lim, en)]" by blast
    from assms(1,2) e Ok t have "run_pass rq texts lim retry request_id
        (as_millis (elapsed (rq_clock rq 0) (rq_clock rq 1))) cache1 claim ms st3 = (Panic, st')"
      by (simp add: embed_natural_def st2_def)
    then show ?thesis by (rule run_pass_panic_cap [OF c])
  next
    case (Err er)
    with assms(1,2) e show ?thesis by (simp add: embed_natural_def st2_def)
  next
    case Panic
    with assms(1,2) e have "st' = st3" by (simp add: embed_natural_def st2_def)
    with engine_for_cap_panic_cap [OF assms(3)] e Panic show ?thesis by simp
  qed
  moreover have "left_clean (Panic :: (app_error, embed_response) outcome) st'"
    by (rule embed_left_clean [OF assms(1-3)])
  ultimately show ?thesis using assms(4,5)
    by (simp add: committed_cap_def cap_for_def left_clean_def try_lock_def rung_discard_all_def
        rung_caps_def)
qed

section \<open>Witnesses\<close>

text \<open>An engine that is resident at 256 tokens and answers each text with one coordinate and its length.\<close>

definition echo_row :: "string \<Rightarrow> f32 list \<times> sparse_embedding" where
  "echo_row t = ([f32_one], \<lparr>se_indices = [length t], se_values = [f32_one]\<rparr>)"

definition echo_request :: "(nat, unit) request_env" where
  "echo_request = \<lparr>rq_machine = plain_machine, rq_reference = [f32_one], rq_try_new = (\<lambda>o'. Ok 1),
     rq_try_again = (\<lambda>o'. Ok 1), rq_embed = (\<lambda>ts b e. (Ok (map echo_row ts), Suc e)),
     rq_encode = (\<lambda>t x. Some (length x)), rq_left = None, rq_before = (\<lambda>d. None),
     rq_after = (\<lambda>d. None), rq_clock = (\<lambda>k. k)\<rparr>"

definition warm_cache :: "nat rung_cache" where
  "warm_cache = \<lparr>capacity = 1, rungs = [(256, 1)]\<rparr>"

definition free_view :: "nat rung_cache \<Rightarrow> nat rung_cache poll_view" where
  "free_view c = \<lparr>pv_engine = new_mutex c, pv_stamp = new_mutex None, pv_now = 0, pv_later = 0\<rparr>"

lemma free_view_engine [simp]: "pv_engine (free_view c) = new_mutex c"
  by (simp add: free_view_def)

lemma free_view_locks: "lock_or_refuse d w pol pat s [free_view c] = Locked c"
  by (simp add: mutex_simps)

lemma sample_invs: "rung_inv warm_cache" "rung_inv (rung_cache_new 1)"
  by (simp_all add: rung_inv_def warm_cache_def rung_cache_new_def rung_caps_def)

lemma warm_get: "rung_get 256 warm_cache = (Some 1, warm_cache)"
  by (rule rung_get_at_end [OF sample_invs(1), of "[]"]) (simp add: warm_cache_def)

definition warm_call ::
  "(nat, unit) request_env \<Rightarrow> ((app_error, embed_response) outcome \<times> (nat, nat, unit) app_state) option" where
  "warm_call rq = embed_natural rq [free_view warm_cache] [''ab''] [] \<lparr>max_length = 256, lm_batch = 1\<rparr>
     False ''r1'' (plain_state [])"

lemma warm_call_returns: "warm_call rq \<noteq> None"
  by (simp add: warm_call_def embed_natural_def mutex_simps Let_def)

lemma embed_leaves_clean_witness:
  "left_clean (fst (the (warm_call echo_request))) (snd (the (warm_call echo_request)))"
proof -
  have "warm_call echo_request =
      Some (fst (the (warm_call echo_request)), snd (the (warm_call echo_request)))"
    using warm_call_returns by simp
  from embed_leaves_clean [OF this [unfolded warm_call_def [of echo_request]] free_view_locks sample_invs(1)]
  show ?thesis by (simp add: warm_call_def)
qed

lemma just_loaded_never_fires_witness: "fst (the (warm_call echo_request)) \<noteq> Panic"
proof -
  have "never_panics echo_request" by (simp add: never_panics_def echo_request_def)
  moreover have "warm_call echo_request =
      Some (fst (the (warm_call echo_request)), snd (the (warm_call echo_request)))"
    using warm_call_returns by simp
  ultimately show ?thesis unfolding warm_call_def
    by - (rule just_loaded_never_fires, assumption, assumption, simp add: free_view_locks sample_invs
        del: lock_or_refuse.simps)
qed

lemma plain_embed:
  "cap_for ''document'' n c = n" "committed_embed_cap (plain_state p) = 0"
  "wedge (st_config (plain_state p)) = wedge_policy_from_env Map.empty"
  "token_counter (plain_state p) = None"
  by (simp_all add: cap_for_def plain_state_def new_state_def config_from_env_def token_counter_def
      registry_entry_def)

lemma plain_auto: "effective_provider (st_config (plain_state [])) [] = ''auto''"
  "pinned_provider (plain_state []) = None"
  by (simp_all add: plain_state_def new_state_def effective_provider_def lowercase_def Let_def)

lemma plain_unpinned:
  "\<not> should_pin_shape (pin_input_shape (st_config (plain_state []))) (request_provider [] (plain_state []))"
proof -
  have "lowercase (trim ''auto'') = ''auto''" by code_simp
  then show ?thesis
    by (simp add: request_provider_def plain_auto should_pin_shape_def)
      (simp add: plain_state_def new_state_def config_defaults)
qed

lemma echo_settles: "embed_settling w n False (rq_embed echo_request ts b) e = (Ok (map echo_row ts), Suc e)"
  by (simp add: embed_settling_def echo_request_def)

lemma warm_call_ok: "\<exists>resp st'. warm_call echo_request = Some (Ok resp, st')"
  by (simp add: warm_call_def embed_natural_def mutex_simps Let_def engine_for_cap_def warm_get run_pass_def
      echo_settles)

lemma embed_response_faithful_witness:
  "\<exists>resp st'. embed_blocking echo_request [free_view warm_cache] [''ab''] ''document'' []
      \<lparr>max_length = 256, lm_batch = 1\<rparr> ''r1'' (plain_state []) = Some (Ok resp, st') \<and>
    er_dense resp = [[f32_one]] \<and> er_dimension resp = Some 1"
proof -
  have "\<exists>resp st'. embed_blocking echo_request [free_view warm_cache] [''ab''] ''document'' []
      \<lparr>max_length = 256, lm_batch = 1\<rparr> ''r1'' (plain_state []) = Some (Ok resp, st')"
    by (simp add: embed_blocking_def plain_unpinned plain_embed embed_natural_def mutex_simps Let_def
        engine_for_cap_def warm_get run_pass_def echo_settles)
  then obtain resp st' where b: "embed_blocking echo_request [free_view warm_cache] [''ab''] ''document'' []
      \<lparr>max_length = 256, lm_batch = 1\<rparr> ''r1'' (plain_state []) = Some (Ok resp, st')" by blast
  have "fst (rq_embed echo_request ts n e) = Ok rows \<Longrightarrow> rows = map echo_row ts" for ts n e rows
    by (simp add: echo_request_def)
  from embed_response_faithful [OF b this] b show ?thesis
    by (auto simp: echo_row_def dense_dimension_def)
qed

text \<open>A constructor that unwinds: a cold process asked for 8192 tokens.\<close>

lemma panic_leaves_stale_cap_witness:
  "\<exists>st' :: (nat, nat, unit) app_state.
     embed_natural (echo_request\<lparr>rq_try_new := \<lambda>o'. Panic\<rparr>) [free_view (rung_cache_new 1)] [''ab''] []
       \<lparr>max_length = 8192, lm_batch = 1\<rparr> False ''r1'' (plain_state []) = Some (Panic, st') \<and>
     cap_for ''query'' 256 (committed_cap st') = 8192"
proof -
  let ?rq = "echo_request\<lparr>rq_try_new := \<lambda>o'. Panic\<rparr>"
  have base: "mxr_cache_base (st_config (plain_state [])) = []" "pinned_provider (plain_state []) = None"
    by (simp_all add: plain_state_def new_state_def config_blank_base config_defaults)
  have order: "resolution_order (m_flavor plain_machine) ''auto'' = [''dml'', ''cpu'']"
    by (simp add: plain_machine_def resolution_order_def compiled_providers_def)
  have pre: "preflight_provider (m_flavor plain_machine) (m_exists plain_machine) (m_exe_dir plain_machine)
      ''dml'' = Ok ()"
    by (simp add: plain_machine_def preflight_provider_def compiled_providers_def
        required_provider_libraries_def)
  have l: "fst (load_dual plain_machine (\<lambda>o'. Panic) [] 8192 lease st) = Panic"
    if "cl_engine lease = embed_cache_engine" "cs_seq (cl_shape lease) = 8192"
      "pinned_provider st = None" "st_config st = st_config (plain_state [])"
    for lease :: cache_lease and st :: "(nat, nat, unit) app_state"
    using that
    by (simp add: load_dual_def load_session_def covers_def pin_provider_def Let_def plain_auto(1) order
        build_on_first_working_def attempt_session_def pre)
  have "\<exists>st'. embed_natural ?rq [free_view (rung_cache_new 1)] [''ab''] []
       \<lparr>max_length = 8192, lm_batch = 1\<rparr> False ''r1'' (plain_state []) = Some (Panic, st')"
  proof -
    define st1 where "st1 = stamp_embed Building building_label 2
      ((set_activity ''embed: waiting for the engine'' (plain_state []))
        \<lparr>embed_engine := \<lparr>mx_val = rung_cache_new 1, mx_held = True, mx_poisoned = False\<rparr>\<rparr>)"
    let ?l = "\<lparr>cl_engine = embed_cache_engine, cl_shape = cache_shape_new 1 8192, cl_dir = [], cl_held = False\<rparr>"
    have miss: "rung_get 8192 (rung_cache_new 1 :: nat rung_cache) = (None, rung_cache_new 1)"
      by (simp add: rung_get_def rung_cache_new_def)
    have wait: "lease_wait [] embed_cache_engine (cache_shape_new 1 8192) w = (?l, w)" for w
      by (simp add: lease_wait_def lease_hold_free)
    have "pinned_provider st1 = None" "st_config st1 = st_config (plain_state [])"
      by (simp_all add: st1_def state_simps stamp_embed_def base)
    then have "fst (load_dual plain_machine (\<lambda>o'. Panic) [] 8192 ?l
        (commit_cap 8192 (st1\<lparr>cache_paths := cache_paths (plain_state [])\<rparr>))) = Panic"
      by - (rule l, simp_all add: commit_cap_def cache_shape_new_def)
    then obtain st3 where "load_dual plain_machine (\<lambda>o'. Panic) [] 8192 ?l
        (commit_cap 8192 (st1\<lparr>cache_paths := cache_paths (plain_state [])\<rparr>)) = (Panic, st3)" by (metis prod.collapse)
    then show ?thesis
      by (simp add: embed_natural_def mutex_simps Let_def engine_for_cap_def miss embed_shape_def
          state_simps base wait load_validated_dual_def echo_request_def st1_def [symmetric]
          del: One_nat_def)
  qed
  then obtain st' where e: "embed_natural ?rq [free_view (rung_cache_new 1)] [''ab''] []
       \<lparr>max_length = 8192, lm_batch = 1\<rparr> False ''r1'' (plain_state []) = Some (Panic, st')" by blast
  from panic_leaves_stale_cap [OF e free_view_locks sample_invs(2), of
      "\<lparr>pv_engine = embed_engine st', pv_stamp = new_mutex None, pv_now = 0, pv_later = 0\<rparr>" 256] e
  show ?thesis by auto
qed

end
