(* ===== verification/Rerank.thy ===== *)
theory Rerank
  imports Inference
begin

text \<open>
  The rerank path of \<open>src/inference.rs\<close>: \<open>rerank_blocking\<close> and \<open>score_documents\<close>, as state passing
  in the way of theory \<open>Inference\<close>. The slot of the rerank engine is an option; its session returns
  results as pairs of a document index and a raw score, in an order of its own.
\<close>

section \<open>What a request brings with it\<close>

type_synonym 'r rerank_call =
  "string \<Rightarrow> string list \<Rightarrow> nat \<Rightarrow> 'r \<Rightarrow> (app_error, (nat \<times> f32) list) outcome \<times> 'r"

record 'r rerank_env =
  rr_machine :: machine
  rr_try_new :: "session_options \<Rightarrow> (app_error, 'r) outcome"
  rr_call :: "'r rerank_call"
  rr_expf :: "f32 \<Rightarrow> f32"
  rr_before :: "string \<Rightarrow> dir_entry list option"
  rr_after :: "string \<Rightarrow> dir_entry list option"
  rr_clock :: "nat \<Rightarrow> nanos"

record rerank_response =
  rk_scores :: "f32 list"
  rk_request_id :: string
  rk_timings :: pass_timings

section \<open>One scoring pass\<close>

definition score_documents ::
  "'r rerank_env \<Rightarrow> config \<Rightarrow> string \<Rightarrow> string list \<Rightarrow> nat \<Rightarrow> 'r option \<Rightarrow>
     (app_error, f32 list \<times> pass_timings) outcome \<times> 'r option" where
  "score_documents rq cfg query documents bt slot =
     (let watch = compile_watch_start (rr_before rq) (mxr_cache_base cfg) rerank_cache_engine
            (unpinned_batch (rerank_max_length cfg))
      in case slot of
           None \<Rightarrow> (Panic, slot)
         | Some engine \<Rightarrow>
             (case rr_call rq query documents bt engine of
                (Err e, engine') \<Rightarrow> (Err e, Some engine')
              | (Panic, engine') \<Rightarrow> (Panic, Some engine')
              | (Ok results, engine') \<Rightarrow>
                  (Ok (aligned_scores (rr_expf rq) (length documents) results,
                       \<lparr>queue_wait_ms = 0, session_build_ms = 0,
                        inference_ms = as_millis (elapsed (rr_clock rq 5) (rr_clock rq 6)),
                        compile_cache_grew_mb = grew_mb (rr_after rq) watch\<rparr>),
                   Some engine')))"

section \<open>The request\<close>

definition leave_rerank ::
  "bool \<Rightarrow> 'r option \<Rightarrow> cache_lease option \<Rightarrow> ('e, 'r, 't) app_state \<Rightarrow> ('e, 'r, 't) app_state" where
  "leave_rerank panicked slot claim st =
     (unstamp_rerank (drop_claim claim st))
       \<lparr>rerank_engine := \<lparr>mx_val = slot, mx_held = False, mx_poisoned = panicked\<rparr>\<rparr>"

definition rerank_building_label :: string where
  "rerank_building_label = ''rerank: building the session (a first-ever shape compiles for minutes; ''
     @ ''cached shapes load in seconds)''"

definition scoring_label :: "nat \<Rightarrow> string" where
  "scoring_label n = ''rerank: scoring '' @ show_nat n @ '' document(s)''"

definition rerank_engine_ready ::
  "'r rerank_env \<Rightarrow> string \<Rightarrow> 'r option \<Rightarrow> ('e, 'r, 't) app_state \<Rightarrow>
     (app_error, 'r option \<times> cache_lease option \<times> nat) outcome \<times> ('e, 'r, 't) app_state" where
  "rerank_engine_ready rq hint slot st =
     (case slot of
        Some engine \<Rightarrow> (Ok (slot, None, 0), st)
      | None \<Rightarrow>
          (let st1 = stamp_rerank Building rerank_building_label (rr_clock rq 2) st;
               (lease, w) = lease_wait (mxr_cache_base (st_config st)) rerank_cache_engine
                 (unpinned_batch (rerank_max_length (st_config st))) (cache_paths st1)
           in case load_rerank (rr_machine rq) (rr_try_new rq) hint lease (st1\<lparr>cache_paths := w\<rparr>) of
                (Ok built, st2) \<Rightarrow>
                  (Ok (Some built, Some lease, as_millis (elapsed (rr_clock rq 2) (rr_clock rq 3))), st2)
              | (Err e, st2) \<Rightarrow> (Err e, leave_rerank False None (Some lease) st2)
              | (Panic, st2) \<Rightarrow> (Panic, leave_rerank True None (Some lease) st2)))"

definition with_caller_waits :: "nat \<Rightarrow> nat \<Rightarrow> pass_timings \<Rightarrow> pass_timings" where
  "with_caller_waits queue_ms build_ms pass =
     pass\<lparr>queue_wait_ms := queue_ms, session_build_ms := build_ms\<rparr>"

definition score_request ::
  "'r rerank_env \<Rightarrow> string \<Rightarrow> string list \<Rightarrow> string \<Rightarrow> nat \<Rightarrow> string \<Rightarrow> nat \<Rightarrow> nat \<Rightarrow> 'r option \<Rightarrow>
     ('e, 'r, 't) app_state \<Rightarrow> (app_error, rerank_response) outcome \<times> 'r option" where
  "score_request rq query documents hint bt request_id queue_ms build_ms slot st =
     (let answer = (\<lambda>scores pass. Ok \<lparr>rk_scores = scores, rk_request_id = request_id,
            rk_timings = with_caller_waits queue_ms build_ms pass\<rparr>)
      in if should_pin_shape (pin_input_shape (st_config st)) (request_provider hint st) \<and> 2 \<le> bt
         then (case pin_shape documents bt ruler_text of (expanded, positions) \<Rightarrow>
           (case score_documents rq (st_config st) query expanded bt slot of
              (r, slot') \<Rightarrow>
                (bind_outcome r (\<lambda>(padded, pass).
                   bind_outcome (unpin_rows padded positions) (\<lambda>scores. answer scores pass)), slot')))
         else (case score_documents rq (st_config st) query documents bt slot of
           (r, slot') \<Rightarrow> (bind_outcome r (\<lambda>(scores, pass). answer scores pass), slot')))"

definition rerank_blocking ::
  "'r rerank_env \<Rightarrow> 'r option poll_view list \<Rightarrow> string \<Rightarrow> string list \<Rightarrow> string \<Rightarrow> nat \<Rightarrow> string \<Rightarrow>
     ('e, 'r, 't) app_state \<Rightarrow>
     ((app_error, rerank_response) outcome \<times> ('e, 'r, 't) app_state) option" where
  "rerank_blocking rq views query documents hint bt request_id st =
     (let st1 = set_activity ''rerank: waiting for the engine'' st
      in case lock_or_refuse option_discard_all ''rerank'' (wedge (st_config st))
              Until_The_Holder_Is_Wedged (rr_clock rq 0) views of
           Still_Waiting \<Rightarrow> None
         | Refused w \<Rightarrow> Some (Err (Engine_Wedged w), st1)
         | Locked slot \<Rightarrow>
             (let st2 = st1\<lparr>rerank_engine := \<lparr>mx_val = slot, mx_held = True, mx_poisoned = False\<rparr>\<rparr>
              in Some (case rerank_engine_ready rq hint slot st2 of
                   (Err e, st3) \<Rightarrow> (Err e, st3)
                 | (Panic, st3) \<Rightarrow> (Panic, st3)
                 | (Ok (slot1, claim, build_ms), st3) \<Rightarrow>
                     (let st4 = stamp_rerank Running (scoring_label (length documents)) (rr_clock rq 4) st3;
                          queue_ms = as_millis (elapsed (rr_clock rq 0) (rr_clock rq 1))
                      in case score_request rq query documents hint bt request_id queue_ms build_ms
                             slot1 st4 of
                           (r, slot2) \<Rightarrow> (r, leave_rerank (r = Panic) slot2 claim st4)))))"

section \<open>Exits\<close>

lemma leave_rerank_exits:
  "mx_val (rerank_engine (leave_rerank p s claim st)) = s"
  "\<not> mx_held (rerank_engine (leave_rerank p s claim st))"
  "mx_poisoned (rerank_engine (leave_rerank p s claim st)) = p"
  "inflight_now (rerank_inflight (leave_rerank p s claim st)) = None"
  "embed_engine (leave_rerank p s claim st) = embed_engine st"
  "embed_inflight (leave_rerank p s claim st) = embed_inflight st"
  "committed_embed_cap (leave_rerank p s claim st) = committed_embed_cap st"
  by (simp_all add: leave_rerank_def unstamp_rerank_def drop_claim_def mutex_simps split: option.split)

lemma stamp_rerank_other [state_simps]:
  "embed_engine (stamp_rerank ph l now st) = embed_engine st"
  "embed_inflight (stamp_rerank ph l now st) = embed_inflight st"
  "committed_embed_cap (stamp_rerank ph l now st) = committed_embed_cap st"
  "st_config (stamp_rerank ph l now st) = st_config st"
  "pinned_provider (stamp_rerank ph l now st) = pinned_provider st"
  by (simp_all add: stamp_rerank_def state_simps)

lemma load_rerank_keeps:
  assumes "load_rerank mach try_new hint lease st = (r, st')"
  shows "embed_engine st' = embed_engine st \<and> embed_inflight st' = embed_inflight st \<and>
    committed_embed_cap st' = committed_embed_cap st \<and> st_config st' = st_config st"
proof -
  let ?f = "\<lambda>s. (embed_engine s, embed_inflight s, committed_embed_cap s, st_config s)"
  have "?f (snd (load_rerank mach try_new hint lease st)) = ?f st"
    unfolding load_rerank_def by (rule load_session_keeps) simp_all
  with assms show ?thesis by simp
qed

lemma rerank_ready_keeps:
  assumes "rerank_engine_ready rq hint slot st = (r, st')"
  shows "embed_engine st' = embed_engine st \<and> embed_inflight st' = embed_inflight st \<and>
    committed_embed_cap st' = committed_embed_cap st"
proof (cases slot)
  case None
  with assms show ?thesis
    by (auto simp: rerank_engine_ready_def Let_def leave_rerank_exits state_simps
        split: prod.splits outcome.splits dest!: load_rerank_keeps)
qed (use assms in \<open>simp add: rerank_engine_ready_def\<close>)

lemma rerank_left_clean:
  assumes "rerank_blocking rq views query documents hint bt request_id st = Some (r, st')"
    and "lock_or_refuse option_discard_all ''rerank'' (wedge (st_config st)) Until_The_Holder_Is_Wedged
           (rr_clock rq 0) views = Locked slot"
  shows "embed_engine st' = embed_engine st \<and> embed_inflight st' = embed_inflight st \<and>
    committed_embed_cap st' = committed_embed_cap st \<and> \<not> mx_held (rerank_engine st') \<and>
    inflight_now (rerank_inflight st') = None \<and> (mx_poisoned (rerank_engine st') \<longleftrightarrow> r = Panic)"
proof -
  define st2 where "st2 = (set_activity ''rerank: waiting for the engine'' st)
     \<lparr>rerank_engine := \<lparr>mx_val = slot, mx_held = True, mx_poisoned = False\<rparr>\<rparr>"
  obtain x st3 where e: "rerank_engine_ready rq hint slot st2 = (x, st3)"
    by (cases "rerank_engine_ready rq hint slot st2")
  have keep: "embed_engine st3 = embed_engine st" "embed_inflight st3 = embed_inflight st"
    "committed_embed_cap st3 = committed_embed_cap st"
    using rerank_ready_keeps [OF e] by (simp_all add: st2_def state_simps)
  have fail: "\<not> is_ok x \<Longrightarrow> \<not> mx_held (rerank_engine st3) \<and> inflight_now (rerank_inflight st3) = None \<and>
      (mx_poisoned (rerank_engine st3) \<longleftrightarrow> x = Panic)"
    using e by (auto simp: rerank_engine_ready_def Let_def leave_rerank_exits
        split: option.splits prod.splits outcome.splits)
  show ?thesis
  proof (cases x)
    case (Ok t)
    obtain slot1 claim ms where t: "t = (slot1, claim, ms)" by (cases t)
    from assms e Ok t keep show ?thesis
      by (auto simp: rerank_blocking_def st2_def [symmetric] Let_def leave_rerank_exits state_simps
          split: prod.splits)
  qed (use assms e keep fail in \<open>auto simp: rerank_blocking_def st2_def [symmetric] Let_def\<close>)
qed

text \<open>
  The two engines do not touch each other, and a rerank cleans up after itself. A rerank that
  got its engine leaves the embedding engine, its stamp and the committed cap as they were, however it
  ends; its own mutex is free, unstamped, and poisoned exactly when the call unwound.
\<close>

theorem rerank_leaves_clean:
  assumes "rerank_blocking rq views query documents hint bt request_id st = Some (r, st')"
    and "lock_or_refuse option_discard_all ''rerank'' (wedge (st_config st)) Until_The_Holder_Is_Wedged
           (rr_clock rq 0) views = Locked slot"
  shows "embed_engine st' = embed_engine st \<and> embed_inflight st' = embed_inflight st \<and>
    committed_embed_cap st' = committed_embed_cap st \<and> \<not> mx_held (rerank_engine st') \<and>
    inflight_now (rerank_inflight st') = None \<and> (mx_poisoned (rerank_engine st') \<longleftrightarrow> r = Panic)"
  using assms by (rule rerank_left_clean)

section \<open>Scores\<close>

text \<open>Whenever the session answers, every document is scored on its own and returned once, in whatever order.\<close>

definition scores_independently :: "'r rerank_env \<Rightarrow> (string \<Rightarrow> string \<Rightarrow> f32) \<Rightarrow> bool" where
  "scores_independently rq f \<longleftrightarrow>
     (\<forall>query ds b e results. fst (rr_call rq query ds b e) = Ok results \<longrightarrow>
        mset results = mset (zip [0 ..< length ds] (map (f query) ds)))"

lemma aligned_permutation:
  assumes "mset results = mset (zip [0 ..< n] xs)" and "length xs = n"
  shows "aligned_scores expf n results = map (sigmoid expf) xs"
proof (rule nth_equalityI)
  have "mset (map fst results) = mset (map fst (zip [0 ..< n] xs))" using assms(1) by (metis mset_map)
  then have "mset (map fst results) = mset [0 ..< n]" using assms(2) by simp
  then have d: "distinct (map fst results)" by (metis distinct_upt mset_eq_imp_distinct_iff)
  show len: "length (aligned_scores expf n results) = length (map (sigmoid expf) xs)"
    using assms(2) by (simp add: aligned_scores_def length_fold_scores)
  fix i assume "i < length (aligned_scores expf n results)"
  then have i: "i < n" using len assms(2) by simp
  then have "(i, xs ! i) \<in> set (zip [0 ..< n] xs)" using assms(2) by (force simp: in_set_zip)
  then have "(i, xs ! i) \<in> set results" using assms(1) by (metis mset_eq_setD)
  then show "aligned_scores expf n results ! i = map (sigmoid expf) xs ! i"
    using i assms(2) by (simp add: aligned_scores_def fold_scores_nth [OF d])
qed

lemma score_documents_ok:
  assumes "scores_independently rq f" and "score_documents rq cfg query ds bt slot = (Ok (scores, pass), slot')"
  shows "scores = map (sigmoid (rr_expf rq) \<circ> f query) ds"
proof -
  from assms(2) obtain e results e' where "rr_call rq query ds bt e = (Ok results, e')"
    and s: "scores = aligned_scores (rr_expf rq) (length ds) results"
    by (auto simp: score_documents_def Let_def split: option.splits prod.splits outcome.splits)
  with assms(1) have "mset results = mset (zip [0 ..< length ds] (map (f query) ds))"
    unfolding scores_independently_def by (metis fst_conv)
  from aligned_permutation [OF this] s show ?thesis by simp
qed

lemma score_request_ok:
  assumes "scores_independently rq f"
    and "score_request rq query documents hint bt request_id q b slot st = (Ok resp, slot')"
  shows "rk_scores resp = map (sigmoid (rr_expf rq) \<circ> f query) documents \<and> rk_request_id resp = request_id"
proof (cases "should_pin_shape (pin_input_shape (st_config st)) (request_provider hint st) \<and> 2 \<le> bt")
  case True
  obtain expanded positions where p: "pin_shape documents bt ruler_text = (expanded, positions)"
    by (cases "pin_shape documents bt ruler_text")
  from assms(2) True p obtain padded pass scores where
    r: "score_documents rq (st_config st) query expanded bt slot = (Ok (padded, pass), slot')"
    and u: "unpin_rows padded positions = Ok scores"
    and resp: "rk_scores resp = scores" "rk_request_id resp = request_id"
    by (auto simp: score_request_def Let_def bind_outcome_eq_Ok split: prod.splits)
  have "unpin_rows (map g expanded) positions = Ok (map g documents)" for g :: "string \<Rightarrow> f32"
    using unpin_pinned [of bt g documents ruler_text "[]"] True p by simp
  with score_documents_ok [OF assms(1) r] u resp show ?thesis by simp
next
  case False
  with assms(2) show ?thesis
    by (auto simp: score_request_def Let_def bind_outcome_eq_Ok score_documents_ok [OF assms(1)]
        split: prod.splits)
qed

lemma rerank_blocking_aligned:
  fixes st :: "('e, 'r, 't) app_state"
  assumes "rerank_blocking rq views query documents hint bt request_id st = Some (Ok resp, st')"
    and "scores_independently rq f"
  shows "rk_scores resp = map (sigmoid (rr_expf rq) \<circ> f query) documents \<and> rk_request_id resp = request_id"
proof -
  from assms(1) obtain q ms slot1 slot2 and st4 :: "('e, 'r, 't) app_state" where
    "score_request rq query documents hint bt request_id q ms slot1 st4 = (Ok resp, slot2)"
    by (auto simp: rerank_blocking_def Let_def split: lock_answer.splits prod.splits outcome.splits)
  from score_request_ok [OF assms(2) this] show ?thesis .
qed

text \<open>
  A score belongs to its document. With a session that scores each document on its own, a rerank
  returns, for the caller's documents and in their order, the sigmoid of each document's raw score:
  whatever order the session sorted its results in, and whether or not the batch was padded with rulers.
\<close>

theorem rerank_scores_aligned:
  fixes st :: "('e, 'r, 't) app_state"
  assumes "rerank_blocking rq views query documents hint bt request_id st = Some (Ok resp, st')"
    and "scores_independently rq f"
  shows "rk_scores resp = map (sigmoid (rr_expf rq) \<circ> f query) documents \<and> rk_request_id resp = request_id"
  using assms by (rule rerank_blocking_aligned)

section \<open>Witnesses\<close>

definition length_reranker :: "nat rerank_env" where
  "length_reranker = \<lparr>rr_machine = plain_machine, rr_try_new = (\<lambda>o'. Ok 1),
     rr_call = (\<lambda>q ds b e. (Ok (rev (zip [0 ..< length ds] (map (\<lambda>d. f32_one) ds))), Suc e)),
     rr_expf = (\<lambda>x. x), rr_before = (\<lambda>d. None), rr_after = (\<lambda>d. None), rr_clock = (\<lambda>k. k)\<rparr>"

definition free_slot :: "nat option \<Rightarrow> nat option poll_view" where
  "free_slot s = \<lparr>pv_engine = new_mutex s, pv_stamp = new_mutex None, pv_now = 0, pv_later = 0\<rparr>"

lemma free_slot_engine [simp]: "pv_engine (free_slot s) = new_mutex s"
  by (simp add: free_slot_def)

definition warm_rerank ::
  "string list \<Rightarrow> ((app_error, rerank_response) outcome \<times> (nat, nat, unit) app_state) option" where
  "warm_rerank docs = rerank_blocking length_reranker [free_slot (Some 1)] ''q'' docs [] 1 ''r2'' (plain_state [])"

lemma warm_rerank_ok: "\<exists>resp st'. warm_rerank docs = Some (Ok resp, st')"
  by (simp add: warm_rerank_def rerank_blocking_def mutex_simps Let_def rerank_engine_ready_def
      score_request_def score_documents_def length_reranker_def split: prod.split)

lemma rerank_leaves_clean_witness:
  "\<not> mx_held (rerank_engine (snd (the (warm_rerank [''a'', ''b'']))))"
proof -
  obtain resp st' where w: "warm_rerank [''a'', ''b''] = Some (Ok resp, st')" using warm_rerank_ok by blast
  have "lock_or_refuse option_discard_all ''rerank'' (wedge (st_config (plain_state []))) Until_The_Holder_Is_Wedged
      (rr_clock length_reranker 0) [free_slot (Some 1)] = Locked (Some 1)" by (simp add: mutex_simps)
  from rerank_leaves_clean [OF w [unfolded warm_rerank_def] this] w show ?thesis by simp
qed

lemma rerank_scores_aligned_witness:
  "\<exists>resp st'. warm_rerank [''a'', ''b''] = Some (Ok resp, st') \<and>
     rk_scores resp = [sigmoid (\<lambda>x. x) f32_one, sigmoid (\<lambda>x. x) f32_one]"
proof -
  obtain resp st' where w: "warm_rerank [''a'', ''b''] = Some (Ok resp, st')" using warm_rerank_ok by blast
  have "scores_independently length_reranker (\<lambda>q d. f32_one)"
    by (simp add: scores_independently_def length_reranker_def)
  from rerank_scores_aligned [OF w [unfolded warm_rerank_def] this] w show ?thesis
    by (simp add: length_reranker_def)
qed

end
