(* ===== verification/Wire.thy ===== *)
theory Wire
  imports Rerank
begin

text \<open>
  \<open>src/wire.rs\<close>: what goes over HTTP. The requests and responses as records, what \<open>/health\<close> says of a
  held engine, of the self check and of the memory ledger, and the status codes an error is given. A
  status is its number; a body that serde cannot decode never reaches the code.
\<close>

section \<open>Requests and responses\<close>

record embed_request =
  eq_texts :: "string list"
  eq_kind :: string
  eq_provider :: string
  eq_max_length :: nat
  eq_max_batch :: nat
  eq_request_id :: string

record rerank_request =
  rq_query :: string
  rq_documents :: "string list"
  rq_provider :: string
  rq_max_batch :: nat
  rq_request_id :: string

record tokenize_request =
  tq_texts :: "string list"
  tq_model :: string

record tokenize_response =
  tr_token_count :: "nat list"
  tr_model :: string
  tr_available :: bool

section \<open>What is held\<close>

record in_flight_wire =
  fw_engine :: string
  fw_phase :: string
  fw_activity :: string
  fw_elapsed_seconds :: nat
  fw_ceiling_seconds :: nat
  fw_wedged :: bool

definition in_flight_wire_of :: "string \<Rightarrow> in_flight \<Rightarrow> wedge_policy \<Rightarrow> nanos \<Rightarrow> in_flight_wire" where
  "in_flight_wire_of engine holder policy now =
     (let took = elapsed (if_since holder) now; limit = ceiling policy (if_phase holder)
      in \<lparr>fw_engine = engine, fw_phase = phase_name (if_phase holder), fw_activity = if_label holder,
          fw_elapsed_seconds = as_secs took, fw_ceiling_seconds = as_secs limit,
          fw_wedged = (limit \<le> took)\<rparr>)"

text \<open>The clock is read once per holder.\<close>

definition in_flight_now :: "(nat \<Rightarrow> nanos) \<Rightarrow> ('e, 'r, 't) app_state \<Rightarrow> in_flight_wire list" where
  "in_flight_now clk st =
     List.map_filter (\<lambda>(engine, slot, now).
         map_option (\<lambda>h. in_flight_wire_of engine h (wedge (st_config st)) now) (inflight_now slot))
       [(''embed'', embed_inflight st, clk 0), (''rerank'', rerank_inflight st, clk 1)]"

record loaded_models =
  lo_dense :: bool
  lo_sparse :: bool
  lo_rerank :: bool

record self_check_wire =
  cw_cosine :: "f32 option"
  cw_serving :: bool
  cw_verified :: bool
  cw_serving_threshold :: f32
  cw_verified_threshold :: f32
  cw_attempts :: nat
  cw_checked_seconds_ago :: nat

definition self_check_wire_of :: "self_check \<Rightarrow> nanos \<Rightarrow> self_check_wire" where
  "self_check_wire_of c now =
     \<lparr>cw_cosine = sc_cosine c, cw_serving = sc_serving c, cw_verified = sc_verified c,
      cw_serving_threshold = canary_min_cosine, cw_verified_threshold = verified_min_cosine,
      cw_attempts = sc_attempts c, cw_checked_seconds_ago = as_secs (elapsed (sc_since c) now)\<rparr>"

fun vram_reason_text :: "vram_reason \<Rightarrow> string" where
  "vram_reason_text No_Sample_Available =
     ''no GPU memory sample is available on this build '' @ em_dash
     @ '' the figure is DXGI'' @ [CHR 0x27] @ ''s, so it needs Windows and a resolved adapter ''
     @ ''(MIGraphX/WSL and CUDA-on-Linux report nothing here)''"
| "vram_reason_text All_Overlapped =
     ''every build so far overlapped another, so no allocation could be attributed to a single engine ''
     @ em_dash @ '' the delta would have measured the process, not the engine''"
| "vram_reason_text Invisible_Growth =
     ''a build was sampled alone and the adapter reported no growth, which is evidence the ''
     @ ''allocation was invisible to this sampler rather than a measurement of zero''"
| "vram_reason_text Nothing_Built = ''no session has been built yet''"

record vram_at_load =
  va_embed_bytes :: "nat option"
  va_rerank_bytes :: "nat option"
  va_overlaps :: nat
  va_not_sampled :: nat
  va_no_growth :: nat
  va_unavailable_reason :: "string option"

definition vram_at_load_of :: "vram_ledger option \<Rightarrow> vram_at_load" where
  "vram_at_load_of ledger =
     (case ledger of
        None \<Rightarrow>
          \<lparr>va_embed_bytes = None, va_rerank_bytes = None, va_overlaps = 0, va_not_sampled = 0,
           va_no_growth = 0,
           va_unavailable_reason = Some (''the ledger was busy when this probe read it '' @ em_dash
             @ '' /health never queues'')\<rparr>
      | Some l \<Rightarrow>
          \<lparr>va_embed_bytes = vl_embed l, va_rerank_bytes = vl_rerank l,
           va_overlaps = discarded_overlaps l, va_not_sampled = discarded_not_sampled l,
           va_no_growth = discarded_no_growth l,
           va_unavailable_reason = map_option vram_reason_text (unavailable_reason l)\<rparr>)"

record limits_wire =
  lw_embed_max_length :: nat
  lw_max_batch :: nat
  lw_embed_batch_texts :: nat
  lw_rerank_max_length :: nat
  lw_loaded_embed_max_length :: "nat option"
  lw_loaded_max_batch :: "nat option"
  lw_resident_embed_max_lengths :: "nat list"
  lw_max_body_bytes :: nat
  lw_tokenize_max_texts :: nat

record model_names =
  mn_dense :: string
  mn_sparse :: string
  mn_rerank :: string

section \<open>Models\<close>

definition kind_dense_sparse :: string where "kind_dense_sparse = ''dense+sparse''"
definition kind_rerank :: string where "kind_rerank = ''rerank''"
definition kind_tokenizer_only :: string where "kind_tokenizer_only = ''tokenizer-only''"

record model_entry =
  me_id :: string
  me_name :: string
  me_kind :: string
  me_dimension :: "nat option"
  me_max_sequence_length :: "nat option"
  me_tokenizer :: "string option"
  me_available :: bool
  me_tokenizer_available :: "bool option"

definition tokenizer_available :: "('e, 'r, 't) app_state \<Rightarrow> string option \<Rightarrow> bool option" where
  "tokenizer_available st tokenizer =
     map_option (\<lambda>name. case registry_entry (st_tokenizers st) name of
         None \<Rightarrow> False | Some row \<Rightarrow> te_tokenizer row \<noteq> None) tokenizer"

section \<open>Errors\<close>

text \<open>A status code and the text of the body.\<close>

type_synonym api_error = "nat \<times> string"

definition internal_error :: "(f32 \<Rightarrow> string) \<Rightarrow> app_error \<Rightarrow> api_error" where
  "internal_error fixed4 e = (500, show_error fixed4 e)"

definition bad_request :: "string \<Rightarrow> api_error" where
  "bad_request message = (400, message)"

definition engine_error :: "(f32 \<Rightarrow> string) \<Rightarrow> app_error \<Rightarrow> api_error" where
  "engine_error fixed4 e =
     (if downcast_wedged e \<noteq> None then (503, show_error fixed4 e) else internal_error fixed4 e)"

text \<open>How a blocking task failed to join: cancelled, or with the payload of its panic.\<close>

datatype join_error = Cancelled string | Str_Payload string | String_Payload string | Other_Payload

fun join_error_text :: "join_error \<Rightarrow> string" where
  "join_error_text (Cancelled text) = text"
| "join_error_text (Str_Payload s) = s"
| "join_error_text (String_Payload s) = s"
| "join_error_text Other_Payload = ''panic with a non-string payload''"

section \<open>What the wire says of a holder\<close>

lemma in_flight_now_members:
  "w \<in> set (in_flight_now clk st) \<longleftrightarrow>
     (\<exists>h. inflight_now (embed_inflight st) = Some h \<and>
        w = in_flight_wire_of ''embed'' h (wedge (st_config st)) (clk 0)) \<or>
     (\<exists>h. inflight_now (rerank_inflight st) = Some h \<and>
        w = in_flight_wire_of ''rerank'' h (wedge (st_config st)) (clk 1))"
  by (auto simp: in_flight_now_def List.map_filter_def split: option.splits if_splits)

lemma in_flight_now_empty:
  "in_flight_now clk st = [] \<longleftrightarrow>
     inflight_now (embed_inflight st) = None \<and> inflight_now (rerank_inflight st) = None"
  by (auto simp: in_flight_now_def List.map_filter_def)

text \<open>The verdict on the wire is the verdict of the watchdog and of the lock.\<close>

lemma wire_verdict:
  "fw_wedged (in_flight_wire_of engine h policy now) \<longleftrightarrow>
     wedge_verdict (if_phase h) (elapsed (if_since h) now) policy \<noteq> Some Nothing"
  by (simp add: in_flight_wire_of_def Let_def wedge_verdict_nothing not_less)

lemma engine_error_status:
  "fst (engine_error fixed4 e) = (if downcast_wedged e = None then 500 else 503)"
  by (simp add: engine_error_def internal_error_def)

end
