(* ===== verification/Introspection.thy ===== *)
theory Introspection
  imports Wire
begin

text \<open>
  \<open>src/introspection.rs\<close>: \<open>/health\<close> and \<open>/models\<close>, which only read, and \<open>/unload\<close> and the idle
  unloader, which take engines out under their locks. The decoder of the JSON body is a parameter, as
  are the polls each lock makes and the readings of the clock.
\<close>

section \<open>What is loaded\<close>

definition loaded_now :: "('s \<Rightarrow> bool) \<Rightarrow> 's mutex \<Rightarrow> bool" where
  "loaded_now is_loaded engine =
     (case try_lock engine of
        Acquired slot \<Rightarrow> is_loaded slot
      | WouldBlock \<Rightarrow> True
      | Poisoned slot \<Rightarrow> False)"

definition embed_loaded :: "('e, 'r, 't) app_state \<Rightarrow> bool" where
  "embed_loaded st = loaded_now rung_is_loaded (embed_engine st)"

definition rerank_loaded :: "('e, 'r, 't) app_state \<Rightarrow> bool" where
  "rerank_loaded st = loaded_now option_is_loaded (rerank_engine st)"

definition resident_now :: "('e, 'r, 't) app_state \<Rightarrow> nat list" where
  "resident_now st = (case try_lock_ok (embed_engine st) of None \<Rightarrow> [] | Some c \<Rightarrow> rung_caps c)"

section \<open>Health\<close>

record provenance =
  exe_sha256 :: string
  runtime_manifest_sha256 :: string

record health_response =
  hr_status :: string
  hr_activity :: string
  hr_host :: string
  hr_provider :: string
  hr_requested_provider :: string
  hr_compiled_providers :: "string list"
  hr_active_provider :: "string option"
  hr_provider_ready :: bool
  hr_last_provider_error :: "string option"
  hr_exe_sha256 :: string
  hr_runtime_manifest_sha256 :: string
  hr_provenance_ready :: bool
  hr_in_flight :: "in_flight_wire list"
  hr_wedged :: bool
  hr_loaded :: loaded_models
  hr_vram_at_load :: vram_at_load
  hr_self_check :: "self_check_wire option"
  hr_models :: model_names
  hr_limits :: limits_wire
  hr_adapter :: "resolved_adapter option"

definition read_cell :: "'a option mutex \<Rightarrow> 'a option" where
  "read_cell m = Option.bind (try_lock_ok m) id"

definition health ::
  "flavor \<Rightarrow> string \<Rightarrow> provenance option \<Rightarrow> (nat \<Rightarrow> nanos) \<Rightarrow> ('e, 'r, 't) app_state \<Rightarrow> health_response" where
  "health fl host prov clk st =
     (let requested = request_provider [] st;
          active = read_cell (active_provider st);
          held = in_flight_now clk st;
          wedged = list_ex fw_wedged held
      in \<lparr>hr_status = (if wedged then ''wedged'' else ''ok''),
          hr_activity = (case try_lock_ok (activity st) of None \<Rightarrow> ''busy'' | Some a \<Rightarrow> a),
          hr_host = host,
          hr_provider = (case active of None \<Rightarrow> requested | Some a \<Rightarrow> a),
          hr_requested_provider = requested,
          hr_compiled_providers = compiled_providers fl,
          hr_active_provider = active,
          hr_provider_ready = (active \<noteq> None),
          hr_last_provider_error = read_cell (last_provider_error st),
          hr_exe_sha256 = (case prov of None \<Rightarrow> [] | Some p \<Rightarrow> exe_sha256 p),
          hr_runtime_manifest_sha256 = (case prov of None \<Rightarrow> [] | Some p \<Rightarrow> runtime_manifest_sha256 p),
          hr_provenance_ready = (prov \<noteq> None),
          hr_in_flight = held,
          hr_wedged = wedged,
          hr_loaded = \<lparr>lo_dense = embed_loaded st, lo_sparse = embed_loaded st, lo_rerank = rerank_loaded st\<rparr>,
          hr_vram_at_load = vram_at_load_of (fst (vram_snapshot (st_vram st))),
          hr_self_check = map_option (\<lambda>c. self_check_wire_of c (clk 2)) (read_cell (st_self_check st)),
          hr_models = \<lparr>mn_dense = dense_model, mn_sparse = sparse_model, mn_rerank = rerank_model\<rparr>,
          hr_limits =
            \<lparr>lw_embed_max_length = embed_max_length (st_config st),
             lw_max_batch = max_batch (st_config st),
             lw_embed_batch_texts = embed_batch_texts (st_config st) requested,
             lw_rerank_max_length = rerank_max_length (st_config st),
             lw_loaded_embed_max_length = committed_cap st,
             lw_loaded_max_batch = read_cell (loaded_max_batch st),
             lw_resident_embed_max_lengths = resident_now st,
             lw_max_body_bytes = max_body_bytes (st_config st),
             lw_tokenize_max_texts = tokenize_max_texts (st_config st)\<rparr>,
          hr_adapter = st_adapter st\<rparr>)"

section \<open>Models\<close>

definition served_models :: "('e, 'r, 't) app_state \<Rightarrow> model_entry list" where
  "served_models st =
     [\<lparr>me_id = ''bge-m3'', me_name = dual_model, me_kind = kind_dense_sparse,
       me_dimension = read_cell (loaded_embed_dimension st),
       me_max_sequence_length = Some (case committed_cap st of
           None \<Rightarrow> embed_max_length (st_config st) | Some cap \<Rightarrow> cap),
       me_tokenizer = Some bge_tokenizer, me_available = embed_loaded st,
       me_tokenizer_available = tokenizer_available st (Some bge_tokenizer)\<rparr>,
      \<lparr>me_id = ''bge-reranker-v2-m3'', me_name = rerank_model, me_kind = kind_rerank,
       me_dimension = None, me_max_sequence_length = Some (rerank_max_length (st_config st)),
       me_tokenizer = None, me_available = rerank_loaded st, me_tokenizer_available = None\<rparr>]"

definition counting_model :: "'t tokenizer_entry \<Rightarrow> model_entry" where
  "counting_model e =
     \<lparr>me_id = te_name e, me_name = te_name e, me_kind = kind_tokenizer_only, me_dimension = None,
      me_max_sequence_length = None, me_tokenizer = Some (te_name e),
      me_available = (te_tokenizer e \<noteq> None), me_tokenizer_available = Some (te_tokenizer e \<noteq> None)\<rparr>"

definition models_now :: "('e, 'r, 't) app_state \<Rightarrow> model_entry list" where
  "models_now st =
     (let served = served_models st; claimed = List.map_filter me_tokenizer served
      in served @ map counting_model (filter (\<lambda>e. te_name e \<notin> set claimed) (st_tokenizers st)))"

section \<open>Unloading\<close>

record unload_request =
  ur_embed_max_lengths :: "nat list"
  ur_rerank :: "bool option"

definition unload_request_default :: unload_request where
  "unload_request_default = \<lparr>ur_embed_max_lengths = [], ur_rerank = None\<rparr>"

definition is_full_drain :: "unload_request \<Rightarrow> bool" where
  "is_full_drain req = (ur_embed_max_lengths req = [] \<and> ur_rerank req = None)"

text \<open>\<open>decode\<close> is \<open>serde_json::from_slice\<close> at the request's type.\<close>

definition parse_unload_request ::
  "(byte list \<Rightarrow> unload_request option) \<Rightarrow> byte list \<Rightarrow> unload_request option" where
  "parse_unload_request decode body = (if body = [] then Some unload_request_default else decode body)"

record drained =
  dr_embed_rungs :: "nat list"
  dr_rerank :: bool
  dr_refused :: "string list"

fun remove_rungs :: "nat list \<Rightarrow> 'e rung_cache \<Rightarrow> (nat \<times> 'e) list \<times> 'e rung_cache" where
  "remove_rungs [] c = ([], c)"
| "remove_rungs (cap # caps) c =
     (case rung_remove cap c of
        (None, c1) \<Rightarrow> remove_rungs caps c1
      | (Some e, c1) \<Rightarrow> (case remove_rungs caps c1 of (taken, c2) \<Rightarrow> ((cap, e) # taken, c2)))"

definition free_mutex :: "'a \<Rightarrow> 'a mutex" where
  "free_mutex v = \<lparr>mx_val = v, mx_held = False, mx_poisoned = False\<rparr>"

definition drain_embed ::
  "nanos \<Rightarrow> 'e rung_cache poll_view list \<Rightarrow> unload_request \<Rightarrow> drained \<Rightarrow> ('e, 'r, 't) app_state \<Rightarrow>
     (drained \<times> ('e, 'r, 't) app_state) option" where
  "drain_embed since views req d st =
     (if \<not> (is_full_drain req \<or> ur_embed_max_lengths req \<noteq> []) then Some (d, st)
      else (case lock_or_refuse rung_discard_all ''embed'' (wedge (st_config st))
              (At_Most (unload_wait (wedge (st_config st)))) since views of
          Still_Waiting \<Rightarrow> None
        | Refused w \<Rightarrow> Some (d\<lparr>dr_refused := dr_refused d @ [''embed'']\<rparr>, st)
        | Locked c \<Rightarrow>
            (let (taken, c1) = (if is_full_drain req then rung_drain c
                   else remove_rungs (ur_embed_max_lengths req) c)
             in Some (d\<lparr>dr_embed_rungs := map fst taken\<rparr>,
                  (settle_cap c1 st)\<lparr>embed_engine := free_mutex c1\<rparr>))))"

definition drain_rerank ::
  "nanos \<Rightarrow> 'r option poll_view list \<Rightarrow> unload_request \<Rightarrow> drained \<Rightarrow> ('e, 'r, 't) app_state \<Rightarrow>
     (drained \<times> ('e, 'r, 't) app_state) option" where
  "drain_rerank since views req d st =
     (if \<not> (is_full_drain req \<or> ur_rerank req = Some True) then Some (d, st)
      else (case lock_or_refuse option_discard_all ''rerank'' (wedge (st_config st))
              (At_Most (unload_wait (wedge (st_config st)))) since views of
          Still_Waiting \<Rightarrow> None
        | Refused w \<Rightarrow> Some (d\<lparr>dr_refused := dr_refused d @ [''rerank'']\<rparr>, st)
        | Locked slot \<Rightarrow>
            Some (d\<lparr>dr_rerank := (slot \<noteq> None)\<rparr>, st\<lparr>rerank_engine := free_mutex None\<rparr>)))"

definition drained_default :: drained where
  "drained_default = \<lparr>dr_embed_rungs = [], dr_rerank = False, dr_refused = []\<rparr>"

text \<open>What the two locks observe, and when each wait began.\<close>

record ('e, 'r) unload_polls =
  up_embed :: "'e rung_cache poll_view list"
  up_embed_since :: nanos
  up_rerank :: "'r option poll_view list"
  up_rerank_since :: nanos

definition drain_engines ::
  "('e, 'r) unload_polls \<Rightarrow> unload_request \<Rightarrow> ('e, 'r, 't) app_state \<Rightarrow>
     (drained \<times> ('e, 'r, 't) app_state) option" where
  "drain_engines polls req st =
     (case drain_embed (up_embed_since polls) (up_embed polls) req drained_default st of
        None \<Rightarrow> None
      | Some (d, st1) \<Rightarrow> drain_rerank (up_rerank_since polls) (up_rerank polls) req d st1)"

definition unload ::
  "(byte list \<Rightarrow> unload_request option) \<Rightarrow> ('e, 'r) unload_polls \<Rightarrow>
     (('e, 'r, 't) app_state \<Rightarrow> health_response) \<Rightarrow> byte list \<Rightarrow> ('e, 'r, 't) app_state \<Rightarrow>
     (health_response \<times> ('e, 'r, 't) app_state) option" where
  "unload decode polls probe body st =
     (case parse_unload_request decode body of
        None \<Rightarrow> Some (probe st, st)
      | Some req \<Rightarrow> map_option (\<lambda>(d, st1). (probe st1, st1)) (drain_engines polls req st))"

text \<open>One tick of the idle unloader; the clock is read for the idle time and for the two stamps.\<close>

definition idle_for :: "nanos \<Rightarrow> ('e, 'r, 't) app_state \<Rightarrow> nanos" where
  "idle_for now st = (case try_lock_ok (last_request st) of None \<Rightarrow> 0 | Some at \<Rightarrow> elapsed at now)"

definition idle_tick ::
  "nanos \<Rightarrow> (nat \<Rightarrow> nanos) \<Rightarrow> ('e, 'r) unload_polls \<Rightarrow> ('e, 'r, 't) app_state \<Rightarrow>
     (drained option \<times> ('e, 'r, 't) app_state) option" where
  "idle_tick after clk polls st =
     (let busy = (in_flight_now clk st \<noteq> []); loaded = (embed_loaded st \<or> rerank_loaded st)
      in if busy \<or> idle_for (clk 2) st < after \<or> \<not> loaded then Some (None, st)
         else map_option (\<lambda>(d, st1). (Some d, st1)) (drain_engines polls unload_request_default st))"

definition idle_tick_period :: "nanos \<Rightarrow> nanos" where
  "idle_tick_period after = max (after div 3) (from_secs 1)"

section \<open>What an unload takes\<close>

lemma rung_remove_filter:
  assumes "rung_inv c"
  shows "snd (rung_remove cap c) = c\<lparr>rungs := filter (\<lambda>r. fst r \<noteq> cap) (rungs c)\<rparr>"
proof (rule rung_lookup_cases [OF assms, of cap])
  assume "rung_map c cap = None" "rung_remove cap c = (None, c)"
  then show ?thesis by (simp add: rung_map_def map_of_eq_None_iff filter_fst_neq_id)
next
  fix us e vs
  assume "rungs c = us @ (cap, e) # vs" "cap \<notin> fst ` set us" "cap \<notin> fst ` set vs"
    "rung_remove cap c = (Some e, c\<lparr>rungs := us @ vs\<rparr>)"
  then show ?thesis by (simp add: filter_fst_neq_id)
qed

lemma remove_rungs_spec:
  "rung_inv c \<Longrightarrow> remove_rungs caps c = (taken, c') \<Longrightarrow>
     c' = c\<lparr>rungs := filter (\<lambda>r. fst r \<notin> set caps) (rungs c)\<rparr> \<and>
     set (map fst taken) = set caps \<inter> set (rung_caps c)"
proof (induction caps arbitrary: c taken c')
  case (Cons cap caps)
  obtain hit c1 where r: "rung_remove cap c = (hit, c1)" by (cases "rung_remove cap c")
  have c1: "c1 = c\<lparr>rungs := filter (\<lambda>r. fst r \<noteq> cap) (rungs c)\<rparr>"
    using rung_remove_filter [OF Cons.prems(1), of cap] r by simp
  have inv: "rung_inv c1" using rung_remove_inv [OF Cons.prems(1), of cap] r by simp
  obtain rest c2 where rest: "remove_rungs caps c1 = (rest, c2)" by (cases "remove_rungs caps c1")
  have hit: "hit = rung_map c cap" using rung_remove_fst [OF Cons.prems(1), of cap] r by simp
  have caps1: "set (rung_caps c1) = set (rung_caps c) - {cap}" by (auto simp: c1 rung_caps_def)
  have res: "c' = c2" "set (map fst taken) = (if hit = None then {} else {cap}) \<union> set (map fst rest)"
    using Cons.prems(2) by (auto simp: r rest split: option.splits)
  have "cap \<in> set (rung_caps c) \<longleftrightarrow> hit \<noteq> None" by (simp add: in_rung_caps_iff hit)
  then have "set (map fst taken) = set (cap # caps) \<inter> set (rung_caps c)"
    using Cons.IH [OF inv rest] caps1 res(2) by auto
  moreover have "c' = c\<lparr>rungs := filter (\<lambda>r. fst r \<notin> set (cap # caps)) (rungs c)\<rparr>"
    using Cons.IH [OF inv rest] res(1) by (simp add: c1)
  ultimately show ?case by simp
qed simp

definition named :: "unload_request \<Rightarrow> nat \<Rightarrow> bool" where
  "named req cap \<longleftrightarrow> is_full_drain req \<or> cap \<in> set (ur_embed_max_lengths req)"

definition wants_embed :: "unload_request \<Rightarrow> bool" where
  "wants_embed req \<longleftrightarrow> is_full_drain req \<or> ur_embed_max_lengths req \<noteq> []"

definition wants_rerank :: "unload_request \<Rightarrow> bool" where
  "wants_rerank req \<longleftrightarrow> is_full_drain req \<or> ur_rerank req = Some True"

lemma drain_embed_locked:
  assumes "wants_embed req" "rung_inv c"
    and "lock_or_refuse rung_discard_all ''embed'' (wedge (st_config st))
           (At_Most (unload_wait (wedge (st_config st)))) since views = Locked c"
    and "drain_embed since views req d st = Some (d', st')"
  shows "mx_val (embed_engine st') = c\<lparr>rungs := filter (\<lambda>r. \<not> named req (fst r)) (rungs c)\<rparr> \<and>
    embed_engine st' = free_mutex (mx_val (embed_engine st')) \<and> cap_mirror st' \<and>
    set (dr_embed_rungs d') = {cap \<in> set (rung_caps c). named req cap} \<and>
    dr_refused d' = dr_refused d \<and> rerank_engine st' = rerank_engine st \<and> st_config st' = st_config st"
proof (cases "is_full_drain req")
  case True
  with assms show ?thesis
    by (simp add: drain_embed_def rung_drain_def free_mutex_def cap_mirror_def settle_cap_def rung_caps_def
        named_def wants_embed_def) (force simp: rung_caps_def)
next
  case False
  obtain taken c1 where r: "remove_rungs (ur_embed_max_lengths req) c = (taken, c1)"
    by (cases "remove_rungs (ur_embed_max_lengths req) c")
  from remove_rungs_spec [OF assms(2) r] False assms r show ?thesis
    by (auto simp: drain_embed_def free_mutex_def cap_mirror_def settle_cap_def named_def wants_embed_def)
qed

text \<open>
  An unload takes exactly what it names. When both engines come free, the resident rungs afterwards
  are those not named, in their order of use, the reported rungs are the named ones that were resident,
  the committed cap is that of the most recently used rung left, the reranker goes when it is named,
  and an engine that is not named is not touched; an empty request names everything.
\<close>

theorem unload_takes_what_it_names:
  assumes "drain_engines polls req st = Some (d, st')" and "rung_inv c"
    and "lock_or_refuse rung_discard_all ''embed'' (wedge (st_config st))
           (At_Most (unload_wait (wedge (st_config st)))) (up_embed_since polls) (up_embed polls) = Locked c"
    and "lock_or_refuse option_discard_all ''rerank'' (wedge (st_config st))
           (At_Most (unload_wait (wedge (st_config st)))) (up_rerank_since polls) (up_rerank polls) = Locked slot"
  shows "(if wants_embed req
     then rungs (mx_val (embed_engine st')) = filter (\<lambda>r. \<not> named req (fst r)) (rungs c) \<and>
       set (dr_embed_rungs d) = {cap \<in> set (rung_caps c). named req cap} \<and> cap_mirror st'
     else embed_engine st' = embed_engine st \<and> committed_embed_cap st' = committed_embed_cap st) \<and>
   (if wants_rerank req then mx_val (rerank_engine st') = None \<and> dr_rerank d = (slot \<noteq> None)
     else rerank_engine st' = rerank_engine st) \<and>
   dr_refused d = []"
proof -
  from assms(1) obtain d1 st1 where
    e: "drain_embed (up_embed_since polls) (up_embed polls) req drained_default st = Some (d1, st1)"
    and r: "drain_rerank (up_rerank_since polls) (up_rerank polls) req d1 st1 = Some (d, st')"
    by (auto simp: drain_engines_def split: option.splits)
  have cfg: "st_config st1 = st_config st"
    using e by (auto simp: drain_embed_def state_simps settle_cap_def split: if_splits lock_answer.splits prod.splits)
  have r': "embed_engine st' = embed_engine st1" "committed_embed_cap st' = committed_embed_cap st1"
    "dr_embed_rungs d = dr_embed_rungs d1"
    using r by (auto simp: drain_rerank_def split: if_splits lock_answer.splits)
  show ?thesis
  proof (cases "wants_embed req")
    case True
    from drain_embed_locked [OF True assms(2,3) e] r r' assms(4) cfg True show ?thesis
      by (auto simp: drain_rerank_def wants_rerank_def free_mutex_def cap_mirror_def drained_default_def
          split: if_splits)
  next
    case False
    then have "d1 = drained_default" "st1 = st" using e by (auto simp: drain_embed_def wants_embed_def)
    with False r r' assms(4) show ?thesis
      by (auto simp: drain_rerank_def wants_rerank_def free_mutex_def drained_default_def split: if_splits)
  qed
qed

text \<open>
  A partial handover never reads as a complete one. An engine that was asked for and did not come free
  before the ceiling is listed as refused and is exactly as it was; an engine that is not listed was
  taken or not asked for.
\<close>

theorem refused_engines_stay_loaded:
  assumes "drain_engines polls req st = Some (d, st')"
  shows "(''embed'' \<in> set (dr_refused d) \<longleftrightarrow> wants_embed req \<and>
      (\<exists>w. lock_or_refuse rung_discard_all ''embed'' (wedge (st_config st))
         (At_Most (unload_wait (wedge (st_config st)))) (up_embed_since polls) (up_embed polls) = Refused w)) \<and>
    (''rerank'' \<in> set (dr_refused d) \<longleftrightarrow> wants_rerank req \<and>
      (\<exists>w. lock_or_refuse option_discard_all ''rerank'' (wedge (st_config st))
         (At_Most (unload_wait (wedge (st_config st)))) (up_rerank_since polls) (up_rerank polls) = Refused w)) \<and>
    (''embed'' \<in> set (dr_refused d) \<longrightarrow> embed_engine st' = embed_engine st \<and>
      committed_embed_cap st' = committed_embed_cap st \<and> dr_embed_rungs d = []) \<and>
    (''rerank'' \<in> set (dr_refused d) \<longrightarrow> rerank_engine st' = rerank_engine st \<and> \<not> dr_rerank d)"
proof -
  from assms obtain d1 st1 where
    e: "drain_embed (up_embed_since polls) (up_embed polls) req drained_default st = Some (d1, st1)"
    and r: "drain_rerank (up_rerank_since polls) (up_rerank polls) req d1 st1 = Some (d, st')"
    by (auto simp: drain_engines_def split: option.splits)
  have e': "st_config st1 = st_config st" "rerank_engine st1 = rerank_engine st" "\<not> dr_rerank d1"
    "''rerank'' \<notin> set (dr_refused d1)"
    "''embed'' \<in> set (dr_refused d1) \<longleftrightarrow> wants_embed req \<and>
      (\<exists>w. lock_or_refuse rung_discard_all ''embed'' (wedge (st_config st))
         (At_Most (unload_wait (wedge (st_config st)))) (up_embed_since polls) (up_embed polls) = Refused w)"
    "''embed'' \<in> set (dr_refused d1) \<longrightarrow> embed_engine st1 = embed_engine st \<and>
      committed_embed_cap st1 = committed_embed_cap st \<and> dr_embed_rungs d1 = []"
    using e by (auto simp: drain_embed_def wants_embed_def settle_cap_def drained_default_def
        split: if_splits lock_answer.splits prod.splits)
  have r': "embed_engine st' = embed_engine st1" "committed_embed_cap st' = committed_embed_cap st1"
    "dr_embed_rungs d = dr_embed_rungs d1"
    "''embed'' \<in> set (dr_refused d) \<longleftrightarrow> ''embed'' \<in> set (dr_refused d1)"
    "''rerank'' \<in> set (dr_refused d) \<longleftrightarrow> wants_rerank req \<and>
      (\<exists>w. lock_or_refuse option_discard_all ''rerank'' (wedge (st_config st))
         (At_Most (unload_wait (wedge (st_config st)))) (up_rerank_since polls) (up_rerank polls) = Refused w)"
    "''rerank'' \<in> set (dr_refused d) \<longrightarrow> rerank_engine st' = rerank_engine st1 \<and> dr_rerank d = dr_rerank d1"
    using r e'(1,4) by (auto simp: drain_rerank_def wants_rerank_def split: if_splits lock_answer.splits)
  from e' r' show ?thesis by simp
qed

lemma patience_answers:
  "v \<in> set views \<Longrightarrow> bound \<le> elapsed since (pv_later v) \<Longrightarrow>
     lock_or_refuse discard what policy (At_Most bound) since views \<noteq> Still_Waiting"
  unfolding still_waiting_iff keeps_waiting_def by (metis not_le)

text \<open>
  C21: the recovery tool cannot hang. Whatever holds the engines and whatever is stamped, an unload has an
  answer as soon as each of its two waits has been polled once past \<open>unload_wait\<close>.
\<close>

theorem unload_always_answers:
  assumes "v \<in> set (up_embed polls)"
    and "unload_wait (wedge (st_config st)) \<le> elapsed (up_embed_since polls) (pv_later v)"
    and "u \<in> set (up_rerank polls)"
    and "unload_wait (wedge (st_config st)) \<le> elapsed (up_rerank_since polls) (pv_later u)"
  shows "unload decode polls probe body st \<noteq> None"
proof -
  have e: "drain_embed (up_embed_since polls) (up_embed polls) req d st \<noteq> None" for req d
    using patience_answers [OF assms(1,2)] by (auto simp: drain_embed_def split: lock_answer.splits prod.splits)
  have r: "drain_rerank (up_rerank_since polls) (up_rerank polls) req d st1 \<noteq> None"
    if "st_config st1 = st_config st" for req d st1
    using patience_answers [OF assms(3,4)] that by (auto simp: drain_rerank_def split: lock_answer.splits)
  have cfg: "drain_embed since views req d st = Some (d1, st1) \<Longrightarrow> st_config st1 = st_config st"
    for since views req d d1 st1
    by (auto simp: drain_embed_def settle_cap_def split: if_splits lock_answer.splits prod.splits)
  have "drain_engines polls req st \<noteq> None" for req
  proof -
    obtain d1 st1 where d: "drain_embed (up_embed_since polls) (up_embed polls) req drained_default st = Some (d1, st1)"
      using e [of req drained_default] by auto
    from r [OF cfg [OF d]] d show ?thesis by (simp add: drain_engines_def)
  qed
  then show ?thesis by (cases "parse_unload_request decode body") (simp_all add: unload_def)
qed

section \<open>What the probes report\<close>

text \<open>
  Health tells the truth about a wedge. The status is ``wedged'' exactly when the stamp of an engine
  that can be read is past the ceiling of its phase, the very verdict by which the watchdog reports and
  the lock refuses; an engine that is held is reported loaded, a poisoned one is not.
\<close>

theorem health_reports_wedge:
  "(hr_status (health fl host prov clk st) = ''wedged'' \<longleftrightarrow>
      (\<exists>h. inflight_now (embed_inflight st) = Some h \<and>
        wedge_verdict (if_phase h) (elapsed (if_since h) (clk 0)) (wedge (st_config st)) \<noteq> Some Nothing) \<or>
      (\<exists>h. inflight_now (rerank_inflight st) = Some h \<and>
        wedge_verdict (if_phase h) (elapsed (if_since h) (clk 1)) (wedge (st_config st)) \<noteq> Some Nothing)) \<and>
   (hr_wedged (health fl host prov clk st) \<longleftrightarrow> hr_status (health fl host prov clk st) = ''wedged'') \<and>
   lo_dense (hr_loaded (health fl host prov clk st)) =
     (mx_held (embed_engine st) \<or> (\<not> mx_poisoned (embed_engine st) \<and> rung_caps (mx_val (embed_engine st)) \<noteq> []))"
proof -
  have l: "embed_loaded st = (mx_held (embed_engine st) \<or>
      (\<not> mx_poisoned (embed_engine st) \<and> rung_caps (mx_val (embed_engine st)) \<noteq> []))"
    by (simp add: embed_loaded_def loaded_now_def try_lock_def rung_is_loaded_def rung_caps_def)
  have w: "list_ex fw_wedged (in_flight_now clk st) \<longleftrightarrow>
      (\<exists>h. inflight_now (embed_inflight st) = Some h \<and>
        wedge_verdict (if_phase h) (elapsed (if_since h) (clk 0)) (wedge (st_config st)) \<noteq> Some Nothing) \<or>
      (\<exists>h. inflight_now (rerank_inflight st) = Some h \<and>
        wedge_verdict (if_phase h) (elapsed (if_since h) (clk 1)) (wedge (st_config st)) \<noteq> Some Nothing)"
    by (auto simp: list_ex_iff in_flight_now_members wire_verdict Bex_def)
  show ?thesis by (simp add: health_def Let_def l w)
qed

lemma health_reports_wedge_witness:
  "hr_status (health (m_flavor plain_machine) ''linux'' None (\<lambda>k. 10) (plain_state [])) \<noteq> ''wedged''"
  using health_reports_wedge [of "m_flavor plain_machine" "''linux''" None "\<lambda>k. 10" "plain_state []"]
  by (simp add: plain_state_def new_state_def mutex_simps inflight_now_new)

lemma served_claims: "List.map_filter me_tokenizer (served_models st) = [bge_tokenizer]"
  by (simp add: served_models_def List.map_filter_def)

lemma filter_key_unique:
  "distinct (map f xs) \<Longrightarrow> x \<in> set xs \<Longrightarrow> filter (\<lambda>y. f y = f x) xs = [x]"
proof (induction xs)
  case (Cons z xs)
  then show ?case by (cases "f z = f x") (auto simp: filter_empty_conv dest: sym)
qed simp

lemma find_key_unique: "distinct (map f xs) \<Longrightarrow> x \<in> set xs \<Longrightarrow> find (\<lambda>y. f y = f x) xs = Some x"
  by (induction xs) auto

lemma counting_rows:
  "filter (\<lambda>m. me_tokenizer m = Some n) (map counting_model es) =
     map counting_model (filter (\<lambda>e. te_name e = n) es)"
  by (induction es) (auto simp: counting_model_def)

text \<open>
  Every counter is listed once. In a registry whose names are distinct, each tokenizer is named by
  exactly one row of \<open>/models\<close>, whether a served model claims it or it has a row of its own, and that row's
  \<open>tokenizer_available\<close> is whether its file was loaded; only the embedding row can report a width.
\<close>

theorem models_list_each_counter_once:
  assumes "distinct (map te_name (st_tokenizers st))" and "e \<in> set (st_tokenizers st)"
  shows "(\<exists>m. filter (\<lambda>m. me_tokenizer m = Some (te_name e)) (models_now st) = [m] \<and>
      me_tokenizer_available m = Some (te_tokenizer e \<noteq> None)) \<and>
    (\<forall>m\<in>set (models_now st). me_dimension m \<noteq> None \<longrightarrow> me_kind m = kind_dense_sparse)"
proof -
  have reg: "registry_entry (st_tokenizers st) (te_name e) = Some e"
    using find_key_unique [OF assms] by (simp add: registry_entry_def)
  have one: "filter (\<lambda>x. te_name x = te_name e) (st_tokenizers st) = [e]"
    by (rule filter_key_unique [OF assms])
  have "\<exists>m. filter (\<lambda>m. me_tokenizer m = Some (te_name e)) (models_now st) = [m] \<and>
      me_tokenizer_available m = Some (te_tokenizer e \<noteq> None)"
  proof (cases "te_name e = bge_tokenizer")
    case True
    then have "filter (\<lambda>x. te_name x = te_name e) (filter (\<lambda>x. te_name x \<noteq> bge_tokenizer) (st_tokenizers st)) = []"
      by (simp add: filter_empty_conv)
    then have "filter (\<lambda>m. me_tokenizer m = Some (te_name e)) (models_now st) = [hd (served_models st)]"
      unfolding models_now_def Let_def served_claims filter_append
      using True by (simp add: counting_rows) (simp add: served_models_def)
    then show ?thesis using reg True
      by (simp add: served_models_def tokenizer_available_def)
  next
    case False
    then have "filter (\<lambda>x. te_name x = te_name e) (filter (\<lambda>x. te_name x \<noteq> bge_tokenizer) (st_tokenizers st)) = [e]"
      using one by (simp add: conj_commute cong: filter_cong) (metis (mono_tags, lifting) filter_cong)
    then have "filter (\<lambda>m. me_tokenizer m = Some (te_name e)) (models_now st) = [counting_model e]"
      unfolding models_now_def Let_def served_claims filter_append
      using False by (simp add: counting_rows) (simp add: served_models_def)
    then show ?thesis by (simp add: counting_model_def)
  qed
  then show ?thesis by (auto simp: models_now_def served_models_def counting_model_def)
qed

definition two_counters :: "(nat, nat, unit) app_state" where
  "two_counters = (plain_state [])\<lparr>st_tokenizers :=
     [\<lparr>te_name = ''bge'', te_source = None, te_tokenizer = None\<rparr>,
      \<lparr>te_name = ''qwen'', te_source = Some ''q'', te_tokenizer = Some ()\<rparr>]\<rparr>"

lemma models_list_each_counter_once_witness:
  "\<exists>m. filter (\<lambda>m. me_tokenizer m = Some ''qwen'') (models_now two_counters) = [m] \<and>
     me_tokenizer_available m = Some True"
  using models_list_each_counter_once [of two_counters
      "\<lparr>te_name = ''qwen'', te_source = Some ''q'', te_tokenizer = Some ()\<rparr>"]
  by (simp add: two_counters_def)

section \<open>Idling\<close>


definition idle_polls :: "nat rung_cache \<Rightarrow> nat option \<Rightarrow> (nat, nat) unload_polls" where
  "idle_polls c slot = \<lparr>up_embed = [free_view c], up_embed_since = 0,
     up_rerank = [free_slot slot], up_rerank_since = 0\<rparr>"

definition warm_state :: "(nat, nat, unit) app_state" where
  "warm_state = (plain_state [])\<lparr>embed_engine := new_mutex warm_cache, committed_embed_cap := 256\<rparr>"

lemma warm_state_idle:
  "in_flight_now clk warm_state = []" "embed_loaded warm_state" "idle_for now warm_state = now"
  by (simp_all add: in_flight_now_empty inflight_now_new warm_state_def plain_state_def new_state_def
      embed_loaded_def loaded_now_def mutex_simps rung_is_loaded_def warm_cache_def idle_for_def elapsed_def)

lemma full_drain_returns: "\<exists>d st'. drain_engines (idle_polls c slot) unload_request_default st = Some (d, st')"
  by (simp add: drain_engines_def drain_embed_def drain_rerank_def idle_polls_def mutex_simps Let_def
      rung_drain_def unload_request_default_def is_full_drain_def)


lemma unload_takes_what_it_names_witness:
  "\<exists>d st'. drain_engines (idle_polls warm_cache (Some 1)) unload_request_default warm_state = Some (d, st') \<and>
     rungs (mx_val (embed_engine st')) = [] \<and> set (dr_embed_rungs d) = {256} \<and> dr_rerank d"
proof -
  obtain d st' where d: "drain_engines (idle_polls warm_cache (Some 1)) unload_request_default warm_state = Some (d, st')"
    using full_drain_returns by blast
  have "wants_embed unload_request_default" "wants_rerank unload_request_default" "\<And>cap. named unload_request_default cap"
    by (simp_all add: wants_embed_def wants_rerank_def named_def is_full_drain_def unload_request_default_def)
  with unload_takes_what_it_names [OF d sample_invs(1), of "Some 1"] d show ?thesis
    by (simp add: idle_polls_def mutex_simps warm_cache_def rung_caps_def)
qed

text \<open>An embedding engine that a running pass holds: the bounded wait runs out.\<close>

definition busy_polls :: "(nat, nat) unload_polls" where
  "busy_polls = \<lparr>up_embed = [\<lparr>pv_engine = (new_mutex warm_cache)\<lparr>mx_held := True\<rparr>,
       pv_stamp = new_mutex (Some \<lparr>if_phase = Running, if_label = ''p'', if_since = 0\<rparr>),
       pv_now = 1, pv_later = from_secs 30\<rparr>], up_embed_since = 0,
     up_rerank = [(free_slot None)\<lparr>pv_later := from_secs 30\<rparr>], up_rerank_since = 0\<rparr>"

lemma default_waits:
  "unload_wait (wedge (st_config warm_state)) = from_secs 30"
  "running_after (wedge (st_config warm_state)) = from_secs 900"
  by (simp_all add: warm_state_def plain_state_def new_state_def config_from_env_def
      wedge_policy_from_env_def text_simps Let_def)

lemma refused_engines_stay_loaded_witness:
  "\<exists>d st'. drain_engines busy_polls unload_request_default warm_state = Some (d, st') \<and>
     ''embed'' \<in> set (dr_refused d) \<and> embed_engine st' = embed_engine warm_state"
proof -
  have r: "\<exists>w. lock_or_refuse rung_discard_all ''embed'' (wedge (st_config warm_state))
      (At_Most (unload_wait (wedge (st_config warm_state)))) (up_embed_since busy_polls) (up_embed busy_polls) = Refused w"
    by (simp add: busy_polls_def try_lock_def holder_view_def inflight_now_new default_waits elapsed_def
        from_secs_def Let_def)
  then obtain d st' where d: "drain_engines busy_polls unload_request_default warm_state = Some (d, st')"
    by (auto simp: drain_engines_def drain_embed_def drain_rerank_def unload_request_default_def
        is_full_drain_def busy_polls_def mutex_simps)
  have "wants_embed unload_request_default"
    by (simp add: wants_embed_def is_full_drain_def unload_request_default_def)
  with refused_engines_stay_loaded [OF d] r d show ?thesis by auto
qed

lemma unload_always_answers_witness:
  "unload (\<lambda>b. None) busy_polls (health (m_flavor plain_machine) ''linux'' None (\<lambda>k. 0)) [] warm_state \<noteq> None"
  by (rule unload_always_answers [of "hd (up_embed busy_polls)" _ _ "hd (up_rerank busy_polls)"])
    (simp_all add: busy_polls_def default_waits elapsed_def)

end
