(* ===== verification/Handlers.thy ===== *)
theory Handlers
  imports Introspection
begin

text \<open>
  \<open>src/handlers.rs\<close>: the three working endpoints. A handler takes a decoded request and the state and
  returns the answer, an error with its status or a body, and the state after it. The blocking pass of
  an endpoint is a call of \<open>embed_blocking\<close> or \<open>rerank_blocking\<close>; how its task failed to join, when it
  unwound, is a parameter.
\<close>

section \<open>Activity and time\<close>

definition touch :: "nanos \<Rightarrow> ('e, 'r, 't) app_state \<Rightarrow> ('e, 'r, 't) app_state" where
  "touch now st =
     (case try_lock (last_request st) of
        Acquired at \<Rightarrow> st\<lparr>last_request := (last_request st)\<lparr>mx_val := now\<rparr>\<rparr>
      | _ \<Rightarrow> st)"

section \<open>One blocking pass\<close>

type_synonym 'a answer = "api_error + 'a"

definition pass_answer ::
  "(f32 \<Rightarrow> string) \<Rightarrow> string \<Rightarrow> join_error \<Rightarrow> (app_error, 'a) outcome \<Rightarrow> 'a answer" where
  "pass_answer fixed4 what jerr r =
     (case r of
        Panic \<Rightarrow> Inl (internal_error fixed4
          (Message (what @ '' task panicked: '' @ join_error_text jerr)))
      | Err e \<Rightarrow> Inl (engine_error fixed4 e)
      | Ok x \<Rightarrow> Inr x)"

definition run_blocking ::
  "(f32 \<Rightarrow> string) \<Rightarrow> string \<Rightarrow> join_error \<Rightarrow> nanos \<Rightarrow>
     (('e, 'r, 't) app_state \<Rightarrow> ((app_error, 'a) outcome \<times> ('e, 'r, 't) app_state) option) \<Rightarrow>
     ('e, 'r, 't) app_state \<Rightarrow> ('a answer \<times> ('e, 'r, 't) app_state) option" where
  "run_blocking fixed4 what jerr now pass st =
     map_option (\<lambda>(r, st1). (pass_answer fixed4 what jerr r, set_activity ''idle'' st1))
       (pass (touch now st))"

text \<open>What a request meets in the rest of the process.\<close>

record http_env =
  he_fixed4 :: "f32 \<Rightarrow> string"
  he_join :: join_error
  he_now :: nanos

definition pass_timings_default :: pass_timings where
  "pass_timings_default =
     \<lparr>queue_wait_ms = 0, session_build_ms = 0, inference_ms = 0, compile_cache_grew_mb = 0\<rparr>"

section \<open>Embed and rerank\<close>

definition embed_handler ::
  "http_env \<Rightarrow> ('e, 't) request_env \<Rightarrow> 'e rung_cache poll_view list \<Rightarrow> embed_request \<Rightarrow>
     ('e, 'r, 't) app_state \<Rightarrow> (embed_response answer \<times> ('e, 'r, 't) app_state) option" where
  "embed_handler env rq views req st =
     (if eq_texts req = []
      then Some (Inr \<lparr>er_dense = [], er_sparse = [], er_dimension = None, er_usage = token_usage_default,
             er_request_id = eq_request_id req, er_timings = pass_timings_default\<rparr>, st)
      else (let lim = limits_resolve (st_config st) (eq_max_length req) (eq_max_batch req)
            in run_blocking (he_fixed4 env) ''embed'' (he_join env) (he_now env)
                 (embed_blocking rq views (eq_texts req) (eq_kind req) (eq_provider req) lim
                    (eq_request_id req)) st))"

definition rerank_handler ::
  "http_env \<Rightarrow> 'r rerank_env \<Rightarrow> 'r option poll_view list \<Rightarrow> rerank_request \<Rightarrow>
     ('e, 'r, 't) app_state \<Rightarrow> (rerank_response answer \<times> ('e, 'r, 't) app_state) option" where
  "rerank_handler env rq views req st =
     (if rq_documents req = []
      then Some (Inr \<lparr>rk_scores = [], rk_request_id = rerank_request.rq_request_id req,
             rk_timings = pass_timings_default\<rparr>, st)
      else (let bt = rerank_batch (st_config st) (rq_max_batch req)
            in run_blocking (he_fixed4 env) ''rerank'' (he_join env) (he_now env)
                 (rerank_blocking rq views (rq_query req) (rq_documents req) (rq_provider req) bt
                    (rerank_request.rq_request_id req)) st))"

section \<open>Tokenize\<close>

definition requested_tokenizer :: "string \<Rightarrow> string" where
  "requested_tokenizer model = (let named = trim model in if named = [] then bge_tokenizer else named)"

definition known_tokenizer :: "('e, 'r, 't) app_state \<Rightarrow> string \<Rightarrow> unit answer" where
  "known_tokenizer st model =
     (case registry_entry (st_tokenizers st) model of
        Some e \<Rightarrow> Inr ()
      | None \<Rightarrow> Inl (bad_request (''unknown tokenizer '' @ [CHR 0x27] @ model @ [CHR 0x27] @ '' ''
          @ em_dash @ '' this sidecar counts for '' @ registry_names (st_tokenizers st)
          @ ''. Serving the request with the wrong tokenizer would answer confidently and wrongly.'')))"

definition tokenize_batch_within_cap :: "config \<Rightarrow> nat \<Rightarrow> unit answer" where
  "tokenize_batch_within_cap cfg texts =
     (if texts \<le> tokenize_max_texts cfg then Inr ()
      else Inl (bad_request (show_nat texts @ '' texts in one /tokenize call, and the cap is ''
        @ show_nat (tokenize_max_texts cfg) @ '' (TOKENIZE_MAX_TEXTS) '' @ em_dash
        @ '' split the batch. The encode is pure CPU, and the request body limit does not bound the ''
        @ ''ROW count: enough short texts fit under it to occupy this process for seconds.'')))"

text \<open>\<open>counted\<close> is what the task on the blocking pool returns, or how it failed to join.\<close>

definition count_task ::
  "('t \<Rightarrow> string \<Rightarrow> nat option) \<Rightarrow> 't tokenizer_registry \<Rightarrow> string \<Rightarrow> string list \<Rightarrow> nat option list option" where
  "count_task encode reg model texts =
     (case registry_entry reg model of
        None \<Rightarrow> None
      | Some e \<Rightarrow> map_option (\<lambda>t. count_tokens encode t texts) (te_tokenizer e))"

definition tokenize_handler ::
  "http_env \<Rightarrow> ('t \<Rightarrow> string \<Rightarrow> nat option) \<Rightarrow> bool \<Rightarrow> tokenize_request \<Rightarrow> ('e, 'r, 't) app_state \<Rightarrow>
     tokenize_response answer \<times> ('e, 'r, 't) app_state" where
  "tokenize_handler env encode panics req st =
     (let st1 = touch (he_now env) st; model = requested_tokenizer (tq_model req)
      in (case known_tokenizer st1 model of
            Inl e \<Rightarrow> Inl e
          | Inr u \<Rightarrow>
              (case tokenize_batch_within_cap (st_config st1) (length (tq_texts req)) of
                 Inl e \<Rightarrow> Inl e
               | Inr u' \<Rightarrow>
                   if panics
                   then Inl (internal_error (he_fixed4 env)
                     (Message (''tokenize task panicked: '' @ join_error_text (he_join env))))
                   else (case Option.bind (count_task encode (st_tokenizers st1) model (tq_texts req))
                           collect_options of
                       None \<Rightarrow> Inr \<lparr>tr_token_count = [], tr_model = model, tr_available = False\<rparr>
                     | Some counts \<Rightarrow>
                         Inr \<lparr>tr_token_count = counts, tr_model = model, tr_available = True\<rparr>)),
          st1))"

section \<open>Answers\<close>

lemma touch_other [state_simps]:
  "embed_engine (touch now st) = embed_engine st" "rerank_engine (touch now st) = rerank_engine st"
  "embed_inflight (touch now st) = embed_inflight st" "rerank_inflight (touch now st) = rerank_inflight st"
  "committed_embed_cap (touch now st) = committed_embed_cap st" "st_config (touch now st) = st_config st"
  "st_tokenizers (touch now st) = st_tokenizers st" "activity (touch now st) = activity st"
  by (simp_all add: touch_def split: try_lock.split)

lemma set_activity_reads: "\<not> mx_poisoned (activity st) \<Longrightarrow> mx_val (activity (set_activity l st)) = l"
  by (simp add: set_activity_def)


definition busy_refusal :: engine_wedged where
  "busy_refusal = \<lparr>ew_what = ''embed'', ew_activity = ''a'', ew_elapsed = 3, ew_wedged = False\<rparr>"

definition refused_pass ::
  "(nat, nat, unit) app_state \<Rightarrow> ((app_error, nat) outcome \<times> (nat, nat, unit) app_state) option" where
  "refused_pass st = Some (Err (Engine_Wedged busy_refusal), st)"


text \<open>
  A count is exact, refused or admitted unknown. \<open>/tokenize\<close> answers 400 exactly for a name outside the
  registry or a batch past the cap, and then names the registered set or the cap; otherwise, when its
  task does not panic, one count per text in order, available exactly when the tokenizer is loaded and
  counted every text, and never the count of another tokenizer.
\<close>

theorem tokenize_answers:
  assumes "fst (tokenize_handler env encode False req st) = a"
    and "registry_entry (st_tokenizers st) (requested_tokenizer (tq_model req)) = entry"
  shows "((\<exists>text. a = Inl (400, text)) \<longleftrightarrow>
      entry = None \<or> tokenize_max_texts (st_config st) < length (tq_texts req)) \<and>
    (\<forall>status text. a = Inl (status, text) \<longrightarrow> status = 400) \<and>
    (\<forall>resp. a = Inr resp \<longrightarrow> tr_model resp = requested_tokenizer (tq_model req) \<and>
      (if tr_available resp
       then \<exists>e t. entry = Some e \<and> te_tokenizer e = Some t \<and>
         map (encode t) (tq_texts req) = map Some (tr_token_count resp)
       else tr_token_count resp = [] \<and> (\<forall>e t. entry = Some e \<longrightarrow> te_tokenizer e = Some t \<longrightarrow>
         None \<in> encode t ` set (tq_texts req))))"
proof (cases entry)
  case None
  with assms show ?thesis
    by (auto simp: tokenize_handler_def known_tokenizer_def bad_request_def state_simps Let_def)
next
  case (Some e)
  show ?thesis
  proof (cases "length (tq_texts req) \<le> tokenize_max_texts (st_config st)")
    case False
    with assms Some show ?thesis
      by (auto simp: tokenize_handler_def known_tokenizer_def tokenize_batch_within_cap_def bad_request_def
          state_simps Let_def)
  next
    case True
    with assms Some have a: "a = (case Option.bind (map_option (\<lambda>t. map (encode t) (tq_texts req)) (te_tokenizer e))
          collect_options of
        None \<Rightarrow> Inr \<lparr>tr_token_count = [], tr_model = requested_tokenizer (tq_model req), tr_available = False\<rparr>
      | Some counts \<Rightarrow> Inr \<lparr>tr_token_count = counts, tr_model = requested_tokenizer (tq_model req),
          tr_available = True\<rparr>)"
      by (simp add: tokenize_handler_def known_tokenizer_def tokenize_batch_within_cap_def state_simps
          count_task_def count_tokens_def Let_def)
    show ?thesis
    proof (cases "te_tokenizer e")
      case None
      with a Some True show ?thesis by auto
    next
      case (Some t)
      show ?thesis
      proof (cases "collect_options (map (encode t) (tq_texts req))")
        case None
        with a \<open>entry = Some e\<close> Some True show ?thesis by (auto simp: collect_options_None)
      next
        case (Some cs)
        with a \<open>entry = Some e\<close> \<open>te_tokenizer e = Some t\<close> True show ?thesis
          by (auto simp: collect_options_Some)
      qed
    qed
  qed
qed

definition sample_http :: http_env where
  "sample_http = \<lparr>he_fixed4 = (\<lambda>x. ''0''), he_join = Other_Payload, he_now = 5\<rparr>"

lemma tokenize_answers_witness:
  "\<exists>text. fst (tokenize_handler sample_http (\<lambda>t x. Some (length x)) False
     \<lparr>tq_texts = [''abc''], tq_model = ''gpt''\<rparr> two_counters) = Inl (400, text)"
proof -
  have "requested_tokenizer ''gpt'' = ''gpt''" by code_simp
  then have "registry_entry (st_tokenizers two_counters)
      (requested_tokenizer (tq_model \<lparr>tq_texts = [''abc''], tq_model = ''gpt''\<rparr>)) = None"
    by (simp add: two_counters_def registry_entry_def)
  from tokenize_answers [OF refl this, of sample_http "\<lambda>t x. Some (length x)"] show ?thesis by blast
qed

text \<open>
  An empty request costs nothing. Without texts or documents the endpoint answers an empty body that
  echoes the request id, states no width and claims no accounting, and the state is untouched: no engine
  is waited for, nothing is stamped, and the idle clock is not restarted.
\<close>

theorem empty_requests_touch_nothing:
  "embed_handler env rq views \<lparr>eq_texts = [], eq_kind = k, eq_provider = p, eq_max_length = l,
       eq_max_batch = b, eq_request_id = i\<rparr> st =
     Some (Inr \<lparr>er_dense = [], er_sparse = [], er_dimension = None, er_usage = token_usage_default,
       er_request_id = i, er_timings = pass_timings_default\<rparr>, st) \<and>
   rerank_handler env rr rviews \<lparr>rq_query = q, rq_documents = [], rq_provider = p, rq_max_batch = b,
       rerank_request.rq_request_id = i\<rparr> st =
     Some (Inr \<lparr>rk_scores = [], rk_request_id = i, rk_timings = pass_timings_default\<rparr>, st)"
  by (simp add: embed_handler_def rerank_handler_def)

section \<open>The idle clock\<close>

text \<open>
  The idle unloader can take the engine of a pass that has just ended. The clock restarts when a request
  arrives, not when its work is done: after a request that took at least the configured idle time, the
  very next tick drops every engine, although the process was at work the instant before.
\<close>

theorem long_pass_is_idle_at_once:
  assumes "run_blocking fixed4 what jerr started pass st = Some (a, st')"
    and "\<And>s r s'. pass s = Some (r, s') \<Longrightarrow> last_request s' = last_request s"
    and "last_request st = new_mutex t0" and "after \<le> elapsed started ended"
    and "inflight_now (embed_inflight st') = None" and "inflight_now (rerank_inflight st') = None"
    and "embed_loaded st'" and "idle_tick after (\<lambda>k. ended) polls st' = Some (d, st'')"
  shows "d \<noteq> None"
proof -
  from assms(1) obtain r st1 where p: "pass (touch started st) = Some (r, st1)"
    and st': "st' = set_activity ''idle'' st1" by (auto simp: run_blocking_def)
  have "last_request st' = new_mutex started"
    using assms(2) [OF p] assms(3)
    by (simp add: st' set_activity_def touch_def mutex_simps new_mutex_def try_lock_def)
  then have "after \<le> idle_for ended st'" using assms(4) by (simp add: idle_for_def mutex_simps)
  with assms(5-8) show ?thesis
    by (auto simp: idle_tick_def Let_def in_flight_now_empty)
qed

text \<open>A pass of 900 nanoseconds over a resident engine, and an idle time of 600.\<close>

lemma long_pass_is_idle_at_once_witness:
  "\<exists>d st''. idle_tick 600 (\<lambda>k. 1000) (idle_polls warm_cache None)
     (set_activity ''idle'' (touch 100 warm_state)) = Some (Some d, st'')"
proof -
  let ?pass = "\<lambda>s :: (nat, nat, unit) app_state. Some (Ok () :: (app_error, unit) outcome, s)"
  let ?st = "set_activity ''idle'' (touch 100 warm_state)"
  have r: "run_blocking (\<lambda>x. ''0'') ''embed'' Other_Payload 100 ?pass warm_state = Some (Inr (), ?st)"
    by (simp add: run_blocking_def pass_answer_def)
  have fields: "last_request warm_state = new_mutex 0" "embed_engine ?st = embed_engine warm_state"
    "embed_inflight ?st = embed_inflight warm_state" "rerank_inflight ?st = rerank_inflight warm_state"
    by (simp_all add: state_simps) (simp add: warm_state_def plain_state_def new_state_def)
  have idle: "inflight_now (embed_inflight warm_state) = None" "inflight_now (rerank_inflight warm_state) = None"
    using warm_state_idle(1) by (simp_all add: in_flight_now_empty)
  obtain d st'' where t: "idle_tick 600 (\<lambda>k. 1000) (idle_polls warm_cache None) ?st = Some (d, st'')"
    using full_drain_returns [of warm_cache None ?st]
    by (cases "idle_tick 600 (\<lambda>k. 1000) (idle_polls warm_cache None) ?st") (auto simp: idle_tick_def Let_def split: if_splits)
  have "d \<noteq> None"
    by (rule long_pass_is_idle_at_once [OF r _ fields(1) _ _ _ _ t])
      (use idle warm_state_idle(2) in \<open>simp_all add: fields embed_loaded_def elapsed_def\<close>)
  with t show ?thesis by auto
qed

end
