(* ===== verification/Preflight.thy ===== *)
theory Preflight
  imports Env Tokens
begin

text \<open>
  \<open>src/preflight.rs\<close>: what is checked before the process serves. The verdicts on the ONNX Runtime library
  and on the compiled-model cache, and the seeding of the model cache from another directory. What the
  library answers, whether a directory can be written, and which copies succeed are parameters.
\<close>

section \<open>Verdicts\<close>

text \<open>A verdict is an error or a message to log; \<open>api\<close> is \<open>ort::MINOR_VERSION\<close>.\<close>

type_synonym verdict = "string + string"

definition dylib_verdict :: "nat \<Rightarrow> bool \<Rightarrow> string \<Rightarrow> string \<Rightarrow> verdict" where
  "dylib_verdict api api_ok version path =
     (if api_ok
      then Inr (''ONNX Runtime dylib preflight OK: `'' @ path @ ''` is version '' @ version
        @ '' (serves API v'' @ show_nat api @ '')'')
      else Inl (''ONNX Runtime at `'' @ path @ ''` is version '' @ version
        @ '', which cannot serve API v'' @ show_nat api @ '' required by this build '' @ em_dash
        @ '' ort needs ONNX Runtime >= 1.'' @ show_nat api @ ''. Rebuild it from tag v1.'' @ show_nat api
        @ ''.x with --use_migraphx and reinstall (README '' @ dquote @ ''AMD on Linux/WSL'' @ dquote
        @ ''), then restart the sidecar.''))"

definition cache_dir_verdict :: "string \<Rightarrow> (string \<Rightarrow> string + unit) \<Rightarrow> verdict" where
  "cache_dir_verdict dir probe =
     (if trim dir = []
      then Inl (''ORT_MIGRAPHX_MODEL_CACHE_PATH is not set. ROCm'' @ [CHR 0x27] @ ''s MIGraphX EP always ''
        @ ''saves the compiled model, and with no path it writes to '' @ dquote @ dquote @ '' '' @ em_dash
        @ '' the write fails and fails every /embed with it. Point it at a writable Linux directory (the ''
        @ ''AppHost sets Aspire:BgeSidecar:WslMigraphxCacheDir; see README '' @ dquote
        @ ''AMD on Linux/WSL'' @ dquote @ '').'')
      else (case probe dir of
          Inr u \<Rightarrow> Inr (''MIGraphX compiled-model cache is writable: '' @ dir
            @ '' (first call per input shape compiles and saves, later ones load)'')
        | Inl e \<Rightarrow> Inl (''MIGraphX compiled-model cache `'' @ dir @ ''` is not writable: '' @ e
            @ ''. The EP saves every compiled model there, so an unwritable path fails every /embed. ''
            @ ''Fix the path or its permissions.'')))"

text \<open>Both preflights log the message and go on, or log the error and leave with status 1.\<close>

datatype preflight_end = Goes_On string | Exits nat string

definition end_of_verdict :: "verdict \<Rightarrow> preflight_end" where
  "end_of_verdict v = (case v of Inr message \<Rightarrow> Goes_On message | Inl message \<Rightarrow> Exits 1 message)"

definition preflight_ort_dylib ::
  "nat \<Rightarrow> (string \<Rightarrow> string + bool \<times> string) \<Rightarrow> environment \<Rightarrow> preflight_end" where
  "preflight_ort_dylib api probe env =
     (let path = env_str env ''ORT_DYLIB_PATH'' ''libonnxruntime.so''
      in end_of_verdict (case probe path of
           Inl e \<Rightarrow> Inl e
         | Inr (api_ok, version) \<Rightarrow> dylib_verdict api api_ok version path))"

definition preflight_migraphx_cache :: "(string \<Rightarrow> string + unit) \<Rightarrow> environment \<Rightarrow> preflight_end" where
  "preflight_migraphx_cache probe env =
     end_of_verdict (cache_dir_verdict (env_str env ''ORT_MIGRAPHX_MODEL_CACHE_PATH'' []) probe)"

section \<open>Seeding\<close>

text \<open>
  A source tree: a file with its content and whether its metadata can be read, or a directory that can be
  listed or not, with the entries that can be read and those that cannot. The target is the map from
  the paths of its files to their content; a path is the list of its names.
\<close>

datatype seed_node = Seed_File string bool | Seed_Dir seed_listing
  and seed_listing = Unlisted | Listed seed_entries
  and seed_entries = No_More | Lost_Entry seed_entries | Entry string seed_node seed_entries

type_synonym target = "string list \<rightharpoonup> string"

record seeded =
  sd_files :: nat
  sd_bytes :: nat

definition seed_file ::
  "(string list \<Rightarrow> bool) \<Rightarrow> string list \<Rightarrow> string \<Rightarrow> bool \<Rightarrow> seeded \<times> target \<Rightarrow> seeded \<times> target" where
  "seed_file copies path content meta_ok st =
     (let source_size = (if meta_ok then length content else 0);
          up_to_date = (case snd st path of None \<Rightarrow> False | Some old \<Rightarrow> length old = source_size)
      in if up_to_date then st
         else if copies path
         then (\<lparr>sd_files = sd_files (fst st) + 1, sd_bytes = sd_bytes (fst st) + length content\<rparr>,
               (snd st)(path \<mapsto> content))
         else st)"

text \<open>
  The recursion of \<open>copy_missing_files\<close>; the counters of a nested directory are added to those of its
  parent.
\<close>

primrec copy_node :: "(string list \<Rightarrow> bool) \<Rightarrow> seed_node \<Rightarrow> string list \<Rightarrow> seeded \<times> target \<Rightarrow> seeded \<times> target"
    and copy_listing :: "(string list \<Rightarrow> bool) \<Rightarrow> seed_listing \<Rightarrow> string list \<Rightarrow> seeded \<times> target \<Rightarrow> seeded \<times> target"
    and copy_entries :: "(string list \<Rightarrow> bool) \<Rightarrow> seed_entries \<Rightarrow> string list \<Rightarrow> seeded \<times> target \<Rightarrow> seeded \<times> target"
where
  "copy_node copies (Seed_File content meta_ok) to st = seed_file copies to content meta_ok st"
| "copy_node copies (Seed_Dir l) to st =
     (case copy_listing copies l to (\<lparr>sd_files = 0, sd_bytes = 0\<rparr>, snd st) of
        (nested, fs) \<Rightarrow> (\<lparr>sd_files = sd_files (fst st) + sd_files nested,
           sd_bytes = sd_bytes (fst st) + sd_bytes nested\<rparr>, fs))"
| "copy_listing copies Unlisted to st = st"
| "copy_listing copies (Listed es) to st = copy_entries copies es to st"
| "copy_entries copies No_More to st = st"
| "copy_entries copies (Lost_Entry es) to st = copy_entries copies es to st"
| "copy_entries copies (Entry name n es) to st =
     copy_entries copies es to (copy_node copies n (to @ [name]) st)"

definition copy_missing_files ::
  "(string list \<Rightarrow> bool) \<Rightarrow> seed_listing \<Rightarrow> string list \<Rightarrow> target \<Rightarrow> seeded \<times> target" where
  "copy_missing_files copies from to fs = copy_listing copies from to (\<lparr>sd_files = 0, sd_bytes = 0\<rparr>, fs)"

text \<open>\<open>seed_dir\<close> is what stands at the seed path, when it is a directory.\<close>

definition seed_model_cache_from_env ::
  "(string list \<Rightarrow> bool) \<Rightarrow> (string \<Rightarrow> seed_listing option) \<Rightarrow> environment \<Rightarrow> string list \<Rightarrow> target \<Rightarrow>
     seeded option \<times> target" where
  "seed_model_cache_from_env copies seed_dir env to fs =
     (let seed = env_str env ''MODEL_CACHE_SEED_DIR'' []
      in if trim seed = [] then (None, fs)
         else (case seed_dir seed of
             None \<Rightarrow> (None, fs)
           | Some from \<Rightarrow>
               (case copy_missing_files copies from to fs of (done, fs') \<Rightarrow> (Some done, fs'))))"

section \<open>The tree as a list of files\<close>

primrec node_files :: "seed_node \<Rightarrow> string list \<Rightarrow> (string list \<times> string \<times> bool) list"
    and listing_files :: "seed_listing \<Rightarrow> string list \<Rightarrow> (string list \<times> string \<times> bool) list"
    and entries_files :: "seed_entries \<Rightarrow> string list \<Rightarrow> (string list \<times> string \<times> bool) list"
where
  "node_files (Seed_File content meta_ok) to = [(to, content, meta_ok)]"
| "node_files (Seed_Dir l) to = listing_files l to"
| "listing_files Unlisted to = []"
| "listing_files (Listed es) to = entries_files es to"
| "entries_files No_More to = []"
| "entries_files (Lost_Entry es) to = entries_files es to"
| "entries_files (Entry name n es) to = node_files n (to @ [name]) @ entries_files es to"

abbreviation seed_one ::
  "(string list \<Rightarrow> bool) \<Rightarrow> string list \<times> string \<times> bool \<Rightarrow> seeded \<times> target \<Rightarrow> seeded \<times> target" where
  "seed_one copies f st \<equiv> seed_file copies (fst f) (fst (snd f)) (snd (snd f)) st"

definition add_seeded :: "seeded \<Rightarrow> seeded \<Rightarrow> seeded" where
  "add_seeded a b = \<lparr>sd_files = sd_files a + sd_files b, sd_bytes = sd_bytes a + sd_bytes b\<rparr>"

lemma add_seeded_assoc: "add_seeded a (add_seeded b c) = add_seeded (add_seeded a b) c"
  by (simp add: add_seeded_def)

lemma add_seeded_zero [simp]: "add_seeded a \<lparr>sd_files = 0, sd_bytes = 0\<rparr> = a"
  by (simp add: add_seeded_def)

lemma seed_file_shift:
  "seed_file copies p c m (add_seeded a b, fs) =
     apfst (add_seeded a) (seed_file copies p c m (b, fs))"
  by (simp add: seed_file_def Let_def add_seeded_def)

lemma fold_seed_shift:
  "fold (seed_one copies) ps (add_seeded a b, fs) = apfst (add_seeded a) (fold (seed_one copies) ps (b, fs))"
proof (induction ps arbitrary: b fs)
  case (Cons p ps)
  obtain b' fs' where "seed_one copies p (b, fs) = (b', fs')" by (metis prod.exhaust)
  with Cons show ?case by (simp add: seed_file_shift)
qed simp

lemma seed_is_fold:
  "copy_node copies n to st = fold (seed_one copies) (node_files n to) st"
  "copy_listing copies l to st = fold (seed_one copies) (listing_files l to) st"
  "copy_entries copies es to st = fold (seed_one copies) (entries_files es to) st"
proof (induction n and l and es arbitrary: to st and to st and to st)
  case (Seed_Dir l)
  let ?z = "\<lparr>sd_files = 0, sd_bytes = 0\<rparr>"
  obtain a fs where st: "st = (a, fs)" by (cases st)
  obtain b fs' where f: "fold (seed_one copies) (listing_files l to) (?z, fs) = (b, fs')"
    by (cases "fold (seed_one copies) (listing_files l to) (?z, fs)") blast
  have "copy_node copies (Seed_Dir l) to st = (add_seeded a b, fs')"
    unfolding st copy_node.simps snd_conv fst_conv Seed_Dir f by (simp add: add_seeded_def)
  moreover have "fold (seed_one copies) (listing_files l to) (add_seeded a ?z, fs) = (add_seeded a b, fs')"
    unfolding fold_seed_shift f by simp
  ultimately show ?case by (simp only: node_files.simps st add_seeded_zero)
next
  case (Entry name n es)
  show ?case by (simp only: copy_entries.simps entries_files.simps fold_append comp_apply Entry)
qed (simp_all only: copy_node.simps copy_listing.simps copy_entries.simps node_files.simps
    listing_files.simps entries_files.simps fold_simps fst_conv snd_conv)

text \<open>One pass over files with distinct paths decides each path once.\<close>

lemma seed_file_target:
  "snd (seed_file copies p c m st) = (snd st)(p :=
     (if (case snd st p of None \<Rightarrow> True | Some old \<Rightarrow> length old \<noteq> (if m then length c else 0)) \<and> copies p
      then Some c else snd st p))"
  by (auto simp: seed_file_def Let_def fun_eq_iff split: option.splits)

lemma fold_seed_other:
  "p \<notin> fst ` set ps \<Longrightarrow> snd (fold (seed_one copies) ps st) p = snd st p"
  by (induction ps arbitrary: st) (simp_all add: seed_file_target)

lemma fold_seed_target:
  "distinct (map fst ps) \<Longrightarrow> (p, c, m) \<in> set ps \<Longrightarrow>
     snd (fold (seed_one copies) ps st) p = snd (seed_file copies p c m st) p"
proof (induction ps arbitrary: st)
  case (Cons q ps)
  show ?case
  proof (cases "q = (p, c, m)")
    case True
    with Cons.prems show ?thesis by (simp add: fold_seed_other)
  next
    case False
    with Cons.prems(2) have rest: "(p, c, m) \<in> set ps" by simp
    then have "p \<in> fst ` set ps" by force
    with Cons.prems(1) have "fst q \<noteq> p" by auto
    with Cons rest show ?thesis by (simp add: seed_file_target)
  qed
qed simp

lemma fold_seed_nothing:
  "(\<And>p c m. (p, c, m) \<in> set ps \<Longrightarrow> \<exists>old. fs p = Some old \<and> length old = (if m then length c else 0)) \<Longrightarrow>
     fold (seed_one copies) ps (a, fs) = (a, fs)"
proof (induction ps)
  case (Cons q ps)
  obtain p c m where q: "q = (p, c, m)" by (cases q)
  from Cons.prems [of p c m] q have "seed_one copies q (a, fs) = (a, fs)" by (auto simp: seed_file_def Let_def)
  with Cons show ?case by simp
qed simp

text \<open>
  Seeding never destroys and only repairs. A path that is not a file of the seed keeps its content, no
  path of the target disappears, and a path whose content changes now holds exactly the seed's file,
  which it did not have at that size before.
\<close>

theorem seeding_never_destroys:
  assumes "copy_missing_files copies from to fs = (done, fs')" and "distinct (map fst (listing_files from to))"
  shows "(fs p \<noteq> None \<longrightarrow> fs' p \<noteq> None) \<and>
    (fs' p \<noteq> fs p \<longrightarrow> (\<exists>c m. (p, c, m) \<in> set (listing_files from to) \<and> fs' p = Some c \<and>
       (\<forall>old. fs p = Some old \<longrightarrow> length old \<noteq> (if m then length c else 0))))"
proof (cases "p \<in> fst ` set (listing_files from to)")
  case False
  with assms(1) fold_seed_other [OF False, of copies "(\<lparr>sd_files = 0, sd_bytes = 0\<rparr>, fs)"] show ?thesis
    by (simp add: copy_missing_files_def seed_is_fold)
next
  case True
  then obtain c m where f: "(p, c, m) \<in> set (listing_files from to)" by auto
  have "fs' p = snd (seed_file copies p c m (\<lparr>sd_files = 0, sd_bytes = 0\<rparr>, fs)) p"
    using fold_seed_target [OF assms(2) f, of copies "(\<lparr>sd_files = 0, sd_bytes = 0\<rparr>, fs)"] assms(1)
    by (simp add: copy_missing_files_def seed_is_fold)
  then have "fs' p = (if (case fs p of None \<Rightarrow> True | Some old \<Rightarrow> length old \<noteq> (if m then length c else 0)) \<and> copies p
      then Some c else fs p)" by (simp add: seed_file_target)
  with f show ?thesis by (auto split: if_splits option.splits)
qed

text \<open>
  Seeding is complete and idempotent. When every file of the seed can be read and copied, afterwards
  every one of them is in the target at its own size, and seeding again copies nothing and changes nothing.
\<close>

theorem seeding_is_idempotent:
  assumes "copy_missing_files copies from to fs = (done, fs')" and "distinct (map fst (listing_files from to))"
    and "\<forall>(p, c, m)\<in>set (listing_files from to). copies p \<and> m"
  shows "(\<forall>(p, c, m)\<in>set (listing_files from to). \<exists>now. fs' p = Some now \<and> length now = length c) \<and>
    copy_missing_files copies from to fs' = (\<lparr>sd_files = 0, sd_bytes = 0\<rparr>, fs')"
proof -
  have there: "\<exists>now. fs' p = Some now \<and> length now = length c"
    if f: "(p, c, m) \<in> set (listing_files from to)" for p c m
  proof -
    from assms(3) f have "copies p" "m" by auto
    have "fs' p = snd (seed_file copies p c m (\<lparr>sd_files = 0, sd_bytes = 0\<rparr>, fs)) p"
      using fold_seed_target [OF assms(2) f, of copies "(\<lparr>sd_files = 0, sd_bytes = 0\<rparr>, fs)"] assms(1)
      by (simp add: copy_missing_files_def seed_is_fold)
    with \<open>copies p\<close> \<open>m\<close> show ?thesis by (auto simp: seed_file_target split: option.splits)
  qed
  moreover have "fold (seed_one copies) (listing_files from to) (\<lparr>sd_files = 0, sd_bytes = 0\<rparr>, fs') =
      (\<lparr>sd_files = 0, sd_bytes = 0\<rparr>, fs')"
  proof (rule fold_seed_nothing)
    fix p c m assume f: "(p, c, m) \<in> set (listing_files from to)"
    with assms(3) have "m" by auto
    with there [OF f] show "\<exists>old. fs' p = Some old \<and> length old = (if m then length c else 0)" by simp
  qed
  ultimately show ?thesis by (auto simp: copy_missing_files_def seed_is_fold)
qed

definition sample_seed :: seed_listing where
  "sample_seed = Listed (Entry ''a'' (Seed_File ''weights'' True)
     (Lost_Entry (Entry ''d'' (Seed_Dir (Listed (Entry ''b'' (Seed_File ''vocab'' True) No_More))) No_More)))"

text \<open>The target has a truncated copy of the first file and a file of its own.\<close>

definition sample_target :: target where
  "sample_target = [[''m'', ''a''] \<mapsto> ''weig'', [''m'', ''own''] \<mapsto> ''keep'']"

lemma sample_seed_files:
  "listing_files sample_seed [''m''] =
     [([''m'', ''a''], ''weights'', True), ([''m'', ''d'', ''b''], ''vocab'', True)]"
  by (simp add: sample_seed_def)

lemma seeding_never_destroys_witness:
  "snd (copy_missing_files (\<lambda>p. True) sample_seed [''m''] sample_target) [''m'', ''own''] \<noteq> None"
  using seeding_never_destroys [of "\<lambda>p. True" sample_seed "[''m'']" sample_target _ _ "[''m'', ''own'']"]
  by (simp add: sample_seed_files) (metis option.distinct(1) prod.collapse sample_target_def fun_upd_same)

lemma seeding_is_idempotent_witness:
  "\<exists>now. snd (copy_missing_files (\<lambda>p. True) sample_seed [''m''] sample_target) [''m'', ''a''] = Some now \<and>
     length now = length ''weights''"
proof -
  let ?r = "copy_missing_files (\<lambda>p. True) sample_seed [''m''] sample_target"
  have "?r = (fst ?r, snd ?r)" by simp
  from seeding_is_idempotent [OF this] show ?thesis by (simp add: sample_seed_files)
qed

end
