(* ===== verification/Startup.thy ===== *)
theory Startup
  imports Handlers Preflight
begin

text \<open>
  \<open>src/main.rs\<close> and \<open>write_reference\<close> of \<open>src/canary.rs\<close>: from the environment and the arguments to a
  process that serves, regenerates the canary's reference, or leaves with a status. Logging, the sockets
  and the tasks spawned beside the server are not modelled.
\<close>

section \<open>Arguments and routes\<close>

definition canary_flag :: string where "canary_flag = ''--write-canary-reference''"
definition canary_default :: string where "canary_default = ''src/canary-reference.f32le''"

definition canary_reference_target :: "string list \<Rightarrow> string option" where
  "canary_reference_target args =
     (case dropWhile (\<lambda>a. a \<noteq> canary_flag) args of
        [] \<Rightarrow> None
      | flag # rest \<Rightarrow>
          Some (case rest of
              path # others \<Rightarrow> if starts_with ''--'' path then canary_default else path
            | [] \<Rightarrow> canary_default))"

datatype route = Health_Route | Models_Route | Embed_Route | Rerank_Route | Unload_Route | Tokenize_Route

definition build_router :: "(string \<times> string) \<Rightarrow> route option" where
  "build_router =
     map_of [((''GET'', ''/health''), Health_Route), ((''GET'', ''/models''), Models_Route),
       ((''POST'', ''/embed''), Embed_Route), ((''POST'', ''/rerank''), Rerank_Route),
       ((''POST'', ''/unload''), Unload_Route), ((''POST'', ''/tokenize''), Tokenize_Route)]"

text \<open>The line about a body that was refused for its size; \<open>announced\<close> is the header, when it has one.\<close>

definition log_body_rejections :: "string \<Rightarrow> string option \<Rightarrow> nat \<Rightarrow> string option" where
  "log_body_rejections route_path announced status =
     (if status = 413
      then Some (route_path @ '': request body refused '' @ em_dash @ '' ''
        @ (case announced of None \<Rightarrow> ''unstated'' | Some a \<Rightarrow> a)
        @ '' byte(s) announced, over MAX_BODY_BYTES. The caller sees only a socket abort, so it cannot ''
        @ ''learn this from the response: batch under the cap /health reports as `max_body_bytes`.'')
      else None)"

section \<open>Regenerating the reference\<close>

text \<open>\<open>written\<close> is whether the file could be written, or the error's text; the file's bytes when it was.\<close>

definition write_reference ::
  "('e, 't) request_env \<Rightarrow> (string \<Rightarrow> string + unit) \<Rightarrow> limits \<Rightarrow> string \<Rightarrow> ('e, 'r, 't) app_state \<Rightarrow>
     ((app_error, unit) outcome \<times> byte list option) \<times> ('e, 'r, 't) app_state" where
  "write_reference rq writes lim path st =
     (let (provider, st1) = pin_provider [] st;
          pin = should_pin_shape (pin_input_shape (st_config st)) provider;
          (lease, w) = lease_wait (mxr_cache_base (st_config st)) embed_cache_engine (embed_shape lim)
            (cache_paths st1);
          ends = (\<lambda>r file s. ((r, file), s\<lparr>cache_paths := lease_drop lease (cache_paths s)\<rparr>))
      in case load_dual (rq_machine rq) (rq_try_new rq) [] (max_length lim) lease (st1\<lparr>cache_paths := w\<rparr>) of
           (Err e, st2) \<Rightarrow> ends (Err e) None st2
         | (Panic, st2) \<Rightarrow> ends Panic None st2
         | (Ok engine, st2) \<Rightarrow>
             (case canary_batch lim pin of (texts, at_row) \<Rightarrow>
               (case rq_embed rq texts (lm_batch lim) engine of
                  (Err e, engine') \<Rightarrow> ends (Err e) None st2
                | (Panic, engine') \<Rightarrow> ends Panic None st2
                | (Ok rows, engine') \<Rightarrow>
                    (case nth_opt rows at_row of
                       None \<Rightarrow>
                         ends (Err (Message (''the engine returned '' @ show_nat (length rows)
                           @ '' row(s); the canary sits at '' @ show_nat at_row))) None st2
                     | Some row \<Rightarrow>
                         (case writes path of
                            Inl e \<Rightarrow> ends (Err (Message (''could not write `'' @ path @ ''`: '' @ e))) None st2
                          | Inr u \<Rightarrow> ends (Ok ()) (Some (encode_reference (fst row))) st2)))))"

section \<open>Starting\<close>

record ('e, 't) boot_env =
  bt_env :: environment
  bt_args :: "string list"
  bt_request :: "('e, 't) request_env"
  bt_api :: nat
  bt_probe_dylib :: "string \<Rightarrow> string + bool \<times> string"
  bt_probe_cache :: "string \<Rightarrow> string + unit"
  bt_writes :: "string \<Rightarrow> string + unit"
  bt_adapter :: "int \<Rightarrow> resolved_adapter option"
  bt_copies :: "string list \<Rightarrow> bool"
  bt_seed_dir :: "string \<Rightarrow> seed_listing option"
  bt_files :: target
  bt_read_dir :: "target \<Rightarrow> string \<Rightarrow> string option list option"
  bt_is_file :: "target \<Rightarrow> string \<Rightarrow> bool"
  bt_parse :: "target \<Rightarrow> string \<Rightarrow> 't option"
  bt_now :: nanos
  bt_world :: cache_world

datatype ('e, 'r, 't) boot_end =
    Left_With nat string
  | Boot_Panicked
  | Reference_Written "byte list option"
  | Serving nat "('e, 'r, 't) app_state"

text \<open>The provider is checked at once when it is already decided.\<close>

definition boot_provider :: "('e, 't) boot_env \<Rightarrow> config \<Rightarrow> (app_error, unit) outcome" where
  "boot_provider b cfg =
     (let mach = rq_machine (bt_request b)
      in if trim (cf_provider cfg) = [] then Ok ()
         else preflight_provider (m_flavor mach) (m_exists mach) (m_exe_dir mach) (effective_provider cfg []))"

text \<open>
  The model cache is seeded first: what the tokenizers are read from afterwards is the cache with the files
  that were copied. A path of the cache starts with the name of its directory.
\<close>

definition boot_seeded :: "('e, 't) boot_env \<Rightarrow> config \<Rightarrow> target" where
  "boot_seeded b cfg =
     snd (seed_model_cache_from_env (bt_copies b) (bt_seed_dir b) (bt_env b) [cache_dir cfg] (bt_files b))"

definition boot_state :: "('e, 't) boot_env \<Rightarrow> config \<Rightarrow> ('e, 'r, 't) app_state" where
  "boot_state b cfg =
     (let files = boot_seeded b cfg
      in new_state cfg (bt_adapter b (device_id cfg))
           (registry_load (bt_read_dir b files) (bt_is_file b files) (bt_parse b files) cfg)
           (bt_now b) (bt_world b))"

definition boot_serve :: "('e, 't) boot_env \<Rightarrow> ('e, 'r, 't) boot_end" where
  "boot_serve b =
     (let cfg = config_from_env (bt_env b); fixed4 = m_fixed4 (rq_machine (bt_request b))
      in case boot_provider b cfg of
           Err e \<Rightarrow> Left_With 2 (show_error fixed4 e)
         | Panic \<Rightarrow> Boot_Panicked
         | Ok u \<Rightarrow>
             (let port = env_parse (parse_unsigned 65535) (bt_env b) ''PORT'' 5320;
                  st = boot_state b cfg
              in case canary_reference_target (bt_args b) of
                   None \<Rightarrow> Serving port st
                 | Some path \<Rightarrow>
                     (case fst (write_reference (bt_request b) (bt_writes b) (limits_resolve cfg 0 0) path st) of
                        (Ok u', file) \<Rightarrow> Reference_Written file
                      | (Err e, file) \<Rightarrow> Left_With 2 (show_error fixed4 e)
                      | (Panic, file) \<Rightarrow> Boot_Panicked)))"

definition boot :: "('e, 't) boot_env \<Rightarrow> ('e, 'r, 't) boot_end" where
  "boot b =
     (if has_migraphx (m_flavor (rq_machine (bt_request b)))
      then (case preflight_ort_dylib (bt_api b) (bt_probe_dylib b) (bt_env b) of
              Exits code message \<Rightarrow> Left_With code message
            | Goes_On m \<Rightarrow>
                (case preflight_migraphx_cache (bt_probe_cache b) (bt_env b) of
                   Exits code message \<Rightarrow> Left_With code message
                 | Goes_On m' \<Rightarrow> boot_serve b))
      else boot_serve b)"

section \<open>What a start guarantees\<close>

lemma dropWhile_Nil_iff: "dropWhile (\<lambda>a. a \<noteq> x) xs = [] \<longleftrightarrow> x \<notin> set xs"
  by (induction xs) auto

lemma canary_target_None: "canary_reference_target args = None \<longleftrightarrow> canary_flag \<notin> set args"
  using dropWhile_Nil_iff [of canary_flag args]
  unfolding canary_reference_target_def
  by (cases "dropWhile (\<lambda>a. a \<noteq> canary_flag) args") (simp_all del: dropWhile_eq_Nil_conv)

lemma canary_target_not_flag: "canary_reference_target args = Some path \<Longrightarrow> \<not> starts_with ''--'' path"
proof -
  have "\<not> starts_with ''--'' canary_default" by code_simp
  then show "canary_reference_target args = Some path \<Longrightarrow> \<not> starts_with ''--'' path"
    by (auto simp: canary_reference_target_def split: list.splits if_splits)
qed

lemma boot_serves: "boot b = Serving port st \<Longrightarrow> boot_serve b = Serving port st"
  by (auto simp: boot_def split: if_splits preflight_end.splits)

text \<open>
  A normal start never overwrites the oracle. The reference is written only when the flag is among the
  arguments, and never to a path that is itself a flag; a process that serves was started without the
  flag.
\<close>

theorem normal_start_keeps_reference:
  fixes st :: "('e, 'r, 't) app_state"
  shows "(canary_reference_target args = None \<longleftrightarrow> canary_flag \<notin> set args) \<and>
   (canary_reference_target args = Some path \<longrightarrow> canary_flag \<in> set args \<and> \<not> starts_with ''--'' path) \<and>
   (boot b = Serving port st \<longrightarrow> canary_flag \<notin> set (bt_args b)) \<and>
   ((boot b :: ('e, 'r, 't) boot_end) = Reference_Written file \<longrightarrow> canary_flag \<in> set (bt_args b))"
proof (intro conjI impI)
  show "canary_reference_target args = None \<longleftrightarrow> canary_flag \<notin> set args" by (rule canary_target_None)
  assume t: "canary_reference_target args = Some path"
  then show "canary_flag \<in> set args" by (metis canary_target_None option.distinct(1))
  from t show "\<not> starts_with ''--'' path" by (rule canary_target_not_flag)
next
  assume "boot b = Serving port st"
  from boot_serves [OF this] have "canary_reference_target (bt_args b) = None"
    by (auto simp: boot_serve_def Let_def split: outcome.splits option.splits prod.splits)
  then show "canary_flag \<notin> set (bt_args b)" by (simp add: canary_target_None)
next
  assume "(boot b :: ('e, 'r, 't) boot_end) = Reference_Written file"
  then have "(boot_serve b :: ('e, 'r, 't) boot_end) = Reference_Written file" by (auto simp: boot_def split: if_splits preflight_end.splits)
  then have "canary_reference_target (bt_args b) \<noteq> None"
    by (auto simp: boot_serve_def Let_def split: outcome.splits option.splits prod.splits)
  then show "canary_flag \<in> set (bt_args b)" by (simp add: canary_target_None)
qed


text \<open>
  The oracle that is written is the one that is read. The bytes written are, decoded as the canary decodes
  its reference, the dense row of the canary text in a run of the engine at the production shape.
\<close>

theorem written_reference_is_canary_row:
  assumes "write_reference rq writes lim path st = ((Ok u, Some file), st')"
  shows "\<exists>pin e rows row. fst (rq_embed rq (fst (canary_batch lim pin)) (lm_batch lim) e) = Ok rows \<and>
    nth_opt rows (snd (canary_batch lim pin)) = Some row \<and> decode_reference file = fst row \<and>
    pin = should_pin_shape (pin_input_shape (st_config st)) (fst (pin_provider [] st))"
proof -
  obtain provider st1 where p: "pin_provider [] st = (provider, st1)" by (cases "pin_provider [] st")
  define pin where "pin = should_pin_shape (pin_input_shape (st_config st)) provider"
  obtain texts at_row where b: "canary_batch lim pin = (texts, at_row)" by (cases "canary_batch lim pin")
  from assms obtain e rows row e' where
    "rq_embed rq texts (lm_batch lim) e = (Ok rows, e')" "nth_opt rows at_row = Some row"
    "file = encode_reference (fst row)"
    by (auto simp: write_reference_def p Let_def pin_def [symmetric] b
        split: prod.splits outcome.splits option.splits sum.splits)
  then show ?thesis using b
    by (intro exI [of _ pin] exI [of _ e] exI [of _ rows] exI [of _ row])
      (simp add: b p pin_def [symmetric] decode_encode_reference)
qed

section \<open>Witnesses\<close>

definition plain_boot :: "(nat, unit) boot_env" where
  "plain_boot = \<lparr>bt_env = Map.empty, bt_args = [''bge-sidecar''], bt_request = echo_request, bt_api = 22,
     bt_probe_dylib = (\<lambda>p. Inl ''none''), bt_probe_cache = (\<lambda>p. Inr ()), bt_writes = (\<lambda>p. Inr ()),
     bt_adapter = (\<lambda>d. None), bt_copies = (\<lambda>p. True), bt_seed_dir = (\<lambda>d. None), bt_files = Map.empty,
     bt_read_dir = (\<lambda>f d. None), bt_is_file = (\<lambda>f p. False), bt_parse = (\<lambda>f p. None), bt_now = 0, bt_world = empty_world\<rparr>"

lemma serving_process_starts: "\<exists>port (st :: (nat, nat, unit) app_state). boot plain_boot = Serving port st"
proof -
  have "cf_provider (config_from_env Map.empty) = []"
    by (simp add: config_from_env_def text_simps)
  then have "boot_provider plain_boot (config_from_env Map.empty) = Ok ()"
    by (simp add: boot_provider_def)
  moreover have "canary_reference_target [''bge-sidecar''] = None"
    by (simp add: canary_target_None canary_flag_def)
  ultimately show ?thesis
    by (simp add: boot_def boot_serve_def plain_boot_def echo_request_def plain_machine_def Let_def)
qed

lemma normal_start_keeps_reference_witness:
  "\<exists>port (st :: (nat, nat, unit) app_state). boot plain_boot = Serving port st \<and>
     canary_flag \<notin> set (bt_args plain_boot) \<and>
     canary_reference_target [''bge-sidecar'', canary_flag, ''--quiet''] \<noteq> None"
proof -
  obtain port and st :: "(nat, nat, unit) app_state" where b: "boot plain_boot = Serving port st"
    using serving_process_starts by blast
  from normal_start_keeps_reference [of "[''bge-sidecar'', canary_flag, ''--quiet'']" "[]" plain_boot port st] b
  show ?thesis by (metis list.set_intros)
qed


lemma written_reference_is_canary_row_witness:
  "\<exists>file. snd (fst (write_reference echo_request (\<lambda>p. Inr ()) \<lparr>max_length = 256, lm_batch = 1\<rparr> ''r''
      (plain_state []))) = Some file \<and> decode_reference file = [f32_one]"
proof -
  let ?lim = "\<lparr>max_length = 256, lm_batch = 1\<rparr>"
  let ?w = "write_reference echo_request (\<lambda>p. Inr ()) ?lim ''r'' (plain_state [])"
  have order: "resolution_order (m_flavor plain_machine) ''auto'' = [''dml'', ''cpu'']"
    by (simp add: plain_machine_def resolution_order_def compiled_providers_def)
  have pre: "preflight_provider (m_flavor plain_machine) (m_exists plain_machine) (m_exe_dir plain_machine)
      ''dml'' = Ok ()"
    by (simp add: plain_machine_def preflight_provider_def compiled_providers_def
        required_provider_libraries_def)
  have base: "mxr_cache_base (st_config (plain_state [])) = []"
    by (simp add: plain_state_def new_state_def config_defaults)
  have wait: "lease_wait [] embed_cache_engine s w =
      (\<lparr>cl_engine = embed_cache_engine, cl_shape = s, cl_dir = [], cl_held = False\<rparr>, w)" for s w
    by (simp add: lease_wait_def lease_hold_free)
  let ?l = "\<lparr>cl_engine = embed_cache_engine, cl_shape = cache_shape_new 1 256, cl_dir = [], cl_held = False\<rparr>"
  define st1 where "st1 = (plain_state [])\<lparr>pinned_provider := Some ''auto''\<rparr>"
  have pinned: "pin_provider [] (plain_state []) = (''auto'', st1)" by (simp add: plain_pin st1_def)
  have "fst (load_dual plain_machine (\<lambda>o'. Ok 1) [] 256 ?l st1) = Ok 1"
    by (simp add: load_dual_def load_session_def covers_def cache_shape_new_def pin_provider_def st1_def order
        build_on_first_working_def attempt_session_def pre)
  then obtain st2 where load: "load_dual plain_machine (\<lambda>o'. Ok 1) [] 256 ?l st1 = (Ok 1, st2)" by (metis prod.collapse)
  have unpinned: "\<not> should_pin_shape (pin_input_shape (st_config (plain_state []))) ''auto''"
    using plain_unpinned by (simp add: request_provider_def plain_auto)
  have ok: "\<exists>file. fst ?w = (Ok (), Some file)"
    by (simp add: write_reference_def pinned base wait embed_shape_def load unpinned canary_batch_def
        echo_request_def Let_def del: One_nat_def)
  then obtain bytes where f: "?w = ((Ok (), Some bytes), snd ?w)" by (metis prod.collapse)
  from written_reference_is_canary_row [OF f] have "decode_reference bytes = [f32_one]"
    by (auto simp: echo_request_def echo_row_def nth_opt_Some)
  with f show ?thesis by (metis fst_conv snd_conv)
qed

end
