(* ===== verification/Process.thy ===== *)
theory Process
  imports Startup
begin

text \<open>
  The process as a whole: the requests and ticks of a serving process one after another, over the state that
  the start leaves, and what holds after every one of them. A request meets the mutexes as the one
  before it left them; what happens while another request holds one is in theory \<open>Engine_Lock\<close>.
\<close>

section \<open>Steps\<close>

inductive process_step :: "('e, 'r, 't) app_state \<Rightarrow> ('e, 'r, 't) app_state \<Rightarrow> bool" where
  embed_request: "pv_engine v = embed_engine st \<Longrightarrow>
     embed_handler env rq (v # vs) req st = Some (a, st') \<Longrightarrow> process_step st st'"
| rerank_request: "pv_engine u = rerank_engine st \<Longrightarrow>
     rerank_handler env rr (u # us) rreq st = Some (b, st') \<Longrightarrow> process_step st st'"
| tokenize_request: "tokenize_handler env encode panics treq st = (c, st') \<Longrightarrow> process_step st st'"
| unload_request: "up_embed polls = v # vs \<Longrightarrow> pv_engine v = embed_engine st \<Longrightarrow>
     up_rerank polls = u # us \<Longrightarrow> pv_engine u = rerank_engine st \<Longrightarrow>
     unload decode polls probe body st = Some (h, st') \<Longrightarrow> process_step st st'"
| idle_tick: "up_embed polls = v # vs \<Longrightarrow> pv_engine v = embed_engine st \<Longrightarrow>
     up_rerank polls = u # us \<Longrightarrow> pv_engine u = rerank_engine st \<Longrightarrow>
     idle_tick after clk polls st = Some (d, st') \<Longrightarrow> process_step st st'"

inductive serving :: "('e, 't) boot_env \<Rightarrow> ('e, 'r, 't) app_state \<Rightarrow> bool" for b where
  started: "boot b = Serving port st \<Longrightarrow> serving b st"
| stepped: "serving b st \<Longrightarrow> process_step st st' \<Longrightarrow> serving b st'"

inductive_cases process_stepE: "process_step st st'"

section \<open>The invariant\<close>

text \<open>
  Between requests: the configuration is that of the start, both engines are free and unstamped, the cache is
  well formed at the configured capacity, and, unless the last embed unwound, the committed cap is that of
  the most recently used resident engine.
\<close>

definition settled :: "config \<Rightarrow> ('e, 'r, 't) app_state \<Rightarrow> bool" where
  "settled cfg st \<longleftrightarrow>
     st_config st = cfg \<and> rung_inv (mx_val (embed_engine st)) \<and>
     capacity (mx_val (embed_engine st)) = max (engine_cache_rungs cfg) 1 \<and>
     \<not> mx_held (embed_engine st) \<and> inflight_now (embed_inflight st) = None \<and>
     (\<not> mx_poisoned (embed_engine st) \<longrightarrow> cap_mirror st) \<and>
     \<not> mx_held (rerank_engine st) \<and> inflight_now (rerank_inflight st) = None"

lemma boot_settled: "boot b = Serving port st \<Longrightarrow> settled (config_from_env (bt_env b)) st"
  by (frule boot_serves)
    (auto simp: boot_serve_def Let_def boot_state_def settled_def new_state_def inflight_now_new
      cap_mirror_def rung_cache_new_def rung_inv_def rung_caps_def
      split: outcome.splits option.splits prod.splits)

text \<open>What the bookkeeping around a request leaves of it.\<close>

lemma settled_cong:
  assumes "settled cfg st" "st_config st' = st_config st" "embed_engine st' = embed_engine st"
    "embed_inflight st' = embed_inflight st" "rerank_engine st' = rerank_engine st"
    "rerank_inflight st' = rerank_inflight st" "committed_embed_cap st' = committed_embed_cap st"
  shows "settled cfg st'"
  using assms by (simp add: settled_def cap_mirror_def)

lemma settled_set_activity: "settled cfg st \<Longrightarrow> settled cfg (set_activity l st)"
  by (erule settled_cong) (simp_all add: state_simps)

lemma settled_touch: "settled cfg st \<Longrightarrow> settled cfg (touch now st)"
  by (erule settled_cong) (simp_all add: state_simps)

lemma settled_record_max_batch: "settled cfg st \<Longrightarrow> settled cfg (record_max_batch n st)"
  by (erule settled_cong) (simp_all add: record_max_batch_def)

text \<open>What a caller gets when nobody holds the engine.\<close>

lemma free_engine_locks:
  "\<not> mx_held (pv_engine v) \<Longrightarrow> lock_or_refuse discard what policy patience since (v # vs) =
     Locked (if mx_poisoned (pv_engine v) then discard (mx_val (pv_engine v)) else mx_val (pv_engine v))"
  by (simp add: try_lock_def)

lemma settled_embed_locks:
  assumes "settled cfg st" and "pv_engine v = embed_engine st"
  obtains c where "lock_or_refuse rung_discard_all what policy patience since (v # vs) = Locked c"
    and "rung_inv c" and "capacity c = capacity (mx_val (embed_engine st))"
proof -
  have f: "\<not> mx_held (pv_engine v)" and i: "rung_inv (mx_val (embed_engine st))"
    using assms by (simp_all add: settled_def)
  have "rung_inv (rung_discard_all (mx_val (embed_engine st)))"
    "capacity (rung_discard_all (mx_val (embed_engine st))) = capacity (mx_val (embed_engine st))"
    using i by (simp_all add: rung_discard_all_def rung_inv_def rung_caps_def)
  with free_engine_locks [OF f, of rung_discard_all what policy patience since vs] i assms(2) that show ?thesis
    by (auto simp: assms(2) simp del: lock_or_refuse.simps split: if_splits)
qed

section \<open>An embed\<close>

text \<open>The slots and the configuration are untouched by a load.\<close>

lemma load_dual_frame:
  assumes "load_dual mach try_new hint len lease st = (r, st')"
  shows "st_config st' = st_config st \<and> rerank_engine st' = rerank_engine st \<and>
    rerank_inflight st' = rerank_inflight st"
proof -
  let ?f = "\<lambda>s. (st_config s, rerank_engine s, rerank_inflight s)"
  have "?f (snd (load_dual mach try_new hint len lease st)) = ?f st"
    unfolding load_dual_def by (rule load_session_keeps) simp_all
  with assms show ?thesis by simp
qed

lemma load_validated_frame:
  assumes "load_validated_dual rq hint lim pin lease st = (r, st')"
  shows "st_config st' = st_config st \<and> rerank_engine st' = rerank_engine st \<and>
    rerank_inflight st' = rerank_inflight st"
proof -
  obtain x st1 where l: "load_dual (rq_machine rq) (rq_try_new rq) hint (max_length lim) lease st = (x, st1)"
    by (cases "load_dual (rq_machine rq) (rq_try_new rq) hint (max_length lim) lease st") blast
  obtain y st2 where l2: "load_dual (rq_machine rq) (rq_try_again rq) hint (max_length lim) lease
      (st1\<lparr>cache_paths := wipe (rq_left rq) lease (cache_paths st1)\<rparr>) = (y, st2)"
    by (cases "load_dual (rq_machine rq) (rq_try_again rq) hint (max_length lim) lease
      (st1\<lparr>cache_paths := wipe (rq_left rq) lease (cache_paths st1)\<rparr>)") blast
  from load_dual_frame [OF l] load_dual_frame [OF l2] assms show ?thesis
    by (auto simp: load_validated_dual_def l l2 note_check_def split: outcome.splits prod.splits if_splits)
qed

lemma leave_embed_frame:
  "st_config (leave_embed p c claim st) = st_config st"
  "rerank_engine (leave_embed p c claim st) = rerank_engine st"
  "rerank_inflight (leave_embed p c claim st) = rerank_inflight st"
  by (simp_all add: leave_embed_def unstamp_embed_def drop_claim_def split: option.split)

lemma embed_bookkeeping_frame:
  "rerank_engine (commit_cap n st) = rerank_engine st" "rerank_inflight (commit_cap n st) = rerank_inflight st"
  "st_config (commit_cap n st) = st_config st" "rerank_inflight (settle_cap c st) = rerank_inflight st"
  "rerank_engine (record_embed_dimension d st) = rerank_engine st"
  "rerank_inflight (record_embed_dimension d st) = rerank_inflight st"
  by (simp_all add: commit_cap_def settle_cap_def record_embed_dimension_def split: option.split)

lemma engine_for_cap_frame:
  assumes "engine_for_cap rq hint lim retry cache st = (r, st')"
  shows "st_config st' = st_config st \<and> rerank_engine st' = rerank_engine st \<and>
    rerank_inflight st' = rerank_inflight st"
  using assms
  by (auto simp: engine_for_cap_def Let_def leave_embed_frame embed_bookkeeping_frame state_simps
      split: option.splits prod.splits outcome.splits dest!: load_validated_frame)

lemma run_pass_frame:
  assumes "run_pass rq texts lim retry i q cache claim b st = (r, st')"
  shows "st_config st' = st_config st \<and> rerank_engine st' = rerank_engine st \<and>
    rerank_inflight st' = rerank_inflight st"
  using assms
  by (auto simp: run_pass_def Let_def leave_embed_frame embed_bookkeeping_frame state_simps
      split: option.splits prod.splits outcome.splits)

text \<open>No way of ending changes the capacity.\<close>

lemma rung_set_last_capacity [simp]: "capacity (rung_set_last e c) = capacity c"
  by (simp add: rung_set_last_def)

lemma remember_engine_capacity [simp]: "capacity (fst (remember_engine cap e c)) = capacity c"
  using rung_insert_capacity [of cap e c] by (cases "rung_insert cap e c") (simp add: remember_engine_def)

lemma rung_get_keeps_capacity: "rung_get cap c = (x, c') \<Longrightarrow> capacity c' = capacity c"
  using rung_get_capacity [of cap c] by simp

lemma engine_for_cap_capacity:
  assumes "engine_for_cap rq hint lim retry cache st = (r, st')"
  shows "case r of Ok (cache1, claim, ms) \<Rightarrow> capacity cache1 = capacity cache
    | _ \<Rightarrow> capacity (mx_val (embed_engine st')) = capacity cache"
  using assms
  by (auto simp: engine_for_cap_def Let_def leave_embed_exits
      split: option.splits prod.splits outcome.splits dest!: rung_get_keeps_capacity)

lemma run_pass_capacity:
  assumes "run_pass rq texts lim retry i q cache claim b st = (r, st')"
  shows "capacity (mx_val (embed_engine st')) = capacity cache"
  using assms
  by (auto simp: run_pass_def Let_def leave_embed_exits
      split: option.splits prod.splits outcome.splits dest!: rung_get_keeps_capacity)

lemma embed_natural_settled:
  assumes "settled cfg st" and "pv_engine v = embed_engine st"
    and "embed_natural rq (v # vs) texts hint lim retry i st = Some (r, st')"
  shows "settled cfg st'"
proof -
  obtain cache where lock: "lock_or_refuse rung_discard_all ''embed'' (wedge (st_config st))
      Until_The_Holder_Is_Wedged (rq_clock rq 0) (v # vs) = Locked cache"
    and inv: "rung_inv cache" and cap: "capacity cache = capacity (mx_val (embed_engine st))"
    by (rule settled_embed_locks [OF assms(1,2)])
  define st2 where "st2 = (set_activity ''embed: waiting for the engine'' st)
     \<lparr>embed_engine := \<lparr>mx_val = cache, mx_held = True, mx_poisoned = False\<rparr>\<rparr>"
  have st2: "st_config st2 = st_config st" "rerank_engine st2 = rerank_engine st"
    "rerank_inflight st2 = rerank_inflight st" by (simp_all add: st2_def state_simps)
  obtain x st3 where e: "engine_for_cap rq hint lim retry cache st2 = (x, st3)"
    by (cases "engine_for_cap rq hint lim retry cache st2")
  have frame: "st_config st' = st_config st \<and> rerank_engine st' = rerank_engine st \<and>
      rerank_inflight st' = rerank_inflight st \<and> capacity (mx_val (embed_engine st')) = capacity cache"
  proof (cases x)
    case (Ok t)
    obtain cache1 claim ms where t: "t = (cache1, claim, ms)" by (cases t)
    from assms(3) lock e Ok t have "run_pass rq texts lim retry i
        (as_millis (elapsed (rq_clock rq 0) (rq_clock rq 1))) cache1 claim ms st3 = (r, st')"
      by (simp add: embed_natural_def st2_def)
    from run_pass_frame [OF this] run_pass_capacity [OF this] engine_for_cap_frame [OF e]
      engine_for_cap_capacity [OF e] Ok t st2 show ?thesis by simp
  next
    case (Err er)
    with assms(3) lock e have "st' = st3" by (simp add: embed_natural_def st2_def)
    with engine_for_cap_frame [OF e] engine_for_cap_capacity [OF e] Err st2 show ?thesis by simp
  next
    case Panic
    with assms(3) lock e have "st' = st3" by (simp add: embed_natural_def st2_def)
    with engine_for_cap_frame [OF e] engine_for_cap_capacity [OF e] Panic st2 show ?thesis by simp
  qed
  from embed_left_clean [OF assms(3) lock inv] frame cap assms(1) show ?thesis
    by (auto simp: settled_def left_clean_def)
qed

lemma embed_blocking_settled:
  assumes "settled cfg st" and "pv_engine v = embed_engine st"
    and "embed_blocking rq (v # vs) texts kind hint lim i st = Some (r, st')"
  shows "settled cfg st'"
proof -
  have "\<exists>texts' lim' retry r' b. embed_natural rq (v # vs) texts' hint lim' retry i (record_max_batch b st) = Some (r', st')"
    using assms(3) by (auto simp: embed_blocking_def Let_def split: if_splits prod.splits) blast+
  then obtain texts' lim' retry r' b
    where n: "embed_natural rq (v # vs) texts' hint lim' retry i (record_max_batch b st) = Some (r', st')" by blast
  have "pv_engine v = embed_engine (record_max_batch b st)" using assms(2) by (simp add: record_max_batch_def)
  from embed_natural_settled [OF settled_record_max_batch [OF assms(1)] this n] show ?thesis .
qed

section \<open>A rerank\<close>

lemma load_rerank_frame:
  assumes "load_rerank mach try_new hint lease st = (r, st')"
  shows "st_config st' = st_config st"
  using load_rerank_keeps [OF assms] by simp

lemma leave_rerank_config [simp]: "st_config (leave_rerank p s claim st) = st_config st"
  by (simp add: leave_rerank_def unstamp_rerank_def drop_claim_def split: option.split)

lemma rerank_ready_config:
  "rerank_engine_ready rq hint slot st = (r, st') \<Longrightarrow> st_config st' = st_config st"
  by (auto simp: rerank_engine_ready_def Let_def state_simps
      split: option.splits prod.splits outcome.splits dest!: load_rerank_frame)

lemma rerank_blocking_settled:
  assumes "settled cfg st" and "pv_engine u = rerank_engine st"
    and "rerank_blocking rq (u # us) query docs hint bt i st = Some (r, st')"
  shows "settled cfg st'"
proof -
  obtain slot where lock: "lock_or_refuse option_discard_all ''rerank'' (wedge (st_config st))
      Until_The_Holder_Is_Wedged (rr_clock rq 0) (u # us) = Locked slot"
    using free_engine_locks [of u] assms(1,2) by (simp add: settled_def del: lock_or_refuse.simps)
  have "st_config st' = st_config st"
    using assms(3) lock
    by (auto simp: rerank_blocking_def Let_def state_simps
        split: prod.splits outcome.splits dest!: rerank_ready_config)
  with rerank_left_clean [OF assms(3) lock] assms(1) show ?thesis
    by (simp add: settled_def cap_mirror_def)
qed

section \<open>The rest\<close>

lemma run_blocking_settled:
  assumes "settled cfg st" and "run_blocking fixed4 what jerr now pass st = Some (a, st')"
    and "\<And>r st1. pass (touch now st) = Some (r, st1) \<Longrightarrow> settled cfg st1"
  shows "settled cfg st'"
  using assms(2,3) settled_set_activity by (auto simp: run_blocking_def)

lemma drain_embed_settled:
  assumes "settled cfg st" and "pv_engine v = embed_engine st"
    and "drain_embed since (v # vs) req d st = Some (d', st')"
  shows "settled cfg st' \<and> rerank_engine st' = rerank_engine st"
proof (cases "wants_embed req")
  case False
  with assms show ?thesis by (simp add: drain_embed_def wants_embed_def)
next
  case True
  obtain c where lock: "lock_or_refuse rung_discard_all ''embed'' (wedge (st_config st))
      (At_Most (unload_wait (wedge (st_config st)))) since (v # vs) = Locked c"
    and inv: "rung_inv c" and cap: "capacity c = capacity (mx_val (embed_engine st))"
    by (rule settled_embed_locks [OF assms(1,2)])
  note d = drain_embed_locked [OF True inv lock assms(3)]
  have "embed_inflight st' = embed_inflight st" "rerank_inflight st' = rerank_inflight st"
    using assms(3) lock by (auto simp: drain_embed_def settle_cap_def split: if_splits prod.splits)
  moreover have "rung_inv (mx_val (embed_engine st'))"
    using d inv by (auto simp: rung_inv_def rung_caps_def intro: distinct_fst_filter order_trans [OF length_filter_le])
  moreover have "\<not> mx_held (embed_engine st')" using d by (metis free_mutex_def mutex.select_convs(2))
  ultimately show ?thesis using assms(1) d cap by (simp add: settled_def)
qed

lemma drain_rerank_settled:
  assumes "settled cfg st" and "drain_rerank since us req d st = Some (d', st')"
  shows "settled cfg st'"
  using assms
  by (auto simp: drain_rerank_def settled_def free_mutex_def cap_mirror_def split: if_splits lock_answer.splits)

lemma drain_engines_settled:
  assumes "settled cfg st" and "up_embed polls = v # vs" and "pv_engine v = embed_engine st"
    and "drain_engines polls req st = Some (d, st')"
  shows "settled cfg st'"
proof -
  from assms(2,4) obtain d1 st1 where
    e: "drain_embed (up_embed_since polls) (v # vs) req drained_default st = Some (d1, st1)"
    and r: "drain_rerank (up_rerank_since polls) (up_rerank polls) req d1 st1 = Some (d, st')"
    by (auto simp: drain_engines_def split: option.splits)
  from drain_embed_settled [OF assms(1,3) e] have "settled cfg st1" by simp
  from drain_rerank_settled [OF this r] show ?thesis .
qed

lemma step_settled:
  assumes "process_step st st'" and "settled cfg st"
  shows "settled cfg st'"
  using assms(1)
proof cases
  case (embed_request v env rq vs req a)
  show ?thesis
  proof (cases "eq_texts req = []")
    case False
    from embed_request(2) False have "run_blocking (he_fixed4 env) ''embed'' (he_join env) (he_now env)
        (embed_blocking rq (v # vs) (eq_texts req) (eq_kind req) (eq_provider req)
          (limits_resolve (st_config st) (eq_max_length req) (eq_max_batch req)) (eq_request_id req)) st =
        Some (a, st')" by (simp add: embed_handler_def)
    from run_blocking_settled [OF assms(2) this] embed_blocking_settled [OF settled_touch [OF assms(2)]]
      embed_request(1) show ?thesis by (auto simp: state_simps)
  qed (use embed_request(2) assms(2) in \<open>simp add: embed_handler_def\<close>)
next
  case (rerank_request u env rr us rreq b)
  show ?thesis
  proof (cases "rq_documents rreq = []")
    case False
    from rerank_request(2) False have "run_blocking (he_fixed4 env) ''rerank'' (he_join env) (he_now env)
        (rerank_blocking rr (u # us) (rq_query rreq) (rq_documents rreq) (rq_provider rreq)
          (rerank_batch (st_config st) (rq_max_batch rreq)) (rerank_request.rq_request_id rreq)) st =
        Some (b, st')" by (simp add: rerank_handler_def)
    from run_blocking_settled [OF assms(2) this] rerank_blocking_settled [OF settled_touch [OF assms(2)]]
      rerank_request(1) show ?thesis by (auto simp: state_simps)
  qed (use rerank_request(2) assms(2) in \<open>simp add: rerank_handler_def\<close>)
next
  case (tokenize_request env encode panics treq c)
  then have "st' = touch (he_now env) st" by (auto simp: tokenize_handler_def Let_def)
  with settled_touch [OF assms(2)] show ?thesis by simp
next
  case (unload_request polls v vs u us decode probe body h)
  show ?thesis
  proof (cases "parse_unload_request decode body")
    case None
    with unload_request assms(2) show ?thesis by (simp add: unload_def)
  next
    case (Some req)
    with unload_request(5) obtain d where "drain_engines polls req st = Some (d, st')"
      by (auto simp: unload_def)
    from drain_engines_settled [OF assms(2) unload_request(1,2) this] show ?thesis .
  qed
next
  case (idle_tick polls v vs u us after clk d)
  from idle_tick(5) have "st' = st \<or> (\<exists>d0. drain_engines polls unload_request_default st = Some (d0, st'))"
    by (auto simp: idle_tick_def Let_def split: if_splits)
  with drain_engines_settled [OF assms(2) idle_tick(1,2)] assms(2) show ?thesis by blast
qed

lemma serving_settled: "serving b st \<Longrightarrow> settled (config_from_env (bt_env b)) st"
  by (induction rule: serving.induct) (auto intro: boot_settled step_settled)

text \<open>
  C1: The process keeps its engine state honest for ever. After any run of requests, unloads and idle
  ticks from a checked start, whatever failed or panicked in them: both engines are free and unstamped, the
  resident engines are distinct and never more than configured, and unless the last embed unwound the committed
  cap is that of the most recently used resident engine, or none when there is none.
\<close>

theorem serving_stays_settled:
  assumes "serving b st"
  shows "\<not> mx_held (embed_engine st) \<and> \<not> mx_held (rerank_engine st) \<and> in_flight_now clk st = [] \<and>
    distinct (rung_caps (mx_val (embed_engine st))) \<and>
    length (rung_caps (mx_val (embed_engine st))) \<le> max (engine_cache_rungs (config_from_env (bt_env b))) 1 \<and>
    (\<not> mx_poisoned (embed_engine st) \<longrightarrow>
      committed_embed_cap st = (let caps = rung_caps (mx_val (embed_engine st)) in if caps = [] then 0 else last caps))"
  using serving_settled [OF assms]
  by (auto simp: settled_def in_flight_now_empty rung_inv_def cap_mirror_def rung_caps_def)

text \<open>
  C2: One bad request never takes the next one down. In every state a serving process can reach, a request that
  finds no other one running gets its engine: it is never refused and never waits, and after a panic it finds
  the cache emptied instead of an error.
\<close>

theorem every_request_gets_its_engine:
  assumes "serving b st" and "pv_engine v = embed_engine st" and "pv_engine u = rerank_engine st"
  shows "(\<exists>c. lock_or_refuse rung_discard_all what policy patience since (v # vs) = Locked c \<and>
      rung_caps c = (if mx_poisoned (embed_engine st) then [] else rung_caps (mx_val (embed_engine st)))) \<and>
    (\<exists>r. lock_or_refuse option_discard_all what' policy patience since (u # us) = Locked r \<and>
      r = (if mx_poisoned (rerank_engine st) then None else mx_val (rerank_engine st)))"
  using serving_settled [OF assms(1)] assms(2,3)
  by (simp add: settled_def try_lock_def rung_discard_all_def option_discard_all_def rung_caps_def)

lemma plain_serving: "\<exists>port (st :: (nat, nat, unit) app_state). boot plain_boot = Serving port st"
  using serving_process_starts by blast

lemma serving_stays_settled_witness:
  "\<exists>st :: (nat, nat, unit) app_state. serving plain_boot st \<and> in_flight_now (\<lambda>k. 0) st = [] \<and>
     \<not> mx_held (embed_engine st)"
proof -
  obtain port and st :: "(nat, nat, unit) app_state" where "boot plain_boot = Serving port st"
    using plain_serving by blast
  then have "serving plain_boot st" by (rule serving.started)
  with serving_stays_settled [OF this] show ?thesis by blast
qed

lemma every_request_gets_its_engine_witness:
  "\<exists>(st :: (nat, nat, unit) app_state) c. serving plain_boot st \<and>
     lock_or_refuse rung_discard_all ''embed'' sample_policy Until_The_Holder_Is_Wedged 0
       [\<lparr>pv_engine = embed_engine st, pv_stamp = new_mutex None, pv_now = 0, pv_later = 0\<rparr>] = Locked c"
proof -
  obtain port and st :: "(nat, nat, unit) app_state" where "boot plain_boot = Serving port st"
    using plain_serving by blast
  then have "serving plain_boot st" by (rule serving.started)
  with every_request_gets_its_engine [OF this, of
      "\<lparr>pv_engine = embed_engine st, pv_stamp = new_mutex None, pv_now = 0, pv_later = 0\<rparr>"
      "\<lparr>pv_engine = rerank_engine st, pv_stamp = new_mutex None, pv_now = 0, pv_later = 0\<rparr>"]
  show ?thesis by fastforce
qed

end
