(* ===== verification/Scratch_Names.thy ===== *)
theory Scratch_Names
  imports Rust_Text
begin

text \<open>
  \<open>src/test_scratch.rs\<close>: the names of the folders the tests own. The prefix, the owner, this repository's token,
  a chosen word and a drawn id make a name of at most 63 bytes, and a name read back says whose it is.
\<close>

section \<open>Constants\<close>

definition PREFIX :: string where "PREFIX = ''testsToDelete-''"
definition REPO_TOKEN :: string where "REPO_TOKEN = ''sidecar''"
definition MAX_NAME :: nat where "MAX_NAME = 63"
definition ID_LENGTH :: nat where "ID_LENGTH = 6"
definition START_TOLERANCE_S :: nat where "START_TOLERANCE_S = 2"
definition MAX_CLAIM_BYTES :: nat where "MAX_CLAIM_BYTES = 512"

lemmas scratch_consts = PREFIX_def REPO_TOKEN_def MAX_NAME_def ID_LENGTH_def

section \<open>Reading a name\<close>

text \<open>\<open>^[uw][0-9]{1,10}$\<close>.\<close>

definition is_owner_token :: "string \<Rightarrow> bool" where
  "is_owner_token text \<longleftrightarrow>
     (case text of [] \<Rightarrow> False
      | c # digits \<Rightarrow> (c = CHR ''u'' \<or> c = CHR ''w'') \<and> 2 \<le> length text \<and> length text \<le> 11 \<and>
          list_all is_digit digits)"

text \<open>\<open>slice::split\<close>: one segment more than there are separators.\<close>

fun split_by :: "(char \<Rightarrow> bool) \<Rightarrow> string \<Rightarrow> string list" where
  "split_by sep [] = [[]]"
| "split_by sep (c # cs) =
     (if sep c then [] # split_by sep cs
      else (case split_by sep cs of [] \<Rightarrow> [[c]] | s # ss \<Rightarrow> (c # s) # ss))"

datatype name_form = Owner_Form string "string option" | Legacy_Form string | No_Form

definition name_separator :: "char \<Rightarrow> bool" where
  "name_separator c \<longleftrightarrow> c = CHR ''-'' \<or> c = CHR ''_''"

text \<open>The segments after the prefix in every case and either separator, in lower case; none when it is not there.\<close>

definition name_segments :: "string \<Rightarrow> string list option" where
  "name_segments name =
     (let word = butlast PREFIX
      in if length name < length word then None
         else if lowercase (take (length word) name) \<noteq> lowercase word then None
         else (case drop (length word) name of
             [] \<Rightarrow> None
           | c # rest \<Rightarrow>
               if name_separator c then Some (map lowercase (split_by name_separator rest)) else None))"

definition classify_name :: "string \<Rightarrow> name_form" where
  "classify_name name =
     (case name_segments name of
        Some (second # segments) \<Rightarrow>
          if second = [] then No_Form
          else if is_owner_token second
          then Owner_Form second (case segments of token # others \<Rightarrow> if token = [] then None else Some token | [] \<Rightarrow> None)
          else Legacy_Form second
      | _ \<Rightarrow> No_Form)"

section \<open>Making a name\<close>

text \<open>The bytes left for the chosen word under an owner.\<close>

definition what_room :: "string \<Rightarrow> nat" where
  "what_room owner = MAX_NAME - length PREFIX - length owner - 1 - length REPO_TOKEN - 1 - 1 - ID_LENGTH"

text \<open>\<open>char::is_control\<close> of some character: below 0x20, 0x7F, and 0x80 to 0x9F, which UTF-8 writes after 0xC2.\<close>

fun has_control :: "string \<Rightarrow> bool" where
  "has_control [] = False"
| "has_control (c # cs) =
     ((of_char c :: nat) < 32 \<or> (of_char c :: nat) = 127 \<or>
      (c = CHR 0xC2 \<and> cs \<noteq> [] \<and> 128 \<le> (of_char (hd cs) :: nat) \<and> (of_char (hd cs) :: nat) < 160) \<or> has_control cs)"

datatype what_error = What_Empty | What_Separator_Or_Control | What_Leading_Dash | What_Too_Long nat nat

definition check_what :: "string \<Rightarrow> string \<Rightarrow> what_error + unit" where
  "check_what owner what =
     (if what = [] then Inl What_Empty
      else if CHR ''/'' \<in> set what \<or> CHR 0x5C \<in> set what \<or> has_control what then Inl What_Separator_Or_Control
      else if hd what = CHR ''-'' then Inl What_Leading_Dash
      else if what_room owner < length what then Inl (What_Too_Long (length what) (what_room owner))
      else Inr ())"

definition compose_name :: "string \<Rightarrow> string \<Rightarrow> string \<Rightarrow> string \<Rightarrow> string" where
  "compose_name owner token what ident = PREFIX @ owner @ ''-'' @ token @ ''-'' @ what @ ''-'' @ ident"

definition legacy_name_for :: "string \<Rightarrow> string \<Rightarrow> string" where
  "legacy_name_for what ident = PREFIX @ REPO_TOKEN @ ''-'' @ what @ ''-'' @ ident"

definition name_for :: "string \<Rightarrow> string \<Rightarrow> string \<Rightarrow> string" where
  "name_for owner what ident = PREFIX @ owner @ ''-'' @ REPO_TOKEN @ ''-'' @ what @ ''-'' @ ident"

definition after_prefix :: "string \<Rightarrow> string option" where
  "after_prefix name = (if starts_with PREFIX name then Some (drop (length PREFIX) name) else None)"

definition prefix_lowercase :: string where "prefix_lowercase = lowercase PREFIX"

definition quarantine_leaf :: "string \<Rightarrow> nat \<Rightarrow> string \<Rightarrow> string" where
  "quarantine_leaf name pid suffix =
     ''.'' @ name @ ''.'' @ prefix_lowercase @ ''quarantine-'' @ show_nat pid @ ''-'' @ suffix"

section \<open>Draws\<close>

text \<open>
  The entropy source gives eight bytes at a time; a list of such draws is the fuel of the loops, and a list
  that ends too early is a loop that still runs.
\<close>

definition id_alphabet :: string where
  "id_alphabet = ''abcdefghijklmnopqrstuvwxyzABCDEFGHIJKLMNOPQRSTUVWXYZ0123456789''"

text \<open>The bytes of one draw into the id: a byte below 248 picks a character, until there are six.\<close>

definition take_id_byte :: "8 word \<Rightarrow> string \<Rightarrow> string" where
  "take_id_byte b ident =
     (if b < 248 \<and> length ident < ID_LENGTH then ident @ [id_alphabet ! (unat b mod length id_alphabet)] else ident)"

fun random_id :: "8 word list list \<Rightarrow> string \<Rightarrow> string option" where
  "random_id draws ident =
     (if ID_LENGTH \<le> length ident then Some ident
      else (case draws of [] \<Rightarrow> None | draw # others \<Rightarrow> random_id others (fold take_id_byte draw ident)))"

declare random_id.simps [simp del]

definition hex_digit :: "nat \<Rightarrow> char" where
  "hex_digit n = ''0123456789abcdef'' ! n"

definition take_hex_byte :: "nat \<Rightarrow> 8 word \<Rightarrow> string \<times> nat \<Rightarrow> string \<times> nat" where
  "take_hex_byte bytes b = (\<lambda>(hex, drawn).
     if drawn < bytes then (hex @ [hex_digit (unat b div 16), hex_digit (unat b mod 16)], drawn + 1) else (hex, drawn))"

fun random_hex :: "nat \<Rightarrow> 8 word list list \<Rightarrow> string \<times> nat \<Rightarrow> string option" where
  "random_hex bytes draws st =
     (if bytes \<le> snd st then Some (fst st)
      else (case draws of [] \<Rightarrow> None | draw # others \<Rightarrow> random_hex bytes others (fold (take_hex_byte bytes) draw st)))"

declare random_hex.simps [simp del]

definition owned_name :: "string \<Rightarrow> 8 word list list \<Rightarrow> string \<Rightarrow> what_error + string option" where
  "owned_name owner draws what =
     (case check_what owner what of
        Inl problem \<Rightarrow> Inl problem
      | Inr u \<Rightarrow> Inr (map_option (name_for owner what) (random_id draws [])))"

section \<open>Lemmas\<close>

lemma lower_char_digit [simp]: "is_digit c \<Longrightarrow> lower_char c = c"
  by (auto simp: lower_char_def is_digit_def Let_def)

lemma lowercase_append [simp]: "lowercase (a @ b) = lowercase a @ lowercase b"
  by (simp add: lowercase_def)

lemma length_lowercase [simp]: "length (lowercase s) = length s"
  by (simp add: lowercase_def)

lemma owner_token_lower: "is_owner_token t \<Longrightarrow> lowercase t = t"
proof -
  have "map lower_char ds = ds" if "list_all is_digit ds" for ds
    using that by (induction ds) auto
  moreover have "lower_char (CHR ''u'') = CHR ''u''" "lower_char (CHR ''w'') = CHR ''w''" by code_simp+
  ultimately show "is_owner_token t \<Longrightarrow> lowercase t = t"
    by (auto simp: is_owner_token_def lowercase_def split: list.splits)
qed

lemma digit_no_separator: "is_digit c \<Longrightarrow> \<not> name_separator c"
  by (auto simp: name_separator_def is_digit_def)

lemma owner_token_no_separator: "is_owner_token t \<Longrightarrow> c \<in> set t \<Longrightarrow> \<not> name_separator c"
  by (auto simp: is_owner_token_def list_all_iff digit_no_separator split: list.splits)
    (auto simp: name_separator_def)

lemma split_by_not_Nil [simp]: "split_by sep s \<noteq> []"
  by (induction s) (auto split: list.splits)

lemma split_by_segment:
  "\<forall>c\<in>set a. \<not> sep c \<Longrightarrow> sep d \<Longrightarrow> split_by sep (a @ d # b) = a # split_by sep b"
  by (induction a) auto

lemma split_by_whole: "\<forall>c\<in>set a. \<not> sep c \<Longrightarrow> split_by sep a = [a]"
  by (induction a) auto

lemma owner_token_length: "is_owner_token t \<Longrightarrow> 2 \<le> length t \<and> length t \<le> 11"
  by (auto simp: is_owner_token_def split: list.splits)

lemma what_room_owner: "is_owner_token owner \<Longrightarrow> what_room owner = 33 - length owner"
  using owner_token_length [of owner] by (simp add: what_room_def scratch_consts)

lemma name_segments_prefix: "name_segments (PREFIX @ rest) = Some (map lowercase (split_by name_separator rest))"
  by (simp add: name_segments_def PREFIX_def name_separator_def Let_def)

lemma classify_composed:
  assumes o: "is_owner_token owner" and t: "token \<noteq> []" "\<forall>c\<in>set token. \<not> name_separator c" "lowercase token = token"
  shows "classify_name (compose_name owner token what ident) = Owner_Form owner (Some token)"
proof -
  have "split_by name_separator (owner @ CHR ''-'' # token @ CHR ''-'' # what @ CHR ''-'' # ident) =
      owner # token # split_by name_separator (what @ CHR ''-'' # ident)"
    using owner_token_no_separator [OF o] t(2) by (simp add: split_by_segment name_separator_def)
  moreover have "owner \<noteq> []" using o by (auto simp: is_owner_token_def)
  ultimately show ?thesis
    using o t by (simp add: classify_name_def compose_name_def name_segments_prefix owner_token_lower)
qed

lemma repo_token_plain: "REPO_TOKEN \<noteq> []" "\<forall>c\<in>set REPO_TOKEN. \<not> name_separator c" "lowercase REPO_TOKEN = REPO_TOKEN"
  by (simp_all add: REPO_TOKEN_def name_separator_def lowercase_def lower_char_def)

lemma name_for_composed: "name_for owner what ident = compose_name owner REPO_TOKEN what ident"
  by (simp add: name_for_def compose_name_def)

lemma classify_name_for: "is_owner_token owner \<Longrightarrow> classify_name (name_for owner what ident) = Owner_Form owner (Some REPO_TOKEN)"
  by (simp add: name_for_composed classify_composed repo_token_plain)

lemma legacy_is_no_owner: "classify_name (legacy_name_for what ident) = Legacy_Form REPO_TOKEN"
proof -
  have "split_by name_separator (REPO_TOKEN @ CHR ''-'' # what @ CHR ''-'' # ident) =
      REPO_TOKEN # split_by name_separator (what @ CHR ''-'' # ident)"
    using repo_token_plain(2) by (simp add: split_by_segment name_separator_def)
  moreover have "\<not> is_owner_token REPO_TOKEN" by (simp add: is_owner_token_def REPO_TOKEN_def)
  ultimately show ?thesis
    using repo_token_plain by (simp add: classify_name_def legacy_name_for_def name_segments_prefix)
qed

lemma fold_take_id:
  "length ident \<le> ID_LENGTH \<Longrightarrow> set ident \<subseteq> set id_alphabet \<Longrightarrow>
     length (fold take_id_byte bs ident) \<le> ID_LENGTH \<and> set (fold take_id_byte bs ident) \<subseteq> set id_alphabet"
proof (induction bs arbitrary: ident)
  case (Cons b bs)
  have "unat b mod length id_alphabet < length id_alphabet" by (simp add: id_alphabet_def)
  then have "set (take_id_byte b ident) \<subseteq> set id_alphabet" "length (take_id_byte b ident) \<le> ID_LENGTH"
    using Cons.prems by (auto simp: take_id_byte_def in_set_conv_nth)
  from Cons.IH [OF this(2,1)] show ?case by simp
qed simp

lemma random_id_shape:
  "random_id draws ident = Some r \<Longrightarrow> length ident \<le> ID_LENGTH \<Longrightarrow> set ident \<subseteq> set id_alphabet \<Longrightarrow>
     length r = ID_LENGTH \<and> set r \<subseteq> set id_alphabet"
proof (induction draws ident rule: random_id.induct)
  case (1 draws ident)
  show ?case
  proof (cases "ID_LENGTH \<le> length ident")
    case True
    with 1 show ?thesis by (simp add: random_id.simps [of draws ident])
  next
    case False
    with 1 fold_take_id [of ident] show ?thesis
      by (auto simp: random_id.simps [of draws ident] split: list.splits)
  qed
qed

text \<open>
  A scratch name is short and says whose it is. For every word that is accepted under an owner token, the name that is
  drawn has at most 63 bytes, its id is six characters of the alphabet, and read back it is classified as this
  owner's and this repository's, whatever the word contains; a name of the legacy form never reads as owned.
\<close>

theorem owned_names_read_back:
  assumes "is_owner_token owner" and "owned_name owner draws what = Inr (Some name)"
  shows "length name \<le> MAX_NAME \<and> classify_name name = Owner_Form owner (Some REPO_TOKEN) \<and>
    (\<exists>ident. name = name_for owner what ident \<and> length ident = ID_LENGTH \<and> set ident \<subseteq> set id_alphabet) \<and>
    CHR ''/'' \<notin> set what \<and> classify_name (legacy_name_for what i) = Legacy_Form REPO_TOKEN"
proof -
  from assms(2) obtain ident where c: "check_what owner what = Inr ()" and i: "random_id draws [] = Some ident"
    and n: "name = name_for owner what ident" by (auto simp: owned_name_def split: sum.splits)
  from random_id_shape [OF i] have id: "length ident = ID_LENGTH" "set ident \<subseteq> set id_alphabet" by simp_all
  from c have w: "length what \<le> what_room owner" "CHR ''/'' \<notin> set what"
    by (auto simp: check_what_def split: if_splits)
  have "length name \<le> MAX_NAME"
    using w(1) id(1) what_room_owner [OF assms(1)] owner_token_length [OF assms(1)]
    by (simp add: n name_for_def scratch_consts) arith
  with id w(2) n classify_name_for [OF assms(1)] legacy_is_no_owner show ?thesis by auto
qed

lemma owned_names_read_back_witness:
  "\<exists>name. owned_name ''u1000'' [[0, 255, 1, 2, 27, 61, 62, 7]] ''log'' = Inr (Some name) \<and> length name \<le> MAX_NAME \<and>
     classify_name name = Owner_Form ''u1000'' (Some REPO_TOKEN)"
proof -
  have o: "is_owner_token ''u1000''" by (simp add: is_owner_token_def is_digit_def)
  have "check_what ''u1000'' ''log'' = Inr ()"
    by (simp add: check_what_def what_room_owner [OF o])
  moreover have "random_id [[0, 255, 1, 2, 27, 61, 62, 7]] [] = Some ''abcB9a''"
    by (simp add: random_id.simps [of "[_]"] random_id.simps [of "[]"] take_id_byte_def ID_LENGTH_def id_alphabet_def)
  ultimately have n: "owned_name ''u1000'' [[0, 255, 1, 2, 27, 61, 62, 7]] ''log'' =
      Inr (Some (name_for ''u1000'' ''log'' ''abcB9a''))"
    by (simp add: owned_name_def)
  from owned_names_read_back [OF o n] n show ?thesis by blast
qed

end
