(* ===== verification/Scratch_Owner.thy ===== *)
theory Scratch_Owner
  imports Scratch_Names
begin

text \<open>
  \<open>src/test_scratch/owner.rs\<close>: the record a run writes beside its folders, how it is read back, and when its
  process counts as gone. The process list, the host and the clock rate are what the system answers; the digest
  and the Unicode lower case are parameters; the unix build is modelled, with the Windows token beside it.
\<close>

section \<open>Data\<close>

record owner =
  ow_owner :: string
  ow_host :: string
  ow_pid :: nat
  ow_start :: "nat option"
  ow_ns :: "nat option"
  ow_canonical :: bool

datatype claim = Unmarked | Unreadable | Owned owner

datatype probe_answer = Probe_Gone | Probe_Unknown | Probe_Alive "nat option"

datatype owner_liveness = Live | Gone | Unknown

section \<open>The owner token\<close>

definition windows_owner_token :: "(string \<Rightarrow> 8 word list) \<Rightarrow> string \<Rightarrow> string" where
  "windows_owner_token sha256 username =
     (let d = sha256 (lowercase username)
      in CHR ''w'' # show_nat (unat (d ! 0) * 2 ^ 24 + unat (d ! 1) * 2 ^ 16 + unat (d ! 2) * 2 ^ 8 + unat (d ! 3)))"

text \<open>\<open>None\<close> is the panic on an override that is not an owner token.\<close>

definition owner_token_from :: "nat \<Rightarrow> string option \<Rightarrow> string option" where
  "owner_token_from uid override =
     (case override of
        Some v \<Rightarrow> if v \<noteq> [] then (if is_owner_token v then Some v else None) else Some (CHR ''u'' # show_nat uid)
      | None \<Rightarrow> Some (CHR ''u'' # show_nat uid))"

section \<open>The host\<close>

text \<open>The characters of \<open>is_host_space\<close>, as UTF-8 writes them.\<close>

definition host_spaces :: "string list" where
  "host_spaces =
     [[CHR 0x09], [CHR 0x0A], [CHR 0x0B], [CHR 0x0C], [CHR 0x0D], [CHR 0x20], [CHR 0xC2, CHR 0xA0],
      [CHR 0xE1, CHR 0x9A, CHR 0x80], [CHR 0xE2, CHR 0x80, CHR 0x80], [CHR 0xE2, CHR 0x80, CHR 0x81],
      [CHR 0xE2, CHR 0x80, CHR 0x82], [CHR 0xE2, CHR 0x80, CHR 0x83], [CHR 0xE2, CHR 0x80, CHR 0x84],
      [CHR 0xE2, CHR 0x80, CHR 0x85], [CHR 0xE2, CHR 0x80, CHR 0x86], [CHR 0xE2, CHR 0x80, CHR 0x87],
      [CHR 0xE2, CHR 0x80, CHR 0x88], [CHR 0xE2, CHR 0x80, CHR 0x89], [CHR 0xE2, CHR 0x80, CHR 0x8A],
      [CHR 0xE2, CHR 0x80, CHR 0xA8], [CHR 0xE2, CHR 0x80, CHR 0xA9], [CHR 0xE2, CHR 0x80, CHR 0xAF],
      [CHR 0xE2, CHR 0x81, CHR 0x9F], [CHR 0xE3, CHR 0x80, CHR 0x80], [CHR 0xEF, CHR 0xBB, CHR 0xBF]]"

definition host_separators :: "string list" where
  "host_separators = ''@'' # '':'' # host_spaces"

text \<open>
  The loop over the characters, on their bytes: in valid UTF-8 an encoding starts only where its character does.
\<close>

function host_scan :: "bool \<Rightarrow> string \<Rightarrow> string" where
  "host_scan in_run s =
     (case s of [] \<Rightarrow> []
      | c # cs \<Rightarrow>
          (case strip_one host_separators s of
             Some r \<Rightarrow> if in_run then host_scan True r else CHR ''-'' # host_scan True r
           | None \<Rightarrow> c # host_scan False cs))"
  by pat_completeness auto
termination by (relation "measure (length \<circ> snd)") (auto dest: strip_one_shorter)

declare host_scan.simps [simp del]

definition host_name :: "string \<Rightarrow> string" where
  "host_name raw = host_scan False raw"

definition host_id :: "string \<Rightarrow> string \<Rightarrow> string" where
  "host_id raw distro =
     (if strip_all host_spaces distro = [] then host_name raw else host_name raw @ ''~'' @ host_name distro)"

section \<open>The text of a record\<close>

definition format_owner :: "owner \<Rightarrow> string" where
  "format_owner r =
     ow_owner r @ '':'' @ ow_host r @ '':'' @ show_nat (ow_pid r)
       @ (case ow_start r of None \<Rightarrow> []
          | Some start \<Rightarrow> '':'' @ show_nat start
              @ (case ow_ns r of None \<Rightarrow> [] | Some ns \<Rightarrow> '':'' @ show_nat ns))"

text \<open>\<open>std::str::from_utf8\<close>.\<close>

definition byte_in :: "nat \<Rightarrow> nat \<Rightarrow> char \<Rightarrow> bool" where
  "byte_in lo hi c \<longleftrightarrow> lo \<le> (of_char c :: nat) \<and> (of_char c :: nat) \<le> hi"

fun utf8_ok :: "string \<Rightarrow> bool" where
  "utf8_ok [] = True"
| "utf8_ok (c # cs) =
     (if byte_in 0 0x7F c then utf8_ok cs
      else (case cs of [] \<Rightarrow> False
        | d # ds \<Rightarrow>
          if byte_in 0xC2 0xDF c then byte_in 0x80 0xBF d \<and> utf8_ok ds
          else (case ds of [] \<Rightarrow> False
            | e # es \<Rightarrow>
              if byte_in 0xE0 0xEF c
              then byte_in (if byte_in 0xE0 0xE0 c then 0xA0 else 0x80) (if byte_in 0xED 0xED c then 0x9F else 0xBF) d
                \<and> byte_in 0x80 0xBF e \<and> utf8_ok es
              else (case es of [] \<Rightarrow> False
                | f # fs \<Rightarrow>
                  byte_in 0xF0 0xF4 c
                  \<and> byte_in (if byte_in 0xF0 0xF0 c then 0x90 else 0x80) (if byte_in 0xF4 0xF4 c then 0x8F else 0xBF) d
                  \<and> byte_in 0x80 0xBF e \<and> byte_in 0x80 0xBF f \<and> utf8_ok fs))))"

text \<open>
  The grammar: no field can hold a colon, so the fields are what stands between the colons. A host is a name
  without \<open>@\<close>, colon or white space, an \<open>@\<close>, and one of three systems.
\<close>

definition colon :: "char \<Rightarrow> bool" where "colon c \<longleftrightarrow> c = CHR '':''"
definition at_sign :: "char \<Rightarrow> bool" where "at_sign c \<longleftrightarrow> c = CHR ''@''"

definition host_field :: "string \<Rightarrow> bool" where
  "host_field h \<longleftrightarrow>
     (case split_by at_sign h of
        [name, system] \<Rightarrow> name \<noteq> [] \<and> list_all (\<lambda>e. \<not> contains_str e name) host_spaces \<and>
          (system = ''linux'' \<or> system = ''macos'' \<or> system = ''windows'')
      | _ \<Rightarrow> False)"

definition number_field :: "string \<Rightarrow> bool" where
  "number_field d \<longleftrightarrow> d \<noteq> [] \<and> list_all is_digit d"

text \<open>A number that does not fit is read as one no process can have.\<close>

definition number :: "string \<Rightarrow> nat" where
  "number digits = (case parse_u64 digits of None \<Rightarrow> u64_max | Some n \<Rightarrow> n)"

definition record_grammar :: "string \<Rightarrow> (string \<times> string \<times> string list) option" where
  "record_grammar line =
     (case split_by colon line of
        who # host # numbers \<Rightarrow>
          if is_owner_token who \<and> host_field host \<and> 1 \<le> length numbers \<and> length numbers \<le> 3 \<and>
            list_all number_field numbers
          then Some (who, host, numbers) else None
      | _ \<Rightarrow> None)"

definition strip_line_end :: "string \<Rightarrow> string" where
  "strip_line_end text =
     (if ends_with [CHR 0x0D, CHR 0x0A] text \<and> 2 \<le> length text then take (length text - 2) text
      else if ends_with [CHR 0x0A] text \<and> 1 \<le> length text then take (length text - 1) text else text)"

definition leading_zero :: "string \<Rightarrow> bool" where
  "leading_zero d \<longleftrightarrow> 1 < length d \<and> hd d = CHR ''0''"

definition parse_owner :: "string \<Rightarrow> claim" where
  "parse_owner text =
     (if MAX_CLAIM_BYTES < length text \<or> \<not> utf8_ok text then Unreadable
      else (case record_grammar (strip_line_end text) of
          None \<Rightarrow> Unreadable
        | Some (who, host, numbers) \<Rightarrow>
            Owned \<lparr>ow_owner = who, ow_host = host, ow_pid = number (numbers ! 0),
              ow_start = map_option number (nth_opt numbers 1), ow_ns = map_option number (nth_opt numbers 2),
              ow_canonical = \<not> list_ex leading_zero numbers\<rparr>))"

section \<open>Whether the process lives\<close>

text \<open>What \<open>/proc\<close> and the auxiliary vector answer.\<close>

datatype stat_answer = Stat_Bytes string | Stat_Not_Found | Stat_Refused

record proc_view =
  pv_stat :: "nat \<Rightarrow> stat_answer"
  pv_boot :: "string option"
  pv_clock_ticks :: nat
  pv_one_visible :: bool
  pv_own_ns :: "string option"

definition hidepid_active :: "proc_view \<Rightarrow> bool" where
  "hidepid_active pv \<longleftrightarrow> \<not> pv_one_visible pv"

definition clock_ticks :: "proc_view \<Rightarrow> nat option" where
  "clock_ticks pv = (if 0 < pv_clock_ticks pv then Some (pv_clock_ticks pv) else None)"

fun first_prefixed :: "string \<Rightarrow> string list \<Rightarrow> string option" where
  "first_prefixed p [] = None"
| "first_prefixed p (l # ls) = (if starts_with p l then Some (drop (length p) l) else first_prefixed p ls)"

definition boot_time :: "proc_view \<Rightarrow> nat option" where
  "boot_time pv =
     (case pv_boot pv of None \<Rightarrow> None
      | Some text \<Rightarrow>
          (case first_prefixed ''btime '' (split_by (\<lambda>c. c = CHR 0x0A) text) of
             None \<Rightarrow> None | Some v \<Rightarrow> parse_u64 (trim v)))"

text \<open>\<open>split_whitespace\<close>, and the twentieth field after the last closing parenthesis.\<close>

function split_ws :: "string \<Rightarrow> string \<Rightarrow> string list" where
  "split_ws acc s =
     (case s of [] \<Rightarrow> if acc = [] then [] else [acc]
      | c # cs \<Rightarrow>
          (case strip_one white_space s of
             Some r \<Rightarrow> if acc = [] then split_ws [] r else acc # split_ws [] r
           | None \<Rightarrow> split_ws (acc @ [c]) cs))"
  by pat_completeness auto
termination by (relation "measure (length \<circ> snd)") (auto dest: strip_one_shorter)

declare split_ws.simps [simp del]

definition ticks_of :: "string \<Rightarrow> nat option" where
  "ticks_of stat =
     (if CHR '')'' \<notin> set stat then None
      else (let after = rev (takeWhile (\<lambda>c. c \<noteq> CHR '')'') (rev stat))
            in case nth_opt (split_ws [] after) 19 of
                 None \<Rightarrow> None
               | Some field \<Rightarrow> if list_all is_digit field then parse_u64 field else None))"

datatype stat_read = Found nat | Missing | Stat_Unknown

definition read_stat :: "proc_view \<Rightarrow> nat \<Rightarrow> stat_read" where
  "read_stat pv pid =
     (case pv_stat pv pid of
        Stat_Bytes b \<Rightarrow> (case ticks_of b of Some t \<Rightarrow> Found t | None \<Rightarrow> Stat_Unknown)
      | Stat_Not_Found \<Rightarrow> Missing
      | Stat_Refused \<Rightarrow> Stat_Unknown)"

definition start_from_ticks :: "proc_view \<Rightarrow> nat \<Rightarrow> nat option" where
  "start_from_ticks pv ticks =
     (case (boot_time pv, clock_ticks pv) of
        (Some boot, Some rate) \<Rightarrow> if boot + ticks div rate \<le> u64_max then Some (boot + ticks div rate) else None
      | _ \<Rightarrow> None)"

definition probe :: "proc_view \<Rightarrow> nat \<Rightarrow> probe_answer" where
  "probe pv pid =
     (case read_stat pv pid of
        Found ticks \<Rightarrow> Probe_Alive (start_from_ticks pv ticks)
      | Missing \<Rightarrow> if hidepid_active pv then Probe_Unknown else Probe_Gone
      | Stat_Unknown \<Rightarrow> Probe_Unknown)"

definition MAX_SAFE_PID :: nat where "MAX_SAFE_PID = 9007199254740991"

definition pid_is_askable :: "nat \<Rightarrow> bool \<Rightarrow> bool" where
  "pid_is_askable pid windows \<longleftrightarrow>
     (if pid = 0 \<or> MAX_SAFE_PID < pid then False else \<not> (windows \<and> (pid = 1 \<or> 2 ^ 32 - 1 < pid)))"

definition owner_state ::
  "(string \<Rightarrow> string) \<Rightarrow> claim \<Rightarrow> string option \<Rightarrow> bool \<Rightarrow> owner \<Rightarrow> bool \<Rightarrow> (nat \<Rightarrow> probe_answer) \<Rightarrow> owner_liveness" where
  "owner_state lower cl name_owner mine me hidepid ask =
     (case cl of
        Owned r \<Rightarrow>
          if \<not> ow_canonical r \<or> ow_owner r \<noteq> ow_owner me then Unknown
          else if (case name_owner of None \<Rightarrow> False | Some n \<Rightarrow> n \<noteq> ow_owner r) \<or> \<not> mine then Unknown
          else if lower (ow_host r) \<noteq> lower (ow_host me) then Unknown
          else if ends_with ''@linux'' (lower (ow_host me)) \<and>
            \<not> (case ow_ns r of None \<Rightarrow> False | Some ns \<Rightarrow> ow_ns me = Some ns) then Unknown
          else if \<not> pid_is_askable (ow_pid r) (ends_with ''@windows'' (lower (ow_host me))) then Unknown
          else (case ask (ow_pid r) of
              Probe_Gone \<Rightarrow> if hidepid then Unknown else Gone
            | Probe_Unknown \<Rightarrow> Unknown
            | Probe_Alive start \<Rightarrow>
                (case (ow_start r, start) of
                   (Some written, Some live) \<Rightarrow>
                     if START_TOLERANCE_S < (if written \<le> live then live - written else written - live)
                     then Unknown else Live
                 | _ \<Rightarrow> Live))
      | _ \<Rightarrow> Unknown)"

section \<open>This process\<close>

definition own_pid_namespace :: "proc_view \<Rightarrow> nat option" where
  "own_pid_namespace pv =
     (case pv_own_ns pv of None \<Rightarrow> None
      | Some link \<Rightarrow>
          if starts_with ''pid:['' link \<and> ends_with '']'' link \<and> 6 \<le> length link
          then (let digits = take (length link - 6) (drop 5 link)
                in if digits \<noteq> [] \<and> list_all is_digit digits then parse_u64 digits else None)
          else None)"

definition own_start :: "proc_view \<Rightarrow> nat \<Rightarrow> nat option" where
  "own_start pv pid = (case read_stat pv pid of Found t \<Rightarrow> start_from_ticks pv t | _ \<Rightarrow> None)"

definition this_owner :: "proc_view \<Rightarrow> string \<Rightarrow> string \<Rightarrow> string \<Rightarrow> nat \<Rightarrow> owner" where
  "this_owner pv token hostname distro pid =
     (let start = own_start pv pid
      in \<lparr>ow_owner = token, ow_host = host_id hostname distro @ ''@linux'', ow_pid = pid, ow_start = start,
          ow_ns = (case start of None \<Rightarrow> None | Some s \<Rightarrow> own_pid_namespace pv), ow_canonical = True\<rparr>)"

text \<open>The record handed down, when it is that of a live run of this user; and whether the warning was written.\<close>

definition run_record_from ::
  "(string \<Rightarrow> string) \<Rightarrow> owner \<Rightarrow> bool \<Rightarrow> (nat \<Rightarrow> probe_answer) \<Rightarrow> string option \<Rightarrow> owner \<times> bool" where
  "run_record_from lower me hidepid ask given =
     (case given of
        None \<Rightarrow> (me, False)
      | Some text \<Rightarrow>
          if text = [] then (me, False)
          else (case parse_owner text of
              Owned r \<Rightarrow>
                if ow_owner r = ow_owner me \<and> owner_state lower (Owned r) None True me hidepid ask = Live
                then (r, False) else (me, True)
            | _ \<Rightarrow> (me, True)))"

section \<open>The text of a record is read back\<close>

lemma show_nat_hd_zero: "hd (show_nat n) = CHR ''0'' \<Longrightarrow> n = 0"
proof (induction n rule: show_nat.induct)
  case (1 n)
  show ?case
  proof (cases "n < 10")
    case True
    with "1.prems" digit_char_props(2) [of n] show ?thesis
      by (simp add: show_nat.simps [of n] digit_val_def)
  next
    case False
    with "1.prems" have "hd (show_nat (n div 10)) = CHR ''0''" by (simp add: show_nat.simps [of n])
    with "1.IH" [OF False] False show ?thesis by simp
  qed
qed

lemma show_nat_canonical [simp]: "\<not> leading_zero (show_nat n)"
proof
  assume l: "leading_zero (show_nat n)"
  then have "n = 0" using show_nat_hd_zero [of n] by (simp add: leading_zero_def)
  with l show False by (simp add: leading_zero_def show_nat.simps [of 0])
qed

lemma show_nat_number_field [simp]: "number_field (show_nat n)"
  by (simp add: number_field_def)

lemma number_show [simp]: "n \<le> u64_max \<Longrightarrow> number (show_nat n) = n"
  by (simp add: number_def parse_show_nat)

lemma digit_ascii: "is_digit c \<Longrightarrow> byte_in 0 0x7F c \<and> \<not> colon c"
  by (auto simp: is_digit_def byte_in_def colon_def)

lemma colon_char [simp]: "colon (CHR '':'')"
  by (simp add: colon_def)

lemma utf8_append: "utf8_ok s \<Longrightarrow> utf8_ok t \<Longrightarrow> utf8_ok (s @ t)"
proof (induction s rule: utf8_ok.induct)
  case (2 c cs)
  show ?case
  proof (cases "byte_in 0 0x7F c")
    case True
    with 2 show ?thesis by simp
  next
    case 1: False
    with "2.prems"(1) obtain d ds where cs: "cs = d # ds" by (cases cs) simp_all
    show ?thesis
    proof (cases "byte_in 0xC2 0xDF c")
      case True
      with 1 2(2) [OF 1 cs True] "2.prems" cs show ?thesis by simp
    next
      case 2: False
      with 1 "2.prems"(1) cs obtain e es where ds: "ds = e # es" by (cases ds) simp_all
      show ?thesis
      proof (cases "byte_in 0xE0 0xEF c")
        case True
        with 1 2 "2.IH"(3) [OF 1 cs 2 ds True] "2.prems" cs ds show ?thesis by simp
      next
        case 3: False
        with 1 2 "2.prems"(1) cs ds obtain f fs where es: "es = f # fs" by (cases es) simp_all
        with 1 2 3 "2.IH"(4) [OF 1 cs 2 ds 3 es] "2.prems" cs ds show ?thesis by simp
      qed
    qed
  qed
qed simp

lemma utf8_ascii: "list_all (byte_in 0 0x7F) s \<Longrightarrow> utf8_ok s"
  by (induction s) auto

lemma utf8_digits: "list_all is_digit s \<Longrightarrow> utf8_ok s"
  by (rule utf8_ascii) (auto simp: list_all_iff digit_ascii)

lemma utf8_show [simp]: "utf8_ok (show_nat n)"
  by (simp add: utf8_digits)

lemma utf8_token: "is_owner_token t \<Longrightarrow> utf8_ok t"
proof (rule utf8_ascii)
  have "byte_in 0 0x7F (CHR ''u'')" "byte_in 0 0x7F (CHR ''w'')" by (simp_all add: byte_in_def)
  then show "is_owner_token t \<Longrightarrow> list_all (byte_in 0 0x7F) t"
    by (auto simp: is_owner_token_def list_all_iff digit_ascii split: list.splits)
qed

lemma token_no_colon: "is_owner_token t \<Longrightarrow> c \<in> set t \<Longrightarrow> \<not> colon c"
  by (auto simp: is_owner_token_def list_all_iff digit_ascii split: list.splits) (auto simp: colon_def)

lemma show_no_colon: "c \<in> set (show_nat n) \<Longrightarrow> \<not> colon c"
  using show_nat_digits [of n] by (auto simp: list_all_iff digit_ascii)

definition record_numbers :: "owner \<Rightarrow> nat list" where
  "record_numbers r = ow_pid r # (case ow_start r of None \<Rightarrow> []
     | Some start \<Rightarrow> start # (case ow_ns r of None \<Rightarrow> [] | Some ns \<Rightarrow> [ns]))"

lemma split_numbers:
  "split_by colon (concat (map (\<lambda>n. CHR '':'' # show_nat n) ns)) = [] # map show_nat ns"
proof (induction ns)
  case (Cons n ns)
  then show ?case
  proof (cases ns)
    case Nil
    then show ?thesis using show_no_colon [of _ n] by (auto intro: split_by_whole)
  next
    case (Cons m ms)
    let ?rest = "concat (map (\<lambda>n. CHR '':'' # show_nat n) (m # ms))"
    have "split_by colon (show_nat n @ ?rest) = show_nat n # tl (split_by colon ?rest)"
      using split_by_segment [of "show_nat n" colon "CHR '':''" "tl ?rest"] show_no_colon [of _ n]
      by simp
    with Cons Cons.IH show ?thesis by simp
  qed
qed simp

lemma format_owner_numbers:
  "format_owner r = ow_owner r @ CHR '':'' # ow_host r @ concat (map (\<lambda>n. CHR '':'' # show_nat n) (record_numbers r))"
  by (simp add: format_owner_def record_numbers_def split: option.split)

text \<open>What a record may hold for its text to be read: what \<open>this_owner\<close> makes.\<close>

definition record_ok :: "owner \<Rightarrow> bool" where
  "record_ok r \<longleftrightarrow> is_owner_token (ow_owner r) \<and> host_field (ow_host r) \<and> CHR '':'' \<notin> set (ow_host r) \<and>
     utf8_ok (ow_host r) \<and> (\<forall>n\<in>set (record_numbers r). n \<le> u64_max) \<and> (ow_start r = None \<longrightarrow> ow_ns r = None) \<and>
     ow_canonical r"

lemma split_format: "record_ok r \<Longrightarrow> split_by colon (format_owner r) = ow_owner r # ow_host r # map show_nat (record_numbers r)"
proof -
  assume ok: "record_ok r"
  let ?ns = "concat (map (\<lambda>n. CHR '':'' # show_nat n) (record_numbers r))"
  have ns: "?ns = CHR '':'' # tl ?ns" by (simp add: record_numbers_def)
  have "split_by colon (ow_host r @ CHR '':'' # tl ?ns) = ow_host r # split_by colon (tl ?ns)"
    using ok by (intro split_by_segment) (auto simp: record_ok_def colon_def [of _])
  moreover have "split_by colon (tl ?ns) = map show_nat (record_numbers r)"
    using split_numbers [of "record_numbers r"] by (subst (asm) ns) simp
  ultimately have "split_by colon (ow_host r @ ?ns) = ow_host r # map show_nat (record_numbers r)"
    by (subst ns) simp
  with split_by_segment [of "ow_owner r" colon "CHR '':''" "ow_host r @ ?ns"] token_no_colon [of "ow_owner r"] ok
  show ?thesis by (auto simp: format_owner_numbers record_ok_def)
qed

lemma utf8_numbers: "utf8_ok (concat (map (\<lambda>n. CHR '':'' # show_nat n) ns))"
  by (induction ns) (auto intro!: utf8_append simp: byte_in_def)

lemma utf8_format: "record_ok r \<Longrightarrow> utf8_ok (format_owner r)"
  unfolding format_owner_numbers
  by (intro utf8_append) (auto simp: record_ok_def utf8_token byte_in_def intro!: utf8_append utf8_numbers)

lemma strip_line_end_lf: "s \<noteq> [] \<Longrightarrow> last s \<noteq> CHR 0x0D \<Longrightarrow> strip_line_end (s @ [CHR 0x0A]) = s"
  by (cases s rule: rev_cases) (auto simp: strip_line_end_def ends_with_def)

lemma format_last: "format_owner r \<noteq> [] \<and> is_digit (last (format_owner r))"
  using show_nat_last_digit by (auto simp: format_owner_def split: option.split)

lemma record_read_back:
  assumes "record_ok r" and "length (format_owner r) < MAX_CLAIM_BYTES"
  shows "parse_owner (format_owner r @ [CHR 0x0A]) = Owned r"
proof -
  have strip: "strip_line_end (format_owner r @ [CHR 0x0A]) = format_owner r"
    using format_last [of r] by (intro strip_line_end_lf) (auto simp: is_digit_def)
  have "list_all number_field (map show_nat ns)" "\<not> list_ex leading_zero (map show_nat ns)" for ns
    by (induction ns) auto
  moreover have "length (record_numbers r) \<in> {1, 2, 3}" by (auto simp: record_numbers_def split: option.split)
  ultimately have g: "record_grammar (format_owner r) = Some (ow_owner r, ow_host r, map show_nat (record_numbers r))"
    using assms(1) by (auto simp: record_grammar_def split_format record_ok_def)
  have "utf8_ok (format_owner r @ [CHR 0x0A])"
    using utf8_format [OF assms(1)] by (intro utf8_append) (simp_all add: byte_in_def)
  moreover have "\<not> list_ex leading_zero (map show_nat (record_numbers r))"
    by (induction "record_numbers r") (auto simp: list_ex_iff)
  moreover have "\<not> MAX_CLAIM_BYTES < length (format_owner r @ [CHR 0x0A])" using assms(2) by simp
  ultimately have "parse_owner (format_owner r @ [CHR 0x0A]) =
      (let numbers = map show_nat (record_numbers r)
       in Owned \<lparr>ow_owner = ow_owner r, ow_host = ow_host r, ow_pid = number (numbers ! 0),
         ow_start = map_option number (nth_opt numbers 1), ow_ns = map_option number (nth_opt numbers 2),
         ow_canonical = True\<rparr>)"
    unfolding parse_owner_def by (simp only: strip g) (simp add: Let_def)
  also have "\<dots> = Owned r"
    using assms(1) by (cases r) (auto simp: record_numbers_def record_ok_def numeral_2_eq_2 split: option.splits)
  finally show ?thesis .
qed

section \<open>The host is always in the grammar\<close>

lemma strip_one_Some: "strip_one es s = Some r \<Longrightarrow> \<exists>e\<in>set es. e \<noteq> [] \<and> s = e @ r"
proof (induction es)
  case (Cons e es)
  then show ?case
    by (cases "e \<noteq> [] \<and> take (length e) s = e") (auto, metis append_take_drop_id)
qed simp

lemma host_scan_Nil [simp]: "host_scan b [] = []"
  by (simp add: host_scan.simps)

lemma host_scan_sep: "strip_one host_separators (c # cs) = Some r \<Longrightarrow>
    host_scan b (c # cs) = (if b then host_scan True r else CHR ''-'' # host_scan True r)"
  by (simp add: host_scan.simps [of b "c # cs"])

lemma host_scan_copy: "strip_one host_separators (c # cs) = None \<Longrightarrow> host_scan b (c # cs) = c # host_scan False cs"
  by (simp add: host_scan.simps [of b "c # cs"])

text \<open>What the result begins with, when it is no dash, was copied.\<close>

lemma host_scan_prefix:
  "starts_with e (host_scan False s) \<Longrightarrow> CHR ''-'' \<notin> set e \<Longrightarrow> starts_with e s"
proof (induction e arbitrary: s)
  case Nil
  then show ?case by (simp add: starts_with_def)
next
  case (Cons d e)
  show ?case
  proof (cases s)
    case Nil
    with Cons.prems show ?thesis by (simp add: starts_with_def)
  next
    case s: (Cons c cs)
    show ?thesis
    proof (cases "strip_one host_separators (c # cs)")
      case None
      with Cons.prems s have "d = c" "starts_with e (host_scan False cs)"
        by (auto simp: host_scan_copy starts_with_def)
      with Cons.IH [of cs] Cons.prems(2) s show ?thesis by (simp add: starts_with_def)
    next
      case (Some r)
      with Cons.prems s show ?thesis by (simp add: host_scan_sep starts_with_def)
    qed
  qed
qed

lemma strip_one_None: "strip_one es s = None \<Longrightarrow> e \<in> set es \<Longrightarrow> e \<noteq> [] \<Longrightarrow> \<not> starts_with e s"
  by (induction es) (auto simp: starts_with_def split: if_splits)

lemma host_scan_clean:
  assumes "e \<in> set host_separators" shows "\<not> contains_str e (host_scan b s)"
proof -
  have e: "e \<noteq> []" "CHR ''-'' \<notin> set e" using assms by (auto simp: host_separators_def host_spaces_def)
  have dash: "contains_str e (CHR ''-'' # t) = contains_str e t" for t
    using e by (cases e) (auto simp: starts_with_def)
  show ?thesis
  proof (induction b s rule: host_scan.induct)
    case (1 b s)
    show ?case
    proof (cases s)
      case Nil
      with e show ?thesis by simp
    next
      case s: (Cons c cs)
      show ?thesis
      proof (cases "strip_one host_separators (c # cs)")
        case None
        have "\<not> starts_with e (c # host_scan False cs)"
        proof
          assume "starts_with e (c # host_scan False cs)"
          then have "starts_with e (host_scan False (c # cs))" using None by (simp add: host_scan_copy)
          from host_scan_prefix [OF this e(2)] strip_one_None [OF None assms e(1)] show False by contradiction
        qed
        with None s "1.IH"(1) [OF s None [folded s]] show ?thesis by (simp add: host_scan_copy)
      next
        case (Some r)
        with s "1.IH"(2,3) [OF s] show ?thesis by (simp add: host_scan_sep dash del: contains_str.simps)
      qed
    qed
  qed
qed

lemma host_scan_not_Nil: "s \<noteq> [] \<Longrightarrow> host_scan False s \<noteq> []"
proof (cases s)
  case (Cons c cs)
  then show ?thesis by (cases "strip_one host_separators (c # cs)") (simp_all add: host_scan_copy host_scan_sep)
qed simp

lemma starts_with_cut: "x \<notin> set e \<Longrightarrow> starts_with e (a @ x # b) \<Longrightarrow> starts_with e a"
proof (induction e arbitrary: a)
  case (Cons d e)
  then show ?case by (cases a) (auto simp: starts_with_def)
qed (simp add: starts_with_def)

lemma contains_append_tilde:
  assumes "CHR ''~'' \<notin> set e" "e \<noteq> []" "\<not> contains_str e a" "\<not> contains_str e b"
  shows "\<not> contains_str e (a @ CHR ''~'' # b)"
  using assms(3)
proof (induction a)
  case Nil
  with assms show ?case by (cases e) (auto simp: starts_with_def)
next
  case (Cons c a)
  have "\<not> starts_with e (c # a @ CHR ''~'' # b)"
    using starts_with_cut [OF assms(1), of "c # a" b] Cons.prems by auto
  with Cons show ?case by simp
qed

text \<open>Normalising keeps valid UTF-8 valid.\<close>

lemma utf8_drop_separator:
  assumes "strip_one host_separators s = Some r" and "utf8_ok s" shows "utf8_ok r"
proof -
  from strip_one_Some [OF assms(1)] obtain e where e: "e \<in> set host_separators" "s = e @ r" by blast
  have "\<forall>e\<in>set host_separators. utf8_ok (e @ r) \<longrightarrow> utf8_ok r"
    by (simp add: host_separators_def host_spaces_def byte_in_def)
  with e assms(2) show ?thesis by blast
qed

lemma continuation_copied: "byte_in 0x80 0xBF d \<Longrightarrow> host_scan b (d # ds) = d # host_scan False ds"
proof (rule host_scan_copy, rule strip_one_hd)
  assume "byte_in 0x80 0xBF d"
  then show "\<forall>e\<in>set host_separators. e \<noteq> [] \<longrightarrow> hd e \<noteq> hd (d # ds)"
    by (auto simp: host_separators_def host_spaces_def byte_in_def)
qed simp

lemma byte_in_weaken: "byte_in lo hi c \<Longrightarrow> lo' \<le> lo \<Longrightarrow> hi \<le> hi' \<Longrightarrow> byte_in lo' hi' c"
  by (auto simp: byte_in_def)

lemma utf8_host_scan: "utf8_ok s \<Longrightarrow> utf8_ok (host_scan b s)"
proof (induction s arbitrary: b rule: length_induct)
  case (1 s)
  show ?case
  proof (cases s)
    case s: (Cons c cs)
    show ?thesis
    proof (cases "strip_one host_separators (c # cs)")
      case (Some r)
      from utf8_drop_separator [OF Some] 1 strip_one_shorter [OF Some] s have "utf8_ok (host_scan True r)" by simp
      with Some s show ?thesis by (simp add: host_scan_sep byte_in_def)
    next
      case None
      have IH: "utf8_ok t \<Longrightarrow> length t < length s \<Longrightarrow> utf8_ok (host_scan False t)" for t using 1 by blast
      show ?thesis
      proof (cases "byte_in 0 0x7F c")
        case True
        with None s "1.prems" IH [of cs] show ?thesis by (simp add: host_scan_copy)
      next
        case a: False
        with "1.prems" s obtain d ds where cs: "cs = d # ds" by (cases cs) simp_all
        show ?thesis
        proof (cases "byte_in 0xC2 0xDF c")
          case True
          with a "1.prems" s cs have d: "byte_in 0x80 0xBF d" "utf8_ok ds" by simp_all
          with a True None s cs IH [of ds] show ?thesis by (simp add: host_scan_copy continuation_copied)
        next
          case b: False
          with a "1.prems" s cs obtain e es where ds: "ds = e # es" by (cases ds) simp_all
          have d: "byte_in 0x80 0xBF d"
            using a b "1.prems" s cs ds by (auto split: if_splits list.splits intro: byte_in_weaken)
          have e: "byte_in 0x80 0xBF e"
            using a b "1.prems" s cs ds by (auto split: if_splits list.splits)
          show ?thesis
          proof (cases "byte_in 0xE0 0xEF c")
            case True
            with a b d e None s cs ds "1.prems" IH [of es] show ?thesis
              by (simp add: host_scan_copy continuation_copied)
          next
            case c: False
            with a b "1.prems" s cs ds obtain f fs where es: "es = f # fs" by (cases es) simp_all
            with a b c "1.prems" s cs ds have "byte_in 0x80 0xBF f" "utf8_ok fs" by simp_all
            with a b c d e None s cs ds es "1.prems" IH [of fs] show ?thesis
              by (simp add: host_scan_copy continuation_copied)
          qed
        qed
      qed
    qed
  qed simp
qed

lemma utf8_host_id: "utf8_ok raw \<Longrightarrow> utf8_ok distro \<Longrightarrow> utf8_ok (host_id raw distro)"
  by (simp add: host_id_def host_name_def utf8_host_scan utf8_append byte_in_def)

lemma host_id_clean:
  assumes "e \<in> set host_separators" shows "\<not> contains_str e (host_id raw distro)"
proof -
  have "CHR ''~'' \<notin> set e" "e \<noteq> []" using assms by (auto simp: host_separators_def host_spaces_def)
  from contains_append_tilde [OF this] host_scan_clean [OF assms] show ?thesis
    by (simp add: host_id_def host_name_def)
qed

lemma contains_one: "contains_str [c] s \<longleftrightarrow> c \<in> set s"
  by (induction s) (auto simp: starts_with_def)

lemma host_id_chars: "CHR ''@'' \<notin> set (host_id raw distro)" "CHR '':'' \<notin> set (host_id raw distro)"
  using host_id_clean [of "[CHR ''@'']" raw distro] host_id_clean [of "[CHR '':'']" raw distro]
  by (simp_all add: contains_one host_separators_def)

lemma host_id_field: "raw \<noteq> [] \<Longrightarrow> host_field (host_id raw distro @ ''@linux'')"
proof -
  assume "raw \<noteq> []"
  then have "host_id raw distro \<noteq> []" by (simp add: host_id_def host_name_def host_scan_not_Nil)
  moreover have "split_by at_sign (host_id raw distro @ CHR ''@'' # ''linux'') = [host_id raw distro, ''linux'']"
    using host_id_chars(1) [of raw distro] by (subst split_by_segment) (auto simp: at_sign_def)
  moreover have "list_all (\<lambda>e. \<not> contains_str e (host_id raw distro)) host_spaces"
    using host_id_clean by (auto simp: list_all_iff host_separators_def)
  ultimately show ?thesis by (simp add: host_field_def)
qed

lemma start_bound: "start_from_ticks pv t = Some s \<Longrightarrow> s \<le> u64_max"
  by (auto simp: start_from_ticks_def split: option.splits if_splits)

lemma own_start_bound: "own_start pv pid = Some s \<Longrightarrow> s \<le> u64_max"
  by (auto simp: own_start_def start_bound split: stat_read.splits)

lemma own_ns_bound: "own_pid_namespace pv = Some n \<Longrightarrow> n \<le> u64_max"
  by (auto simp: own_pid_namespace_def Let_def parse_unsigned_bound split: option.splits if_splits)

lemma this_owner_ok:
  assumes "is_owner_token token" "hostname \<noteq> []" "utf8_ok hostname" "utf8_ok distro" "pid < 2 ^ 32"
  shows "record_ok (this_owner pv token hostname distro pid)"
  using assms host_id_field [of hostname distro] host_id_chars(2) [of hostname distro] own_start_bound [of pv pid]
    own_ns_bound [of pv]
  by (auto simp: record_ok_def this_owner_def Let_def record_numbers_def utf8_host_id byte_in_def u64_max_def
      intro!: utf8_append split: option.splits)

section \<open>What the record and the process list decide\<close>

text \<open>
  C33: A claim is read back as it was written. Whatever the host is called and whatever WSL distribution it runs
  in, the record of this process, written on a line of at most 512 bytes, parses to exactly that record: the
  host loses its separators on the way in, and every number comes back.
\<close>

theorem claim_roundtrip:
  assumes "is_owner_token token" and "hostname \<noteq> []" and "utf8_ok hostname" and "utf8_ok distro" and "pid < 2 ^ 32"
    and "length (format_owner (this_owner pv token hostname distro pid)) < MAX_CLAIM_BYTES"
  shows "parse_owner (format_owner (this_owner pv token hostname distro pid) @ [CHR 0x0A]) =
    Owned (this_owner pv token hostname distro pid)"
  by (rule record_read_back [OF this_owner_ok [OF assms(1-5)] assms(6)])

lemma probe_gone: "probe pv pid = Probe_Gone \<longleftrightarrow> pv_one_visible pv \<and> pv_stat pv pid = Stat_Not_Found"
  by (simp add: probe_def read_stat_def hidepid_active_def split: stat_answer.split option.split)

lemma owner_state_gone:
  "owner_state lower (Owned r) name_owner mine me hidepid ask = Gone \<longleftrightarrow>
     ow_canonical r \<and> ow_owner r = ow_owner me \<and> (name_owner = None \<or> name_owner = Some (ow_owner me)) \<and> mine \<and>
     lower (ow_host r) = lower (ow_host me) \<and>
     (ends_with ''@linux'' (lower (ow_host me)) \<longrightarrow> ow_ns r \<noteq> None \<and> ow_ns r = ow_ns me) \<and>
     pid_is_askable (ow_pid r) (ends_with ''@windows'' (lower (ow_host me))) \<and>
     ask (ow_pid r) = Probe_Gone \<and> \<not> hidepid" (is "?s = Gone \<longleftrightarrow> ?c")
proof (cases "ask (ow_pid r)")
  case (Probe_Alive start)
  have "(case (ow_start r, start) of
       (Some written, Some live) \<Rightarrow>
         if START_TOLERANCE_S < (if written \<le> live then live - written else written - live) then Unknown else Live
     | _ \<Rightarrow> Live) \<noteq> Gone" by (simp split: option.split)
  with Probe_Alive show ?thesis by (simp add: owner_state_def)
next
  case Probe_Gone
  define sys win ns where "sys = ends_with ''@linux'' (lower (ow_host me))"
    and "win = pid_is_askable (ow_pid r) (ends_with ''@windows'' (lower (ow_host me)))"
    and "ns = (case ow_ns r of None \<Rightarrow> False | Some ns \<Rightarrow> ow_ns me = Some ns)"
  have ns: "ns \<longleftrightarrow> ow_ns r \<noteq> None \<and> ow_ns r = ow_ns me" by (auto simp: ns_def split: option.split)
  show ?thesis
    by (cases name_owner, auto simp: owner_state_def Probe_Gone sys_def [symmetric] win_def [symmetric]
        ns_def [symmetric] ns, metis+)
qed (simp add: owner_state_def)

lemma owner_state_gone_owned: "owner_state lower cl n mine me hidepid ask = Gone \<Longrightarrow> \<exists>r. cl = Owned r"
  by (cases cl) (simp_all add: owner_state_def)

text \<open>
  What the judgement needs of a probe, whichever system answers it: \<open>Probe_Gone\<close> is said exactly of the numbers that
  the system itself has ruled out.
\<close>

locale process_probe =
  fixes ask :: "nat \<Rightarrow> probe_answer"
    and ruled_out :: "nat \<Rightarrow> bool"
  assumes gone_iff: "ask pid = Probe_Gone \<longleftrightarrow> ruled_out pid"
begin

lemma judged_gone:
  "owner_state lower cl name_owner mine me hidepid ask = Gone \<longleftrightarrow>
     (\<exists>r. cl = Owned r \<and> ow_canonical r \<and> ow_owner r = ow_owner me \<and>
        (name_owner = None \<or> name_owner = Some (ow_owner me)) \<and> mine \<and>
        lower (ow_host r) = lower (ow_host me) \<and>
        (ends_with ''@linux'' (lower (ow_host me)) \<longrightarrow> ow_ns r \<noteq> None \<and> ow_ns r = ow_ns me) \<and>
        pid_is_askable (ow_pid r) (ends_with ''@windows'' (lower (ow_host me))) \<and>
        ruled_out (ow_pid r) \<and> \<not> hidepid)"
proof (cases cl)
  case (Owned r)
  then show ?thesis unfolding Owned owner_state_gone gone_iff by auto
qed (simp_all add: owner_state_def)

end

interpretation linux_probe: process_probe "probe pv" "\<lambda>pid. pv_one_visible pv \<and> pv_stat pv pid = Stat_Not_Found" for pv
  by unfold_locales (rule probe_gone)

text \<open>
  C34: Only a process that is certainly gone counts as gone. A claim is judged \<open>Gone\<close> exactly when it is a record in
  canonical form of the caller's own owner, the name beside it agrees, the entry is the caller's by the file system,
  it was written on this machine and, on Linux, in this process namespace, its number can name a process, and
  the process list, which hides none, has no such process.
\<close>

theorem gone_is_certain:
  "owner_state lower cl name_owner mine me (hidepid_active pv) (probe pv) = Gone \<longleftrightarrow>
     (\<exists>r. cl = Owned r \<and> ow_canonical r \<and> ow_owner r = ow_owner me \<and>
        (name_owner = None \<or> name_owner = Some (ow_owner me)) \<and> mine \<and>
        lower (ow_host r) = lower (ow_host me) \<and>
        (ends_with ''@linux'' (lower (ow_host me)) \<longrightarrow> ow_ns r \<noteq> None \<and> ow_ns r = ow_ns me) \<and>
        pid_is_askable (ow_pid r) (ends_with ''@windows'' (lower (ow_host me))) \<and>
        pv_one_visible pv \<and> pv_stat pv (ow_pid r) = Stat_Not_Found)"
  unfolding linux_probe.judged_gone hidepid_active_def by auto

lemma running_probe:
  assumes "pv_stat pv pid = Stat_Bytes b" and "ticks_of b = Some t"
  shows "probe pv pid = Probe_Alive (own_start pv pid)"
  using assms by (simp add: probe_def read_stat_def own_start_def)

text \<open>
  The folder of a running test is never abandoned. The claim that a running process of this user writes, read
  by another process of the same machine and process namespace that can see its line in the process list, is judged
  live, however its start time was computed; and by every reader whatsoever it is never judged gone while that
  line is there.
\<close>

theorem running_claim_is_live:
  assumes "pv_stat pv pid = Stat_Bytes b" and "ticks_of b = Some t"
    and "is_owner_token token" and "hostname \<noteq> []" and "utf8_ok hostname" and "utf8_ok distro"
    and "0 < pid" and "pid < 2 ^ 32" and "lower (host_id hostname distro @ ''@linux'') = l @ ''@linux''"
    and "length (format_owner (this_owner pv token hostname distro pid)) < MAX_CLAIM_BYTES"
  shows "(own_pid_namespace pv \<noteq> None \<and> own_start pv pid \<noteq> None \<and> own_start pv pid' \<noteq> None \<longrightarrow>
      owner_state lower (parse_owner (format_owner (this_owner pv token hostname distro pid) @ [CHR 0x0A]))
        (Some token) True (this_owner pv token hostname distro pid') (hidepid_active pv) (probe pv) = Live) \<and>
    owner_state lower (parse_owner (format_owner (this_owner pv token hostname distro pid) @ [CHR 0x0A]))
      name_owner mine me hidepid (probe pv) \<noteq> Gone"
proof -
  let ?o = "this_owner pv token hostname distro pid"
  have parsed: "parse_owner (format_owner ?o @ [CHR 0x0A]) = Owned ?o"
    by (rule record_read_back [OF this_owner_ok [OF assms(3-6,8)] assms(10)])
  have alive: "probe pv pid = Probe_Alive (own_start pv pid)" by (rule running_probe [OF assms(1,2)])
  have tag: "ends_with ''@linux'' (l @ ''@linux'')" "\<not> ends_with ''@windows'' (l @ ''@linux'')"
    by (auto simp: ends_with_def drop_append)
  have ask: "pid_is_askable pid False" using assms(7,8) by (simp add: pid_is_askable_def MAX_SAFE_PID_def)
  have "own_pid_namespace pv \<noteq> None \<Longrightarrow> own_start pv pid \<noteq> None \<Longrightarrow> own_start pv pid' \<noteq> None \<Longrightarrow>
      owner_state lower (Owned ?o) (Some token) True (this_owner pv token hostname distro pid')
        (hidepid_active pv) (probe pv) = Live"
    using tag ask alive assms(9)
    by (auto simp: owner_state_def this_owner_def Let_def START_TOLERANCE_S_def split: option.splits)
  moreover have "owner_state lower (Owned ?o) name_owner mine me hidepid (probe pv) \<noteq> Gone"
    using alive by (auto simp: owner_state_def this_owner_def Let_def split: option.splits if_splits)
  ultimately show ?thesis unfolding parsed by blast
qed

section \<open>Witnesses\<close>

lemma split_ws_Nil: "split_ws acc [] = (if acc = [] then [] else [acc])"
  and split_ws_Cons: "split_ws acc (c # cs) =
    (case strip_one white_space (c # cs) of
       Some r \<Rightarrow> if acc = [] then split_ws [] r else acc # split_ws [] r
     | None \<Rightarrow> split_ws (acc @ [c]) cs)"
  by (simp_all add: split_ws.simps [of acc "[]"] split_ws.simps [of acc "c # cs"])

definition sample_stat :: string where
  "sample_stat = ''7 (a b) c) S 1 2 3 4 5 6 7 8 9 10 11 12 13 14 15 16 17 18 300 20''"

definition sample_proc :: proc_view where
  "sample_proc = \<lparr>pv_stat = (\<lambda>pid. if pid = 7 \<or> pid = 8 then Stat_Bytes sample_stat else Stat_Not_Found),
     pv_boot = Some ''btime 100'', pv_clock_ticks = 100, pv_one_visible = True, pv_own_ns = Some ''pid:[42]''\<rparr>"

lemma sample_ticks: "ticks_of sample_stat = Some 300"
proof -
  have "split_ws [] '' S 1 2 3 4 5 6 7 8 9 10 11 12 13 14 15 16 17 18 300 20'' =
      [''S'', ''1'', ''2'', ''3'', ''4'', ''5'', ''6'', ''7'', ''8'', ''9'', ''10'', ''11'', ''12'', ''13'', ''14'',
       ''15'', ''16'', ''17'', ''18'', ''300'', ''20'']" by code_simp
  then show ?thesis
    by (simp add: ticks_of_def sample_stat_def parse_unsigned_def digits_val_def is_digit_def digit_val_def u64_max_def)
qed

lemma sample_starts: "own_start sample_proc 7 = Some 103" "own_start sample_proc 8 = Some 103"
  and sample_ns: "own_pid_namespace sample_proc = Some 42"
proof -
  have "trim ''100'' = ''100''" by code_simp
  then have "boot_time sample_proc = Some 100"
    by (simp add: boot_time_def sample_proc_def starts_with_def parse_unsigned_def digits_val_def is_digit_def
        digit_val_def u64_max_def)
  then show "own_start sample_proc 7 = Some 103" "own_start sample_proc 8 = Some 103"
    by (simp_all add: own_start_def read_stat_def start_from_ticks_def clock_ticks_def sample_proc_def sample_ticks
        u64_max_def)
  show "own_pid_namespace sample_proc = Some 42"
    by (simp add: own_pid_namespace_def sample_proc_def starts_with_def ends_with_def parse_unsigned_def digits_val_def
        is_digit_def digit_val_def u64_max_def)
qed

lemma sample_host: "host_id ''my box'' [] = ''my-box''"
  by code_simp

lemma sample_record: "format_owner (this_owner sample_proc ''u1000'' ''my box'' [] 7) = ''u1000:my-box@linux:7:103:42''"
proof -
  have "show_nat 7 = ''7''" "show_nat 103 = ''103''" "show_nat 42 = ''42''" by code_simp+
  then show ?thesis by (simp add: this_owner_def sample_starts sample_ns sample_host format_owner_def)
qed

lemma sample_token: "is_owner_token ''u1000''"
  by (simp add: is_owner_token_def is_digit_def)

lemma claim_roundtrip_witness:
  "parse_owner (''u1000:my-box@linux:7:103:42'' @ [CHR 0x0A]) =
     Owned (this_owner sample_proc ''u1000'' ''my box'' [] 7)"
  using claim_roundtrip [OF sample_token, of "''my box''" "[]" 7 sample_proc]
  by (simp add: sample_record MAX_CLAIM_BYTES_def byte_in_def)

lemma running_claim_is_live_witness:
  "owner_state lowercase (parse_owner (''u1000:my-box@linux:7:103:42'' @ [CHR 0x0A])) (Some ''u1000'') True
     (this_owner sample_proc ''u1000'' ''my box'' [] 8) False (probe sample_proc) = Live"
proof -
  have "lowercase (host_id ''my box'' [] @ ''@linux'') = ''my-box'' @ ''@linux''"
    unfolding sample_host by code_simp
  moreover have "pv_stat sample_proc 7 = Stat_Bytes sample_stat" by (simp add: sample_proc_def)
  moreover have "hidepid_active sample_proc = False" by (simp add: hidepid_active_def sample_proc_def)
  ultimately show ?thesis
    using running_claim_is_live [OF _ sample_ticks sample_token, of sample_proc 7 "''my box''" "[]" lowercase "''my-box''" 8]
    by (simp add: sample_record MAX_CLAIM_BYTES_def byte_in_def sample_starts sample_ns)
qed

lemma gone_is_certain_witness:
  "owner_state lowercase (Owned ((this_owner sample_proc ''u1000'' ''my box'' [] 7)\<lparr>ow_pid := 9\<rparr>)) (Some ''u1000'') True
     (this_owner sample_proc ''u1000'' ''my box'' [] 8) (hidepid_active sample_proc) (probe sample_proc) = Gone"
proof -
  have "lowercase (host_id ''my box'' [] @ ''@linux'') = ''my-box@linux''" unfolding sample_host by code_simp
  then have "\<not> ends_with ''@windows'' (lowercase (host_id ''my box'' [] @ ''@linux''))"
    by (simp add: ends_with_def)
  moreover have "pid_is_askable 9 False" by (simp add: pid_is_askable_def MAX_SAFE_PID_def)
  moreover have "pv_stat sample_proc 9 = Stat_Not_Found" "pv_one_visible sample_proc" by (simp_all add: sample_proc_def)
  ultimately show ?thesis
    by (subst gone_is_certain) (simp add: this_owner_def sample_starts sample_ns)
qed

end
