(* ===== verification/Scratch_Files.thy ===== *)
theory Scratch_Files
  imports Scratch_Owner
begin

text \<open>
  \<open>src/test_scratch/identity.rs\<close> and \<open>rename.rs\<close> (the Linux build): what identifies an entry, the move that never
  replaces, and the removal with retries. The file system is the map from the names in one directory to the
  entries there; every folder, claim and quarantine of a sweep stands in the same directory. What the system
  refuses, the identity of a new entry and the change time of a moved one are what it answers.
\<close>

section \<open>The directory\<close>

record file_id =
  fi_dev :: nat
  fi_ino :: nat
  fi_changed :: "int \<times> int"

datatype inner = Inner_File string | Inner_Other

datatype kind = Regular string | Folder "(string \<times> inner) list" | Link | Special

record entry =
  en_id :: file_id
  en_kind :: kind
  en_uid :: nat
  en_modified :: "nanos option"

type_synonym store = "string \<rightharpoonup> entry"

text \<open>
  The system: the caller's uid, which names refuse to be read about, opened or
  created, the error of a write and what it had written, the text of the error when a
  removal (at an attempt) or a move fails, the identity of a new entry and the change time of a moved one, what a
  failed removal of a tree leaves of it, and whether the file system knows the exclusive move.
\<close>

record system =
  sy_uid :: nat
  sy_now :: nanos
  sy_no_stat :: "string \<Rightarrow> bool"
  sy_no_open :: "string \<Rightarrow> bool"
  sy_no_create :: "string \<Rightarrow> string option"
  sy_no_write :: "string \<Rightarrow> (string \<times> string) option"
  sy_no_remove :: "string \<Rightarrow> nat \<Rightarrow> string option"
  sy_no_move :: "string \<Rightarrow> string \<Rightarrow> string option"
  sy_new_id :: "store \<Rightarrow> string \<Rightarrow> file_id"
  sy_ctime :: "store \<Rightarrow> string \<Rightarrow> int \<times> int"
  sy_left :: "string \<Rightarrow> nat \<Rightarrow> (string \<times> inner) list \<Rightarrow> (string \<times> inner) list \<times> (int \<times> int) \<times> nanos option"
  sy_noreplace :: bool

datatype meta = Meta entry | Not_Found | Refused

definition symlink_metadata :: "system \<Rightarrow> store \<Rightarrow> string \<Rightarrow> meta" where
  "symlink_metadata sys st name =
     (case st name of None \<Rightarrow> Not_Found | Some e \<Rightarrow> if sy_no_stat sys name then Refused else Meta e)"

section \<open>Identity\<close>

definition same_inode :: "file_id \<Rightarrow> file_id \<Rightarrow> bool" where
  "same_inode a b \<longleftrightarrow> fi_dev a = fi_dev b \<and> fi_ino a = fi_ino b"

definition same_id :: "file_id option \<Rightarrow> file_id option \<Rightarrow> bool" where
  "same_id a b \<longleftrightarrow> (case (a, b) of (Some x, Some y) \<Rightarrow> x = y | _ \<Rightarrow> False)"

definition entry_id :: "system \<Rightarrow> store \<Rightarrow> string \<Rightarrow> file_id option" where
  "entry_id sys st name = (case symlink_metadata sys st name of Meta e \<Rightarrow> Some (en_id e) | _ \<Rightarrow> None)"

definition changed_at :: "system \<Rightarrow> store \<Rightarrow> string \<Rightarrow> nanos option" where
  "changed_at sys st name =
     (case symlink_metadata sys st name of
        Meta e \<Rightarrow> (case fi_changed (en_id e) of (seconds, nanos) \<Rightarrow>
          if seconds < 0 \<or> nanos < 0 \<or> 2 ^ 32 \<le> nanos then None else Some (nat seconds * 1000000000 + nat nanos))
      | _ \<Rightarrow> None)"

fun is_plain_file :: "kind \<Rightarrow> bool" where
  "is_plain_file (Regular text) = True"
| "is_plain_file _ = False"

fun is_real_dir :: "kind \<Rightarrow> bool" where
  "is_real_dir (Folder inside) = True"
| "is_real_dir _ = False"

definition is_mine :: "system \<Rightarrow> store \<Rightarrow> string \<Rightarrow> bool" where
  "is_mine sys st name =
     (case symlink_metadata sys st name of
        Meta e \<Rightarrow> (is_real_dir (en_kind e) \<or> is_plain_file (en_kind e)) \<and> en_uid e = sy_uid sys
      | _ \<Rightarrow> False)"

section \<open>Creating\<close>

datatype create_answer = Created | Already_Exists | Create_Failed string

definition new_entry :: "system \<Rightarrow> store \<Rightarrow> string \<Rightarrow> kind \<Rightarrow> entry" where
  "new_entry sys st name k =
     \<lparr>en_id = sy_new_id sys st name, en_kind = k, en_uid = sy_uid sys, en_modified = Some (sy_now sys)\<rparr>"

text \<open>Both creates are exclusive: \<open>create_new\<close> for a file, \<open>create_dir\<close> for a folder.\<close>

definition create_exclusive :: "system \<Rightarrow> string \<Rightarrow> kind \<Rightarrow> store \<Rightarrow> create_answer \<times> store" where
  "create_exclusive sys name k st =
     (case st name of
        Some e \<Rightarrow> (Already_Exists, st)
      | None \<Rightarrow> (case sy_no_create sys name of
          Some error \<Rightarrow> (Create_Failed error, st)
        | None \<Rightarrow> (Created, st(name \<mapsto> new_entry sys st name k))))"

section \<open>Removing\<close>

text \<open>What a failed removal leaves of a folder: some of its content, and new times.\<close>

definition left_entry :: "system \<Rightarrow> string \<Rightarrow> nat \<Rightarrow> entry \<Rightarrow> entry" where
  "left_entry sys name attempt e =
     (case en_kind e of
        Folder inside \<Rightarrow>
          (case sy_left sys name attempt inside of (rest, changed, modified) \<Rightarrow>
            e\<lparr>en_kind := Folder rest, en_id := (en_id e)\<lparr>fi_changed := changed\<rparr>, en_modified := modified\<rparr>)
      | _ \<Rightarrow> e)"

datatype remove_answer = Removed | Was_Absent | Remove_Failed string

definition remove_file :: "system \<Rightarrow> string \<Rightarrow> nat \<Rightarrow> store \<Rightarrow> remove_answer \<times> store" where
  "remove_file sys name attempt st =
     (case st name of
        None \<Rightarrow> (Was_Absent, st)
      | Some e \<Rightarrow>
          (case sy_no_remove sys name attempt of
             Some error \<Rightarrow> (Remove_Failed error, st)
           | None \<Rightarrow> if is_real_dir (en_kind e) then (Remove_Failed ''Is a directory'', st) else (Removed, st(name := None))))"

text \<open>A removal of a tree that fails may have removed a part of it; a link is removed itself.\<close>

definition remove_dir_all :: "system \<Rightarrow> string \<Rightarrow> nat \<Rightarrow> store \<Rightarrow> remove_answer \<times> store" where
  "remove_dir_all sys name attempt st =
     (case st name of
        None \<Rightarrow> (Was_Absent, st)
      | Some e \<Rightarrow>
          if is_plain_file (en_kind e) \<or> en_kind e = Special then (Remove_Failed ''Not a directory'', st)
          else (case sy_no_remove sys name attempt of
              Some error \<Rightarrow> (Remove_Failed error, st(name \<mapsto> left_entry sys name attempt e))
            | None \<Rightarrow> (Removed, st(name := None))))"

definition REMOVE_TRIES :: nat where "REMOVE_TRIES = 5"

text \<open>The attempts that are left, from a number on; the error is that of the last attempt.\<close>

fun retry_from :: "nat \<Rightarrow> nat \<Rightarrow> (nat \<Rightarrow> 's \<Rightarrow> remove_answer \<times> 's) \<Rightarrow> string \<Rightarrow> 's \<Rightarrow> string option \<times> 's" where
  "retry_from attempt 0 remover error st = (Some error, st)"
| "retry_from attempt (Suc left) remover error st =
     (case remover attempt st of
        (Removed, st') \<Rightarrow> (None, st')
      | (Was_Absent, st') \<Rightarrow> (None, st')
      | (Remove_Failed e, st') \<Rightarrow> retry_from (attempt + 1) left remover e st')"

definition remove_with_retries :: "(nat \<Rightarrow> 's \<Rightarrow> remove_answer \<times> 's) \<Rightarrow> 's \<Rightarrow> string option \<times> 's" where
  "remove_with_retries remover st = retry_from 1 REMOVE_TRIES remover ''no attempt was made'' st"

section \<open>Moving\<close>

datatype move_answer = Moved | Taken | Move_Failed string

definition moved_entry :: "system \<Rightarrow> store \<Rightarrow> string \<Rightarrow> entry \<Rightarrow> entry" where
  "moved_entry sys st to e = e\<lparr>en_id := (en_id e)\<lparr>fi_changed := sy_ctime sys st to\<rparr>\<rparr>"

definition renameat2_noreplace :: "system \<Rightarrow> string \<Rightarrow> string \<Rightarrow> store \<Rightarrow> move_answer \<times> store" where
  "renameat2_noreplace sys from to st =
     (case st from of
        None \<Rightarrow> (Move_Failed ''No such file or directory'', st)
      | Some e \<Rightarrow>
          if st to \<noteq> None then (Taken, st)
          else (case sy_no_move sys from to of
              Some error \<Rightarrow> (Move_Failed error, st)
            | None \<Rightarrow> (Moved, (st(from := None))(to \<mapsto> moved_entry sys st to e))))"

text \<open>\<open>rename(2)\<close>: a folder replaces an empty folder, and nothing replaces or is replaced by a folder otherwise.\<close>

definition rename_onto :: "system \<Rightarrow> string \<Rightarrow> string \<Rightarrow> store \<Rightarrow> move_answer \<times> store" where
  "rename_onto sys from to st =
     (case st from of
        None \<Rightarrow> (Move_Failed ''No such file or directory'', st)
      | Some e \<Rightarrow>
          if sy_no_move sys from to \<noteq> None then (Move_Failed (the (sy_no_move sys from to)), st)
          else if (case st to of None \<Rightarrow> True
              | Some t \<Rightarrow> (if is_real_dir (en_kind e) then en_kind t = Folder [] else \<not> is_real_dir (en_kind t)))
          then (Moved, (st(from := None))(to \<mapsto> moved_entry sys st to e))
          else (Move_Failed ''Directory not empty'', st))"

text \<open>\<open>between\<close> is what somebody else does between the placeholder and the move.\<close>

definition move_via_placeholder ::
  "system \<Rightarrow> (store \<Rightarrow> store) \<Rightarrow> string \<Rightarrow> string \<Rightarrow> store \<Rightarrow> move_answer \<times> store" where
  "move_via_placeholder sys between from to st =
     (case create_exclusive sys to (Folder []) st of
        (Already_Exists, st1) \<Rightarrow> (Taken, st1)
      | (Create_Failed error, st1) \<Rightarrow> (Move_Failed error, st1)
      | (Created, st1) \<Rightarrow>
          (let placeholder = entry_id sys st1 to; st2 = between st1
           in case rename_onto sys from to st2 of
                (Moved, st3) \<Rightarrow> (Moved, st3)
              | (failed, st3) \<Rightarrow>
                  (failed, if same_id (entry_id sys st3 to) placeholder \<and> sy_no_remove sys to 0 = None \<and>
                       map_option en_kind (st3 to) = Some (Folder [])
                     then st3(to := None) else st3)))"

definition move_without_replace ::
  "system \<Rightarrow> (store \<Rightarrow> store) \<Rightarrow> string \<Rightarrow> string \<Rightarrow> store \<Rightarrow> move_answer \<times> store" where
  "move_without_replace sys between from to st =
     (if sy_noreplace sys then renameat2_noreplace sys from to st
      else move_via_placeholder sys between from to st)"

section \<open>Lemmas\<close>

lemma retry_invariant:
  assumes "\<And>n s a s'. P s \<Longrightarrow> remover n s = (a, s') \<Longrightarrow> P s'" and "P st"
    and "retry_from n left remover error st = (r, st')"
  shows "P st'"
  using assms(2,3)
proof (induction left arbitrary: n error st)
  case (Suc left)
  obtain a s' where r: "remover n st = (a, s')" by (cases "remover n st")
  from assms(1) [OF Suc.prems(1) r] Suc.IH [of s' "n + 1"] Suc.prems r show ?case by (cases a) auto
qed simp

lemma retries_invariant:
  "(\<And>n s a s'. P s \<Longrightarrow> remover n s = (a, s') \<Longrightarrow> P s') \<Longrightarrow> P st \<Longrightarrow>
     remove_with_retries remover st = (r, st') \<Longrightarrow> P st'"
  unfolding remove_with_retries_def by (rule retry_invariant [of P remover])

lemma retry_success:
  assumes "\<And>n s s'. remover n s = (Removed, s') \<Longrightarrow> Q s'" and "\<And>n s s'. remover n s = (Was_Absent, s') \<Longrightarrow> Q s'"
    and "retry_from n left remover error st = (None, st')"
  shows "Q st'"
  using assms(3)
proof (induction left arbitrary: n error st)
  case (Suc left)
  obtain a s' where "remover n st = (a, s')" by (cases "remover n st")
  with Suc assms(1,2) show ?case by (cases a) auto
qed simp

lemma retries_success:
  "(\<And>n s s'. remover n s = (Removed, s') \<Longrightarrow> Q s') \<Longrightarrow> (\<And>n s s'. remover n s = (Was_Absent, s') \<Longrightarrow> Q s') \<Longrightarrow>
     remove_with_retries remover st = (None, st') \<Longrightarrow> Q st'"
  unfolding remove_with_retries_def by (rule retry_success [of remover Q])

lemma retry_failure:
  assumes "\<And>n s e s'. remover n s = (Remove_Failed e, s') \<Longrightarrow> Q s'" and "Q st \<or> 0 < left"
    and "retry_from n left remover error st = (Some err, st')"
  shows "Q st'"
  using assms(2,3)
proof (induction left arbitrary: n error st)
  case (Suc left)
  obtain a s' where r: "remover n st = (a, s')" by (cases "remover n st")
  show ?case
  proof (cases a)
    case (Remove_Failed e)
    with Suc.IH [of s' "n + 1" e] Suc.prems(2) r assms(1) [of n st e s'] show ?thesis by simp
  qed (use Suc.prems(2) r in simp_all)
qed simp

lemma retries_failure:
  "(\<And>n s e s'. remover n s = (Remove_Failed e, s') \<Longrightarrow> Q s') \<Longrightarrow>
     remove_with_retries remover st = (Some err, st') \<Longrightarrow> Q st'"
  unfolding remove_with_retries_def by (rule retry_failure [of remover Q]) (auto simp: REMOVE_TRIES_def)

lemma dir_retries_failed: "remove_with_retries (remove_dir_all sys name) st = (Some err, st') \<Longrightarrow> st' name \<noteq> None"
  by (rule retries_failure [of "remove_dir_all sys name" "\<lambda>s. s name \<noteq> None"])
    (auto simp: remove_dir_all_def split: option.splits if_splits)

lemma remove_file_frame: "remove_file sys name n st = (a, st') \<Longrightarrow> m \<noteq> name \<Longrightarrow> st' m = st m"
  by (auto simp: remove_file_def split: option.splits if_splits)

lemma remove_dir_all_frame: "remove_dir_all sys name n st = (a, st') \<Longrightarrow> m \<noteq> name \<Longrightarrow> st' m = st m"
  by (auto simp: remove_dir_all_def split: option.splits if_splits)

lemma remove_file_answers:
  "remove_file sys name n st = (Removed, st') \<Longrightarrow> st' name = None"
  "remove_file sys name n st = (Was_Absent, st') \<Longrightarrow> st' name = None"
  "remove_file sys name n st = (Remove_Failed e, st') \<Longrightarrow> st' = st"
  by (auto simp: remove_file_def split: option.splits if_splits)

lemma remove_dir_all_answers:
  "remove_dir_all sys name n st = (Removed, st') \<Longrightarrow> st' name = None"
  "remove_dir_all sys name n st = (Was_Absent, st') \<Longrightarrow> st' name = None"
  by (auto simp: remove_dir_all_def split: option.splits if_splits)

text \<open>What the retries rely on: an attempt touches one name, and says gone only when it is.\<close>

locale remover =
  fixes remove :: "nat \<Rightarrow> store \<Rightarrow> remove_answer \<times> store" and name :: string
  assumes frame: "remove n st = (a, st') \<Longrightarrow> m \<noteq> name \<Longrightarrow> st' m = st m"
    and removed: "remove n st = (Removed, st') \<Longrightarrow> st' name = None"
    and absent: "remove n st = (Was_Absent, st') \<Longrightarrow> st' name = None"
begin

lemma retries_frame: "remove_with_retries remove st = (r, st') \<Longrightarrow> m \<noteq> name \<Longrightarrow> st' m = st m"
  by (erule retries_invariant [of "\<lambda>s. s m = st m", rotated -1]) (auto dest: frame)

lemma retries_gone: "remove_with_retries remove st = (None, st') \<Longrightarrow> st' name = None"
  by (rule retries_success [of remove "\<lambda>s. s name = None"]) (auto dest: removed absent)

end

interpretation file_remover: remover "remove_file sys name" name for sys name
  by unfold_locales (auto dest: remove_file_frame remove_file_answers)

interpretation tree_remover: remover "remove_dir_all sys name" name for sys name
  by unfold_locales (auto dest: remove_dir_all_frame remove_dir_all_answers)

lemma file_retries_once:
  "sy_no_remove sys name 1 = None \<Longrightarrow> \<not> (\<exists>e. st name = Some e \<and> is_real_dir (en_kind e)) \<Longrightarrow>
     remove_with_retries (remove_file sys name) st = (None, st(name := None))"
  by (auto simp: remove_with_retries_def REMOVE_TRIES_def numeral_eq_Suc remove_file_def fun_upd_idem split: option.splits)

lemma dir_retries_once:
  "sy_no_remove sys name 1 = None \<Longrightarrow> \<not> (\<exists>e. st name = Some e \<and> \<not> is_real_dir (en_kind e)) \<Longrightarrow>
     remove_with_retries (remove_dir_all sys name) st = (None, st(name := None))"
  by (auto simp: remove_with_retries_def REMOVE_TRIES_def numeral_eq_Suc remove_dir_all_def fun_upd_idem
      split: option.splits elim: is_plain_file.elims)

lemma create_exclusive_simps:
  "st name = Some e \<Longrightarrow> create_exclusive sys name k st = (Already_Exists, st)"
  "st name = None \<Longrightarrow> sy_no_create sys name = None \<Longrightarrow>
     create_exclusive sys name k st = (Created, st(name \<mapsto> new_entry sys st name k))"
  "st name = None \<Longrightarrow> sy_no_create sys name = Some error \<Longrightarrow> create_exclusive sys name k st = (Create_Failed error, st)"
  by (simp_all add: create_exclusive_def)

lemma create_exclusive_cases:
  assumes "create_exclusive sys name k st = (a, st')"
  obtains e where "a = Already_Exists" "st' = st" "st name = Some e"
  | error where "a = Create_Failed error" "st' = st" "st name = None"
  | "a = Created" "st name = None" "st' = st(name \<mapsto> new_entry sys st name k)"
  using assms by (auto simp: create_exclusive_def split: option.splits)

lemma renameat2_cases:
  assumes "renameat2_noreplace sys from to st = (a, st')"
  obtains "a \<noteq> Moved" "st' = st"
  | e where "a = Moved" "st from = Some e" "st to = None" "st' = (st(from := None))(to \<mapsto> moved_entry sys st to e)"
proof (cases "a = Moved")
  case True
  with assms that(2) show ?thesis
    by (cases "st from"; cases "st to"; cases "sy_no_move sys from to") (simp_all add: renameat2_noreplace_def)
next
  case False
  with assms that(1) show ?thesis
    by (cases "st from"; cases "st to"; cases "sy_no_move sys from to") (simp_all add: renameat2_noreplace_def)
qed

lemma rename_onto_cases:
  assumes "rename_onto sys from to st = (a, st')"
  obtains "a \<noteq> Moved" "st' = st"
  | e where "a = Moved" "st from = Some e" "st' = (st(from := None))(to \<mapsto> moved_entry sys st to e)"
      "\<forall>t. st to = Some t \<longrightarrow> en_kind t = Folder [] \<or> \<not> is_real_dir (en_kind t) \<and> \<not> is_real_dir (en_kind e)"
proof (cases "a = Moved")
  case True
  with assms that(2) show ?thesis
    by (cases "st from"; cases "st to") (auto simp: rename_onto_def split: if_splits)
next
  case False
  from assms have "a = Moved \<or> st' = st"
    by (cases "st from") (auto simp: rename_onto_def split: if_splits)
  with False that(1) show ?thesis by simp
qed

text \<open>What a move of a name to another one does when nobody interferes: all of it, or nothing but a placeholder left.\<close>

definition relocated :: "entry \<Rightarrow> entry \<Rightarrow> bool" where
  "relocated e e' \<longleftrightarrow> same_inode (en_id e') (en_id e) \<and> en_kind e' = en_kind e \<and> en_uid e' = en_uid e \<and>
     en_modified e' = en_modified e"

definition moves :: "string \<Rightarrow> string \<Rightarrow> store \<Rightarrow> store \<Rightarrow> bool" where
  "moves from to st st' \<longleftrightarrow>
     (\<exists>e e'. st from = Some e \<and> st to = None \<and> relocated e e' \<and> st' = (st(from := None))(to \<mapsto> e'))"

lemma relocated_moved [simp]: "relocated e (moved_entry sys st to e)"
  by (simp add: relocated_def moved_entry_def same_inode_def)

lemma move_exclusive:
  assumes "move_without_replace sys id from to st = (a, st')" and "from \<noteq> to"
  shows "(a = Moved \<longrightarrow> moves from to st st') \<and>
    (a \<noteq> Moved \<longrightarrow> st' = st \<or> (st to = None \<and> (\<exists>p. en_kind p = Folder [] \<and> st' = st(to \<mapsto> p))))"
proof (cases "sy_noreplace sys")
  case True
  with assms have "renameat2_noreplace sys from to st = (a, st')" by (simp add: move_without_replace_def)
  then show ?thesis by (cases rule: renameat2_cases) (auto simp: moves_def intro: relocated_moved)
next
  case False
  obtain b st1 where c: "create_exclusive sys to (Folder []) st = (b, st1)" by (cases "create_exclusive sys to (Folder []) st")
  from c show ?thesis
  proof (cases rule: create_exclusive_cases)
    case 3
    obtain r st3 where r: "rename_onto sys from to st1 = (r, st3)" by (cases "rename_onto sys from to st1")
    have p: "st1 = st(to \<mapsto> new_entry sys st to (Folder []))" "en_kind (new_entry sys st to (Folder [])) = Folder []"
      using 3 by (simp_all add: new_entry_def)
    from r show ?thesis
    proof (cases rule: rename_onto_cases)
      case 1
      with assms(1) False c 3(1) r have "a \<noteq> Moved" "st' = st3 \<or> st' = st3(to := None)"
        by (auto simp: move_without_replace_def move_via_placeholder_def Let_def split: move_answer.splits if_splits)
      moreover have "st1(to := None) = st" using p(1) 3(2) by auto
      ultimately show ?thesis using 1(2) p 3(2) by metis
    next
      case (2 e)
      with assms(1) False c 3(1) r have a: "a = Moved" "st' = st3"
        by (simp_all add: move_without_replace_def move_via_placeholder_def Let_def)
      from 2(2) p assms(2) have "st from = Some e" by simp
      with a 2(3) p 3(2) assms(2) show ?thesis by (auto simp: moves_def fun_upd_twist intro: relocated_moved)
    qed
  qed (use assms(1) False c in \<open>auto simp: move_without_replace_def move_via_placeholder_def\<close>)
qed

text \<open>
  A move never destroys what stands at its target. Whatever the system answers and whatever somebody else does
  meanwhile: a target that exists is refused and nothing changes; on a file system with the exclusive move, or
  when nobody interferes, a move that succeeds takes a free name, carries the same folder there and changes no other
  entry; and in the fallback an entry that took over the reserved name, an empty folder apart, survives.
\<close>

theorem move_never_replaces:
  assumes "move_without_replace sys between from to st = (a, st')" and "from \<noteq> to"
  shows "(st to \<noteq> None \<longrightarrow> a \<noteq> Moved \<and> st' = st) \<and>
    (between = id \<or> sy_noreplace sys \<longrightarrow>
      (a = Moved \<longrightarrow> moves from to st st') \<and> (\<forall>n. n \<noteq> from \<and> n \<noteq> to \<longrightarrow> st' n = st n) \<and>
      (a \<noteq> Moved \<longrightarrow> st' from = st from)) \<and>
    (\<forall>e t. \<not> sy_noreplace sys \<and> st to = None \<and> sy_no_create sys to = None \<and>
      between (st(to \<mapsto> new_entry sys st to (Folder []))) from = Some e \<and> is_real_dir (en_kind e) \<and>
      between (st(to \<mapsto> new_entry sys st to (Folder []))) to = Some t \<and> en_kind t \<noteq> Folder [] \<longrightarrow>
        a \<noteq> Moved \<and> st' to = Some t)"
proof (intro conjI)
  show "st to \<noteq> None \<longrightarrow> a \<noteq> Moved \<and> st' = st"
  proof
    assume "st to \<noteq> None"
    then obtain t where t: "st to = Some t" by blast
    with assms(1) show "a \<noteq> Moved \<and> st' = st"
      by (cases "st from") (auto simp: move_without_replace_def move_via_placeholder_def create_exclusive_simps(1)
          renameat2_noreplace_def split: if_splits)
  qed
  show "between = id \<or> sy_noreplace sys \<longrightarrow> (a = Moved \<longrightarrow> moves from to st st') \<and>
      (\<forall>n. n \<noteq> from \<and> n \<noteq> to \<longrightarrow> st' n = st n) \<and> (a \<noteq> Moved \<longrightarrow> st' from = st from)"
  proof
    assume "between = id \<or> sy_noreplace sys"
    with assms(1) have "move_without_replace sys id from to st = (a, st')" by (auto simp: move_without_replace_def)
    from move_exclusive [OF this assms(2)] assms(2) show "(a = Moved \<longrightarrow> moves from to st st') \<and>
        (\<forall>n. n \<noteq> from \<and> n \<noteq> to \<longrightarrow> st' n = st n) \<and> (a \<noteq> Moved \<longrightarrow> st' from = st from)"
      by (cases "a = Moved") (auto simp: moves_def)
  qed
  show "\<forall>e t. \<not> sy_noreplace sys \<and> st to = None \<and> sy_no_create sys to = None \<and>
      between (st(to \<mapsto> new_entry sys st to (Folder []))) from = Some e \<and> is_real_dir (en_kind e) \<and>
      between (st(to \<mapsto> new_entry sys st to (Folder []))) to = Some t \<and> en_kind t \<noteq> Folder [] \<longrightarrow>
        a \<noteq> Moved \<and> st' to = Some t"
  proof (intro allI impI, elim conjE)
    fix e t
    let ?st2 = "between (st(to \<mapsto> new_entry sys st to (Folder [])))"
    assume h: "\<not> sy_noreplace sys" "st to = None" "sy_no_create sys to = None" "?st2 from = Some e"
      "is_real_dir (en_kind e)" "?st2 to = Some t" "en_kind t \<noteq> Folder []"
    obtain r st3 where r: "rename_onto sys from to ?st2 = (r, st3)" by (cases "rename_onto sys from to ?st2")
    from r have "r \<noteq> Moved \<and> st3 = ?st2" by (cases rule: rename_onto_cases) (use h in auto)
    with assms(1) h r show "a \<noteq> Moved \<and> st' to = Some t"
      by (cases r) (auto simp: move_without_replace_def move_via_placeholder_def create_exclusive_simps(2) Let_def)
  qed
qed

definition calm :: system where
  "calm = \<lparr>sy_uid = 1000, sy_now = 5000000000000, sy_no_stat = (\<lambda>n. False), sy_no_open = (\<lambda>n. False),
     sy_no_create = (\<lambda>n. None), sy_no_write = (\<lambda>n. None), sy_no_remove = (\<lambda>n a. None), sy_no_move = (\<lambda>f t. None),
     sy_new_id = (\<lambda>st n. \<lparr>fi_dev = 1, fi_ino = length n, fi_changed = (5000, 0)\<rparr>), sy_ctime = (\<lambda>st n. (5000, 1)),
     sy_left = (\<lambda>n a inside. (inside, (5000, 2), None)), sy_noreplace = False\<rparr>"

definition sample_folder :: entry where
  "sample_folder = \<lparr>en_id = \<lparr>fi_dev = 1, fi_ino = 2, fi_changed = (3, 0)\<rparr>, en_kind = Folder [(''f'', Inner_File ''x'')],
     en_uid = 1000, en_modified = Some 0\<rparr>"

lemma move_never_replaces_witness:
  "moves ''a'' ''b'' [''a'' \<mapsto> sample_folder] (snd (move_without_replace calm id ''a'' ''b'' [''a'' \<mapsto> sample_folder]))"
proof -
  have "fst (move_without_replace calm id ''a'' ''b'' [''a'' \<mapsto> sample_folder]) = Moved"
    by (simp add: move_without_replace_def move_via_placeholder_def calm_def create_exclusive_def rename_onto_def
        sample_folder_def new_entry_def)
  then obtain s where m: "move_without_replace calm id ''a'' ''b'' [''a'' \<mapsto> sample_folder] = (Moved, s)"
    by (cases "move_without_replace calm id ''a'' ''b'' [''a'' \<mapsto> sample_folder]") auto
  from move_never_replaces [OF m] m show ?thesis by simp
qed

end
