(* ===== verification/Scratch.thy ===== *)
theory Scratch
  imports Scratch_Files
begin

text \<open>
  \<open>src/test_scratch/claim.rs\<close> and \<open>scratch.rs\<close>: the claim beside a folder, the constructor that claims, registers and
  creates in that order, and the teardown that removes the folder first and its claim last. The lines written to
  stderr are not modelled; the seams of the code are arguments here too.
\<close>

section \<open>The claim\<close>

definition claim_path :: "string \<Rightarrow> string" where
  "claim_path dir = dir @ ''.owner''"

datatype raw_claim = Absent | Unreadable_Claim bool | Claim_Text string

record claim_snapshot =
  cs_raw :: raw_claim
  cs_id :: "file_id option"

text \<open>The open handle must be a regular file and the one that was named; at most one byte past the limit is read.\<close>

definition read_limited :: "system \<Rightarrow> store \<Rightarrow> string \<Rightarrow> file_id option \<Rightarrow> string option" where
  "read_limited sys st name expected =
     (case st name of
        None \<Rightarrow> None
      | Some e \<Rightarrow>
          if sy_no_open sys name then None
          else (case en_kind e of
              Regular text \<Rightarrow>
                (case expected of
                   Some x \<Rightarrow> if same_inode (en_id e) x then Some (take (MAX_CLAIM_BYTES + 1) text) else None
                 | None \<Rightarrow> None)
            | _ \<Rightarrow> None))"

definition snapshot_claim :: "system \<Rightarrow> (store \<Rightarrow> string \<Rightarrow> bool) \<Rightarrow> store \<Rightarrow> string \<Rightarrow> claim_snapshot" where
  "snapshot_claim sys mine st dir =
     (let claim = claim_path dir; ident = entry_id sys st claim
      in \<lparr>cs_raw =
            (case symlink_metadata sys st claim of
               Not_Found \<Rightarrow> Absent
             | Refused \<Rightarrow> Unreadable_Claim False
             | Meta e \<Rightarrow>
                 if \<not> is_plain_file (en_kind e) then Unreadable_Claim False
                 else if \<not> mine st claim then Unreadable_Claim True
                 else (case read_limited sys st claim ident of
                     Some bytes \<Rightarrow> Claim_Text bytes
                   | None \<Rightarrow> Unreadable_Claim False)),
          cs_id = ident\<rparr>)"

definition read_claim :: "system \<Rightarrow> (store \<Rightarrow> string \<Rightarrow> bool) \<Rightarrow> store \<Rightarrow> string \<Rightarrow> claim" where
  "read_claim sys mine st dir =
     (case cs_raw (snapshot_claim sys mine st dir) of
        Absent \<Rightarrow> Unmarked
      | Unreadable_Claim f \<Rightarrow> Unreadable
      | Claim_Text bytes \<Rightarrow> parse_owner bytes)"

definition write_claim_exclusive :: "system \<Rightarrow> string \<Rightarrow> string \<Rightarrow> store \<Rightarrow> create_answer \<times> store" where
  "write_claim_exclusive sys claim bytes st =
     (case create_exclusive sys claim (Regular bytes) st of
        (Created, st1) \<Rightarrow>
          (case sy_no_write sys claim of
             None \<Rightarrow> (Created, st1)
           | Some (error, part) \<Rightarrow>
               (Create_Failed error,
                if sy_no_remove sys claim 0 = None then st1(claim := None)
                else st(claim \<mapsto> new_entry sys st claim (Regular part))))
      | other \<Rightarrow> other)"

text \<open>One attempt to take a claim back; \<open>between\<close> runs between the read and the comparison of the identity.\<close>

definition remove_claim_once ::
  "system \<Rightarrow> string \<Rightarrow> string \<Rightarrow> file_id option \<Rightarrow> (store \<Rightarrow> store) \<Rightarrow> nat \<Rightarrow> store \<Rightarrow> remove_answer \<times> store" where
  "remove_claim_once sys claim written captured between attempt st =
     (case symlink_metadata sys st claim of
        Not_Found \<Rightarrow> (Was_Absent, st)
      | Refused \<Rightarrow> (Remove_Failed ''Permission denied'', st)
      | Meta e \<Rightarrow>
          if \<not> is_plain_file (en_kind e) then (Removed, st)
          else (let before = entry_id sys st claim
                in case read_limited sys st claim before of
                     None \<Rightarrow> (Remove_Failed ''the file was replaced while it was opened'', st)
                   | Some text \<Rightarrow>
                       if text \<noteq> written then (Removed, st)
                       else (let st1 = between st; after = entry_id sys st1 claim;
                                 ours = (case (before, after) of
                                     (Some b, Some n) \<Rightarrow> b = n \<and> (captured = None \<or> captured = Some n)
                                   | _ \<Rightarrow> False)
                             in if ours then remove_file sys claim attempt st1 else (Removed, st1))))"

definition remove_claim_with_hook ::
  "system \<Rightarrow> string \<Rightarrow> string \<Rightarrow> file_id option \<Rightarrow> (store \<Rightarrow> store) \<Rightarrow> store \<Rightarrow> bool \<times> store" where
  "remove_claim_with_hook sys dir written captured between st =
     (case remove_with_retries (remove_claim_once sys (claim_path dir) written captured between) st of
        (None, st') \<Rightarrow> (True, st')
      | (Some e, st') \<Rightarrow> (False, st'))"

definition remove_claim_if_still :: "system \<Rightarrow> string \<Rightarrow> string \<Rightarrow> file_id option \<Rightarrow> store \<Rightarrow> bool \<times> store" where
  "remove_claim_if_still sys dir written captured st = remove_claim_with_hook sys dir written captured id st"

section \<open>The scratch\<close>

datatype scratch_state = Claimed | Made | Claim_Pending | Released

record scratch =
  ts_path :: string
  ts_written :: string
  ts_claim_id :: "file_id option"
  ts_state :: scratch_state

definition MAX_DRAWS :: nat where "MAX_DRAWS = 3"

definition teardown :: "system \<Rightarrow> string \<Rightarrow> store \<Rightarrow> bool \<times> store" where
  "teardown sys dir st =
     (case remove_with_retries (remove_dir_all sys dir) st of
        (Some e, st1) \<Rightarrow> (False, st1)
      | (None, st1) \<Rightarrow>
          (case remove_with_retries (remove_file sys (claim_path dir)) st1 of
             (Some e, st2) \<Rightarrow> (False, st2)
           | (None, st2) \<Rightarrow> (True, st2)))"

definition drop_scratch :: "system \<Rightarrow> scratch \<Rightarrow> store \<Rightarrow> store" where
  "drop_scratch sys sc st =
     (case ts_state sc of
        Made \<Rightarrow> snd (teardown sys (ts_path sc) st)
      | Released \<Rightarrow> st
      | _ \<Rightarrow> snd (remove_claim_if_still sys (ts_path sc) (ts_written sc) (ts_claim_id sc) st))"

datatype new_answer = Ready scratch | Panicked string

text \<open>
  One draw: the claim, the value that will clean up, the folder. \<open>after_claim\<close> runs between the claim and the
  folder; a value that is not returned is dropped.
\<close>

fun draw_scratch ::
  "system \<Rightarrow> (string \<Rightarrow> store \<Rightarrow> store) \<Rightarrow> (nat \<Rightarrow> string) \<Rightarrow> string \<Rightarrow> nat \<Rightarrow> nat \<Rightarrow> store \<Rightarrow> new_answer \<times> store" where
  "draw_scratch sys after_claim names text draw 0 st = (Panicked ''no free name'', st)"
| "draw_scratch sys after_claim names text draw (Suc left) st =
     (let path = names draw
      in case write_claim_exclusive sys (claim_path path) text st of
           (Already_Exists, st1) \<Rightarrow> draw_scratch sys after_claim names text (draw + 1) left st1
         | (Create_Failed e, st1) \<Rightarrow> (Panicked (''could not claim '' @ e), st1)
         | (Created, st1) \<Rightarrow>
             (let sc = \<lparr>ts_path = path, ts_written = text, ts_claim_id = entry_id sys st1 (claim_path path),
                    ts_state = Claimed\<rparr>
              in case create_exclusive sys path (Folder []) (after_claim path st1) of
                   (Created, st2) \<Rightarrow> (Ready (sc\<lparr>ts_state := Made\<rparr>), st2)
                 | (Create_Failed e, st2) \<Rightarrow> (Panicked (''could not create '' @ e), drop_scratch sys sc st2)
                 | (Already_Exists, st2) \<Rightarrow>
                     (case remove_claim_if_still sys path text (ts_claim_id sc) st2 of
                        (gone, st3) \<Rightarrow>
                          draw_scratch sys after_claim names text (draw + 1) left
                            (drop_scratch sys (sc\<lparr>ts_state := if gone then Released else Claim_Pending\<rparr>) st3))))"

text \<open>\<open>ids\<close> is the draw of the ids, \<open>record\<close> the record of the run.\<close>

definition new_with ::
  "system \<Rightarrow> (string \<Rightarrow> store \<Rightarrow> store) \<Rightarrow> string \<Rightarrow> owner \<Rightarrow> (nat \<Rightarrow> string) \<Rightarrow> string \<Rightarrow> store \<Rightarrow> new_answer \<times> store" where
  "new_with sys after_claim owner run ids what st =
     (case check_what owner what of
        Inl problem \<Rightarrow> (Panicked ''invalid name'', st)
      | Inr u \<Rightarrow>
          draw_scratch sys after_claim (\<lambda>n. name_for owner what (ids n)) (format_owner run @ [CHR 0x0A]) 0 MAX_DRAWS st)"

section \<open>Taking a claim back\<close>

lemma claim_path_neq [simp]: "claim_path d \<noteq> d" "d \<noteq> claim_path d"
  by (simp_all add: claim_path_def)

lemma claim_path_inject [simp]: "claim_path a = claim_path b \<longleftrightarrow> a = b"
  by (simp add: claim_path_def)

text \<open>What one attempt does to the directory: nothing, the other party's doing, or that and the removal of our own file.\<close>

definition ours_now :: "system \<Rightarrow> string \<Rightarrow> string \<Rightarrow> file_id option \<Rightarrow> (store \<Rightarrow> store) \<Rightarrow> store \<Rightarrow> bool" where
  "ours_now sys claim written captured between st \<longleftrightarrow>
     (\<exists>e e' text. st claim = Some e \<and> between st claim = Some e' \<and> en_kind e = Regular text \<and>
        take (MAX_CLAIM_BYTES + 1) text = written \<and> en_id e' = en_id e \<and> (captured = None \<or> captured = Some (en_id e)))"

lemma remove_claim_once_cases:
  assumes "remove_claim_once sys claim written captured between n st = (a, st')"
  shows "st' = st \<or> st' = between st \<or>
    (ours_now sys claim written captured between st \<and> st' = (between st)(claim := None))"
proof (cases "symlink_metadata sys st claim")
  case (Meta e)
  then have e: "st claim = Some e" "entry_id sys st claim = Some (en_id e)"
    by (auto simp: symlink_metadata_def entry_id_def split: option.splits if_splits)
  show ?thesis
  proof (cases "is_plain_file (en_kind e) \<and> read_limited sys st claim (Some (en_id e)) = Some written \<and>
      entry_id sys (between st) claim = Some (en_id e) \<and> (captured = None \<or> captured = Some (en_id e))")
    case True
    then obtain body where t: "en_kind e = Regular body" by (cases "en_kind e") simp_all
    from True e t have w: "take (MAX_CLAIM_BYTES + 1) body = written"
      by (auto simp: read_limited_def split: if_splits)
    from True obtain e' where e': "between st claim = Some e'" "en_id e' = en_id e"
      by (auto simp: entry_id_def symlink_metadata_def split: option.splits if_splits meta.splits)
    have "(a, st') = remove_file sys claim n (between st)"
      using assms True Meta e by (simp add: remove_claim_once_def Let_def)
    with e' have "st' = between st \<or> st' = (between st)(claim := None)"
      by (auto simp: remove_file_def split: option.splits if_splits)
    moreover have "ours_now sys claim written captured between st"
      unfolding ours_now_def using e(1) e' t w True by blast
    ultimately show ?thesis by blast
  next
    case False
    with assms Meta e(2) show ?thesis
      by (auto simp: remove_claim_once_def Let_def split: if_splits option.splits)
  qed
qed (use assms in \<open>auto simp: remove_claim_once_def\<close>)

lemma remove_claim_effect:
  assumes "remove_claim_if_still sys dir written captured st = (b, st')"
  shows "(\<forall>n. n \<noteq> claim_path dir \<longrightarrow> st' n = st n) \<and>
    (st' = st \<or> (ours_now sys (claim_path dir) written captured id st \<and> st' = st(claim_path dir := None)))"
proof -
  let ?c = "claim_path dir" and ?P = "\<lambda>s. s = st \<or> (ours_now sys (claim_path dir) written captured id st \<and> s = st(claim_path dir := None))"
  obtain r where r: "remove_with_retries (remove_claim_once sys ?c written captured id) st = (r, st')"
    using assms by (auto simp: remove_claim_if_still_def remove_claim_with_hook_def split: prod.splits option.splits)
  have "?P st'"
  proof (rule retries_invariant [of ?P, OF _ _ r])
    fix n s a s'
    assume s: "?P s" and o: "remove_claim_once sys ?c written captured id n s = (a, s')"
    from remove_claim_once_cases [OF o] s show "?P s'"
      by (auto simp: ours_now_def)
  qed simp
  then show ?thesis by auto
qed

text \<open>A system that refuses nothing here.\<close>

definition unhindered :: "system \<Rightarrow> bool" where
  "unhindered sys \<longleftrightarrow> (\<forall>n. \<not> sy_no_stat sys n \<and> \<not> sy_no_open sys n \<and> (\<forall>a. sy_no_remove sys n a = None))"

lemma remove_claim_unhindered:
  assumes "unhindered sys" and "st (claim_path dir) = Some ce" and "en_kind ce = Regular written"
    and "length written \<le> MAX_CLAIM_BYTES" and "captured = None \<or> captured = Some (en_id ce)"
  shows "remove_claim_if_still sys dir written captured st = (True, st(claim_path dir := None))"
proof -
  have "remove_claim_once sys (claim_path dir) written captured id 1 st = (Removed, st(claim_path dir := None))"
    using assms by (auto simp: remove_claim_once_def symlink_metadata_def unhindered_def entry_id_def read_limited_def
        same_inode_def remove_file_def Let_def)
  then show ?thesis
    by (simp add: remove_claim_if_still_def remove_claim_with_hook_def remove_with_retries_def REMOVE_TRIES_def
        numeral_eq_Suc)
qed

section \<open>Making a scratch\<close>

text \<open>Others may add entries while a scratch is made; they do not change or take what is there.\<close>

definition only_adds :: "(string \<Rightarrow> store \<Rightarrow> store) \<Rightarrow> bool" where
  "only_adds h \<longleftrightarrow> (\<forall>p s n e. s n = Some e \<longrightarrow> h p s n = Some e)"

lemma write_claim_cases:
  assumes "write_claim_exclusive sys claim bytes st = (a, st')"
  obtains e where "a = Already_Exists" "st' = st" "st claim = Some e"
  | error where "a = Create_Failed error" "st claim = None" "\<forall>n. n \<noteq> claim \<longrightarrow> st' n = st n"
  | "a = Created" "st claim = None" "st' = st(claim \<mapsto> new_entry sys st claim (Regular bytes))"
proof -
  obtain b st1 where c: "create_exclusive sys claim (Regular bytes) st = (b, st1)"
    by (cases "create_exclusive sys claim (Regular bytes) st")
  from c show ?thesis
  proof (cases rule: create_exclusive_cases)
    case (1 e)
    with c assms that(1) show ?thesis by (simp add: write_claim_exclusive_def)
  next
    case (2 error)
    with c assms that(2) [of error] show ?thesis by (simp add: write_claim_exclusive_def)
  next
    case 3
    with c assms that(2,3) show ?thesis
      by (auto simp: write_claim_exclusive_def split: option.splits prod.splits if_splits)
  qed
qed

lemma drop_before_made:
  assumes "ts_state sc \<noteq> Made" and "n \<noteq> claim_path (ts_path sc)"
  shows "drop_scratch sys sc st n = st n"
proof -
  obtain b s where "remove_claim_if_still sys (ts_path sc) (ts_written sc) (ts_claim_id sc) st = (b, s)"
    by (cases "remove_claim_if_still sys (ts_path sc) (ts_written sc) (ts_claim_id sc) st")
  with remove_claim_effect [OF this] assms show ?thesis
    by (cases "ts_state sc") (auto simp: drop_scratch_def)
qed

lemma draw_keeps:
  assumes "draw_scratch sys h names written draw left st = (r, st')" and "only_adds h" and "st n = Some e"
  shows "st' n = Some e"
  using assms(1,3)
proof (induction left arbitrary: draw st)
  case (Suc left)
  let ?p = "names draw" and ?c = "claim_path (names draw)"
  obtain a st1 where w: "write_claim_exclusive sys ?c written st = (a, st1)"
    by (cases "write_claim_exclusive sys ?c written st")
  from w show ?case
  proof (cases rule: write_claim_cases)
    case (1 x)
    with w Suc show ?thesis by (simp add: Let_def)
  next
    case (2 x)
    with w Suc.prems have "st' = st1" "n \<noteq> ?c" by (auto simp: Let_def)
    with 2 Suc.prems show ?thesis by simp
  next
    case 3
    then have nc: "n \<noteq> ?c" using Suc.prems(2) by auto
    have h: "h ?p st1 n = Some e" using assms(2) 3(3) nc Suc.prems(2) by (simp add: only_adds_def)
    obtain b st2 where c: "create_exclusive sys ?p (Folder []) (h ?p st1) = (b, st2)"
      by (cases "create_exclusive sys ?p (Folder []) (h ?p st1)")
    have n2: "st2 n = Some e" using c by (cases rule: create_exclusive_cases) (use h in auto)
    let ?sc = "\<lparr>ts_path = ?p, ts_written = written, ts_claim_id = entry_id sys st1 ?c, ts_state = Claimed\<rparr>"
    from c show ?thesis
    proof (cases rule: create_exclusive_cases)
      case (1 x)
      obtain g st3 where g: "remove_claim_if_still sys ?p written (ts_claim_id ?sc) st2 = (g, st3)"
        by (cases "remove_claim_if_still sys ?p written (ts_claim_id ?sc) st2")
      from remove_claim_effect [OF g] nc n2 have "st3 n = Some e" by simp
      then have "drop_scratch sys (?sc\<lparr>ts_state := if g then Released else Claim_Pending\<rparr>) st3 n = Some e"
        using drop_before_made [of "?sc\<lparr>ts_state := if g then Released else Claim_Pending\<rparr>" n sys st3] nc by simp
      with Suc.IH Suc.prems(1) w 3(1) c 1(1) g show ?thesis by (simp add: Let_def)
    next
      case (2 x)
      with Suc.prems(1) w 3(1) c have "st' = drop_scratch sys ?sc st2" by (simp add: Let_def)
      with drop_before_made [of ?sc n sys st2] nc n2 show ?thesis by simp
    next
      case 3
      with Suc.prems(1) w \<open>a = Created\<close> c n2 show ?thesis by (simp add: Let_def)
    qed
  qed
qed simp

lemma draw_ready:
  assumes "draw_scratch sys h names written draw left st = (Ready sc, st')" and "only_adds h"
  shows "\<exists>k fe ce. draw \<le> k \<and> k < draw + left \<and> ts_path sc = names k \<and> ts_state sc = Made \<and> ts_written sc = written \<and>
    st (ts_path sc) = None \<and> st (claim_path (ts_path sc)) = None \<and>
    st' (ts_path sc) = Some fe \<and> en_kind fe = Folder [] \<and>
    st' (claim_path (ts_path sc)) = Some ce \<and> en_kind ce = Regular written \<and>
    (sy_no_stat sys (claim_path (ts_path sc)) \<or> ts_claim_id sc = Some (en_id ce))"
  using assms(1)
proof (induction left arbitrary: draw st)
  case (Suc left)
  let ?p = "names draw" and ?c = "claim_path (names draw)"
  have later: ?case if d: "draw_scratch sys h names written (draw + 1) left s = (Ready sc, st')"
    and keep: "\<And>n e. st n = Some e \<Longrightarrow> s n = Some e" for s
  proof -
    from Suc.IH [OF d] keep obtain k where "draw + 1 \<le> k" "k < draw + 1 + left" "ts_path sc = names k"
      "s (ts_path sc) = None" "s (claim_path (ts_path sc)) = None" by blast
    moreover from this keep have "st (ts_path sc) = None" "st (claim_path (ts_path sc)) = None"
      by (metis option.exhaust option.distinct(1))+
    ultimately show ?thesis using Suc.IH [OF d] by (intro exI [of _ k]) auto
  qed
  obtain a st1 where w: "write_claim_exclusive sys ?c written st = (a, st1)"
    by (cases "write_claim_exclusive sys ?c written st")
  from w show ?case
  proof (cases rule: write_claim_cases)
    case (1 x)
    with w Suc.prems later [of st] show ?thesis by (simp add: Let_def)
  next
    case (2 x)
    with w Suc.prems show ?thesis by (simp add: Let_def)
  next
    case 3
    let ?ce = "new_entry sys st ?c (Regular written)"
    let ?sc = "\<lparr>ts_path = ?p, ts_written = written, ts_claim_id = entry_id sys st1 ?c, ts_state = Claimed\<rparr>"
    have h: "h ?p st1 n = Some e" if "st1 n = Some e" for n e using assms(2) that by (simp add: only_adds_def)
    obtain b st2 where c: "create_exclusive sys ?p (Folder []) (h ?p st1) = (b, st2)"
      by (cases "create_exclusive sys ?p (Folder []) (h ?p st1)")
    from c show ?thesis
    proof (cases rule: create_exclusive_cases)
      case (1 x)
      obtain g st3 where g: "remove_claim_if_still sys ?p written (ts_claim_id ?sc) st2 = (g, st3)"
        by (cases "remove_claim_if_still sys ?p written (ts_claim_id ?sc) st2")
      let ?st4 = "drop_scratch sys (?sc\<lparr>ts_state := if g then Released else Claim_Pending\<rparr>) st3"
      have "?st4 n = Some e" if s: "st n = Some e" for n e
      proof -
        have n: "n \<noteq> ?c" using 3(2) s by auto
        with s 3(3) have "st2 n = Some e" using h [of n e] 1(2) by simp
        with remove_claim_effect [OF g] n have "st3 n = Some e" by simp
        with drop_before_made [of "?sc\<lparr>ts_state := if g then Released else Claim_Pending\<rparr>" n sys st3] n
        show ?thesis by simp
      qed
      with later [of ?st4] Suc.prems w 3(1) c 1(1) g show ?thesis by (simp add: Let_def)
    next
      case (2 x)
      with Suc.prems w 3(1) c show ?thesis by (simp add: Let_def)
    next
      case made: 3
      with Suc.prems w 3(1) c have sc: "sc = ?sc\<lparr>ts_state := Made\<rparr>" "st' = st2" by (simp_all add: Let_def)
      have ce: "st1 ?c = Some ?ce" using 3(3) by simp
      have p: "st ?p = None"
        using made(2) h [of ?p] 3(3) by (metis claim_path_neq(2) fun_upd_other option.exhaust option.distinct(1))
      have "st2 ?c = Some ?ce" using made(3) h [OF ce] by simp
      with sc made(3) ce p 3(2) show ?thesis
        by (intro exI [of _ draw] exI [of _ "new_entry sys (h ?p st1) ?p (Folder [])"] exI [of _ ?ce])
          (simp add: new_entry_def entry_id_def symlink_metadata_def)
    qed
  qed
qed simp

text \<open>
  C32: A scratch is fresh, claimed, and made over nothing. However the draws go and whatever others add meanwhile: every
  entry that was there is there unchanged afterwards, whether the scratch was made or not; and a scratch that is
  made has one of at most three drawn names, at which neither a folder nor a claim stood before, and stands there as
  an empty folder beside a claim with the record of this run.
\<close>

theorem scratch_is_fresh_and_claimed:
  assumes "new_with sys h owner run ids what st = (r, st')" and "only_adds h"
  shows "(\<forall>n e. st n = Some e \<longrightarrow> st' n = Some e) \<and>
    (\<forall>sc. r = Ready sc \<longrightarrow>
      (\<exists>k<MAX_DRAWS. ts_path sc = name_for owner what (ids k)) \<and> ts_state sc = Made \<and>
      st (ts_path sc) = None \<and> st (claim_path (ts_path sc)) = None \<and>
      map_option en_kind (st' (ts_path sc)) = Some (Folder []) \<and>
      map_option en_kind (st' (claim_path (ts_path sc))) = Some (Regular (format_owner run @ [CHR 0x0A])))"
proof (cases "check_what owner what")
  case (Inr u)
  with assms(1) have d: "draw_scratch sys h (\<lambda>n. name_for owner what (ids n)) (format_owner run @ [CHR 0x0A]) 0 MAX_DRAWS st
      = (r, st')" by (simp add: new_with_def)
  have "r = Ready sc \<Longrightarrow> draw_scratch sys h (\<lambda>n. name_for owner what (ids n)) (format_owner run @ [CHR 0x0A]) 0 MAX_DRAWS st
      = (Ready sc, st')" for sc using d by simp
  with draw_keeps [OF d assms(2)] draw_ready [OF _ assms(2)] show ?thesis by fastforce
qed (use assms(1) in \<open>auto simp: new_with_def\<close>)

lemma squatter_is_left_alone:
  assumes "draw_scratch sys h names written draw (Suc left) st = (r, st')" and "only_adds h"
    and "write_claim_exclusive sys (claim_path (names draw)) written st = (Created, st1)"
    and "h (names draw) st1 (names draw) = Some e"
  shows "st' (names draw) = Some e \<and> (\<forall>sc. r = Ready sc \<longrightarrow> ts_path sc \<noteq> names draw)"
proof -
  let ?p = "names draw" and ?c = "claim_path (names draw)"
  let ?sc = "\<lparr>ts_path = ?p, ts_written = written, ts_claim_id = entry_id sys st1 ?c, ts_state = Claimed\<rparr>"
  have c: "create_exclusive sys ?p (Folder []) (h ?p st1) = (Already_Exists, h ?p st1)"
    using assms(4) by (simp add: create_exclusive_simps)
  obtain g st3 where g: "remove_claim_if_still sys ?p written (ts_claim_id ?sc) (h ?p st1) = (g, st3)"
    by (cases "remove_claim_if_still sys ?p written (ts_claim_id ?sc) (h ?p st1)")
  let ?st4 = "drop_scratch sys (?sc\<lparr>ts_state := if g then Released else Claim_Pending\<rparr>) st3"
  have p: "?st4 ?p = Some e"
    using remove_claim_effect [OF g] assms(4)
      drop_before_made [of "?sc\<lparr>ts_state := if g then Released else Claim_Pending\<rparr>" ?p sys st3] by simp
  have d: "draw_scratch sys h names written (draw + 1) left ?st4 = (r, st')"
    using assms(1,3) c g by (simp add: Let_def)
  from draw_keeps [OF d assms(2) p] have "st' ?p = Some e" .
  moreover have "ts_path sc \<noteq> ?p" if "r = Ready sc" for sc
    using draw_ready [of sys h names written "draw + 1" left ?st4 sc st'] d that assms(2) p by auto
  ultimately show ?thesis by blast
qed

section \<open>Taking it down\<close>

text \<open>
  A leftover is never an unclaimed folder. The teardown changes nothing but the folder and its claim, removes the
  claim only once the folder is gone, and reports success only when both are gone; when it gives up while the
  folder is still there, its claim is untouched beside it.
\<close>

theorem teardown_folder_before_claim:
  assumes "teardown sys dir st = (b, st')"
  shows "(\<forall>n. n \<noteq> dir \<and> n \<noteq> claim_path dir \<longrightarrow> st' n = st n) \<and>
    (st' dir \<noteq> None \<longrightarrow> st' (claim_path dir) = st (claim_path dir)) \<and>
    (b \<longrightarrow> st' dir = None \<and> st' (claim_path dir) = None)"
proof -
  obtain r st1 where d: "remove_with_retries (remove_dir_all sys dir) st = (r, st1)"
    by (cases "remove_with_retries (remove_dir_all sys dir) st")
  show ?thesis
  proof (cases r)
    case None
    obtain q st2 where c: "remove_with_retries (remove_file sys (claim_path dir)) st1 = (q, st2)"
      by (cases "remove_with_retries (remove_file sys (claim_path dir)) st1")
    have "st' = st2 \<and> (b \<longleftrightarrow> q = None)" using assms d None c by (auto simp: teardown_def split: option.splits)
    moreover have "st1 dir = None" using d None by (simp add: tree_remover.retries_gone)
    ultimately show ?thesis
      using tree_remover.retries_frame [OF d] file_remover.retries_frame [OF c] file_remover.retries_gone [of sys "claim_path dir" st1 st2] c by auto
  next
    case (Some e)
    with assms d have "st' = st1 \<and> \<not> b" by (simp add: teardown_def)
    with tree_remover.retries_frame [OF d] show ?thesis by auto
  qed
qed

lemma draw_unhindered:
  assumes "draw_scratch sys (\<lambda>p s. s) names written draw left st = (Ready sc, st')" and "unhindered sys"
    and "length written \<le> MAX_CLAIM_BYTES" and "\<forall>n. sy_no_write sys n = None"
  shows "\<exists>ce fe. st' = st(claim_path (ts_path sc) \<mapsto> ce, ts_path sc \<mapsto> fe)"
  using assms(1)
proof (induction left arbitrary: draw)
  case (Suc left)
  let ?p = "names draw" and ?c = "claim_path (names draw)"
  obtain a st1 where w: "write_claim_exclusive sys ?c written st = (a, st1)"
    by (cases "write_claim_exclusive sys ?c written st")
  from w show ?case
  proof (cases rule: write_claim_cases)
    case (1 x)
    with w Suc show ?thesis by (simp add: Let_def)
  next
    case (2 x)
    with w Suc.prems show ?thesis by (simp add: Let_def)
  next
    case 3
    let ?sc = "\<lparr>ts_path = ?p, ts_written = written, ts_claim_id = entry_id sys st1 ?c, ts_state = Claimed\<rparr>"
    obtain b st2 where c: "create_exclusive sys ?p (Folder []) st1 = (b, st2)"
      by (cases "create_exclusive sys ?p (Folder []) st1")
    from c show ?thesis
    proof (cases rule: create_exclusive_cases)
      case (1 x)
      have "entry_id sys st1 ?c = Some (en_id (new_entry sys st ?c (Regular written)))"
        using assms(2) 3(3) by (simp add: entry_id_def symlink_metadata_def unhindered_def)
      then have "remove_claim_if_still sys ?p written (ts_claim_id ?sc) st2 = (True, st2(?c := None))"
        using 1(2) 3(3) by (intro remove_claim_unhindered [OF assms(2) _ _ assms(3), where ce = "new_entry sys st ?c (Regular written)"])
          (simp_all add: new_entry_def)
      moreover have "st2(?c := None) = st" using 1(2) 3(2,3) by auto
      ultimately have "draw_scratch sys (\<lambda>p s. s) names written (draw + 1) left st = (Ready sc, st')"
        using Suc.prems w 3(1) c 1(1) by (simp add: Let_def drop_scratch_def)
      from Suc.IH [OF this] show ?thesis .
    next
      case (2 x)
      with Suc.prems w 3(1) c show ?thesis by (simp add: Let_def)
    next
      case made: 3
      with Suc.prems w 3(1) c have "sc = ?sc\<lparr>ts_state := Made\<rparr>" "st' = st2" by (simp_all add: Let_def)
      with made(3) 3(3) have "st' = st(claim_path (ts_path sc) \<mapsto> new_entry sys st ?c (Regular written),
          ts_path sc \<mapsto> new_entry sys st1 ?p (Folder []))" by simp
      then show ?thesis by blast
    qed
  qed
qed simp

text \<open>
  C31: A test leaves nothing behind. When the system refuses nothing and nobody interferes, making a scratch, using its
  folder in any way, and dropping it restores the directory exactly, however many names were taken before one
  was free.
\<close>

theorem scratch_leaves_nothing_behind:
  assumes "new_with sys (\<lambda>p s. s) owner run ids what st = (Ready sc, st')" and "unhindered sys"
    and "\<forall>n. sy_no_write sys n = None" and "length (format_owner run) < MAX_CLAIM_BYTES" and "en_kind e = Folder inside"
  shows "drop_scratch sys sc (st'(ts_path sc \<mapsto> e)) = st"
proof -
  from assms(1) have d: "draw_scratch sys (\<lambda>p s. s) (\<lambda>n. name_for owner what (ids n)) (format_owner run @ [CHR 0x0A])
      0 MAX_DRAWS st = (Ready sc, st')" by (auto simp: new_with_def split: sum.splits)
  have "length (format_owner run @ [CHR 0x0A]) \<le> MAX_CLAIM_BYTES" using assms(4) by simp
  from draw_unhindered [OF d assms(2) this assms(3)] obtain ce fe where
    st': "st' = st(claim_path (ts_path sc) \<mapsto> ce, ts_path sc \<mapsto> fe)" by blast
  have "only_adds (\<lambda>p s. s)" by (simp add: only_adds_def)
  from draw_ready [OF d this] obtain ce' where sc: "ts_state sc = Made" "st (ts_path sc) = None"
    "st (claim_path (ts_path sc)) = None" "st' (claim_path (ts_path sc)) = Some ce'"
    "en_kind ce' = Regular (format_owner run @ [CHR 0x0A])" by blast
  let ?s = "st'(ts_path sc \<mapsto> e)"
  have "remove_with_retries (remove_dir_all sys (ts_path sc)) ?s = (None, ?s(ts_path sc := None))"
    using assms(2,5) by (intro dir_retries_once) (auto simp: unhindered_def)
  moreover have "remove_with_retries (remove_file sys (claim_path (ts_path sc))) (?s(ts_path sc := None)) =
      (None, (?s(ts_path sc := None))(claim_path (ts_path sc) := None))"
    using assms(2) sc(4,5) by (intro file_retries_once) (auto simp: unhindered_def)
  ultimately have "drop_scratch sys sc ?s = (?s(ts_path sc := None))(claim_path (ts_path sc) := None)"
    by (simp add: drop_scratch_def sc(1) teardown_def)
  also have "\<dots> = st" using sc(2,3) by (auto simp: st')
  finally show ?thesis .
qed

text \<open>
  Only a claim that is still ours is taken back. One attempt to remove a claim leaves the directory as it found it,
  or as whoever ran in between left it, unless the file it read held exactly this run's record, is still the same
  file afterwards and, when its identity was captured at the writing, the very file this run wrote.
\<close>

theorem claim_taken_back_only_if_ours:
  assumes "remove_claim_once sys claim written captured between n st = (a, st')"
  shows "st' = st \<or> st' = between st \<or>
    (st' = (between st)(claim := None) \<and>
      (\<exists>e e' body. st claim = Some e \<and> between st claim = Some e' \<and> en_kind e = Regular body \<and>
        take (MAX_CLAIM_BYTES + 1) body = written \<and> en_id e' = en_id e \<and> (captured = None \<or> captured = Some (en_id e))))"
  using remove_claim_once_cases [OF assms] by (simp add: ours_now_def) blast

section \<open>Witnesses\<close>

definition sample_run :: owner where
  "sample_run = \<lparr>ow_owner = ''u1000'', ow_host = ''box@linux'', ow_pid = 7, ow_start = None, ow_ns = None, ow_canonical = True\<rparr>"

lemma sample_run_text: "format_owner sample_run = ''u1000:box@linux:7''"
proof -
  have "show_nat 7 = ''7''" by code_simp
  then show ?thesis by (simp add: sample_run_def format_owner_def)
qed

lemma calm_unhindered: "unhindered calm" "sy_no_write calm n = None"
  by (simp_all add: unhindered_def calm_def)

lemma calm_new: "\<exists>sc st'. new_with calm (\<lambda>p s. s) ''u1000'' sample_run (\<lambda>n. ''abcdef'') ''log'' Map.empty = (Ready sc, st')"
proof -
  have "check_what ''u1000'' ''log'' = Inr ()" by (simp add: check_what_def what_room_owner [OF sample_token])
  moreover have "\<exists>sc st'. draw_scratch calm (\<lambda>p s. s) f t 0 (Suc left) Map.empty = (Ready sc, st')" for f t left
    by (simp add: Let_def write_claim_exclusive_def create_exclusive_def calm_def)
  moreover have "MAX_DRAWS = Suc (Suc 1)" by (simp add: MAX_DRAWS_def)
  ultimately show ?thesis unfolding new_with_def by (metis sum.simps(6))
qed

lemma scratch_is_fresh_and_claimed_witness:
  "\<exists>sc st'. new_with calm (\<lambda>p s. s) ''u1000'' sample_run (\<lambda>n. ''abcdef'') ''log'' Map.empty = (Ready sc, st') \<and>
     map_option en_kind (st' (claim_path (ts_path sc))) = Some (Regular ''u1000:box@linux:7\<newline>'')"
proof -
  from calm_new obtain sc st' where n: "new_with calm (\<lambda>p s. s) ''u1000'' sample_run (\<lambda>n. ''abcdef'') ''log'' Map.empty = (Ready sc, st')"
    by blast
  have "only_adds (\<lambda>p s. s)" by (simp add: only_adds_def)
  from scratch_is_fresh_and_claimed [OF n this]
  have "map_option en_kind (st' (claim_path (ts_path sc))) = Some (Regular (format_owner sample_run @ [CHR 0x0A]))"
    by blast
  with n show ?thesis unfolding sample_run_text by (intro exI [of _ sc] exI [of _ st']) simp
qed

lemma scratch_leaves_nothing_behind_witness:
  "\<exists>sc st'. new_with calm (\<lambda>p s. s) ''u1000'' sample_run (\<lambda>n. ''abcdef'') ''log'' Map.empty = (Ready sc, st') \<and>
     drop_scratch calm sc (st'(ts_path sc \<mapsto> sample_folder)) = Map.empty"
proof -
  from calm_new obtain sc st' where n: "new_with calm (\<lambda>p s. s) ''u1000'' sample_run (\<lambda>n. ''abcdef'') ''log'' Map.empty = (Ready sc, st')"
    by blast
  from scratch_leaves_nothing_behind [OF n calm_unhindered(1), of sample_folder] calm_unhindered(2) n show ?thesis
    by (simp add: sample_run_text MAX_CLAIM_BYTES_def sample_folder_def)
qed

lemma teardown_folder_before_claim_witness:
  "\<exists>b st'. teardown calm ''d'' [''d'' \<mapsto> sample_folder] = (b, st') \<and> (b \<longrightarrow> st' ''d'' = None)"
proof -
  obtain b st' where t: "teardown calm ''d'' [''d'' \<mapsto> sample_folder] = (b, st')"
    by (cases "teardown calm ''d'' [''d'' \<mapsto> sample_folder]")
  from teardown_folder_before_claim [OF t] t show ?thesis by blast
qed

lemma claim_taken_back_only_if_ours_witness:
  "\<exists>a st'. remove_claim_once calm ''d.owner'' ''x'' None id 1 [''d.owner'' \<mapsto> sample_folder] = (a, st') \<and>
     st' = [''d.owner'' \<mapsto> sample_folder]"
proof -
  obtain a st' where r: "remove_claim_once calm ''d.owner'' ''x'' None id 1 [''d.owner'' \<mapsto> sample_folder] = (a, st')"
    by (cases "remove_claim_once calm ''d.owner'' ''x'' None id 1 [''d.owner'' \<mapsto> sample_folder]")
  from claim_taken_back_only_if_ours [OF r] r show ?thesis by (auto simp: sample_folder_def)
qed

end
