(* ===== verification/Sweep.thy ===== *)
theory Sweep
  imports Scratch
begin

text \<open>
  \<open>src/test_scratch/sweep.rs\<close>: the start-of-run sweep, in its three passes over one listing of the root, and what it
  may remove. The hooks of the code are arguments; the answers about processes are one function, because each
  process is asked at most once. The unix build is modelled; a path is the root with the name.
\<close>

section \<open>Names\<close>

datatype relation = Own_Name string | Foreign_Name string | Legacy_Name | Other_Name

definition relation_of :: "string \<Rightarrow> string \<Rightarrow> relation" where
  "relation_of name owner =
     (case classify_name name of
        Owner_Form who (Some token) \<Rightarrow>
          if token = REPO_TOKEN then (if who = owner then Own_Name who else Foreign_Name who) else Other_Name
      | Legacy_Form token \<Rightarrow> if token = REPO_TOKEN then Legacy_Name else Other_Name
      | _ \<Rightarrow> Other_Name)"

text \<open>
  The pattern of a quarantine without regard to case: a dot, a name, a dot, the prefix and the word, a number, a
  dash and hexadecimal digits. Nothing after the second dot holds another one, so it is the last. Under Unicode case
  folding the letter s also matches U+017F.
\<close>

fun match_word :: "string \<Rightarrow> string \<Rightarrow> string option" where
  "match_word [] s = Some s"
| "match_word (p # ps) [] = None"
| "match_word (p # ps) (c # cs) =
     (if lower_char c = p then match_word ps cs
      else if p = CHR ''s'' \<and> c = CHR 0xC5 \<and> cs \<noteq> [] \<and> hd cs = CHR 0xBF then match_word ps (tl cs)
      else None)"

definition is_hex :: "char \<Rightarrow> bool" where
  "is_hex c \<longleftrightarrow> is_digit c \<or> (let n = of_char (lower_char c) :: nat in 97 \<le> n \<and> n \<le> 102)"

definition quarantine_tail :: "string \<Rightarrow> string option" where
  "quarantine_tail rest =
     (case match_word (prefix_lowercase @ ''quarantine-'') rest of
        None \<Rightarrow> None
      | Some tail \<Rightarrow>
          (let pid = takeWhile is_digit tail; after = dropWhile is_digit tail
           in if pid \<noteq> [] \<and> (case after of [] \<Rightarrow> False | d # hex \<Rightarrow> d = CHR ''-'' \<and> hex \<noteq> [] \<and> list_all is_hex hex)
              then Some pid else None))"

definition is_dot :: "char \<Rightarrow> bool" where "is_dot c \<longleftrightarrow> c = CHR ''.''"

definition quarantine_pattern :: "string \<Rightarrow> (string \<times> string) option" where
  "quarantine_pattern name =
     (case name of
        [] \<Rightarrow> None
      | c # body \<Rightarrow>
          if \<not> is_dot c \<or> list_all (\<lambda>d. \<not> is_dot d) body then None
          else (let rest = rev (takeWhile (\<lambda>d. \<not> is_dot d) (rev body));
                    original = take (length body - length rest - 1) body
                in if original = [] \<or> CHR 0x0A \<in> set original then None
                   else map_option (\<lambda>pid. (original, pid)) (quarantine_tail rest)))"

definition quarantine_pid :: "string \<Rightarrow> nat option" where
  "quarantine_pid digits =
     (if 1 < length digits \<and> hd digits = CHR ''0'' then None
      else (case parse_u64 digits of
          None \<Rightarrow> None
        | Some pid \<Rightarrow> if pid_is_askable pid False then Some pid else None))"

text \<open>\<open>shell_quote\<close>: a quote inside is closed, escaped and opened again.\<close>

definition shell_quote :: "string \<Rightarrow> string" where
  "shell_quote path =
     [CHR 0x27] @ concat (map (\<lambda>c. if c = CHR 0x27 then [CHR 0x27, CHR 0x5C, CHR 0x27, CHR 0x27] else [c]) path) @ [CHR 0x27]"

section \<open>The sweeper\<close>

record report =
  rp_removed :: "string list"
  rp_kept :: "(string \<times> string) list"
  rp_listed :: "string list"
  rp_errors :: "string list"

record listing =
  ls_entries :: "string list"
  ls_problems :: "string list"

text \<open>What a sweep is given, and what the system answers it.\<close>

record sweep_env =
  se_sys :: system
  se_root :: string
  se_now :: nanos
  se_min_age :: nanos
  se_me :: owner
  se_hidepid :: bool
  se_lower :: "string \<Rightarrow> string"
  se_ask :: "nat \<Rightarrow> probe_answer"
  se_mine :: "store \<Rightarrow> string \<Rightarrow> bool"
  se_read_dir :: "store \<Rightarrow> string + (string + string option) list"
  se_quarantine :: "string \<Rightarrow> nat \<Rightarrow> string"
  se_after_capture :: "string \<Rightarrow> store \<Rightarrow> store"
  se_after_rename :: "string \<Rightarrow> string \<Rightarrow> store \<Rightarrow> store"
  se_after_remove :: "string \<Rightarrow> store \<Rightarrow> store"
  se_between :: "store \<Rightarrow> store"

record sweeper =
  sw_store :: store
  sw_report :: report
  sw_listing :: "listing option"

definition shown :: "sweep_env \<Rightarrow> string \<Rightarrow> string" where
  "shown env name = se_root env @ ''/'' @ name"

definition keep :: "string \<Rightarrow> string \<Rightarrow> sweeper \<Rightarrow> sweeper" where
  "keep name reason sw = sw\<lparr>sw_report := (sw_report sw)\<lparr>rp_kept := rp_kept (sw_report sw) @ [(name, reason)]\<rparr>\<rparr>"

definition list_line :: "string \<Rightarrow> sweeper \<Rightarrow> sweeper" where
  "list_line line sw = sw\<lparr>sw_report := (sw_report sw)\<lparr>rp_listed := rp_listed (sw_report sw) @ [line]\<rparr>\<rparr>"

definition note_errors :: "string list \<Rightarrow> sweeper \<Rightarrow> sweeper" where
  "note_errors lines sw = sw\<lparr>sw_report := (sw_report sw)\<lparr>rp_errors := rp_errors (sw_report sw) @ lines\<rparr>\<rparr>"

definition note_removed :: "string \<Rightarrow> sweeper \<Rightarrow> sweeper" where
  "note_removed name sw = sw\<lparr>sw_report := (sw_report sw)\<lparr>rp_removed := rp_removed (sw_report sw) @ [name]\<rparr>\<rparr>"

definition list_foreign :: "string \<Rightarrow> string \<Rightarrow> string \<Rightarrow> sweeper \<Rightarrow> sweeper" where
  "list_foreign what name owner sw =
     list_line (''foreign: '' @ what @ '' '' @ name @ '' '' @ em_dash @ '' owner '' @ owner) sw"

definition list_conflict :: "sweep_env \<Rightarrow> string \<Rightarrow> string \<Rightarrow> sweeper \<Rightarrow> sweeper" where
  "list_conflict env quarantine original sw =
     list_line (''quarantine: '' @ shown env quarantine @ '' '' @ em_dash @ '' restore with: mv -- ''
       @ shell_quote (shown env quarantine) @ '' '' @ shell_quote (shown env original)) sw"

definition list_root :: "sweep_env \<Rightarrow> store \<Rightarrow> listing" where
  "list_root env st =
     (case se_read_dir env st of
        Inl e \<Rightarrow> \<lparr>ls_entries = [], ls_problems = [''cannot list '' @ se_root env @ '' ('' @ e @ '')'']\<rparr>
      | Inr found \<Rightarrow>
          \<lparr>ls_entries = concat (map (\<lambda>x. case x of Inr (Some name) \<Rightarrow> [name] | _ \<Rightarrow> []) found),
           ls_problems = concat (map (\<lambda>x. case x of
              Inl e \<Rightarrow> [''cannot read an entry of '' @ se_root env @ '' ('' @ e @ '')''] | _ \<Rightarrow> []) found)\<rparr>)"

text \<open>The entries for a pass: listed on the first call, the same snapshot after.\<close>

definition pass_entries :: "sweep_env \<Rightarrow> string \<Rightarrow> sweeper \<Rightarrow> string list \<times> sweeper" where
  "pass_entries env what sw =
     (let l = (case sw_listing sw of None \<Rightarrow> list_root env (sw_store sw) | Some l \<Rightarrow> l)
      in (ls_entries l,
          note_errors (map (\<lambda>problem. what @ '': '' @ problem) (ls_problems l)) (sw\<lparr>sw_listing := Some l\<rparr>)))"

definition note_restored :: "string \<Rightarrow> string \<Rightarrow> sweeper \<Rightarrow> sweeper" where
  "note_restored quarantine original sw =
     sw\<lparr>sw_listing := map_option (\<lambda>l. l\<lparr>ls_entries := filter (\<lambda>n. n \<noteq> quarantine) (ls_entries l) @ [original]\<rparr>)
       (sw_listing sw)\<rparr>"

definition old_enough :: "sweep_env \<Rightarrow> nanos option \<Rightarrow> bool" where
  "old_enough env stamp \<longleftrightarrow>
     (case stamp of None \<Rightarrow> False | Some t \<Rightarrow> t \<le> se_now env \<and> se_min_age env \<le> se_now env - t)"

definition same_claim :: "claim_snapshot \<Rightarrow> claim_snapshot \<Rightarrow> bool" where
  "same_claim now captured \<longleftrightarrow> cs_raw now = cs_raw captured \<and> same_id (cs_id now) (cs_id captured)"

definition exclusive_restore :: "sweep_env \<Rightarrow> string \<Rightarrow> string \<Rightarrow> store \<Rightarrow> bool \<times> store" where
  "exclusive_restore env quarantined original st =
     (case move_without_replace (se_sys env) (se_between env) quarantined original st of
        (Moved, st') \<Rightarrow> (True, st') | (_, st') \<Rightarrow> (False, st'))"

section \<open>Pass 1: quarantines a killed sweep left\<close>

definition may_restore :: "sweep_env \<Rightarrow> store \<Rightarrow> string \<Rightarrow> string \<Rightarrow> bool" where
  "may_restore env st name pid_text \<longleftrightarrow>
     (case symlink_metadata (se_sys env) st name of
        Meta e \<Rightarrow>
          is_real_dir (en_kind e) \<and> se_mine env st name \<and>
          (case quarantine_pid pid_text of None \<Rightarrow> False | Some pid \<Rightarrow> se_ask env pid = Probe_Gone) \<and>
          old_enough env (en_modified e) \<and> old_enough env (changed_at (se_sys env) st name)
      | _ \<Rightarrow> False)"

definition restore_one :: "sweep_env \<Rightarrow> string \<Rightarrow> sweeper \<Rightarrow> sweeper" where
  "restore_one env name sw =
     (case quarantine_pattern name of
        None \<Rightarrow> sw
      | Some (original, pid_text) \<Rightarrow>
          if relation_of original (ow_owner (se_me env)) = Other_Name then sw
          else if \<not> may_restore env (sw_store sw) name pid_text then sw
          else (case exclusive_restore env name original (sw_store sw) of
              (True, st') \<Rightarrow>
                list_line (''notice: restored '' @ original @ '' from a quarantine a killed sweep left'')
                  (note_restored name original (sw\<lparr>sw_store := st'\<rparr>))
            | (False, st') \<Rightarrow>
                list_conflict env name original (keep name ''quarantine-conflict'' (sw\<lparr>sw_store := st'\<rparr>))))"

definition restore_quarantines :: "sweep_env \<Rightarrow> sweeper \<Rightarrow> sweeper" where
  "restore_quarantines env sw =
     (case pass_entries env ''quarantines'' sw of (names, sw1) \<Rightarrow> fold (restore_one env) names sw1)"

section \<open>Removal by identity\<close>

definition QUARANTINE_DRAWS :: nat where "QUARANTINE_DRAWS = 5"

datatype outcome_of = Removed_It | Kept_At string string

fun draw_quarantine :: "sweep_env \<Rightarrow> string \<Rightarrow> nat \<Rightarrow> nat \<Rightarrow> store \<Rightarrow> (string + string) \<times> store" where
  "draw_quarantine env dir draw 0 st = (Inl ''could not remove: no free quarantine name after 5 draws'', st)"
| "draw_quarantine env dir draw (Suc left) st =
     (case move_without_replace (se_sys env) (se_between env) dir (se_quarantine env dir draw) st of
        (Moved, st') \<Rightarrow> (Inr (se_quarantine env dir draw), st')
      | (Taken, st') \<Rightarrow> draw_quarantine env dir (draw + 1) left st'
      | (Move_Failed e, st') \<Rightarrow> (Inl (''could not remove: '' @ e), st'))"

definition put_back :: "sweep_env \<Rightarrow> string \<Rightarrow> string \<Rightarrow> string \<Rightarrow> sweeper \<Rightarrow> outcome_of \<times> sweeper" where
  "put_back env quarantine original reason sw =
     (case exclusive_restore env quarantine original (sw_store sw) of
        (True, st') \<Rightarrow> (Kept_At original reason, sw\<lparr>sw_store := st'\<rparr>)
      | (False, st') \<Rightarrow>
          (Kept_At quarantine ''quarantine-conflict'', list_conflict env quarantine original (sw\<lparr>sw_store := st'\<rparr>)))"

definition remove_claim_after :: "sweep_env \<Rightarrow> string \<Rightarrow> claim_snapshot \<Rightarrow> sweeper \<Rightarrow> sweeper" where
  "remove_claim_after env dir cl sw =
     (if same_claim (snapshot_claim (se_sys env) (se_mine env) (sw_store sw) dir) cl
      then (case remove_with_retries (remove_file (se_sys env) (claim_path dir)) (sw_store sw) of
          (None, st') \<Rightarrow> sw\<lparr>sw_store := st'\<rparr>
        | (Some e, st') \<Rightarrow>
            note_errors [''claim '' @ shown env (claim_path dir) @ '': '' @ e] (sw\<lparr>sw_store := st'\<rparr>))
      else sw)"

definition remove_by_identity ::
  "sweep_env \<Rightarrow> string \<Rightarrow> file_id \<Rightarrow> claim_snapshot \<Rightarrow> sweeper \<Rightarrow> outcome_of \<times> sweeper" where
  "remove_by_identity env dir ident cl sw =
     (let sys = se_sys env; snap = (\<lambda>s. snapshot_claim sys (se_mine env) s dir)
      in if \<not> same_id (entry_id sys (sw_store sw) dir) (Some ident) \<or> \<not> same_claim (snap (sw_store sw)) cl
         then (Kept_At dir ''replaced'', sw)
         else (case draw_quarantine env dir 0 QUARANTINE_DRAWS (sw_store sw) of
             (Inl reason, st1) \<Rightarrow> (Kept_At dir reason, sw\<lparr>sw_store := st1\<rparr>)
           | (Inr quarantine, st1) \<Rightarrow>
               (let st2 = se_after_rename env dir quarantine st1;
                    still_it = (case entry_id sys st2 quarantine of None \<Rightarrow> False | Some there \<Rightarrow> same_inode there ident)
                      \<and> same_claim (snap st2) cl
                in if \<not> still_it then put_back env quarantine dir ''replaced'' (sw\<lparr>sw_store := st2\<rparr>)
                   else (case remove_with_retries (remove_dir_all sys quarantine) st2 of
                       (Some e, st3) \<Rightarrow> put_back env quarantine dir (''could not remove: '' @ e) (sw\<lparr>sw_store := st3\<rparr>)
                     | (None, st3) \<Rightarrow>
                         (Removed_It, remove_claim_after env dir cl (sw\<lparr>sw_store := se_after_remove env dir st3\<rparr>))))))"

section \<open>Pass 2: folders\<close>

datatype verdict_of = Keep_It string | Remove_It

definition judge_claim :: "sweep_env \<Rightarrow> raw_claim \<Rightarrow> string \<Rightarrow> verdict_of" where
  "judge_claim env raw name_owner =
     (case raw of
        Absent \<Rightarrow> Keep_It ''unmarked''
      | Unreadable_Claim foreign_uid \<Rightarrow> Keep_It (if foreign_uid then ''foreign-uid'' else ''unreadable'')
      | Claim_Text body \<Rightarrow>
          (case parse_owner body of
             Owned r \<Rightarrow>
               (case owner_state (se_lower env) (Owned r) (Some name_owner) True (se_me env) (se_hidepid env) (se_ask env) of
                  Gone \<Rightarrow> Remove_It
                | Live \<Rightarrow> Keep_It ''live''
                | Unknown \<Rightarrow>
                    Keep_It (if se_lower env (ow_host r) = se_lower env (ow_host (se_me env)) then ''unknown''
                      else ''foreign host''))
           | _ \<Rightarrow> Keep_It ''unreadable''))"

definition has_git_file :: "store \<Rightarrow> string \<Rightarrow> bool" where
  "has_git_file st name \<longleftrightarrow>
     (case st name of
        Some e \<Rightarrow> (case en_kind e of
            Folder inside \<Rightarrow> list_ex (\<lambda>(n, x). n = ''.git'' \<and> (case x of Inner_File t \<Rightarrow> True | _ \<Rightarrow> False)) inside
          | _ \<Rightarrow> False)
      | None \<Rightarrow> False)"

definition judge_folder :: "sweep_env \<Rightarrow> string \<Rightarrow> string \<Rightarrow> sweeper \<Rightarrow> sweeper" where
  "judge_folder env name name_owner sw =
     (if has_git_file (sw_store sw) name then keep name ''other clone'' sw
      else (let captured = entry_id (se_sys env) (sw_store sw) name;
                cl = snapshot_claim (se_sys env) (se_mine env) (sw_store sw) name;
                sw1 = sw\<lparr>sw_store := se_after_capture env name (sw_store sw)\<rparr>
            in if \<not> se_mine env (sw_store sw1) name
               then list_foreign ''folder'' name name_owner (keep name ''foreign-uid'' sw1)
               else (case judge_claim env (cs_raw cl) name_owner of
                   Keep_It reason \<Rightarrow>
                     keep name reason
                       (if reason = ''unmarked'' then list_line (''unmarked: folder '' @ name) sw1
                        else if reason = ''foreign-uid'' then list_foreign ''folder'' name name_owner sw1 else sw1)
                 | Remove_It \<Rightarrow>
                     (case captured of
                        None \<Rightarrow> keep name ''identity unreadable'' sw1
                      | Some ident \<Rightarrow>
                          (case remove_by_identity env name ident cl sw1 of
                             (Removed_It, sw2) \<Rightarrow> note_removed name sw2
                           | (Kept_At path reason, sw2) \<Rightarrow> keep path reason sw2)))))"

definition folder_one :: "sweep_env \<Rightarrow> string \<Rightarrow> sweeper \<Rightarrow> sweeper" where
  "folder_one env name sw =
     (case relation_of name (ow_owner (se_me env)) of
        Other_Name \<Rightarrow> sw
      | relation \<Rightarrow>
          (case symlink_metadata (se_sys env) (sw_store sw) name of
             Not_Found \<Rightarrow> sw
           | Refused \<Rightarrow> note_errors [''folders: cannot stat '' @ shown env name @ '' (Permission denied)''] sw
           | Meta e \<Rightarrow>
               if en_kind e = Link
               then (case relation of Own_Name who \<Rightarrow> keep name ''not a directory'' sw | _ \<Rightarrow> sw)
               else if \<not> is_real_dir (en_kind e) then sw
               else (case relation of
                   Foreign_Name who \<Rightarrow> list_foreign ''folder'' name who sw
                 | Legacy_Name \<Rightarrow>
                     list_line (''legacy: folder '' @ name @ '' '' @ em_dash @ '' remove with: rm -rf -- ''
                       @ shell_quote (shown env name) @ '' '' @ shell_quote (shown env (claim_path name))) sw
                 | Own_Name who \<Rightarrow> if old_enough env (en_modified e) then judge_folder env name who sw else sw
                 | Other_Name \<Rightarrow> sw)))"

definition sweep_folders :: "sweep_env \<Rightarrow> sweeper \<Rightarrow> sweeper" where
  "sweep_folders env sw =
     (case pass_entries env ''folders'' sw of (names, sw1) \<Rightarrow> fold (folder_one env) names sw1)"

section \<open>Pass 3: claims whose folder is absent\<close>

definition quarantined_originals :: "sweep_env \<Rightarrow> report \<Rightarrow> string list \<Rightarrow> string list" where
  "quarantined_originals env rep names =
     map (se_lower env \<circ> fst)
       (List.map_filter quarantine_pattern
         (names @ map fst (filter (\<lambda>(path, reason). reason = ''quarantine-conflict'') (rp_kept rep))))"

definition judge_orphan :: "sweep_env \<Rightarrow> string \<Rightarrow> string \<Rightarrow> string \<Rightarrow> sweeper \<Rightarrow> sweeper" where
  "judge_orphan env claim_name folder name_owner sw =
     (let cl = snapshot_claim (se_sys env) (se_mine env) (sw_store sw) folder
      in case judge_claim env (cs_raw cl) name_owner of
           Keep_It reason \<Rightarrow>
             keep claim_name reason
               (if reason = ''foreign-uid'' then list_foreign ''claim'' claim_name name_owner sw else sw)
         | Remove_It \<Rightarrow>
             if (case symlink_metadata (se_sys env) (sw_store sw) folder of Meta e \<Rightarrow> True | _ \<Rightarrow> False) \<or>
               \<not> same_claim (snapshot_claim (se_sys env) (se_mine env) (sw_store sw) folder) cl
             then keep claim_name ''replaced'' sw
             else (case remove_with_retries (remove_file (se_sys env) claim_name) (sw_store sw) of
                 (None, st') \<Rightarrow> note_removed claim_name (sw\<lparr>sw_store := st'\<rparr>)
               | (Some e, st') \<Rightarrow>
                   note_errors [''claim '' @ shown env claim_name @ '': '' @ e] (sw\<lparr>sw_store := st'\<rparr>)))"

definition orphan_one :: "sweep_env \<Rightarrow> string list \<Rightarrow> string \<Rightarrow> sweeper \<Rightarrow> sweeper" where
  "orphan_one env quarantined name sw =
     (if \<not> (ends_with ''.owner'' name \<and> 6 \<le> length name) then sw
      else (let stem = take (length name - 6) name
            in case relation_of stem (ow_owner (se_me env)) of
                 Other_Name \<Rightarrow> sw
               | relation \<Rightarrow>
                   (case symlink_metadata (se_sys env) (sw_store sw) name of
                      Meta e \<Rightarrow>
                        if \<not> is_plain_file (en_kind e) \<or>
                          (case symlink_metadata (se_sys env) (sw_store sw) stem of Meta f \<Rightarrow> True | _ \<Rightarrow> False) \<or>
                          \<not> old_enough env (en_modified e) then sw
                        else (case relation of
                            Foreign_Name who \<Rightarrow> list_foreign ''claim'' name who sw
                          | Legacy_Name \<Rightarrow>
                              list_line (''legacy: claim '' @ name @ '' '' @ em_dash @ '' remove with: rm -f -- ''
                                @ shell_quote (shown env name)) (keep name ''legacy'' sw)
                          | Own_Name who \<Rightarrow>
                              if se_lower env stem \<in> set quarantined then keep name ''quarantined'' sw
                              else judge_orphan env name stem who sw
                          | Other_Name \<Rightarrow> sw)
                    | _ \<Rightarrow> sw)))"

definition sweep_orphan_claims :: "sweep_env \<Rightarrow> sweeper \<Rightarrow> sweeper" where
  "sweep_orphan_claims env sw =
     (case pass_entries env ''claims'' sw of
        (names, sw1) \<Rightarrow> fold (orphan_one env (quarantined_originals env (sw_report sw1) names)) names sw1)"

section \<open>The sweep\<close>

definition empty_report :: report where
  "empty_report = \<lparr>rp_removed = [], rp_kept = [], rp_listed = [], rp_errors = []\<rparr>"

definition sweep :: "sweep_env \<Rightarrow> store \<Rightarrow> sweeper" where
  "sweep env st =
     sweep_orphan_claims env (sweep_folders env (restore_quarantines env
       \<lparr>sw_store = st, sw_report = empty_report, sw_listing = None\<rparr>))"

definition print_report :: "sweep_env \<Rightarrow> report \<Rightarrow> string list" where
  "print_report env rep =
     map (\<lambda>(path, reason). ''test_scratch: kept '' @ shown env path @ '' '' @ em_dash @ '' '' @ reason) (rp_kept rep)
       @ map (\<lambda>line. ''test_scratch: '' @ line) (rp_listed rep)
       @ map (\<lambda>e. ''test_scratch: sweep error '' @ em_dash @ '' '' @ e) (rp_errors rep)"

end
