(* ===== verification/Sweep_Safety.thy ===== *)
theory Sweep_Safety
  imports Sweep
begin

text \<open>
  What the start-of-run sweep of theory \<open>Sweep\<close> may remove and what it must keep: every step touches only an
  abandoned folder and its claim, a restore moves a folder back to its own name, the removal is by identity
  whoever interferes, and the folder of a running test is never touched.
\<close>

section \<open>What a step may change\<close>

lemma sweeper_store [simp]:
  "sw_store (keep n r sw) = sw_store sw" "sw_store (list_line l sw) = sw_store sw"
  "sw_store (note_errors es sw) = sw_store sw" "sw_store (note_removed n sw) = sw_store sw"
  "sw_store (list_foreign a b c sw) = sw_store sw" "sw_store (list_conflict env q d sw) = sw_store sw"
  "sw_store (note_restored q d sw) = sw_store sw" "sw_store (snd (pass_entries env a sw)) = sw_store sw"
  by (simp_all add: keep_def list_line_def note_errors_def note_removed_def list_foreign_def list_conflict_def
      note_restored_def pass_entries_def Let_def)

text \<open>
  Outside a set of names nothing that existed is changed, and no plain file appears or changes anywhere.
\<close>

definition plain_sub :: "store \<Rightarrow> store \<Rightarrow> bool" where
  "plain_sub a b \<longleftrightarrow> (\<forall>n e. b n = Some e \<and> is_plain_file (en_kind e) \<longrightarrow> a n = Some e)"

definition touches :: "string set \<Rightarrow> store \<Rightarrow> store \<Rightarrow> bool" where
  "touches D a b \<longleftrightarrow> (\<forall>n. n \<in> D \<or> b n = a n \<or> a n = None) \<and> plain_sub a b"

lemma plain_sub_refl [simp]: "plain_sub a a"
  by (simp add: plain_sub_def)

lemma plain_sub_trans: "plain_sub a b \<Longrightarrow> plain_sub b c \<Longrightarrow> plain_sub a c"
  by (auto simp: plain_sub_def)

lemma touches_refl [simp]: "touches D a a"
  by (simp add: touches_def)

lemma touches_trans: "touches D a b \<Longrightarrow> touches D b c \<Longrightarrow> touches D a c"
  unfolding touches_def by (metis plain_sub_trans)

lemma touches_mono: "touches D a b \<Longrightarrow> D \<subseteq> E \<Longrightarrow> touches E a b"
  by (auto simp: touches_def)

lemma touches_fresh: "touches (insert q D) a b \<Longrightarrow> a q = None \<Longrightarrow> touches D a b"
  unfolding touches_def by (metis insertE)

lemma touches_keeps: "touches D a b \<Longrightarrow> n \<notin> D \<Longrightarrow> a n = Some e \<Longrightarrow> b n = Some e"
  unfolding touches_def by (metis option.distinct(1))

lemma real_dir_not_plain: "is_real_dir k \<Longrightarrow> \<not> is_plain_file k"
  by (cases k) simp_all

lemma relocated_kind: "relocated e e' \<Longrightarrow> en_kind e' = en_kind e"
  by (simp add: relocated_def)

lemma move_touches:
  assumes "move_without_replace sys id from to st = (a, st')" and "st from = Some e" and "is_real_dir (en_kind e)"
  shows "touches {from} st st' \<and>
    (if a = Moved then st to = None \<and> from \<noteq> to \<and> st' from = None \<and> (\<exists>e'. st' to = Some e' \<and> relocated e e')
     else st' from = Some e)"
proof (cases "from = to")
  case True
  with assms(1,2) have "a \<noteq> Moved \<and> st' = st"
    by (auto simp: move_without_replace_def move_via_placeholder_def create_exclusive_simps renameat2_noreplace_def
        split: if_splits)
  with assms(2) show ?thesis by simp
next
  case False
  from move_exclusive [OF assms(1) False] have m: "a = Moved \<Longrightarrow> moves from to st st'"
    "a \<noteq> Moved \<Longrightarrow> st' = st \<or> (st to = None \<and> (\<exists>p. en_kind p = Folder [] \<and> st' = st(to \<mapsto> p)))" by auto
  show ?thesis
  proof (cases "a = Moved")
    case True
    with m(1) assms(2) obtain e' where e': "st to = None" "relocated e e'" "st' = (st(from := None))(to \<mapsto> e')"
      by (auto simp: moves_def)
    moreover have "\<not> is_plain_file (en_kind e')"
      using e'(2) assms(3) by (simp add: relocated_kind real_dir_not_plain)
    ultimately show ?thesis using True False by (auto simp: touches_def plain_sub_def)
  next
    case notmoved: False
    then consider "st' = st" | p where "st to = None" "en_kind p = Folder []" "st' = st(to \<mapsto> p)" using m(2) by blast
    then show ?thesis
    proof cases
      case 2
      with notmoved False assms(2) show ?thesis by (auto simp: touches_def plain_sub_def)
    qed (use notmoved assms(2) in simp)
  qed
qed

lemma rmdir_touches:
  assumes "remove_with_retries (remove_dir_all sys name) st = (r, st')" and "st name = Some e" "is_real_dir (en_kind e)"
  shows "touches {name} st st' \<and> (st' name = None \<or> (\<exists>e'. st' name = Some e' \<and> is_real_dir (en_kind e') \<and>
    same_inode (en_id e') (en_id e)))"
proof -
  let ?P = "\<lambda>s. (\<forall>n. n \<noteq> name \<longrightarrow> s n = st n) \<and> (s name = None \<or> (\<exists>e'. s name = Some e' \<and> is_real_dir (en_kind e') \<and>
    same_inode (en_id e') (en_id e)))"
  have "?P st'"
  proof (rule retries_invariant [of ?P, OF _ _ assms(1)])
    fix n s a s'
    assume P: "?P s" and r: "remove_dir_all sys name n s = (a, s')"
    show "?P s'"
    proof (cases "s name")
      case (Some x)
      with P have x: "is_real_dir (en_kind x)" "same_inode (en_id x) (en_id e)" by auto
      then obtain inside where k: "en_kind x = Folder inside" by (cases "en_kind x") auto
      have "is_real_dir (en_kind (left_entry sys name n x))" "same_inode (en_id (left_entry sys name n x)) (en_id e)"
        using x(2) k by (auto simp: left_entry_def same_inode_def split: prod.split)
      with r Some k P show ?thesis by (auto simp: remove_dir_all_def split: option.splits)
    qed (use P r in \<open>simp add: remove_dir_all_def\<close>)
  qed (use assms(2,3) in \<open>simp add: same_inode_def\<close>)
  then show ?thesis
    unfolding touches_def plain_sub_def by (metis real_dir_not_plain singletonI option.distinct(1) option.inject)
qed

lemma rmfile_touches:
  assumes "remove_with_retries (remove_file sys name) st = (r, st')"
  shows "touches {name} st st' \<and> (st' = st \<or> st' = st(name := None))"
proof -
  have "st' = st \<or> st' = st(name := None)"
    by (rule retries_invariant [of "\<lambda>s. s = st \<or> s = st(name := None)", OF _ _ assms])
      (auto simp: remove_file_def split: option.splits if_splits)
  then show ?thesis by (auto simp: touches_def plain_sub_def split: if_splits)
qed

text \<open>A sweep that nobody interferes with, with the real question about the owner.\<close>

definition quiet :: "sweep_env \<Rightarrow> bool" where
  "quiet env \<longleftrightarrow> se_after_capture env = (\<lambda>n s. s) \<and> se_after_rename env = (\<lambda>n q s. s) \<and>
     se_after_remove env = (\<lambda>n s. s) \<and> se_between env = id \<and> se_mine env = is_mine (se_sys env)"

lemma draw_touches:
  assumes "quiet env" and "draw_quarantine env dir k left st = (r, st')" and "st dir = Some e" and "is_real_dir (en_kind e)"
  shows "touches {dir} st st' \<and>
    (case r of Inl reason \<Rightarrow> st' dir = Some e
     | Inr q \<Rightarrow> st q = None \<and> st' dir = None \<and> q \<noteq> dir \<and> (\<exists>e'. st' q = Some e' \<and> relocated e e'))"
  using assms(2,3)
proof (induction left arbitrary: k st)
  case (Suc left)
  obtain a st1 where m: "move_without_replace (se_sys env) id dir (se_quarantine env dir k) st = (a, st1)"
    by (cases "move_without_replace (se_sys env) id dir (se_quarantine env dir k) st")
  note t = move_touches [OF m Suc.prems(2) assms(4)]
  have b: "se_between env = id" using assms(1) by (simp add: quiet_def)
  show ?case
  proof (cases a)
    case Moved
    with Suc.prems(1) m b t show ?thesis by auto
  next
    case Taken
    with Suc.prems(1) m b have d: "draw_quarantine env dir (k + 1) left st1 = (r, st')" by simp
    from t Taken have t1: "touches {dir} st st1" "st1 dir = Some e" by simp_all
    from Suc.IH [OF d t1(2)] t1 touches_trans [of "{dir}" st st1 st'] show ?thesis
      by (auto split: sum.splits) (metis singletonD touches_keeps option.exhaust option.distinct(1))
  next
    case (Move_Failed x)
    with Suc.prems(1) m b t show ?thesis by auto
  qed
qed auto

lemma restore_touches:
  assumes "quiet env" and "exclusive_restore env q original st = (ok, st')" and "st q = Some e" "is_real_dir (en_kind e)"
  shows "touches {q} st st' \<and>
    (if ok then st original = None \<and> q \<noteq> original \<and> st' q = None \<and> (\<exists>e'. st' original = Some e' \<and> relocated e e')
     else st' q = Some e)"
proof -
  obtain a s where m: "move_without_replace (se_sys env) id q original st = (a, s)"
    by (cases "move_without_replace (se_sys env) id q original st")
  have "ok = (a = Moved) \<and> st' = s"
    using assms(1,2) m by (cases a) (simp_all add: exclusive_restore_def quiet_def)
  with move_touches [OF m assms(3,4)] show ?thesis by simp
qed

lemma put_back_touches:
  assumes "quiet env" and "put_back env q dir reason sw = (r, sw')" and "sw_store sw q = Some e" "is_real_dir (en_kind e)"
  shows "touches {q} (sw_store sw) (sw_store sw')"
proof -
  obtain ok st' where x: "exclusive_restore env q dir (sw_store sw) = (ok, st')"
    by (cases "exclusive_restore env q dir (sw_store sw)")
  from restore_touches [OF assms(1) x assms(3,4)] assms(2) x show ?thesis
    by (cases ok) (auto simp: put_back_def)
qed

lemma claim_after_touches: "touches {claim_path dir} (sw_store sw) (sw_store (remove_claim_after env dir cl sw))"
proof -
  obtain r st' where r: "remove_with_retries (remove_file (se_sys env) (claim_path dir)) (sw_store sw) = (r, st')"
    by (cases "remove_with_retries (remove_file (se_sys env) (claim_path dir)) (sw_store sw)")
  with rmfile_touches [OF r] show ?thesis by (cases r) (simp_all add: remove_claim_after_def)
qed

lemma entry_id_Some: "entry_id sys st n = Some i \<Longrightarrow> \<exists>e. st n = Some e \<and> en_id e = i"
  by (auto simp: entry_id_def symlink_metadata_def split: option.splits meta.splits if_splits)

lemma remove_touches:
  assumes "quiet env" and "remove_by_identity env dir ident cl sw = (r, sw')"
    and "sw_store sw dir = Some e" and "is_real_dir (en_kind e)"
  shows "touches {dir, claim_path dir} (sw_store sw) (sw_store sw')"
proof (cases "\<not> same_id (entry_id (se_sys env) (sw_store sw) dir) (Some ident) \<or>
    \<not> same_claim (snapshot_claim (se_sys env) (se_mine env) (sw_store sw) dir) cl")
  case True
  with assms(2) show ?thesis by (auto simp: remove_by_identity_def Let_def)
next
  case go: False
  obtain x st1 where d: "draw_quarantine env dir 0 QUARANTINE_DRAWS (sw_store sw) = (x, st1)"
    by (cases "draw_quarantine env dir 0 QUARANTINE_DRAWS (sw_store sw)")
  note dt = draw_touches [OF assms(1) d assms(3,4)]
  have q2: "se_after_rename env = (\<lambda>n q s. s)" "se_after_remove env = (\<lambda>n s. s)" using assms(1) by (simp_all add: quiet_def)
  show ?thesis
  proof (cases x)
    case (Inl reason)
    with assms(2) go d dt show ?thesis by (auto simp: remove_by_identity_def Let_def intro: touches_mono)
  next
    case (Inr q)
    with dt obtain e1 where q: "sw_store sw q = None" "st1 dir = None" "q \<noteq> dir" "st1 q = Some e1" "relocated e e1"
      and t1: "touches {dir} (sw_store sw) st1" by auto
    have dir1: "is_real_dir (en_kind e1)" using q(5) assms(4) by (simp add: relocated_kind)
    have final: "touches {dir, claim_path dir} (sw_store sw) s" if "touches {q, claim_path dir} st1 s" for s
    proof (rule touches_fresh)
      show "sw_store sw q = None" by (rule q(1))
      from touches_mono [OF t1, of "{q, dir, claim_path dir}"] touches_mono [OF that, of "{q, dir, claim_path dir}"]
      show "touches {q, dir, claim_path dir} (sw_store sw) s" using touches_trans by blast
    qed
    define still where "still = ((case entry_id (se_sys env) st1 q of None \<Rightarrow> False | Some there \<Rightarrow> same_inode there ident)
        \<and> same_claim (snapshot_claim (se_sys env) (se_mine env) st1 dir) cl)"
    show ?thesis
    proof (cases still)
      case False
      with assms(2) go d Inr q2 have "put_back env q dir ''replaced'' (sw\<lparr>sw_store := st1\<rparr>) = (r, sw')"
        by (simp add: remove_by_identity_def Let_def still_def)
      from put_back_touches [OF assms(1) this] q(4) dir1 have "touches {q} st1 (sw_store sw')" by simp
      then show ?thesis by (intro final) (auto intro: touches_mono)
    next
      case True
      obtain y st3 where rm: "remove_with_retries (remove_dir_all (se_sys env) q) st1 = (y, st3)"
        by (cases "remove_with_retries (remove_dir_all (se_sys env) q) st1")
      note rt = rmdir_touches [OF rm q(4) dir1]
      show ?thesis
      proof (cases y)
        case None
        with assms(2) go d Inr q2 True rm have "sw' = remove_claim_after env dir cl (sw\<lparr>sw_store := st3\<rparr>)"
          by (simp add: remove_by_identity_def Let_def still_def)
        with claim_after_touches [of dir "sw\<lparr>sw_store := st3\<rparr>" env cl] have "touches {claim_path dir} st3 (sw_store sw')" by simp
        with rt have "touches {q, claim_path dir} st1 (sw_store sw')"
          by (meson touches_mono touches_trans insert_mono empty_subsetI subset_insertI)
        then show ?thesis by (rule final)
      next
        case (Some err)
        with assms(2) go d Inr q2 True rm
        have p: "put_back env q dir (''could not remove: '' @ err) (sw\<lparr>sw_store := st3\<rparr>) = (r, sw')"
          by (simp add: remove_by_identity_def Let_def still_def)
        from rt dir_retries_failed [of "se_sys env" q st1 err st3] rm Some
        obtain e3 where "st3 q = Some e3" "is_real_dir (en_kind e3)" by auto
        with put_back_touches [OF assms(1) p] have "touches {q} st3 (sw_store sw')" by simp
        with rt have "touches {q, claim_path dir} st1 (sw_store sw')"
          by (meson touches_mono touches_trans insert_mono empty_subsetI)
        then show ?thesis by (rule final)
      qed
    qed
  qed
qed

section \<open>What authorises a removal\<close>

text \<open>A folder is abandoned when its name is the caller's and the claim beside it is the caller's and of a process that is gone.\<close>

definition abandoned :: "sweep_env \<Rightarrow> store \<Rightarrow> string \<Rightarrow> bool" where
  "abandoned env st m \<longleftrightarrow>
     relation_of m (ow_owner (se_me env)) = Own_Name (ow_owner (se_me env)) \<and>
     (case cs_raw (snapshot_claim (se_sys env) (is_mine (se_sys env)) st m) of
        Claim_Text body \<Rightarrow>
          owner_state (se_lower env) (parse_owner body) (Some (ow_owner (se_me env))) True (se_me env) (se_hidepid env)
            (se_ask env) = Gone
      | _ \<Rightarrow> False)"

lemma own_name_owner: "relation_of m owner = Own_Name who \<Longrightarrow> who = owner"
  by (auto simp: relation_of_def split: name_form.splits option.splits if_splits)

lemma judge_claim_remove:
  "judge_claim env raw who = Remove_It \<longleftrightarrow>
     (\<exists>body. raw = Claim_Text body \<and>
        owner_state (se_lower env) (parse_owner body) (Some who) True (se_me env) (se_hidepid env) (se_ask env) = Gone)"
  by (cases raw) (auto simp: judge_claim_def dest: owner_state_gone_owned split: claim.splits owner_liveness.splits)

lemma judged_abandoned:
  "relation_of m (ow_owner (se_me env)) = Own_Name who \<Longrightarrow>
     judge_claim env (cs_raw (snapshot_claim (se_sys env) (is_mine (se_sys env)) st m)) who = Remove_It \<Longrightarrow> abandoned env st m"
  by (frule own_name_owner) (auto simp: abandoned_def judge_claim_remove)

lemma snapshot_text:
  assumes "cs_raw (snapshot_claim sys (is_mine sys) st m) = Claim_Text body"
  obtains e whole where "st (claim_path m) = Some e" "en_kind e = Regular whole" "en_uid e = sy_uid sys"
    "body = take (MAX_CLAIM_BYTES + 1) whole"
proof -
  from assms obtain e where e: "st (claim_path m) = Some e" "is_plain_file (en_kind e)" "is_mine sys st (claim_path m)"
    "read_limited sys st (claim_path m) (entry_id sys st (claim_path m)) = Some body"
    by (auto simp: snapshot_claim_def Let_def symlink_metadata_def split: option.splits if_splits meta.splits)
  then obtain whole where "en_kind e = Regular whole" by (cases "en_kind e") simp_all
  with e that [of e whole] show ?thesis
    by (auto simp: read_limited_def is_mine_def symlink_metadata_def split: option.splits if_splits)
qed

lemma stat_local:
  assumes "s n = t n"
  shows "symlink_metadata sys s n = symlink_metadata sys t n" "entry_id sys s n = entry_id sys t n"
    "is_mine sys s n = is_mine sys t n" "changed_at sys s n = changed_at sys t n"
    "read_limited sys s n i = read_limited sys t n i"
proof -
  show m: "symlink_metadata sys s n = symlink_metadata sys t n" by (simp add: symlink_metadata_def assms)
  show "entry_id sys s n = entry_id sys t n" "is_mine sys s n = is_mine sys t n" "changed_at sys s n = changed_at sys t n"
    by (simp_all only: entry_id_def is_mine_def changed_at_def m)
  show "read_limited sys s n i = read_limited sys t n i" by (simp only: read_limited_def assms)
qed

lemma snapshot_local: "s (claim_path m) = t (claim_path m) \<Longrightarrow>
    snapshot_claim sys (is_mine sys) s m = snapshot_claim sys (is_mine sys) t m"
proof -
  assume "s (claim_path m) = t (claim_path m)"
  note l = stat_local [where s = s and t = t and n = "claim_path m", OF this]
  show ?thesis by (simp only: snapshot_claim_def Let_def l)
qed

lemma abandoned_claim: "abandoned env st m \<Longrightarrow> \<exists>e. st (claim_path m) = Some e \<and> is_plain_file (en_kind e)"
  by (auto simp: abandoned_def split: raw_claim.splits elim!: snapshot_text)

text \<open>Plain files neither appear nor change, so what is judged abandoned now was so before.\<close>

lemma abandoned_back:
  assumes "plain_sub a b" and "abandoned env b m" shows "abandoned env a m"
proof -
  from abandoned_claim [OF assms(2)] obtain e where "b (claim_path m) = Some e" "is_plain_file (en_kind e)" by blast
  with assms(1) have "a (claim_path m) = b (claim_path m)" by (auto simp: plain_sub_def)
  from snapshot_local [of a m b, OF this] assms(2) show ?thesis by (simp add: abandoned_def)
qed

definition doomed :: "sweep_env \<Rightarrow> store \<Rightarrow> string \<Rightarrow> bool" where
  "doomed env st n \<longleftrightarrow>
     (\<exists>m. abandoned env st m \<and> (n = claim_path m \<or> n = m \<and> (\<exists>e. st m = Some e \<and> is_real_dir (en_kind e))))"

definition spares :: "sweep_env \<Rightarrow> store \<Rightarrow> store \<Rightarrow> bool" where
  "spares env a b \<longleftrightarrow> plain_sub a b \<and> (\<forall>n e. a n = Some e \<longrightarrow> b n = Some e \<or> doomed env a n)"

lemma spares_refl [simp]: "spares env a a"
  by (simp add: spares_def)

lemma spares_trans:
  assumes "spares env a b" and "spares env b c" shows "spares env a c"
  unfolding spares_def
proof (intro conjI allI impI)
  show "plain_sub a c" using assms plain_sub_trans by (auto simp: spares_def)
  fix n e assume a: "a n = Some e"
  show "c n = Some e \<or> doomed env a n"
  proof (cases "b n = Some e")
    case True
    with assms(2) consider "c n = Some e" | "doomed env b n" by (auto simp: spares_def)
    then show ?thesis
    proof cases
      case 2
      then obtain m where m: "abandoned env b m" "n = claim_path m \<or> n = m \<and> (\<exists>x. b m = Some x \<and> is_real_dir (en_kind x))"
        by (auto simp: doomed_def)
      have "abandoned env a m" using abandoned_back [of a b env m] assms(1) m(1) by (auto simp: spares_def)
      with m(2) a True show ?thesis unfolding doomed_def by (metis option.inject)
    qed simp
  qed (use assms(1) a in \<open>auto simp: spares_def\<close>)
qed

lemma spares_touches:
  assumes "touches {m, claim_path m} a b" and "abandoned env a m" and "a m = Some e" and "is_real_dir (en_kind e)"
  shows "spares env a b"
  unfolding spares_def
proof (intro conjI allI impI)
  show "plain_sub a b" using assms(1) by (simp add: touches_def)
  fix n x assume a: "a n = Some x"
  show "b n = Some x \<or> doomed env a n"
  proof (cases "n = m \<or> n = claim_path m")
    case True
    with assms(2-4) show ?thesis unfolding doomed_def by blast
  next
    case False
    with touches_keeps [OF assms(1) _ a] show ?thesis by simp
  qed
qed

section \<open>The passes\<close>

lemma judge_folder_spares:
  assumes "quiet env" and "relation_of name (ow_owner (se_me env)) = Own_Name who"
    and "sw_store sw name = Some e" and "is_real_dir (en_kind e)"
  shows "spares env (sw_store sw) (sw_store (judge_folder env name who sw))"
proof -
  let ?cl = "snapshot_claim (se_sys env) (is_mine (se_sys env)) (sw_store sw) name"
  have q: "se_mine env = is_mine (se_sys env)" "se_after_capture env = (\<lambda>n s. s)" using assms(1) by (simp_all add: quiet_def)
  show ?thesis
  proof (cases "\<not> has_git_file (sw_store sw) name \<and> is_mine (se_sys env) (sw_store sw) name \<and>
      judge_claim env (cs_raw ?cl) who = Remove_It \<and> entry_id (se_sys env) (sw_store sw) name \<noteq> None")
    case True
    then obtain ident where i: "entry_id (se_sys env) (sw_store sw) name = Some ident" by blast
    have sw: "sw\<lparr>sw_store := sw_store sw\<rparr> = sw" by simp
    obtain r sw2 where r: "remove_by_identity env name ident ?cl sw = (r, sw2)"
      by (cases "remove_by_identity env name ident ?cl sw")
    from True i q r have "sw_store (judge_folder env name who sw) = sw_store sw2"
      by (cases r) (simp_all add: judge_folder_def Let_def)
    moreover have "abandoned env (sw_store sw) name" using judged_abandoned [OF assms(2)] True by simp
    ultimately show ?thesis
      using spares_touches [OF remove_touches [OF assms(1) r assms(3,4)] _ assms(3,4)] by simp
  next
    case False
    then have "sw_store (judge_folder env name who sw) = sw_store sw"
      using q by (auto simp: judge_folder_def Let_def split: verdict_of.splits option.splits)
    then show ?thesis by simp
  qed
qed

lemma folder_one_spares:
  assumes "quiet env" shows "spares env (sw_store sw) (sw_store (folder_one env name sw))"
proof (cases "\<exists>who e. relation_of name (ow_owner (se_me env)) = Own_Name who \<and>
    symlink_metadata (se_sys env) (sw_store sw) name = Meta e \<and> is_real_dir (en_kind e) \<and> old_enough env (en_modified e)")
  case True
  then obtain who e where h: "relation_of name (ow_owner (se_me env)) = Own_Name who"
    "symlink_metadata (se_sys env) (sw_store sw) name = Meta e" "is_real_dir (en_kind e)" "old_enough env (en_modified e)" by blast
  then have "sw_store sw name = Some e" by (auto simp: symlink_metadata_def split: option.splits if_splits)
  from judge_folder_spares [OF assms h(1) this h(3)] h show ?thesis by (auto simp: folder_one_def)
next
  case False
  then have "sw_store (folder_one env name sw) = sw_store sw"
    by (auto simp: folder_one_def split: relation.splits meta.splits)
  then show ?thesis by simp
qed

lemma judge_orphan_spares:
  assumes "quiet env" and "relation_of stem (ow_owner (se_me env)) = Own_Name who"
  shows "spares env (sw_store sw) (sw_store (judge_orphan env (claim_path stem) stem who sw))"
proof -
  let ?cl = "snapshot_claim (se_sys env) (is_mine (se_sys env)) (sw_store sw) stem"
  have q: "se_mine env = is_mine (se_sys env)" using assms(1) by (simp add: quiet_def)
  obtain r st' where r: "remove_with_retries (remove_file (se_sys env) (claim_path stem)) (sw_store sw) = (r, st')"
    by (cases "remove_with_retries (remove_file (se_sys env) (claim_path stem)) (sw_store sw)")
  show ?thesis
  proof (cases "judge_claim env (cs_raw ?cl) who = Remove_It")
    case True
    have "abandoned env (sw_store sw) stem" using judged_abandoned [OF assms(2)] True by simp
    moreover have "sw_store (judge_orphan env (claim_path stem) stem who sw) \<in> {sw_store sw, st'}"
      using True q r by (cases r) (auto simp: judge_orphan_def Let_def)
    moreover have "touches {claim_path stem} (sw_store sw) st'" using rmfile_touches [OF r] by simp
    ultimately show ?thesis
      by (auto simp: spares_def doomed_def touches_def)
  next
    case False
    then have "sw_store (judge_orphan env (claim_path stem) stem who sw) = sw_store sw"
      using q by (auto simp: judge_orphan_def Let_def split: verdict_of.splits)
    then show ?thesis by simp
  qed
qed

lemma owner_stem: "ends_with ''.owner'' name \<Longrightarrow> name = claim_path (take (length name - 6) name)"
proof -
  assume "ends_with ''.owner'' name"
  moreover have "length ''.owner'' = (6::nat)" by simp
  ultimately have "drop (length name - 6) name = ''.owner''" unfolding ends_with_def by metis
  then show ?thesis unfolding claim_path_def by (metis append_take_drop_id)
qed

lemma orphan_one_spares:
  assumes "quiet env" shows "spares env (sw_store sw) (sw_store (orphan_one env qs name sw))"
proof (cases "ends_with ''.owner'' name \<and> 6 \<le> length name")
  case True
  define stem where "stem = take (length name - 6) name"
  have n: "name = claim_path stem" using owner_stem True by (simp add: stem_def)
  show ?thesis
  proof (cases "relation_of stem (ow_owner (se_me env))")
    case (Own_Name who)
    have "sw_store (orphan_one env qs name sw) \<in> {sw_store sw, sw_store (judge_orphan env name stem who sw)}"
      using True Own_Name by (auto simp: orphan_one_def Let_def stem_def [symmetric] split: meta.splits)
    with judge_orphan_spares [OF assms Own_Name, of sw] n show ?thesis by auto
  qed (use True in \<open>auto simp: orphan_one_def Let_def stem_def [symmetric] split: meta.splits\<close>)
qed (auto simp: orphan_one_def)

lemma fold_spares:
  assumes "\<And>n s. spares env (sw_store s) (sw_store (f n s))"
  shows "spares env (sw_store sw) (sw_store (fold f names sw))"
  by (induction names arbitrary: sw) (auto intro: spares_trans assms)

lemma later_passes_spare:
  assumes "quiet env"
  shows "spares env (sw_store sw) (sw_store (sweep_orphan_claims env (sweep_folders env sw)))"
proof (rule spares_trans)
  obtain names sw1 where e: "pass_entries env ''folders'' sw = (names, sw1)" by (cases "pass_entries env ''folders'' sw")
  have f: "sw_store sw1 = sw_store sw" using sweeper_store(8) [of env "''folders''" sw] e by simp
  show "spares env (sw_store sw) (sw_store (sweep_folders env sw))"
    using fold_spares [of env "folder_one env" sw1 names, OF folder_one_spares [OF assms]] e f
    by (simp add: sweep_folders_def)
  let ?s = "sweep_folders env sw"
  obtain names2 sw2 where e2: "pass_entries env ''claims'' ?s = (names2, sw2)" by (cases "pass_entries env ''claims'' ?s")
  have f2: "sw_store sw2 = sw_store ?s" using sweeper_store(8) [of env "''claims''" ?s] e2 by simp
  show "spares env (sw_store ?s) (sw_store (sweep_orphan_claims env ?s))"
    using fold_spares [of env "orphan_one env (quarantined_originals env (sw_report sw2) names2)" sw2 names2,
        OF orphan_one_spares [OF assms]] e2 f2
    by (simp add: sweep_orphan_claims_def)
qed

section \<open>Restores\<close>

lemma name_segments_hd:
  assumes "name_segments name \<noteq> None" shows "\<exists>c cs. name = c # cs \<and> lower_char c = CHR ''t''"
proof -
  define word where "word = butlast PREFIX"
  have len: "length word = Suc 12" by (simp add: word_def PREFIX_def)
  from assms have "\<not> length name < length word" and l: "lowercase (take (length word) name) = lowercase word"
    by (auto simp: name_segments_def Let_def word_def [symmetric] split: if_splits)
  then obtain c cs where name: "name = c # cs" using len by (cases name) auto
  from l have "lower_char c # lowercase (take 12 cs) = lowercase (butlast PREFIX)"
    unfolding len name take_Suc_Cons by (simp add: lowercase_def word_def)
  moreover have "hd (lowercase (butlast PREFIX)) = CHR ''t''" by code_simp
  ultimately have "lower_char c = CHR ''t''" by (metis list.sel(1))
  with name show ?thesis by blast
qed

lemma related_segments: "relation_of name owner \<noteq> Other_Name \<Longrightarrow> name_segments name \<noteq> None"
  by (auto simp: relation_of_def classify_name_def split: name_form.splits option.splits list.splits if_splits)

lemma related_no_quarantine: "relation_of name owner \<noteq> Other_Name \<Longrightarrow> quarantine_pattern (name @ rest) = None"
proof -
  assume "relation_of name owner \<noteq> Other_Name"
  from name_segments_hd [OF related_segments [OF this]] obtain c cs where c: "name = c # cs" "lower_char c = CHR ''t''" by blast
  have "lower_char (CHR ''.'') \<noteq> CHR ''t''" by code_simp
  with c(2) have "\<not> is_dot c" by (auto simp: is_dot_def)
  with c(1) show ?thesis by (simp add: quarantine_pattern_def)
qed

lemma may_restore_local:
  assumes "quiet env" and "a n = b n" shows "may_restore env a n pid = may_restore env b n pid"
proof -
  have m: "se_mine env a n = se_mine env b n"
    using assms(1) stat_local(3) [where s = a and t = b and n = n, OF assms(2)] by (simp add: quiet_def)
  show ?thesis
    unfolding may_restore_def stat_local(1,4) [where s = a and t = b and n = n, OF assms(2)] m by (rule refl)
qed

definition put_right :: "sweep_env \<Rightarrow> store \<Rightarrow> store \<Rightarrow> string \<Rightarrow> entry \<Rightarrow> bool" where
  "put_right env a b n e \<longleftrightarrow>
     (\<exists>original pid e'. quarantine_pattern n = Some (original, pid) \<and> may_restore env a n pid \<and>
        relation_of original (ow_owner (se_me env)) \<noteq> Other_Name \<and> b original = Some e' \<and> relocated e e' \<and>
        is_real_dir (en_kind e))"

definition restores :: "sweep_env \<Rightarrow> store \<Rightarrow> store \<Rightarrow> bool" where
  "restores env a b \<longleftrightarrow> plain_sub a b \<and> (\<forall>n e. a n = Some e \<longrightarrow> b n = Some e \<or> put_right env a b n e)"

lemma restore_one_restores:
  assumes "quiet env" and "restores env a (sw_store sw)"
  shows "restores env a (sw_store (restore_one env name sw))"
proof (cases "\<exists>original pid. quarantine_pattern name = Some (original, pid) \<and>
    relation_of original (ow_owner (se_me env)) \<noteq> Other_Name \<and> may_restore env (sw_store sw) name pid")
  case False
  then have "sw_store (restore_one env name sw) = sw_store sw"
    by (auto simp: restore_one_def split: option.splits prod.splits)
  with assms(2) show ?thesis by simp
next
  case True
  then obtain original pid where q: "quarantine_pattern name = Some (original, pid)"
    "relation_of original (ow_owner (se_me env)) \<noteq> Other_Name" "may_restore env (sw_store sw) name pid" by blast
  from q(3) obtain x where x: "sw_store sw name = Some x" "is_real_dir (en_kind x)"
    by (auto simp: may_restore_def symlink_metadata_def split: option.splits if_splits meta.splits)
  obtain ok st' where r: "exclusive_restore env name original (sw_store sw) = (ok, st')"
    by (cases "exclusive_restore env name original (sw_store sw)")
  note t = restore_touches [OF assms(1) r x]
  have store: "sw_store (restore_one env name sw) = st'" using q r by (cases ok) (simp_all add: restore_one_def)
  have nq: "quarantine_pattern o' = None" if "relation_of o' (ow_owner (se_me env)) \<noteq> Other_Name" for o'
    using related_no_quarantine [OF that, of "[]"] by simp
  show ?thesis unfolding store restores_def
  proof (intro conjI allI impI)
    show "plain_sub a st'" using t assms(2) plain_sub_trans by (auto simp: restores_def touches_def)
    fix n e assume a: "a n = Some e"
    have other: "st' m = Some y" if "sw_store sw m = Some y" "m \<noteq> name" for m y
      using touches_keeps [of "{name}" "sw_store sw" st' m y] t that by simp
    from assms(2) a consider "sw_store sw n = Some e" | "put_right env a (sw_store sw) n e" by (auto simp: restores_def)
    then show "st' n = Some e \<or> put_right env a st' n e"
    proof cases
      case 1
      show ?thesis
      proof (cases "n = name")
        case True
        with 1 x have e: "x = e" by simp
        show ?thesis
        proof (cases ok)
          case ok: True
          have "may_restore env a n pid" using may_restore_local [OF assms(1), of a n "sw_store sw" pid] a 1 q(3) True by simp
          with t ok q e x True show ?thesis unfolding put_right_def by auto
        next
          case False
          with t e True show ?thesis by simp
        qed
      qed (use other 1 in blast)
    next
      case 2
      then obtain o' p e' where m: "quarantine_pattern n = Some (o', p)" "may_restore env a n p"
        "relation_of o' (ow_owner (se_me env)) \<noteq> Other_Name" "sw_store sw o' = Some e'" "relocated e e'" "is_real_dir (en_kind e)"
        by (auto simp: put_right_def)
      have "o' \<noteq> name" using nq [OF m(3)] q(1) by auto
      from other [OF m(4) this] m show ?thesis unfolding put_right_def by blast
    qed
  qed
qed

lemma fold_restores:
  "quiet env \<Longrightarrow> restores env a (sw_store sw) \<Longrightarrow> restores env a (sw_store (fold (restore_one env) names sw))"
  by (induction names arbitrary: sw) (auto intro: restore_one_restores)

lemma first_pass_restores:
  assumes "quiet env" shows "restores env (sw_store sw) (sw_store (restore_quarantines env sw))"
proof -
  obtain names sw1 where e: "pass_entries env ''quarantines'' sw = (names, sw1)" by (cases "pass_entries env ''quarantines'' sw")
  have "sw_store sw1 = sw_store sw" using sweeper_store(8) [of env "''quarantines''" sw] e by simp
  with fold_restores [OF assms, of "sw_store sw" sw1 names] e show ?thesis
    by (simp add: restore_quarantines_def restores_def)
qed

section \<open>The sweep removes only what was abandoned\<close>

lemma sweep_removes_only_the_abandoned_core:
  assumes "quiet env" and "st n = Some e"
  shows "sw_store (sweep env st) n = Some e \<or>
    (\<exists>m. abandoned env st m \<and> (n = claim_path m \<or> n = m \<and> is_real_dir (en_kind e))) \<or>
    (\<exists>original pid. quarantine_pattern n = Some (original, pid) \<and> may_restore env st n pid \<and> is_real_dir (en_kind e) \<and>
      ((\<exists>e'. sw_store (sweep env st) original = Some e' \<and> relocated e e') \<or> abandoned env st original))"
proof -
  let ?s0 = "\<lparr>sw_store = st, sw_report = empty_report, sw_listing = None\<rparr>"
  let ?s1 = "restore_quarantines env ?s0"
  have r: "restores env st (sw_store ?s1)" using first_pass_restores [OF assms(1), of ?s0] by simp
  have k: "spares env (sw_store ?s1) (sw_store (sweep env st))"
    using later_passes_spare [OF assms(1), of ?s1] by (simp add: sweep_def)
  have earlier: "abandoned env st m" if "abandoned env (sw_store ?s1) m" for m
    using abandoned_back [OF _ that, of st] r by (simp add: restores_def)
  from r assms(2) consider "sw_store ?s1 n = Some e" | "put_right env st (sw_store ?s1) n e" by (auto simp: restores_def)
  then show ?thesis
  proof cases
    case 1
    with k consider "sw_store (sweep env st) n = Some e" | "doomed env (sw_store ?s1) n" by (auto simp: spares_def)
    then show ?thesis using earlier 1 unfolding doomed_def by (metis option.inject)
  next
    case 2
    then obtain original pid e' where m: "quarantine_pattern n = Some (original, pid)" "may_restore env st n pid"
      "sw_store ?s1 original = Some e'" "relocated e e'" "is_real_dir (en_kind e)" by (auto simp: put_right_def)
    from k m(3) consider "sw_store (sweep env st) original = Some e'" | "doomed env (sw_store ?s1) original"
      by (auto simp: spares_def)
    then show ?thesis
    proof cases
      case 2
      then obtain m' where m': "abandoned env (sw_store ?s1) m'" "original = claim_path m' \<or> original = m'"
        by (auto simp: doomed_def)
      have "original \<noteq> claim_path m'"
      proof
        assume "original = claim_path m'"
        with abandoned_claim [OF m'(1)] m(3) have "is_plain_file (en_kind e')" by auto
        with m(4,5) show False by (simp add: relocated_kind real_dir_not_plain)
      qed
      with m' earlier m show ?thesis by blast
    qed (use m in blast)
  qed
qed

text \<open>
  C27: The sweep destroys nothing that is not abandoned. When nobody interferes, every entry of the root is afterwards
  where it was, unchanged, unless it is a folder whose name is the caller's and whose claim, a plain file of the
  caller's, is the record of a process that is gone, or that claim; or it stood in a stale quarantine of such a gone
  process and is back under its own name, unless that name was abandoned too. This holds whatever the system
  refuses, whichever names the quarantines draw, and whatever the root holds.
\<close>

theorem sweep_removes_only_the_abandoned:
  assumes "quiet env" and "st n = Some e"
  shows "sw_store (sweep env st) n = Some e \<or>
    (\<exists>m. abandoned env st m \<and> (n = claim_path m \<or> n = m \<and> is_real_dir (en_kind e))) \<or>
    (\<exists>original pid. quarantine_pattern n = Some (original, pid) \<and> may_restore env st n pid \<and> is_real_dir (en_kind e) \<and>
      ((\<exists>e'. sw_store (sweep env st) original = Some e' \<and> relocated e e') \<or> abandoned env st original))"
  by (rule sweep_removes_only_the_abandoned_core [where st = st and n = n, OF assms])

lemma running_not_abandoned:
  assumes "pv_stat pv pid = Stat_Bytes b" and "ticks_of b = Some t" and "se_ask env = probe pv"
    and "is_owner_token token" and "hostname \<noteq> []" and "utf8_ok hostname" and "utf8_ok distro" and "pid < 2 ^ 32"
    and "length (format_owner (this_owner pv token hostname distro pid)) < MAX_CLAIM_BYTES"
    and "st (claim_path m) = Some ce" and "en_kind ce = Regular (format_owner (this_owner pv token hostname distro pid) @ [CHR 0x0A])"
  shows "\<not> abandoned env st m"
proof
  let ?o = "this_owner pv token hostname distro pid"
  assume "abandoned env st m"
  then obtain body where body: "cs_raw (snapshot_claim (se_sys env) (is_mine (se_sys env)) st m) = Claim_Text body"
    and g: "owner_state (se_lower env) (parse_owner body) (Some (ow_owner (se_me env))) True (se_me env) (se_hidepid env)
      (se_ask env) = Gone" by (auto simp: abandoned_def split: raw_claim.splits)
  from body have "body = format_owner ?o @ [CHR 0x0A]"
    by (rule snapshot_text) (use assms(9-11) in auto)
  then have "parse_owner body = Owned ?o" using record_read_back [OF this_owner_ok [OF assms(4-8)] assms(9)] by simp
  with g have "probe pv (ow_pid ?o) = Probe_Gone" using assms(3) by (simp add: owner_state_gone)
  with running_probe [OF assms(1,2)] show False by (simp add: this_owner_def Let_def)
qed

text \<open>
  C28: A sweep never touches a test that runs. The folder of a process that is in the process list, beside the claim
  that process wrote, stands unchanged after any sweep that nobody interferes with, whichever user runs it, under
  whatever host name or clock, and so does the claim.
\<close>

theorem sweep_spares_running_tests:
  assumes "quiet env" and "se_ask env = probe pv" and "pv_stat pv pid = Stat_Bytes b" and "ticks_of b = Some t"
    and "is_owner_token token" and "hostname \<noteq> []" and "utf8_ok hostname" and "utf8_ok distro" and "pid < 2 ^ 32"
    and "length (format_owner (this_owner pv token hostname distro pid)) < MAX_CLAIM_BYTES"
    and "m = name_for token what ident" and "st m = Some fe" and "is_real_dir (en_kind fe)"
    and "st (claim_path m) = Some ce"
    and "en_kind ce = Regular (format_owner (this_owner pv token hostname distro pid) @ [CHR 0x0A])"
  shows "sw_store (sweep env st) m = Some fe \<and> sw_store (sweep env st) (claim_path m) = Some ce"
proof -
  have na: "\<not> abandoned env st m"
    by (rule running_not_abandoned [where st = st and m = m, OF assms(3,4,2,5-10,14,15)])
  have rel: "relation_of m (ow_owner (se_me env)) \<noteq> Other_Name"
    using classify_name_for [OF assms(5)] by (simp add: relation_of_def assms(11))
  have nq: "quarantine_pattern m = None" "quarantine_pattern (claim_path m) = None"
    using related_no_quarantine [OF rel, of "[]"] related_no_quarantine [OF rel, of "''.owner''"] by (simp_all add: claim_path_def)
  have plain: "is_plain_file (en_kind ce)" by (simp add: assms(15))
  have "m \<noteq> claim_path m'" if a: "abandoned env st m'" for m'
  proof
    assume "m = claim_path m'"
    with abandoned_claim [OF a] assms(12) have "is_plain_file (en_kind fe)" by auto
    with assms(13) show False by (simp add: real_dir_not_plain)
  qed
  then have "sw_store (sweep env st) m = Some fe"
    using sweep_removes_only_the_abandoned_core [where st = st and n = m, OF assms(1,12)] na nq by auto
  moreover have "sw_store (sweep env st) (claim_path m) = Some ce"
    using sweep_removes_only_the_abandoned_core [where st = st and n = "claim_path m", OF assms(1,14)] na nq plain real_dir_not_plain by auto
  ultimately show ?thesis ..
qed

section \<open>Removal by identity, whoever interferes\<close>

lemma put_back_keeps [simp]: "put_back env q dir reason sw = (Removed_It, sw') \<longleftrightarrow> False"
  by (auto simp: put_back_def split: prod.splits bool.splits)

lemma put_back_stands:
  assumes "quiet env" and "put_back env q dir reason sw = (r, sw')" and "sw_store sw q = Some e" "is_real_dir (en_kind e)"
  shows "\<exists>p why e'. r = Kept_At p why \<and> sw_store sw' p = Some e' \<and> same_inode (en_id e') (en_id e)"
proof -
  obtain ok st' where x: "exclusive_restore env q dir (sw_store sw) = (ok, st')"
    by (cases "exclusive_restore env q dir (sw_store sw)")
  from restore_touches [OF assms(1) x assms(3,4)] assms(2) x show ?thesis
    by (cases ok) (auto simp: put_back_def relocated_def same_inode_def)
qed

text \<open>
  C29: What is judged is what is removed. Whatever others do between the capture, the rename and the removal, a folder
  is reported removed only if before the rename it was the entry that was captured, with the claim that was
  captured, and in the quarantine it still was the captured entry beside that same claim; and when nobody
  interferes, a removal that gives up loses nothing: the captured folder stands where the report says.
\<close>

theorem removal_is_by_identity:
  assumes "remove_by_identity env dir ident cl sw = (r, sw')"
  shows "(r = Removed_It \<longrightarrow>
      entry_id (se_sys env) (sw_store sw) dir = Some ident \<and>
      same_claim (snapshot_claim (se_sys env) (se_mine env) (sw_store sw) dir) cl \<and>
      (\<exists>q st1 e. draw_quarantine env dir 0 QUARANTINE_DRAWS (sw_store sw) = (Inr q, st1) \<and>
        se_after_rename env dir q st1 q = Some e \<and> same_inode (en_id e) ident \<and>
        same_claim (snapshot_claim (se_sys env) (se_mine env) (se_after_rename env dir q st1) dir) cl)) \<and>
    (\<forall>p why e. r = Kept_At p why \<and> quiet env \<and> sw_store sw dir = Some e \<and> is_real_dir (en_kind e) \<longrightarrow>
      (\<exists>e'. sw_store sw' p = Some e' \<and> same_inode (en_id e') (en_id e)))"
proof (intro conjI impI allI)
  obtain x st1 where d: "draw_quarantine env dir 0 QUARANTINE_DRAWS (sw_store sw) = (x, st1)"
    by (cases "draw_quarantine env dir 0 QUARANTINE_DRAWS (sw_store sw)")
  have gone: "r = Removed_It \<Longrightarrow> entry_id (se_sys env) (sw_store sw) dir = Some ident \<and>
      same_claim (snapshot_claim (se_sys env) (se_mine env) (sw_store sw) dir) cl \<and>
      (\<exists>q. x = Inr q \<and> (\<exists>i. entry_id (se_sys env) (se_after_rename env dir q st1) q = Some i \<and> same_inode i ident) \<and>
        same_claim (snapshot_claim (se_sys env) (se_mine env) (se_after_rename env dir q st1) dir) cl)"
    using assms d
    by (auto simp: remove_by_identity_def Let_def same_id_def split: if_splits sum.splits option.splits prod.splits)
  assume "r = Removed_It"
  from gone [OF this] show "entry_id (se_sys env) (sw_store sw) dir = Some ident"
    "same_claim (snapshot_claim (se_sys env) (se_mine env) (sw_store sw) dir) cl" by auto
  from gone [OF \<open>r = Removed_It\<close>] d entry_id_Some
  show "\<exists>q st1 e. draw_quarantine env dir 0 QUARANTINE_DRAWS (sw_store sw) = (Inr q, st1) \<and>
        se_after_rename env dir q st1 q = Some e \<and> same_inode (en_id e) ident \<and>
        same_claim (snapshot_claim (se_sys env) (se_mine env) (se_after_rename env dir q st1) dir) cl"
    by blast
next
  fix p why e
  assume c: "r = Kept_At p why \<and> quiet env \<and> sw_store sw dir = Some e \<and> is_real_dir (en_kind e)"
  then have h: "r = Kept_At p why" "quiet env" "sw_store sw dir = Some e" "is_real_dir (en_kind e)" by auto
  have refl: "\<exists>e'. sw_store s dir = Some e' \<and> same_inode (en_id e') (en_id e)" if "sw_store s dir = Some e" for s
    using that by (auto simp: same_inode_def)
  obtain x st1 where d: "draw_quarantine env dir 0 QUARANTINE_DRAWS (sw_store sw) = (x, st1)"
    by (cases "draw_quarantine env dir 0 QUARANTINE_DRAWS (sw_store sw)")
  note dt = draw_touches [OF h(2) d h(3,4)]
  have q2: "se_after_rename env = (\<lambda>n q s. s)" using h(2) by (simp add: quiet_def)
  show "\<exists>e'. sw_store sw' p = Some e' \<and> same_inode (en_id e') (en_id e)"
  proof (cases "\<not> same_id (entry_id (se_sys env) (sw_store sw) dir) (Some ident) \<or>
      \<not> same_claim (snapshot_claim (se_sys env) (se_mine env) (sw_store sw) dir) cl")
    case True
    with assms h(1) have "sw' = sw" "p = dir" by (auto simp: remove_by_identity_def Let_def)
    with refl [OF h(3)] show ?thesis by simp
  next
    case go: False
    show ?thesis
    proof (cases x)
      case (Inl reason)
      with assms h(1) go d have "sw' = sw\<lparr>sw_store := st1\<rparr>" "p = dir" by (auto simp: remove_by_identity_def Let_def)
      with dt Inl refl [of "sw\<lparr>sw_store := st1\<rparr>"] show ?thesis by simp
    next
      case (Inr q)
      with dt obtain e1 where q: "st1 q = Some e1" "relocated e e1" by auto
      have e1: "is_real_dir (en_kind e1)" "same_inode (en_id e1) (en_id e)"
        using relocated_kind [OF q(2)] h(4) q(2) by (auto simp: relocated_def)
      have stands: "\<exists>e'. sw_store sw' p = Some e' \<and> same_inode (en_id e') (en_id e)"
        if "put_back env q dir reason (sw\<lparr>sw_store := s\<rparr>) = (r, sw')" "s q = Some x" "is_real_dir (en_kind x)"
          "same_inode (en_id x) (en_id e)" for reason s x
        using put_back_stands [OF h(2) that(1)] that(2-4) h(1) by (auto simp: same_inode_def)
      obtain y st3 where rm: "remove_with_retries (remove_dir_all (se_sys env) q) st1 = (y, st3)"
        by (cases "remove_with_retries (remove_dir_all (se_sys env) q) st1")
      have "(\<exists>reason. put_back env q dir reason (sw\<lparr>sw_store := st1\<rparr>) = (r, sw')) \<or>
          (y \<noteq> None \<and> (\<exists>reason. put_back env q dir reason (sw\<lparr>sw_store := st3\<rparr>) = (r, sw')))"
        using assms h(1) go d Inr rm q2
        by (auto simp: remove_by_identity_def Let_def split: if_splits option.splits)
      then show ?thesis
      proof (elim disjE exE conjE)
        fix reason assume "put_back env q dir reason (sw\<lparr>sw_store := st1\<rparr>) = (r, sw')"
        from stands [OF this q(1) e1] show ?thesis .
      next
        fix reason assume y: "y \<noteq> None" and p: "put_back env q dir reason (sw\<lparr>sw_store := st3\<rparr>) = (r, sw')"
        from y rm dir_retries_failed have "st3 q \<noteq> None" by blast
        with rmdir_touches [OF rm q(1) e1(1)] obtain e3 where e3: "st3 q = Some e3" "is_real_dir (en_kind e3)"
          "same_inode (en_id e3) (en_id e1)" by auto
        from stands [OF p e3(1,2)] e3(3) e1(2) show ?thesis by (simp add: same_inode_def)
      qed
    qed
  qed
qed

section \<open>What is abandoned is collected\<close>

lemma move_succeeds:
  assumes "st from = Some e" and "is_real_dir (en_kind e)" and "st to = None" and "sy_no_move sys from to = None"
    and "sy_no_create sys to = None"
  shows "\<exists>e'. relocated e e' \<and> move_without_replace sys id from to st = (Moved, (st(from := None))(to \<mapsto> e'))"
proof -
  have ne: "from \<noteq> to" using assms(1,3) by auto
  have "fst (move_without_replace sys id from to st) = Moved"
    using assms ne by (simp add: move_without_replace_def renameat2_noreplace_def move_via_placeholder_def
        create_exclusive_simps(2) Let_def rename_onto_def new_entry_def)
  then obtain s where m: "move_without_replace sys id from to st = (Moved, s)"
    by (cases "move_without_replace sys id from to st") auto
  from move_exclusive [OF m ne] assms(1) m show ?thesis by (auto simp: moves_def)
qed


section \<open>Witnesses\<close>

definition gone_run :: owner where
  "gone_run = \<lparr>ow_owner = ''u1000'', ow_host = ''my-box@linux'', ow_pid = 9, ow_start = Some 5, ow_ns = Some 42,
     ow_canonical = True\<rparr>"

definition sample_sweep :: sweep_env where
  "sample_sweep = \<lparr>se_sys = calm, se_root = ''/tmp'', se_now = 5000000000000, se_min_age = 600000000000,
     se_me = this_owner sample_proc ''u1000'' ''my box'' [] 8, se_hidepid = False, se_lower = lowercase,
     se_ask = probe sample_proc, se_mine = is_mine calm, se_read_dir = (\<lambda>st. Inr [Inr (Some ''x'')]),
     se_quarantine = (\<lambda>d n. quarantine_leaf d 8 ''00ff00ff''), se_after_capture = (\<lambda>n s. s), se_after_rename = (\<lambda>n q s. s),
     se_after_remove = (\<lambda>n s. s), se_between = id\<rparr>"

lemma sample_quiet: "quiet sample_sweep"
  by (simp add: quiet_def sample_sweep_def)

lemma sweep_removes_only_the_abandoned_witness:
  "sw_store (sweep sample_sweep [''x'' \<mapsto> sample_folder]) ''x'' = Some sample_folder"
proof -
  have "\<not> abandoned sample_sweep [''x'' \<mapsto> sample_folder] m" for m
    using abandoned_claim [of sample_sweep "[''x'' \<mapsto> sample_folder]" m] by (auto simp: sample_folder_def split: if_splits)
  moreover have "quarantine_pattern ''x'' = None" by (simp add: quarantine_pattern_def is_dot_def)
  ultimately show ?thesis
    using sweep_removes_only_the_abandoned [OF sample_quiet, of "[''x'' \<mapsto> sample_folder]" "''x''" sample_folder] by simp
qed

definition running_name :: string where "running_name = name_for ''u1000'' ''log'' ''abcdef''"

definition running_claim :: entry where
  "running_claim = sample_folder\<lparr>en_kind := Regular (''u1000:my-box@linux:7:103:42'' @ [CHR 0x0A])\<rparr>"

lemma sweep_spares_running_tests_witness:
  "sw_store (sweep sample_sweep [running_name \<mapsto> sample_folder, claim_path running_name \<mapsto> running_claim]) running_name =
     Some sample_folder"
proof -
  have "se_ask sample_sweep = probe sample_proc" "pv_stat sample_proc 7 = Stat_Bytes sample_stat"
    by (simp_all add: sample_sweep_def sample_proc_def)
  from sweep_spares_running_tests [OF sample_quiet this sample_ticks sample_token, of "''my box''" "[]" running_name "''log''"
      "''abcdef''" "[running_name \<mapsto> sample_folder, claim_path running_name \<mapsto> running_claim]" sample_folder running_claim]
  show ?thesis
    by (simp add: sample_record MAX_CLAIM_BYTES_def byte_in_def running_name_def running_claim_def sample_folder_def)
qed

lemma removal_is_by_identity_witness:
  "fst (remove_by_identity sample_sweep ''x'' \<lparr>fi_dev = 1, fi_ino = 3, fi_changed = (3, 0)\<rparr>
      \<lparr>cs_raw = Absent, cs_id = None\<rparr> \<lparr>sw_store = [''x'' \<mapsto> sample_folder], sw_report = empty_report, sw_listing = None\<rparr>)
     \<noteq> Removed_It"
proof -
  let ?sw = "\<lparr>sw_store = [''x'' \<mapsto> sample_folder], sw_report = empty_report, sw_listing = None\<rparr>"
  let ?id = "\<lparr>fi_dev = 1, fi_ino = 3, fi_changed = (3, 0)\<rparr> :: file_id"
  obtain r sw' where r: "remove_by_identity sample_sweep ''x'' ?id \<lparr>cs_raw = Absent, cs_id = None\<rparr> ?sw = (r, sw')"
    by (cases "remove_by_identity sample_sweep ''x'' ?id \<lparr>cs_raw = Absent, cs_id = None\<rparr> ?sw")
  have "entry_id (se_sys sample_sweep) (sw_store ?sw) ''x'' \<noteq> Some ?id"
    by (simp add: entry_id_def symlink_metadata_def sample_sweep_def calm_def sample_folder_def)
  with removal_is_by_identity [OF r] r show ?thesis by auto
qed

definition gone_claim :: entry where
  "gone_claim = sample_folder\<lparr>en_kind := Regular (format_owner gone_run @ [CHR 0x0A])\<rparr>"

definition gone_root :: sweeper where
  "gone_root = \<lparr>sw_store = [running_name \<mapsto> sample_folder, claim_path running_name \<mapsto> gone_claim],
     sw_report = empty_report, sw_listing = None\<rparr>"

lemma gone_text: "parse_owner (format_owner gone_run @ [CHR 0x0A]) = Owned gone_run"
  and gone_length: "length (format_owner gone_run @ [CHR 0x0A]) \<le> 513"
proof -
  have "host_field ''my-box@linux''" by code_simp
  then have ok: "record_ok gone_run"
    using sample_token by (simp add: record_ok_def gone_run_def record_numbers_def u64_max_def byte_in_def)
  have "format_owner gone_run = ''u1000:my-box@linux:9:5:42''"
  proof -
    have "show_nat 9 = ''9''" "show_nat 5 = ''5''" "show_nat 42 = ''42''" by code_simp+
    then show ?thesis by (simp add: gone_run_def format_owner_def)
  qed
  then show "length (format_owner gone_run @ [CHR 0x0A]) \<le> 513"
    and "parse_owner (format_owner gone_run @ [CHR 0x0A]) = Owned gone_run"
    using record_read_back [OF ok] by (simp_all add: MAX_CLAIM_BYTES_def)
qed

lemma gone_is_abandoned: "abandoned sample_sweep (sw_store gone_root) running_name"
proof -
  have "relation_of running_name ''u1000'' = Own_Name ''u1000''"
    by (simp add: running_name_def relation_of_def classify_name_for [OF sample_token])
  moreover have "cs_raw (snapshot_claim calm (is_mine calm) (sw_store gone_root) running_name) =
      Claim_Text (format_owner gone_run @ [CHR 0x0A])"
    using gone_length by (simp add: snapshot_claim_def Let_def symlink_metadata_def gone_root_def gone_claim_def calm_def
        sample_folder_def is_mine_def read_limited_def entry_id_def same_inode_def MAX_CLAIM_BYTES_def)
  moreover have "owner_state lowercase (Owned gone_run) (Some ''u1000'') True (this_owner sample_proc ''u1000'' ''my box'' [] 8)
      False (probe sample_proc) = Gone"
  proof -
    have "probe sample_proc 9 = Probe_Gone" by (simp add: probe_gone sample_proc_def)
    moreover have "\<not> ends_with ''@windows'' (lowercase ''my-box@linux'')" by code_simp
    ultimately show ?thesis
      by (simp add: owner_state_gone gone_run_def this_owner_def sample_starts sample_ns sample_host pid_is_askable_def
          MAX_SAFE_PID_def)
  qed
  ultimately show ?thesis
    by (simp add: abandoned_def sample_sweep_def this_owner_def Let_def gone_text)
qed


end
