(* ===== verification/Dual_Engine.thy ===== *)
theory Dual_Engine
  imports Inference
begin

text \<open>
  The embedding engine that this repository adds to its vendored \<open>fastembed\<close>
  (\<open>vendor-fastembed/src/bgem3_dual/mod.rs\<close>): both heads of the model from one run of one session. Its calls are
  the \<open>rq_embed\<close> of theory \<open>Inference\<close>; what a request returns is then said of the tensors of the session.
\<close>

section \<open>The engine\<close>

definition dense_head ::
  "(string, 'e) onnx_model \<Rightarrow> nat \<Rightarrow> session_outputs \<Rightarrow> (app_error, f32 list list) outcome" where
  "dense_head om nrows outs =
     bind_outcome (select_output_key om (named_ranks outs) ''sentence_embedding'' 2) (\<lambda>key.
       case map_of outs key of
         None \<Rightarrow> Panic
       | Some v \<Rightarrow>
           bind_outcome (extract_tensor om v) (\<lambda>(shape, data).
             if \<not> (length shape = 2 \<and> nrows \<le> shape ! 0)
             then Err (Message (''bge-m3 dense output `'' @ key @ ''` came back shaped '' @ om_show_shape om shape
               @ '', need [>= '' @ show_nat nrows @ '', hidden]''))
             else (case dense_rows nrows (shape ! 1) data of None \<Rightarrow> Panic | Some rows \<Rightarrow> Ok rows)))"

definition sparse_head ::
  "(string, 'e) onnx_model \<Rightarrow> lexical_head \<Rightarrow> nat \<Rightarrow> nat \<Rightarrow> int array2 \<Rightarrow> int array2 \<Rightarrow> session_outputs \<Rightarrow>
     (app_error, sparse_embedding list) outcome" where
  "sparse_head om lx nrows len ids attn outs =
     bind_outcome (select_output_key om (named_ranks outs) ''token_embedding'' 3) (\<lambda>key.
       case map_of outs key of
         None \<Rightarrow> Panic
       | Some v \<Rightarrow>
           bind_outcome (extract_tensor om v) (\<lambda>(shape, data).
             if \<not> output_covers_input shape nrows len
             then Err (Message (''bge-m3 sparse output `'' @ key @ ''` came back shaped '' @ om_show_shape om shape
               @ '', which does not cover the input batch x seq of '' @ show_nat nrows @ ''x'' @ show_nat len
               @ '' '' @ em_dash @ '' the runtime returned a mis-shaped tensor, so no sparse weights can be read from it''))
             else if length data < prod_list shape then Err (Lib_Error (om_shape_error om))
             else (case post_process_bgem3 lx shape data ids attn of None \<Rightarrow> Panic | Some rows \<Rightarrow> Ok rows)))"

definition zip_heads ::
  "f32 list list \<Rightarrow> sparse_embedding list \<Rightarrow> (app_error, (f32 list \<times> sparse_embedding) list) outcome" where
  "zip_heads dense sparse =
     (if length sparse = length dense then Ok (zip dense sparse)
      else Err (Message (''bge-m3 heads disagree on row count (dense '' @ show_nat (length dense) @ '', sparse ''
        @ show_nat (length sparse) @ '') '' @ em_dash @ '' refusing to zip misaligned rows'')))"

definition read_heads ::
  "(string, 'e) onnx_model \<Rightarrow> lexical_head \<Rightarrow> int array2 \<times> int array2 \<times> session_outputs \<Rightarrow>
     (app_error, (f32 list \<times> sparse_embedding) list) outcome" where
  "read_heads om lx = (\<lambda>(ids, attn, outs).
     bind_outcome (dense_head om (ar_rows ids) outs) (\<lambda>dense.
       bind_outcome (sparse_head om lx (ar_rows ids) (ar_cols ids) ids attn outs) (\<lambda>sparse.
         zip_heads dense sparse)))"

definition embed_batch ::
  "(string, 'e) onnx_model \<Rightarrow> lexical_head \<Rightarrow> string list \<Rightarrow> 'e \<Rightarrow>
     (app_error, (f32 list \<times> sparse_embedding) list) outcome \<times> 'e" where
  "embed_batch om lx batch e =
     (case forward_pass om ''Failed to encode the batch.'' batch e of
        (r, e') \<Rightarrow> (bind_outcome r (read_heads om lx), e'))"

definition dual_embed ::
  "(string, 'e) onnx_model \<Rightarrow> lexical_head \<Rightarrow> ('e, sparse_embedding) embed_call" where
  "dual_embed om lx texts n e = in_batches (embed_batch om lx) texts n e"

section \<open>One row per text\<close>

lemma dense_rows_length: "dense_rows n hidden data = Some rows \<Longrightarrow> length rows = n"
  by (auto simp: dense_rows_def dest!: collect_options_length)

lemma dense_head_length: "dense_head om n outs = Ok rows \<Longrightarrow> length rows = n"
  by (auto simp: dense_head_def bind_outcome_eq_Ok dest: dense_rows_length split: option.splits if_splits)

lemma read_heads_length:
  assumes "read_heads om lx (ids, attn, outs) = Ok rows"
  shows "length rows = ar_rows ids"
  using assms dense_head_length [of om "ar_rows ids" outs]
  by (auto simp: read_heads_def bind_outcome_eq_Ok zip_heads_def split: if_splits)

lemma embed_batch_length:
  assumes "fst (embed_batch om lx batch e) = Ok rows"
  shows "length rows = length batch"
proof -
  obtain r e' where f: "forward_pass om ''Failed to encode the batch.'' batch e = (r, e')"
    by (metis prod.exhaust)
  with assms obtain ids attn outs where r: "r = Ok (ids, attn, outs)"
    and h: "read_heads om lx (ids, attn, outs) = Ok rows"
    by (auto simp: embed_batch_def bind_outcome_eq_Ok)
  have "ar_rows ids = length batch"
    using forward_pass_Ok [OF f [unfolded r]] by (auto simp: from_shape_vec_Some)
  with read_heads_length [OF h] show ?thesis by simp
qed

text \<open>
  A short batch is an error and never a short answer. Whatever tensors the session returns, an embed that
  succeeds has one row per text, so the retry on short answers in the sidecar is left to the errors.
\<close>

theorem dual_embed_one_row_per_text:
  assumes "fst (dual_embed om lx texts n e) = Ok rows"
  shows "length rows = length texts"
proof -
  from assms have n: "0 < n" and r: "fst (run_batches (embed_batch om lx) (chunks n texts) e) = Ok rows"
    by (auto simp: dual_embed_def in_batches_def split: if_splits)
  have "length rows = length (concat (chunks n texts))"
    by (rule run_batches_Ok_length [OF embed_batch_length r])
  with n show ?thesis by (simp add: concat_chunks)
qed

section \<open>No panic while the engine is held\<close>

lemma select_output_key_mem:
  "select_output_key om outs fragment rank = Ok k \<Longrightarrow> k \<in> fst ` set outs"
proof -
  assume a: "select_output_key om outs fragment rank = Ok k"
  show ?thesis
  proof (cases "find (\<lambda>(k, r). contains_str fragment k) outs")
    case None
    with a obtain r where "filter (\<lambda>(k, r). r = Some rank) outs = [(k, r)]"
      by (auto simp: select_output_key_def split: list.splits)
    then have "(k, r) \<in> set (filter (\<lambda>(k, r). r = Some rank) outs)" by simp
    then show ?thesis by (auto intro: image_eqI [of _ _ "(k, r)"])
  next
    case (Some x)
    then have "x \<in> set outs" by (metis find_Some_iff nth_mem)
    with a Some show ?thesis by (cases x) (force simp: select_output_key_def)
  qed
qed

lemma selected_value:
  assumes "select_output_key om (named_ranks outs) fragment rank = Ok k"
  shows "\<exists>v. map_of outs k = Some v \<and> (k, v) \<in> set outs"
proof -
  from select_output_key_mem [OF assms] have "k \<in> fst ` set outs" by (force simp: named_ranks_def)
  then obtain v where "map_of outs k = Some v" by (metis map_of_eq_None_iff option.exhaust)
  then show ?thesis by (blast dest: map_of_SomeD)
qed

lemma dense_head_no_panic:
  assumes "\<And>k v. (k, v) \<in> set outs \<Longrightarrow> tensor_ok v"
  shows "dense_head om n outs \<noteq> Panic"
proof (cases "select_output_key om (named_ranks outs) ''sentence_embedding'' 2")
  case (Ok key)
  then obtain v where v: "map_of outs key = Some v" "(key, v) \<in> set outs" using selected_value by blast
  show ?thesis
  proof (cases v)
    case (F32_Tensor shape data)
    have "dense_rows n (shape ! 1) data \<noteq> None" if s: "length shape = 2" "n \<le> shape ! 0"
    proof -
      from s obtain a b where ab: "shape = [a, b]" by (auto simp: length_Suc_conv eval_nat_numeral)
      have "n * b \<le> length data" using assms [OF v(2)] s(2) by (simp add: F32_Tensor ab)
      then show ?thesis by (simp add: dense_rows_Some ab)
    qed
    then show ?thesis
      by (auto simp: dense_head_def Ok v(1) F32_Tensor extract_tensor_def split: option.splits)
  qed (simp add: dense_head_def Ok v(1) extract_tensor_def)
qed (auto simp: dense_head_def select_output_key_def split: option.splits list.splits)

lemma sparse_head_no_panic:
  assumes "\<And>k v. (k, v) \<in> set outs \<Longrightarrow> tensor_ok v"
    and "\<And>k shape data. (k, F32_Tensor shape data) \<in> set outs \<Longrightarrow> length shape = 3 \<Longrightarrow> shape ! 2 = length (lx_weights lx)"
    and "from_shape_vec n len xs = Some ids" and "from_shape_vec n len ys = Some attn"
  shows "sparse_head om lx n len ids attn outs \<noteq> Panic"
proof (cases "select_output_key om (named_ranks outs) ''token_embedding'' 3")
  case (Ok key)
  then obtain v where v: "map_of outs key = Some v" "(key, v) \<in> set outs" using selected_value by blast
  show ?thesis
  proof (cases v)
    case (F32_Tensor shape data)
    have "post_process_bgem3 lx shape data ids attn \<noteq> None" if s: "output_covers_input shape n len"
      using assms(1) [OF v(2)] assms(2) [OF v(2) [unfolded F32_Tensor]] s
      by (intro post_process_defined [OF assms(3,4) s]) (simp_all add: F32_Tensor output_covers_input_def)
    then show ?thesis
      by (auto simp: sparse_head_def Ok v(1) F32_Tensor extract_tensor_def split: option.splits)
  qed (simp add: sparse_head_def Ok v(1) extract_tensor_def)
qed (auto simp: sparse_head_def select_output_key_def split: option.splits list.splits)

lemma bind_no_panic: "r \<noteq> Panic \<Longrightarrow> (\<And>x. r = Ok x \<Longrightarrow> f x \<noteq> Panic) \<Longrightarrow> bind_outcome r f \<noteq> Panic"
  by (cases r) auto

text \<open>
  C6: The guards turn a mis-shaped output into an error. When the session and the tokenizer do not panic themselves,
  a tensor has as many values as its shape says, and every token tensor is as wide as the weights of the lexical
  head, no embed panics, however short the batch or the sequence of an output is and in whatever order the outputs
  come: the mutex of the engine is not poisoned.
\<close>

theorem dual_embed_never_panics:
  assumes "\<And>inputs e. fst (om_run om inputs e) \<noteq> Panic"
    and "\<And>inputs e outs k v. fst (om_run om inputs e) = Ok outs \<Longrightarrow> (k, v) \<in> set outs \<Longrightarrow> tensor_ok v"
    and "\<And>inputs e outs k shape data. fst (om_run om inputs e) = Ok outs \<Longrightarrow> (k, F32_Tensor shape data) \<in> set outs \<Longrightarrow>
      length shape = 3 \<Longrightarrow> shape ! 2 = length (lx_weights lx)"
  shows "fst (dual_embed om lx texts n e) \<noteq> Panic"
proof -
  have "fst (embed_batch om lx batch e) \<noteq> Panic" for batch e
  proof -
    obtain r e' where f: "forward_pass om ''Failed to encode the batch.'' batch e = (r, e')"
      by (metis prod.exhaust)
    have "r \<noteq> Panic" using forward_pass_no_panic [OF assms(1), of "''Failed to encode the batch.''" batch e] f by simp
    moreover have "read_heads om lx x \<noteq> Panic" if x: "r = Ok x" for x
    proof -
      obtain ids attn outs where t: "x = (ids, attn, outs)" by (metis prod_cases3)
      from forward_pass_Ok [OF f [unfolded x t]] obtain len xs ys inputs where
        a: "from_shape_vec (length batch) len xs = Some ids" "from_shape_vec (length batch) len ys = Some attn"
        and "om_run om inputs e = (Ok outs, e')" by blast
      then have o: "fst (om_run om inputs e) = Ok outs" by simp
      have d: "ar_rows ids = length batch" "ar_cols ids = len" using a by (auto simp: from_shape_vec_Some)
      show ?thesis
        unfolding read_heads_def t prod.case d
        using dense_head_no_panic [of outs om "length batch", OF assms(2) [OF o]]
          sparse_head_no_panic [of outs lx "length batch" len xs ids ys attn om, OF assms(2) [OF o] assms(3) [OF o] a]
        by (intro bind_no_panic) (auto simp: zip_heads_def)
    qed
    ultimately show ?thesis by (simp add: embed_batch_def f bind_no_panic)
  qed
  then show ?thesis by (simp add: dual_embed_def in_batches_def run_batches_no_panic)
qed

text \<open>
  The width of the token tensor is not guarded. A tensor that covers the batch and the sequence but is of another
  width than the weights makes the lexical head panic at the first ordinary token.
\<close>

theorem token_width_is_not_guarded:
  assumes "select_output_key om (named_ranks outs) ''token_embedding'' 3 = Ok key"
    and "map_of outs key = Some (F32_Tensor [a, b, width] data)" and "length data = a * b * width"
    and "output_covers_input [a, b, width] n len" and "width \<noteq> length (lx_weights lx)"
    and "from_shape_vec n len xs = Some ids" and "from_shape_vec n len ys = Some attn"
    and "0 < n" and "0 < len" and "xs ! 0 \<notin> set special_tokens" and "ys ! 0 \<noteq> 0"
  shows "sparse_head om lx n len ids attn outs = Panic"
proof -
  have ab: "0 < a" "0 < b" using assms(4,8,9) by (auto simp: output_covers_input_def)
  have "1 * width \<le> a * b * width" using ab by (intro mult_le_mono1) simp
  then have "token_weight lx (take width (drop 0 data)) = None"
    using assms(3,5) by (simp add: token_weight_def)
  then have "weigh_tokens lx [a, b, width] data ids attn 0 (0 # ss) tw = None" for ss tw
    using array_at_in [OF assms(6,8,9)] array_at_in [OF assms(7,8,9)] hidden_at_in [of 0 a 0 b data width]
      ab assms(3,10,11) by simp
  moreover have "[0 ..< ar_cols ids] = 0 # [1 ..< ar_cols ids]" "0 \<in> set [0 ..< ar_rows ids]"
    using assms(6,8,9) by (auto simp: from_shape_vec_Some upt_conv_Cons)
  ultimately have "post_process_bgem3 lx [a, b, width] data ids attn = None"
    unfolding post_process_bgem3_def collect_options_map_None by (metis option.map_disc_iff)
  with assms(1-4) show ?thesis by (simp add: sparse_head_def extract_tensor_def mult.assoc)
qed

section \<open>The order of the outputs\<close>

lemma find_filter: "find P xs = (case filter P xs of [] \<Rightarrow> None | x # rest \<Rightarrow> Some x)"
  by (induction xs) auto

lemma short_filter_mset:
  assumes "mset xs = mset ys" and "length (filter P xs) \<le> 1"
  shows "filter P xs = filter P ys"
proof -
  have "mset (filter P xs) = mset (filter P ys)" using assms(1) by simp
  moreover from assms(2) have "filter P xs = [] \<or> (\<exists>x. filter P xs = [x])"
    by (cases "filter P xs") auto
  ultimately show ?thesis by (metis mset_single_iff mset_zero_iff mset.simps)
qed

text \<open>
  Order never decides. Two sessions that list the same outputs in different orders have the same one selected, or
  both have none, as long as at most one name holds the fragment: the rank decides only when it is unambiguous.
\<close>

theorem selection_ignores_order:
  assumes "mset outs = mset outs'" and "length (filter (\<lambda>(k, r). contains_str fragment k) outs) \<le> 1"
  shows "select_output_key om outs fragment rank = Ok key \<longleftrightarrow> select_output_key om outs' fragment rank = Ok key"
proof -
  let ?R = "\<lambda>(k, r). r = Some rank"
  note f = short_filter_mset [OF assms]
  have len: "length (filter ?R outs) = length (filter ?R outs')"
    using assms(1) by (metis mset_filter size_mset)
  show ?thesis
  proof (cases "filter (\<lambda>(k, r). contains_str fragment k) outs")
    case Nil
    show ?thesis
    proof (cases "length (filter ?R outs) \<le> 1")
      case True
      with short_filter_mset [OF assms(1) True] Nil f show ?thesis
        by (simp add: select_output_key_def find_filter split: list.splits)
    next
      case False
      then obtain x y zs where "filter ?R outs = x # y # zs"
        by (cases "filter ?R outs"; cases "tl (filter ?R outs)") auto
      moreover from False len obtain x' y' zs' where "filter ?R outs' = x' # y' # zs'"
        by (cases "filter ?R outs'"; cases "tl (filter ?R outs')") auto
      ultimately show ?thesis using Nil f by (simp add: select_output_key_def find_filter split: prod.splits)
    qed
  qed (use f in \<open>simp add: select_output_key_def find_filter\<close>)
qed

end
