(* ===== verification/Dual_Serving.thy ===== *)
theory Dual_Serving
  imports Dual_Engine
begin

text \<open>
  What the embedding engine and the row layout of the sidecar give together: the shape of every run of the
  session under pinning, and the rows of a response as functions of single texts. What a tokenizer and a session
  have to do for that is stated as \<open>pads_to_longest\<close>, \<open>reads_tokens\<close> and \<open>answers_rowwise\<close>.
\<close>

section \<open>Rectangular batches\<close>

lemma concat_nth_uniform:
  assumes "\<forall>x\<in>set xs. length x = len" and "r < length xs" and "s < len"
  shows "concat xs ! (r * len + s) = xs ! r ! s"
  using assms
proof (induction xs arbitrary: r)
  case (Cons x xs)
  then show ?case by (cases r) (simp_all add: nth_append add.assoc)
qed simp

lemma length_concat_uniform: "\<forall>x\<in>set xs. length x = len \<Longrightarrow> length (concat xs) = length xs * len"
  by (induction xs) auto

lemma chunks_concat:
  assumes "0 < b" and "\<forall>c\<in>set cs. length c = b"
  shows "chunks b (concat cs) = cs"
  using assms(2)
proof (induction cs)
  case (Cons c cs)
  then have "c \<noteq> []" using assms(1) by auto
  with Cons assms(1) show ?case by (subst chunks.simps) simp
qed (simp add: chunks.simps)

text \<open>The batches that the engine forms of a pinned layout are the layout's own: each led by a ruler.\<close>

lemma chunks_of_pinned:
  assumes "2 \<le> b"
  shows "chunks b (fst (pin_shape texts b ruler)) = map (chunk_rows b ruler) (chunks (b - 1) texts)"
proof -
  have "\<forall>c\<in>set (chunks (b - 1) texts). length (chunk_rows b ruler c) = b"
    using chunks_length [of _ "b - 1" texts] assms by (auto intro: length_chunk_rows)
  then show ?thesis
    unfolding pin_shape_spec(1) [OF assms] using assms by (intro chunks_concat) auto
qed

lemma input_arrays_shape:
  assumes "encodings \<noteq> []" and "length encodings = n"
    and "\<forall>enc\<in>set encodings. length (enc_ids enc) = len \<and> length (enc_mask enc) = len \<and> length (enc_types enc) = len"
  shows "\<exists>ids attn types. input_arrays om n encodings = Ok (ids, attn, types) \<and>
    ar_rows ids = n \<and> ar_cols ids = len \<and> ar_rows attn = n \<and> ar_cols attn = len \<and>
    ar_rows types = n \<and> ar_cols types = len"
proof -
  obtain first rest where e: "encodings = first # rest" using assms(1) by (cases encodings) auto
  have "length (flat_ids f encodings) = n * len" if "\<forall>enc\<in>set encodings. length (f enc) = len" for f
    using length_concat_uniform [of "map (\<lambda>enc. map uint (f enc)) encodings" len] that assms(2)
    by (simp add: flat_ids_def)
  then have "length (flat_ids enc_ids encodings) = n * len" "length (flat_ids enc_mask encodings) = n * len"
    "length (flat_ids enc_types encodings) = n * len" using assms(3) by blast+
  moreover have "length (enc_ids first) = len" using assms(3) e by simp
  ultimately show ?thesis by (simp add: input_arrays_def from_shape_vec_def e)
qed

section \<open>One shape under pinning\<close>

text \<open>The documented behaviour of a tokenizer that truncates at \<open>cap\<close> and pads a batch to its longest member.\<close>

definition pads_to_longest :: "('i, 'e) onnx_model \<Rightarrow> ('i \<Rightarrow> nat) \<Rightarrow> nat \<Rightarrow> bool" where
  "pads_to_longest om tokens cap \<longleftrightarrow>
     (\<forall>batch encodings. batch \<noteq> [] \<and> om_encode om batch = Inr encodings \<longrightarrow>
        length encodings = length batch \<and>
        (\<forall>enc\<in>set encodings. \<forall>f\<in>{enc_ids, enc_mask, enc_types}.
           length (f enc) = Max ((\<lambda>t. min (tokens t) cap) ` set batch)))"

lemma longest_is_cap: "ruler \<in> set batch \<Longrightarrow> cap \<le> tokens ruler \<Longrightarrow> Max ((\<lambda>t. min (tokens t) cap) ` set batch) = (cap :: nat)"
  by (intro Max_eqI) force+

text \<open>
  C7: Every run has the one shape that was compiled. When the ruler has at least as many tokens as the cap, every batch
  that the engine forms of a pinned layout, at any batch of at least two and for any texts, goes to the session as
  tensors of exactly \<open>b\<close> rows by \<open>cap\<close> tokens; no batch is refused for its shape.
\<close>

theorem pinned_runs_have_one_shape:
  assumes "pads_to_longest om tokens cap" and "2 \<le> b" and "cap \<le> tokens ruler"
    and "batch \<in> set (chunks b (fst (pin_shape texts b ruler)))" and "om_encode om batch = Inr encodings"
  shows "\<exists>ids attn types. input_arrays om (length batch) encodings = Ok (ids, attn, types) \<and>
    ar_rows ids = b \<and> ar_cols ids = cap \<and> ar_rows attn = b \<and> ar_cols attn = cap \<and>
    ar_rows types = b \<and> ar_cols types = cap"
proof -
  from assms(2,4) obtain c where c: "c \<in> set (chunks (b - 1) texts)" and batch: "batch = chunk_rows b ruler c"
    by (auto simp: chunks_of_pinned)
  from chunks_length [OF c] assms(2) have len: "length batch = b" unfolding batch by (intro length_chunk_rows) simp_all
  have "ruler \<in> set batch" by (simp add: batch chunk_rows_def)
  note m = longest_is_cap [of ruler batch cap tokens, OF this assms(3)]
  have "batch \<noteq> []" using len assms(2) by auto
  with assms(1,5) have e: "length encodings = length batch"
    "\<forall>enc\<in>set encodings. length (enc_ids enc) = cap \<and> length (enc_mask enc) = cap \<and> length (enc_types enc) = cap"
    unfolding pads_to_longest_def by (simp_all add: m)
  moreover from e(1) \<open>batch \<noteq> []\<close> have "encodings \<noteq> []" by auto
  ultimately show ?thesis using input_arrays_shape [of encodings "length batch" cap om] len by simp
qed

section \<open>One row per text, of that text\<close>

text \<open>
  The tokenizer's answer for a batch: the tokens of each text, padded to one length, the mask one on the tokens and
  zero on the padding.
\<close>

definition reads_tokens :: "('i, 'e) onnx_model \<Rightarrow> ('i \<Rightarrow> 32 word list) \<Rightarrow> bool" where
  "reads_tokens om toks \<longleftrightarrow>
     (\<forall>batch encodings. om_encode om batch = Inr encodings \<longrightarrow>
        length encodings = length batch \<and>
        (\<exists>len. \<forall>i<length batch. \<exists>pad.
           enc_ids (encodings ! i) = toks (batch ! i) @ pad \<and>
           enc_mask (encodings ! i) = replicate (length (toks (batch ! i))) 1 @ replicate (length pad) 0 \<and>
           length (toks (batch ! i)) + length pad = len))"

text \<open>The session's answer: the rows and the token vectors of a text do not depend on the rest of its batch.\<close>

definition answers_rowwise ::
  "('i, 'e) onnx_model \<Rightarrow> ('i \<Rightarrow> 32 word list) \<Rightarrow> ('i \<Rightarrow> f32 list) \<Rightarrow> ('i \<Rightarrow> nat \<Rightarrow> f32 list) \<Rightarrow> bool" where
  "answers_rowwise om toks pooled hidden \<longleftrightarrow>
     (\<forall>batch encodings ids attn types inputs e outs k shape data i.
        om_encode om batch = Inr encodings \<and> input_arrays om (length batch) encodings = Ok (ids, attn, types) \<and>
        make_inputs om ids attn types = Ok inputs \<and> fst (om_run om inputs e) = Ok outs \<and>
        (k, F32_Tensor shape data) \<in> set outs \<and> i < length batch \<longrightarrow>
        (length shape = 2 \<longrightarrow>
           (\<forall>row. slice_range (i * shape ! 1) (Suc i * shape ! 1) data = Some row \<longrightarrow> row = pooled (batch ! i))) \<and>
        (\<forall>s<length (toks (batch ! i)). \<forall>h. hidden_at shape data i s = Some h \<longrightarrow> h = hidden (batch ! i) s))"

lemma answers_rowwiseD:
  assumes "answers_rowwise om toks pooled hidden" and "om_encode om batch = Inr encodings"
    and "input_arrays om (length batch) encodings = Ok (ids, attn, types)" and "make_inputs om ids attn types = Ok inputs"
    and "fst (om_run om inputs e) = Ok outs" and "(k, F32_Tensor shape data) \<in> set outs" and "i < length batch"
  shows "length shape = 2 \<Longrightarrow> slice_range (i * shape ! 1) (Suc i * shape ! 1) data = Some row \<Longrightarrow> row = pooled (batch ! i)"
    and "s < length (toks (batch ! i)) \<Longrightarrow> hidden_at shape data i s = Some h \<Longrightarrow> h = hidden (batch ! i) s"
  using assms unfolding answers_rowwise_def by blast+

text \<open>The two heads for one text on its own.\<close>

fun weigh_text :: "lexical_head \<Rightarrow> (int \<times> f32 list) list \<Rightarrow> (nat \<times> f32) list \<Rightarrow> (nat \<times> f32) list option" where
  "weigh_text lx [] tw = Some tw"
| "weigh_text lx ((token, h) # rest) tw =
     (if token \<in> set special_tokens then weigh_text lx rest tw
      else (case token_weight lx h of
          None \<Rightarrow> None
        | Some w \<Rightarrow> weigh_text lx rest (if f32_gt w 0 then note_weight (nat (token mod 2 ^ 64)) w tw else tw)))"

definition text_sparse :: "lexical_head \<Rightarrow> ('i \<Rightarrow> 32 word list) \<Rightarrow> ('i \<Rightarrow> nat \<Rightarrow> f32 list) \<Rightarrow> 'i \<Rightarrow> sparse_embedding" where
  "text_sparse lx toks hidden t =
     sparse_row (the (weigh_text lx (map (\<lambda>s. (uint (toks t ! s), hidden t s)) [0 ..< length (toks t)]) []))"

definition text_row ::
  "lexical_head \<Rightarrow> ('i \<Rightarrow> 32 word list) \<Rightarrow> ('i \<Rightarrow> f32 list) \<Rightarrow> ('i \<Rightarrow> nat \<Rightarrow> f32 list) \<Rightarrow> 'i \<Rightarrow> f32 list \<times> sparse_embedding" where
  "text_row lx toks pooled hidden t = (normalize_vec (pooled t), text_sparse lx toks hidden t)"

lemma weigh_tokens_append:
  "weigh_tokens lx shape data ids attn b (ss @ ss') tw =
     Option.bind (weigh_tokens lx shape data ids attn b ss tw) (weigh_tokens lx shape data ids attn b ss')"
  by (induction ss arbitrary: tw) (auto split: option.splits)

lemma weigh_tokens_masked:
  "\<forall>s\<in>set ss. array_at attn b s = Some 0 \<and> array_at ids b s \<noteq> None \<Longrightarrow>
     weigh_tokens lx shape data ids attn b ss tw = Some tw"
  by (induction ss arbitrary: tw) auto

lemma weigh_tokens_text:
  assumes "weigh_tokens lx shape data ids attn b ss tw = Some tw'"
    and "\<forall>s\<in>set ss. array_at attn b s = Some 1 \<and> array_at ids b s = Some (tok s) \<and>
      (\<forall>h. hidden_at shape data b s = Some h \<longrightarrow> h = H s)"
  shows "weigh_text lx (map (\<lambda>s. (tok s, H s)) ss) tw = Some tw'"
  using assms
  by (induction ss arbitrary: tw)
    (auto split: option.splits if_splits bind_splits)

lemma flat_ids_at:
  assumes "from_shape_vec n len (flat_ids f encodings) = Some a" and "\<forall>enc\<in>set encodings. length (f enc) = len"
    and "length encodings = n" and "i < n" and "s < len"
  shows "array_at a i s = Some (uint (f (encodings ! i) ! s))"
proof -
  have "flat_ids f encodings ! (i * len + s) = map (\<lambda>enc. map uint (f enc)) encodings ! i ! s"
    unfolding flat_ids_def using assms by (intro concat_nth_uniform) auto
  also have "\<dots> = uint (f (encodings ! i) ! s)" using assms by simp
  finally show ?thesis using array_at_in [OF assms(1,4,5)] by simp
qed

text \<open>The arrays of a batch, text by text: ones and tokens first, then zeros.\<close>

lemma read_arrays:
  assumes "reads_tokens om toks" and "om_encode om batch = Inr encodings" and "batch \<noteq> []"
    and "from_shape_vec (length batch) (length (enc_ids (hd encodings))) (flat_ids enc_ids encodings) = Some ids"
    and "from_shape_vec (length batch) (length (enc_ids (hd encodings))) (flat_ids enc_mask encodings) = Some attn"
    and "i < length batch"
  shows "length (toks (batch ! i)) \<le> ar_cols ids"
    and "s < length (toks (batch ! i)) \<Longrightarrow> array_at attn i s = Some 1 \<and> array_at ids i s = Some (uint (toks (batch ! i) ! s))"
    and "length (toks (batch ! i)) \<le> s \<Longrightarrow> s < ar_cols ids \<Longrightarrow> array_at attn i s = Some 0 \<and> array_at ids i s \<noteq> None"
proof -
  from assms(1,2) obtain len where n: "length encodings = length batch"
    and e: "\<forall>i<length batch. \<exists>pad. enc_ids (encodings ! i) = toks (batch ! i) @ pad \<and>
      enc_mask (encodings ! i) = replicate (length (toks (batch ! i))) 1 @ replicate (length pad) 0 \<and>
      length (toks (batch ! i)) + length pad = len"
    unfolding reads_tokens_def by blast
  have "length (enc_ids (encodings ! j)) = len \<and> length (enc_mask (encodings ! j)) = len" if "j < length batch" for j
    using e that by fastforce
  then have l: "\<forall>enc\<in>set encodings. length (enc_ids enc) = len" "\<forall>enc\<in>set encodings. length (enc_mask enc) = len"
    using n by (auto simp: all_set_conv_all_nth)
  moreover have "hd encodings \<in> set encodings" using n assms(3) by (intro hd_in_set) auto
  ultimately have h: "length (enc_ids (hd encodings)) = len" by blast
  note at_ids = flat_ids_at [OF assms(4) [unfolded h] l(1) n assms(6)]
    and at_attn = flat_ids_at [OF assms(5) [unfolded h] l(2) n assms(6)]
  from e assms(6) obtain pad where p: "enc_ids (encodings ! i) = toks (batch ! i) @ pad"
    "enc_mask (encodings ! i) = replicate (length (toks (batch ! i))) 1 @ replicate (length pad) 0"
    "length (toks (batch ! i)) + length pad = len" by blast
  have cols: "ar_cols ids = len" using assms(4) h by (simp add: from_shape_vec_Some)
  show "length (toks (batch ! i)) \<le> ar_cols ids" using p(3) cols by simp
  show "array_at attn i s = Some 1 \<and> array_at ids i s = Some (uint (toks (batch ! i) ! s))" if "s < length (toks (batch ! i))"
    using that p at_ids [of s] at_attn [of s] by (simp add: nth_append)
  show "array_at attn i s = Some 0 \<and> array_at ids i s \<noteq> None" if "length (toks (batch ! i)) \<le> s" "s < ar_cols ids"
    using that cols p at_ids [of s] at_attn [of s] by (simp add: nth_append)
qed

lemma embed_batch_rowwise:
  assumes "reads_tokens om toks" and "answers_rowwise om toks pooled hidden" and "batch \<noteq> []"
    and "fst (embed_batch om lx batch e) = Ok rows"
  shows "rows = map (text_row lx toks pooled hidden) batch"
proof (rule nth_equalityI)
  show len: "length rows = length (map (text_row lx toks pooled hidden) batch)"
    using embed_batch_length [OF assms(4)] by simp
  obtain r e' where f: "forward_pass om ''Failed to encode the batch.'' batch e = (r, e')" by (metis prod.exhaust)
  with assms(4) obtain ids attn outs where r: "r = Ok (ids, attn, outs)" and h: "read_heads om lx (ids, attn, outs) = Ok rows"
    by (auto simp: embed_batch_def bind_outcome_eq_Ok)
  from forward_pass_Ok [OF f [unfolded r]] obtain encodings types inputs where
    enc: "om_encode om batch = Inr encodings" "input_arrays om (length batch) encodings = Ok (ids, attn, types)"
      "from_shape_vec (length batch) (length (enc_ids (hd encodings))) (flat_ids enc_ids encodings) = Some ids"
      "from_shape_vec (length batch) (length (enc_ids (hd encodings))) (flat_ids enc_mask encodings) = Some attn"
      "make_inputs om ids attn types = Ok inputs" "om_run om inputs e = (Ok outs, e')"
    by blast
  then have out: "fst (om_run om inputs e) = Ok outs" by simp
  have nr: "ar_rows ids = length batch" using enc(3) by (simp add: from_shape_vec_Some)
  from h obtain dense sparse where ds: "dense_head om (length batch) outs = Ok dense"
    "sparse_head om lx (length batch) (ar_cols ids) ids attn outs = Ok sparse" "rows = zip dense sparse"
    and ls: "length sparse = length dense"
    by (auto simp: read_heads_def nr bind_outcome_eq_Ok zip_heads_def split: if_splits)
  fix i assume "i < length rows"
  then have i: "i < length batch" using len by simp
  note arr = read_arrays [OF assms(1) enc(1) assms(3) enc(3,4) i]
  from ds(1) obtain k shape data where d: "(k, F32_Tensor shape data) \<in> set outs" "length shape = 2"
    "dense_rows (length batch) (shape ! 1) data = Some dense"
    by (auto simp: dense_head_def bind_outcome_eq_Ok extract_tensor_def dest!: map_of_SomeD
        split: option.splits if_splits ort_value.splits)
  from dense_rows_row [OF d(3) i] obtain row where
    "slice_range (i * shape ! 1) (Suc i * shape ! 1) data = Some row" "dense ! i = normalize_vec row" by blast
  then have one: "dense ! i = normalize_vec (pooled (batch ! i))"
    using answers_rowwiseD(1) [OF assms(2) enc(1,2,5) out d(1) i d(2)] by simp
  from ds(2) obtain k' shape' data' where s: "(k', F32_Tensor shape' data') \<in> set outs"
    "post_process_bgem3 lx shape' data' ids attn = Some sparse"
    by (auto simp: sparse_head_def bind_outcome_eq_Ok extract_tensor_def dest!: map_of_SomeD
        split: option.splits if_splits ort_value.splits)
  from post_process_row [OF s(2)] i nr obtain tw where
    w: "weigh_tokens lx shape' data' ids attn i [0 ..< ar_cols ids] [] = Some tw" "sparse ! i = sparse_row tw" by auto
  let ?k = "length (toks (batch ! i))"
  have split: "[0 ..< ar_cols ids] = [0 ..< ?k] @ [?k ..< ar_cols ids]"
    using arr(1) by (metis le0 le_add_diff_inverse upt_add_eq_append)
  have "weigh_tokens lx shape' data' ids attn i [?k ..< ar_cols ids] t = Some t" for t
    using arr(3) by (intro weigh_tokens_masked) simp
  with w(1) split have "weigh_tokens lx shape' data' ids attn i [0 ..< ?k] [] = Some tw"
    by (auto simp: weigh_tokens_append bind_eq_Some_conv)
  then have "weigh_text lx (map (\<lambda>s. (uint (toks (batch ! i) ! s), hidden (batch ! i) s)) [0 ..< ?k]) [] = Some tw"
  proof (rule weigh_tokens_text)
    show "\<forall>s\<in>set [0 ..< ?k]. array_at attn i s = Some 1 \<and> array_at ids i s = Some (uint (toks (batch ! i) ! s)) \<and>
        (\<forall>h. hidden_at shape' data' i s = Some h \<longrightarrow> h = hidden (batch ! i) s)"
      using arr(2) answers_rowwiseD(2) [OF assms(2) enc(1,2,5) out s(1) i] by simp
  qed
  with w(2) one show "rows ! i = map (text_row lx toks pooled hidden) batch ! i"
    using i \<open>i < length rows\<close> ls by (simp add: ds(3) text_row_def text_sparse_def)
qed

lemma dual_embed_rowwise:
  assumes "reads_tokens om toks" and "answers_rowwise om toks pooled hidden"
    and "fst (dual_embed om lx texts n e) = Ok rows"
  shows "rows = map (text_row lx toks pooled hidden) texts"
proof -
  from assms(3) have n: "0 < n" and r: "fst (run_batches (embed_batch om lx) (chunks n texts) e) = Ok rows"
    by (auto simp: dual_embed_def in_batches_def split: if_splits)
  have "rows = map (text_row lx toks pooled hidden) (concat (chunks n texts))"
    using chunks_length by (intro run_batches_rowwise [OF embed_batch_rowwise [OF assms(1,2)] r]) blast+
  with n show ?thesis by (simp add: concat_chunks)
qed

text \<open>
  C3: A response is about the texts that were sent. With the engine of this repository over a session that computes each
  text on its own and a tokenizer that masks its padding, every answer of an embed request carries, for the caller's
  texts and in their order, the normalised pooled vector and the token weights of that text alone, whatever the batch
  size, whatever it was batched with, and whether or not it was pinned.
\<close>

theorem embed_service_reads_each_text:
  assumes "embed_blocking rq views texts kind hint lim request_id st = Some (Ok resp, st')"
    and "rq_embed rq = dual_embed om lx" and "reads_tokens om toks" and "answers_rowwise om toks pooled hidden"
  shows "er_dense resp = map (\<lambda>t. normalize_vec (pooled t)) texts \<and>
    er_sparse resp = map (\<lambda>t. sparse_wire (text_sparse lx toks hidden t)) texts"
proof -
  have "fst (rq_embed rq ts (lm_batch lim) e) = Ok rows \<Longrightarrow> rows = map (text_row lx toks pooled hidden) ts" for ts e rows
    unfolding assms(2) by (rule dual_embed_rowwise [OF assms(3,4)])
  from embed_blocking_faithful [OF assms(1) this] show ?thesis by (simp add: text_row_def comp_def)
qed

section \<open>Witnesses\<close>

text \<open>
  A tokenizer with one token per byte, four at most, padded to the longest; a session whose tensors are full of ones;
  a lexical head of one weight.
\<close>

definition byte_encoding :: "nat \<Rightarrow> string \<Rightarrow> encoding" where
  "byte_encoding len t =
     (let k = min (length t) 4
      in \<lparr>enc_ids = replicate k 7 @ replicate (len - k) 1,
          enc_mask = replicate k 1 @ replicate (len - k) 0, enc_types = replicate len 0\<rparr>)"

definition byte_model :: "(string, nat) onnx_model" where
  "byte_model = \<lparr>om_encode = (\<lambda>batch. Inr (map (byte_encoding (Max ((\<lambda>t. min (length t) 4) ` set batch))) batch)),
     om_need_types = False, om_value = (\<lambda>a. None),
     om_run = (\<lambda>inputs e.
       let a = snd (hd inputs)
       in (Ok [(''token_embeddings'', F32_Tensor [ar_rows a, ar_cols a, 1] (replicate (ar_rows a * ar_cols a) f32_one)),
               (''sentence_embedding'', F32_Tensor [ar_rows a, 1] (replicate (ar_rows a) f32_one))], Suc e)),
     om_shape_error = [], om_extract_error = [], om_show_names = concat, om_show_shape = (\<lambda>s. [])\<rparr>"

definition unit_head :: lexical_head where
  "unit_head = \<lparr>lx_weights = [f32_one], lx_bias = 0, lx_dot = (\<lambda>x y. f32_one)\<rparr>"

lemma byte_pads: "pads_to_longest byte_model length 4"
  by (auto simp: pads_to_longest_def byte_model_def byte_encoding_def Let_def)

lemma byte_reads: "reads_tokens byte_model (\<lambda>t. replicate (min (length t) 4) 7)"
  unfolding reads_tokens_def
proof (intro allI impI conjI)
  fix batch :: "string list" and encodings
  assume "om_encode byte_model batch = Inr encodings"
  then have e: "encodings = map (byte_encoding (Max ((\<lambda>t. min (length t) 4) ` set batch))) batch"
    by (simp add: byte_model_def)
  then show "length encodings = length batch" by simp
  let ?len = "Max ((\<lambda>t. min (length t) 4) ` set batch)"
  have le: "min (length (batch ! i)) 4 \<le> ?len" if "i < length batch" for i
    using that by (intro Max_ge) auto
  show "\<exists>len. \<forall>i<length batch. \<exists>pad.
      enc_ids (encodings ! i) = replicate (min (length (batch ! i)) 4) 7 @ pad \<and>
      enc_mask (encodings ! i) = replicate (length (replicate (min (length (batch ! i)) 4) (7 :: 32 word))) 1 @
        replicate (length pad) 0 \<and>
      length (replicate (min (length (batch ! i)) 4) (7 :: 32 word)) + length pad = len"
  proof (intro exI [of _ ?len] allI impI)
    fix i assume "i < length batch"
    with le show "\<exists>pad. enc_ids (encodings ! i) = replicate (min (length (batch ! i)) 4) 7 @ pad \<and>
        enc_mask (encodings ! i) = replicate (length (replicate (min (length (batch ! i)) 4) (7 :: 32 word))) 1 @
          replicate (length pad) 0 \<and>
        length (replicate (min (length (batch ! i)) 4) (7 :: 32 word)) + length pad = ?len"
      by (intro exI [of _ "replicate (?len - min (length (batch ! i)) 4) 1"]) (simp add: e byte_encoding_def Let_def)
  qed
qed

lemma slice_range_ones: "slice_range a b (replicate n x) = Some r \<Longrightarrow> r = replicate (b - a) x"
  by (auto simp: slice_range_def min_def split: if_splits)

lemma byte_rowwise: "answers_rowwise byte_model (\<lambda>t. replicate (min (length t) 4) 7) (\<lambda>t. [f32_one]) (\<lambda>t s. [f32_one])"
  unfolding answers_rowwise_def
  by (auto simp: byte_model_def Let_def hidden_at_def split: if_splits dest!: slice_range_ones)

lemma byte_contract:
  "fst (om_run byte_model inputs e) \<noteq> Panic"
  "fst (om_run byte_model inputs e) = Ok outs \<Longrightarrow> (k, v) \<in> set outs \<Longrightarrow> tensor_ok v"
  "fst (om_run byte_model inputs e) = Ok outs \<Longrightarrow> (k, F32_Tensor shape data) \<in> set outs \<Longrightarrow>
     length shape = 3 \<Longrightarrow> shape ! 2 = length (lx_weights unit_head)"
  by (auto simp: byte_model_def Let_def unit_head_def)

lemma dual_embed_never_panics_witness:
  "fst (dual_embed byte_model unit_head [''ab'', ''a'', ''abcdef''] 2 0) \<noteq> Panic"
  by (rule dual_embed_never_panics [OF byte_contract])

lemma pinned_runs_have_one_shape_witness:
  "\<exists>ids attn types encodings. om_encode byte_model [''ruler'', ''ab'', ''ruler''] = Inr encodings \<and>
     input_arrays byte_model 3 encodings = Ok (ids, attn, types) \<and> ar_rows ids = 3 \<and> ar_cols ids = 4"
proof -
  have c: "[''ruler'', ''ab'', ''ruler''] \<in> set (chunks 3 (fst (pin_shape [''ab''] 3 ''ruler'')))"
    by (simp add: chunks_of_pinned chunks.simps [of 2 "[''ab'']"] chunks.simps [of 2 "[]"] chunk_rows_def)
  obtain encodings where e: "om_encode byte_model [''ruler'', ''ab'', ''ruler''] = Inr encodings"
    by (simp add: byte_model_def)
  have two: "2 \<le> (3 :: nat)" "4 \<le> length ''ruler''" by simp_all
  have len: "length [''ruler'', ''ab'', ''ruler''] = (3 :: nat)" by simp
  from pinned_runs_have_one_shape [OF byte_pads two c e, unfolded len] e show ?thesis by blast
qed

lemma gt_one_zero: "f32_gt f32_one 0"
  by (simp add: f32_gt_def f32_ge_def decode_one decode_zero with_sign_def)

lemma unit_weight: "token_weight unit_head [f32_one] = Some f32_one"
proof -
  have "f32_max f32_one 0 = f32_one"
    using gt_one_zero by (auto simp: f32_max_def f32_gt_def dest: f32_ge_nan)
  then show ?thesis
    by (simp add: token_weight_def unit_head_def f32_add_commute [of f32_one] add_zero_one)
qed


lemma chunk_one: "chunks (Suc 0) [x] = [[x]]"
  by (subst chunks.simps) (simp add: chunks.simps [of "Suc 0" "[]"])

lemma two_copies: "replicate 2 x = [x, x]"
  by (simp add: numeral_2_eq_2)

lemma byte_forward:
  "forward_pass byte_model what [''ab''] e =
     (Ok (\<lparr>ar_rows = 1, ar_cols = 2, ar_data = [7, 7]\<rparr>, \<lparr>ar_rows = 1, ar_cols = 2, ar_data = [1, 1]\<rparr>,
        [(''token_embeddings'', F32_Tensor [1, 2, 1] [f32_one, f32_one]),
         (''sentence_embedding'', F32_Tensor [1, 1] [f32_one])]), Suc e)"
  by (simp add: forward_pass_def byte_model_def byte_encoding_def input_arrays_def flat_ids_def from_shape_vec_def
      make_inputs_def as_value_def two_copies)

lemma byte_names:
  "\<not> contains_str ''sentence_embedding'' ''token_embeddings''" "contains_str ''sentence_embedding'' ''sentence_embedding''"
  "contains_str ''token_embedding'' ''token_embeddings''"
  by code_simp+

lemma byte_selects:
  "select_output_key byte_model [(''token_embeddings'', Some 3), (''sentence_embedding'', Some 2)] ''sentence_embedding'' 2
     = Ok ''sentence_embedding''"
  "select_output_key byte_model [(''token_embeddings'', Some 3), (''sentence_embedding'', Some 2)] ''token_embedding'' 3
     = Ok ''token_embeddings''"
  by (simp_all add: select_output_key_def byte_names del: contains_str.simps)

lemma byte_heads:
  assumes "ids = \<lparr>ar_rows = 1, ar_cols = 2, ar_data = [7, 7]\<rparr>" and "attn = \<lparr>ar_rows = 1, ar_cols = 2, ar_data = [1, 1]\<rparr>"
    and "outs = [(''token_embeddings'', F32_Tensor [1, 2, 1] [f32_one, f32_one]),
      (''sentence_embedding'', F32_Tensor [1, 1] [f32_one])]"
  shows "\<exists>rows. read_heads byte_model unit_head (ids, attn, outs) = Ok rows"
proof -
  have a: "from_shape_vec 1 2 [7, 7] = Some ids" "from_shape_vec 1 2 [1, 1] = Some attn"
    by (simp_all add: from_shape_vec_def assms(1,2))
  have covers: "output_covers_input [1, 2, 1] 1 2" by (simp add: output_covers_input_def)
  have "post_process_bgem3 unit_head [1, 2, 1] [f32_one, f32_one] ids attn \<noteq> None"
    by (rule post_process_defined [OF a covers]) (simp_all add: unit_head_def)
  then obtain sparse where s: "post_process_bgem3 unit_head [1, 2, 1] [f32_one, f32_one] ids attn = Some sparse" by blast
  then have "length sparse = 1"
    using collect_options_length by (fastforce simp: post_process_bgem3_def assms(1))
  have r: "named_ranks outs = [(''token_embeddings'', Some 3), (''sentence_embedding'', Some 2)]"
    by (simp add: named_ranks_def tensor_rank_def assms(3))
  have d: "dense_head byte_model 1 outs = Ok [normalize_vec [f32_one]]"
    by (simp add: dense_head_def r byte_selects) (simp add: assms(3) extract_tensor_def dense_rows_Some)
  have "sparse_head byte_model unit_head 1 2 ids attn outs = Ok sparse"
    by (simp add: sparse_head_def r byte_selects) (simp add: assms(3) extract_tensor_def covers [simplified] s [simplified])
  with d \<open>length sparse = 1\<close> show ?thesis by (simp add: read_heads_def assms(1) zip_heads_def)
qed

lemma byte_embed_ab: "\<exists>rows. dual_embed byte_model unit_head [''ab''] 1 e = (Ok rows, Suc e)"
proof -
  have "\<exists>rows. embed_batch byte_model unit_head [''ab''] e = (Ok rows, Suc e)"
    using byte_heads [OF refl refl refl] by (simp add: embed_batch_def byte_forward)
  then show ?thesis by (auto simp: dual_embed_def in_batches_def chunk_one)
qed

lemma dual_embed_one_row_per_text_witness:
  "\<exists>rows. fst (dual_embed byte_model unit_head [''ab''] 1 0) = Ok rows \<and> length rows = 1"
  using byte_embed_ab [of 0] dual_embed_one_row_per_text [of byte_model unit_head "[''ab'']" 1 0] by auto

lemma token_width_is_not_guarded_witness:
  "sparse_head byte_model (unit_head\<lparr>lx_weights := [f32_one, f32_one]\<rparr>) 1 2
     \<lparr>ar_rows = 1, ar_cols = 2, ar_data = [7, 7]\<rparr> \<lparr>ar_rows = 1, ar_cols = 2, ar_data = [1, 1]\<rparr>
     [(''token_embeddings'', F32_Tensor [1, 2, 1] [f32_one, f32_one]),
      (''sentence_embedding'', F32_Tensor [1, 1] [f32_one])] = Panic"
proof -
  let ?outs = "[(''token_embeddings'', F32_Tensor [1, 2, 1] [f32_one, f32_one]),
      (''sentence_embedding'', F32_Tensor [1, 1] [f32_one])]"
  have r: "named_ranks ?outs = [(''token_embeddings'', Some 3), (''sentence_embedding'', Some 2)]"
    by (simp add: named_ranks_def tensor_rank_def)
  show ?thesis
    by (rule token_width_is_not_guarded [where key = "''token_embeddings''" and xs = "[7, 7]" and ys = "[1, 1]" and
          outs = ?outs and a = 1 and b = 2 and width = 1 and data = "[f32_one, f32_one]"])
      (simp_all add: r [simplified] byte_selects output_covers_input_def from_shape_vec_def special_tokens_def)
qed

lemma selection_ignores_order_witness:
  "select_output_key byte_model [(''sentence_embedding'', Some 2), (''token_embeddings'', Some 3)] ''token_embedding'' 3
     = Ok ''token_embeddings''"
proof -
  have "length (filter (\<lambda>(k, r). contains_str ''token_embedding'' k)
      [(''token_embeddings'', Some (3 :: nat)), (''sentence_embedding'', Some 2)]) \<le> 1"
    by code_simp
  moreover have "mset [(''token_embeddings'', Some (3 :: nat)), (''sentence_embedding'', Some 2)] =
      mset [(''sentence_embedding'', Some 2), (''token_embeddings'', Some 3)]" by simp
  ultimately show ?thesis using selection_ignores_order byte_selects(2) by blast
qed

lemma lexical_row_holds_greatest_weights_witness:
  "\<exists>rows. post_process_bgem3 unit_head [1, 2, 1] [f32_one, f32_one]
     \<lparr>ar_rows = 1, ar_cols = 2, ar_data = [7, 7]\<rparr> \<lparr>ar_rows = 1, ar_cols = 2, ar_data = [1, 1]\<rparr> = Some rows \<and>
     length rows = 1 \<and> 7 \<in> set (se_indices (rows ! 0))"
proof -
  let ?ids = "\<lparr>ar_rows = 1, ar_cols = 2, ar_data = [7, 7 :: int]\<rparr>"
  let ?attn = "\<lparr>ar_rows = 1, ar_cols = 2, ar_data = [1, 1 :: int]\<rparr>"
  have a: "from_shape_vec 1 2 [7, 7] = Some ?ids" "from_shape_vec 1 2 [1, 1] = Some ?attn"
    by (simp_all add: from_shape_vec_def)
  have covers: "output_covers_input [1, 2, 1] 1 2" by (simp add: output_covers_input_def)
  have "post_process_bgem3 unit_head [1, 2, 1] [f32_one, f32_one] ?ids ?attn \<noteq> None"
    by (rule post_process_defined [OF a covers]) (simp_all add: unit_head_def)
  then obtain rows where r: "post_process_bgem3 unit_head [1, 2, 1] [f32_one, f32_one] ?ids ?attn = Some rows" by blast
  have c: "contribution unit_head [1, 2, 1] [f32_one, f32_one] ?ids ?attn 0 0 = Some (7, f32_one)"
    using array_at_in [OF a(1), of 0 0] array_at_in [OF a(2), of 0 0] hidden_at_in [of 0 1 0 2 "[f32_one, f32_one]" 1]
    by (simp add: contribution_def unit_weight gt_one_zero special_tokens_def)
  have "0 < ar_rows ?ids" "0 < ar_cols ?ids" by simp_all
  with lexical_row_holds_greatest_weights [OF r, of 0] c r show ?thesis by fastforce
qed

lemma embed_service_reads_each_text_witness:
  "\<exists>resp st'. embed_blocking (echo_request\<lparr>rq_embed := dual_embed byte_model unit_head\<rparr>) [free_view warm_cache] [''ab'']
      ''document'' [] \<lparr>max_length = 256, lm_batch = 1\<rparr> ''r1'' (plain_state []) = Some (Ok resp, st') \<and>
    er_dense resp = [normalize_vec [f32_one]]"
proof -
  obtain rows where rows: "dual_embed byte_model unit_head [''ab''] 1 1 = (Ok rows, 2)"
    using byte_embed_ab [of 1] by (auto simp: numeral_2_eq_2)
  have "\<exists>resp st'. embed_blocking (echo_request\<lparr>rq_embed := dual_embed byte_model unit_head\<rparr>) [free_view warm_cache]
      [''ab''] ''document'' [] \<lparr>max_length = 256, lm_batch = 1\<rparr> ''r1'' (plain_state []) = Some (Ok resp, st')"
    using rows by (simp add: embed_blocking_def plain_unpinned plain_embed embed_natural_def mutex_simps Let_def
        engine_for_cap_def warm_get run_pass_def embed_settling_def)
  then obtain resp st' where b: "embed_blocking (echo_request\<lparr>rq_embed := dual_embed byte_model unit_head\<rparr>)
      [free_view warm_cache] [''ab''] ''document'' [] \<lparr>max_length = 256, lm_batch = 1\<rparr> ''r1'' (plain_state []) =
      Some (Ok resp, st')" by blast
  from embed_service_reads_each_text [OF b _ byte_reads byte_rowwise] b show ?thesis by auto
qed

end
