(* ===== verification/Total_Order.thy ===== *)
theory Total_Order
  imports F32
begin

text \<open>
  \<open>f32::total_cmp\<close> of the standard library, by which the reranker sorts: the order of the bits below the sign, turned
  round for the negative values and with those below the positive ones. On values that are no NaN a greater key is a
  greater or equal value.
\<close>

definition total_key :: "f32 \<Rightarrow> int" where
  "total_key x = (let n = unat x in if 2 ^ 31 \<le> n then 2 ^ 31 - 1 - int n else int n)"

section \<open>The value of a bit pattern\<close>

text \<open>The magnitude of a finite pattern in units of the smallest subnormal.\<close>

definition magnitude :: "nat \<Rightarrow> nat" where
  "magnitude n =
     (let ex = n div 2 ^ 23; fr = n mod 2 ^ 23 in if ex = 0 then fr else (fr + 2 ^ 23) * 2 ^ (ex - 1))"

lemma magnitude_mono: "n \<le> n' \<Longrightarrow> magnitude n \<le> magnitude n'"
proof -
  assume le: "n \<le> n'"
  let ?ex = "n div 2 ^ 23" and ?fr = "n mod 2 ^ 23" and ?ex' = "n' div 2 ^ 23" and ?fr' = "n' mod 2 ^ 23"
  have fr: "?fr < 2 ^ 23" "?fr' < 2 ^ 23" by simp_all
  have n: "n = ?ex * 2 ^ 23 + ?fr" "n' = ?ex' * 2 ^ 23 + ?fr'" by simp_all
  have "?ex \<le> ?ex'" using le by (rule div_le_mono)
  then consider "?ex = ?ex'" "?fr \<le> ?fr'" | "?ex < ?ex'"
    using n le by (metis le_neq_implies_less nat_add_left_cancel_le)
  then show ?thesis
  proof cases
    case 1
    with le show ?thesis by (simp add: magnitude_def Let_def)
  next
    case 2
    have up: "2 ^ 23 * 2 ^ (?ex' - 1) \<le> magnitude n'" using 2 by (simp add: magnitude_def Let_def)
    have "magnitude n \<le> 2 ^ 23 * 2 ^ ?ex"
    proof (cases "?ex = 0")
      case True
      then show ?thesis using fr(1) by (simp add: magnitude_def Let_def)
    next
      case False
      have "(?fr + 2 ^ 23) * 2 ^ (?ex - 1) \<le> (2 ^ 23 * 2) * 2 ^ (?ex - 1)"
        using fr(1) by (intro mult_le_mono1) simp
      also have "\<dots> = 2 ^ 23 * 2 ^ ?ex" using False by (simp flip: power_Suc)
      finally show ?thesis using False by (simp add: magnitude_def Let_def)
    qed
    also have "2 ^ 23 * (2 :: nat) ^ ?ex \<le> 2 ^ 23 * 2 ^ (?ex' - 1)"
      using 2 by (intro mult_le_mono2 power_increasing) simp_all
    finally show ?thesis using up by (rule order_trans)
  qed
qed

section \<open>What a pattern decodes to\<close>

lemma magnitude_decoded:
  assumes "n div 2 ^ 23 < 255" and "n < 2 ^ 31"
    and "f = (if n div 2 ^ 23 = 0 then Fin s (n mod 2 ^ 23) (-149) else Fin s (n mod 2 ^ 23 + 2 ^ 23) (int (n div 2 ^ 23) - 150))"
  shows "\<exists>m e. f = Fin s m e \<and> -149 \<le> e \<and> m * 2 ^ nat (e + 149) = magnitude n"
proof (cases "n div 2 ^ 23 = 0")
  case False
  then have "nat (int (n div 2 ^ 23) - 150 + 149) = n div 2 ^ 23 - 1" by simp
  with False show ?thesis by (simp add: assms(3) magnitude_def Let_def)
qed (simp add: assms(3) magnitude_def)

lemma decode_pattern:
  assumes "k = unat x mod 2 ^ 31" and "s = (2 ^ 31 \<le> unat x)" and "\<not> f32_is_nan x"
  shows "(k = 255 * 2 ^ 23 \<and> f32_decode x = Inf s) \<or>
    (k < 255 * 2 ^ 23 \<and> (\<exists>m e. f32_decode x = Fin s m e \<and> -149 \<le> e \<and> m * 2 ^ nat (e + 149) = magnitude k))"
proof -
  have k: "k < 2 ^ 31" "k div 2 ^ 23 < 256" using assms(1) by (simp_all add: less_mult_imp_div_less)
  have ex: "unat x div 2 ^ 23 mod 256 = k div 2 ^ 23"
    using assms(1) div_mod_decomp [of 0] by (simp add: mod_mult2_eq [of _ "2 ^ 23" 256, simplified] )
  have fr: "unat x mod 2 ^ 23 = k mod 2 ^ 23" using assms(1) by (simp add: mod_mod_cancel)
  have split: "k = (k div 2 ^ 23) * 2 ^ 23 + k mod 2 ^ 23" by simp
  show ?thesis
  proof (cases "k div 2 ^ 23 = 255")
    case True
    with assms(3) ex fr have "k mod 2 ^ 23 = 0"
      by (auto simp: f32_is_nan_def f32_decode_def Let_def split: if_splits)
    with True split ex fr show ?thesis by (auto simp: f32_decode_def assms(2))
  next
    case False
    with k have "k div 2 ^ 23 < 255" by simp
    then have "k < 255 * 2 ^ 23" by (simp add: div_less_iff_less_mult)
    moreover have "f32_decode x = (if k div 2 ^ 23 = 0 then Fin s (k mod 2 ^ 23) (-149)
        else Fin s (k mod 2 ^ 23 + 2 ^ 23) (int (k div 2 ^ 23) - 150))"
      using False by (simp add: f32_decode_def Let_def ex [simplified] fr [simplified] assms(2))
    ultimately show ?thesis using magnitude_decoded [OF \<open>k div 2 ^ 23 < 255\<close> k(1)] by blast
  qed
qed

section \<open>The key orders the values\<close>

lemma total_key_parts:
  "total_key x = (if 2 ^ 31 \<le> unat x then - 1 - int (unat x mod 2 ^ 31) else int (unat x mod 2 ^ 31))"
proof -
  have "unat x < 2 ^ 32" using unsigned_less [of x] by simp
  then have "2 ^ 31 \<le> unat x \<Longrightarrow> unat x mod 2 ^ 31 = unat x - 2 ^ 31" by (simp add: mod_if)
  then show ?thesis by (auto simp: total_key_def Let_def of_nat_diff)
qed

lemma le_num_finite:
  assumes "-149 \<le> e" and "-149 \<le> f"
    and "with_sign s (m * 2 ^ nat (e + 149)) \<le> with_sign t (n * 2 ^ nat (f + 149))"
  shows "le_num (Fin s m e) (Fin t n f)"
  using scaled_le [of "min e f" e f "-149" s m t n] assms by (simp add: Let_def)

lemma total_key_ge:
  assumes "\<not> f32_is_nan x" and "\<not> f32_is_nan y" and "total_key y \<le> total_key x"
  shows "f32_ge x y"
proof -
  define k where "k = unat x mod 2 ^ 31"
  define l where "l = unat y mod 2 ^ 31"
  define s where "s = (2 ^ 31 \<le> unat x)"
  define t where "t = (2 ^ 31 \<le> unat y)"
  note X = decode_pattern [OF k_def s_def assms(1)] and Y = decode_pattern [OF l_def t_def assms(2)]
  have key: "(if t then - 1 - int l else int l) \<le> (if s then - 1 - int k else int k)"
    using assms(3) unfolding total_key_parts k_def l_def s_def t_def .
  then have sign: "s \<Longrightarrow> t" and pos: "\<not> t \<Longrightarrow> l \<le> k" and neg: "s \<Longrightarrow> k \<le> l" by (auto split: if_splits)
  have fin: "le_num (Fin t n f) (Fin s m e)"
    if "-149 \<le> e" "-149 \<le> f" "m * 2 ^ nat (e + 149) = magnitude k" "n * 2 ^ nat (f + 149) = magnitude l" for m n e f
    using that(1,2) sign magnitude_mono [OF pos] magnitude_mono [OF neg]
    by (intro le_num_finite) (auto simp: that(3,4) with_sign_def)
  have "t \<or> l \<le> k" "\<not> s \<or> t" "\<not> s \<or> k \<le> l" using sign pos neg by auto
  with X Y fin show ?thesis by (auto simp: f32_ge_def)
qed

lemma total_key_inject: "total_key x = total_key y \<Longrightarrow> x = y"
proof -
  assume e: "total_key x = total_key y"
  have "(if 2 ^ 31 \<le> n then 2 ^ 31 - 1 - int n else int n) = (if 2 ^ 31 \<le> m then 2 ^ 31 - 1 - int m else int m) \<Longrightarrow> n = m"
    for n m :: nat by (auto split: if_splits)
  from this [OF e [unfolded total_key_def Let_def]] have "unat x = unat y" .
  then show ?thesis by (simp add: unsigned_word_eqI)
qed

end
