(* ===== verification/Cross_Encoder.thy ===== *)
theory Cross_Encoder
  imports Rerank Forward_Pass Total_Order
begin

text \<open>
  The reranking engine of the vendored \<open>fastembed\<close> (\<open>vendor-fastembed/src/reranking/impl.rs\<close>): the batches of
  query and document, the first column of the logits, and the stable sort by descending score. Its calls are the
  \<open>rr_call\<close> of theory \<open>Rerank\<close>. The Rust sort is stable and its key total, so it is the library's \<open>sort_key\<close>.
\<close>

section \<open>The engine\<close>

record rerank_result =
  rs_document :: "string option"
  rs_score :: f32
  rs_index :: nat

text \<open>\<open>outputs.slice(s![.., 0])\<close>: the tensor has two dimensions and a column, or the slice panics.\<close>

definition first_column :: "nat list \<Rightarrow> f32 list \<Rightarrow> f32 list option" where
  "first_column shape data =
     (case shape of
        [n, w] \<Rightarrow> if 0 < w then collect_options (map (\<lambda>r. nth_opt data (r * w)) [0 ..< n]) else None
      | _ \<Rightarrow> None)"

definition logits_of ::
  "(string \<times> string, 'r) onnx_model \<Rightarrow> session_outputs \<Rightarrow> (app_error, f32 list) outcome" where
  "logits_of om outs =
     (case map_of outs ''logits'' of
        None \<Rightarrow> Err (Message ''Output does not contain 'logits' key'')
      | Some Other_Value \<Rightarrow> Err (Message (''Failed to extract logits tensor: '' @ om_extract_error om))
      | Some (F32_Tensor shape data) \<Rightarrow>
          (case first_column shape data of None \<Rightarrow> Panic | Some scores \<Rightarrow> Ok scores))"

definition score_batch ::
  "(string \<times> string, 'r) onnx_model \<Rightarrow> string \<Rightarrow> string list \<Rightarrow> 'r \<Rightarrow> (app_error, f32 list) outcome \<times> 'r" where
  "score_batch om query batch e =
     (case forward_pass om ''Failed to encode batch'' (map (\<lambda>d. (query, d)) batch) e of
        (r, e') \<Rightarrow> (bind_outcome r (\<lambda>(ids, attn, outs). logits_of om outs), e'))"

definition indexed_scores :: "f32 list \<Rightarrow> (nat \<times> f32) list" where
  "indexed_scores scores = zip [0 ..< length scores] scores"

definition sort_results :: "rerank_result list \<Rightarrow> rerank_result list" where
  "sort_results results = sort_key (\<lambda>r. - total_key (rs_score r)) results"

definition rerank ::
  "(string \<times> string, 'r) onnx_model \<Rightarrow> string \<Rightarrow> string list \<Rightarrow> bool \<Rightarrow> nat \<Rightarrow> 'r \<Rightarrow>
     (app_error, rerank_result list) outcome \<times> 'r" where
  "rerank om query documents return_documents n e =
     (case in_batches (score_batch om query) documents n e of
        (r, e') \<Rightarrow>
          (bind_outcome r (\<lambda>scores.
             if return_documents \<and> length documents < length scores then Panic
             else Ok (sort_results (map (\<lambda>(i, s).
               \<lparr>rs_document = if return_documents then Some (documents ! i) else None, rs_score = s, rs_index = i\<rparr>)
               (indexed_scores scores)))), e'))"

text \<open>The call of the sidecar: no documents back, index and score of each result.\<close>

definition cross_encode :: "(string \<times> string, 'r) onnx_model \<Rightarrow> 'r rerank_call" where
  "cross_encode om query documents n e =
     (case rerank om query documents False n e of
        (r, e') \<Rightarrow> (map_outcome (map (\<lambda>x. (rs_index x, rs_score x))) r, e'))"

section \<open>The order of the results\<close>

lemma rerank_Ok:
  assumes "fst (rerank om query documents return_documents n e) = Ok results"
  shows "\<exists>scores f. fst (in_batches (score_batch om query) documents n e) = Ok scores \<and>
    results = sort_results (map f (indexed_scores scores)) \<and>
    (\<forall>x. rs_index (f x) = fst x \<and> rs_score (f x) = snd x)"
proof -
  obtain r e' where b: "in_batches (score_batch om query) documents n e = (r, e')" by (metis prod.exhaust)
  with assms obtain scores where r: "r = Ok scores" and s: "results = sort_results (map (\<lambda>(i, s).
      \<lparr>rs_document = if return_documents then Some (documents ! i) else None, rs_score = s, rs_index = i\<rparr>)
      (indexed_scores scores))"
    by (auto simp: rerank_def bind_outcome_eq_Ok split: if_splits)
  then show ?thesis using b
    by (intro exI [of _ scores] exI [of _ "\<lambda>(i, s).
      \<lparr>rs_document = if return_documents then Some (documents ! i) else None, rs_score = s, rs_index = i\<rparr>"]) auto
qed

lemma indexed_scores_props:
  "length (indexed_scores scores) = length scores" "map fst (indexed_scores scores) = [0 ..< length scores]"
  "(i, s) \<in> set (indexed_scores scores) \<longleftrightarrow> i < length scores \<and> s = scores ! i"
  by (auto simp: indexed_scores_def in_set_zip intro!: exI [of _ i])

lemma sorted_filter_index:
  assumes "\<forall>x. rs_index (f x) = fst x"
  shows "sorted_wrt (\<lambda>a b. rs_index a < rs_index b) (filter P (map f (indexed_scores scores)))"
proof -
  have "sorted_wrt (\<lambda>a b. fst a < fst b) (indexed_scores scores)"
    using sorted_wrt_map [of "(<)" fst "indexed_scores scores"] by (simp add: indexed_scores_props(2))
  then have "sorted_wrt (\<lambda>a b. rs_index a < rs_index b) (map f (indexed_scores scores))"
    by (simp add: sorted_wrt_map assms)
  then show ?thesis by (rule sorted_wrt_filter)
qed

text \<open>
  Results come best first, each document at most once, ties in the order of the documents. The results of a rerank
  are the scores of the batches, one after another, each with its position; no result has a greater key than one
  before it, so among scores that are no NaN none is followed by a greater one, and equal scores keep their order.
\<close>

theorem rerank_results_ordered:
  assumes "fst (rerank om query documents return_documents n e) = Ok results"
  shows "\<exists>scores. fst (in_batches (score_batch om query) documents n e) = Ok scores \<and>
    mset (map (\<lambda>r. (rs_index r, rs_score r)) results) = mset (indexed_scores scores) \<and>
    sorted_wrt (\<lambda>a b. total_key (rs_score b) \<le> total_key (rs_score a)) results \<and>
    sorted_wrt (\<lambda>a b. \<not> f32_is_nan (rs_score a) \<and> \<not> f32_is_nan (rs_score b) \<longrightarrow> f32_ge (rs_score a) (rs_score b)) results \<and>
    (\<forall>s. sorted_wrt (\<lambda>a b. rs_index a < rs_index b) (filter (\<lambda>r. rs_score r = s) results))"
proof -
  from rerank_Ok [OF assms] obtain scores f where
    s: "fst (in_batches (score_batch om query) documents n e) = Ok scores"
    and r: "results = sort_results (map f (indexed_scores scores))"
    and f: "\<forall>x. rs_index (f x) = fst x \<and> rs_score (f x) = snd x" by blast
  have "mset results = mset (map f (indexed_scores scores))" by (simp add: r sort_results_def)
  then have "mset (map (\<lambda>r. (rs_index r, rs_score r)) results) = mset (map (\<lambda>x. (fst x, snd x)) (indexed_scores scores))"
    using f by (metis (no_types, lifting) mset_map multiset.map_comp map_eq_conv comp_apply multiset.map_cong0)
  then have "mset (map (\<lambda>r. (rs_index r, rs_score r)) results) = mset (indexed_scores scores)" by simp
  moreover have "sorted (map (\<lambda>r. - total_key (rs_score r)) results)" by (simp add: r sort_results_def)
  then have k: "sorted_wrt (\<lambda>a b. total_key (rs_score b) \<le> total_key (rs_score a)) results"
    by (simp add: sorted_wrt_map)
  moreover have "sorted_wrt (\<lambda>a b. \<not> f32_is_nan (rs_score a) \<and> \<not> f32_is_nan (rs_score b) \<longrightarrow>
      f32_ge (rs_score a) (rs_score b)) results"
    by (rule sorted_wrt_mono_rel [OF _ k]) (auto intro: total_key_ge)
  moreover have "sorted_wrt (\<lambda>a b. rs_index a < rs_index b) (filter (\<lambda>r. rs_score r = v) results)" for v
  proof -
    have eq: "filter (\<lambda>r. rs_score r = v) xs = filter (\<lambda>r. - total_key (rs_score r) = - total_key v) xs" for xs
      by (rule filter_cong) (auto dest: total_key_inject)
    have "filter (\<lambda>r. rs_score r = v) results = filter (\<lambda>r. rs_score r = v) (map f (indexed_scores scores))"
      unfolding r sort_results_def eq by (rule sort_key_stable)
    moreover have "\<forall>x. rs_index (f x) = fst x" using f by blast
    then have "sorted_wrt (\<lambda>a b. rs_index a < rs_index b) (filter P (map f (indexed_scores scores)))" for P
      by (rule sorted_filter_index)
    ultimately show ?thesis by simp
  qed
  ultimately show ?thesis using s by blast
qed

section \<open>A score for its own document\<close>

text \<open>The session's answer: one row of logits per pair, its first column the logit of that pair alone.\<close>

definition answers_logits ::
  "(string \<times> string, 'r) onnx_model \<Rightarrow> (string \<Rightarrow> string \<Rightarrow> f32) \<Rightarrow> bool" where
  "answers_logits om logit \<longleftrightarrow>
     (\<forall>batch encodings ids attn types inputs e outs shape data.
        om_encode om batch = Inr encodings \<and> input_arrays om (length batch) encodings = Ok (ids, attn, types) \<and>
        make_inputs om ids attn types = Ok inputs \<and> fst (om_run om inputs e) = Ok outs \<and>
        map_of outs ''logits'' = Some (F32_Tensor shape data) \<longrightarrow>
        hd shape = length batch \<and>
        (\<forall>r<length batch. \<forall>w. shape = [length batch, w] \<longrightarrow> nth_opt data (r * w) = Some (logit (fst (batch ! r)) (snd (batch ! r)))))"

lemma score_batch_rowwise:
  assumes "answers_logits om logit" and "fst (score_batch om query batch e) = Ok scores"
  shows "scores = map (logit query) batch"
proof -
  let ?pairs = "map (\<lambda>d. (query, d)) batch"
  obtain r e' where f: "forward_pass om ''Failed to encode batch'' ?pairs e = (r, e')" by (metis prod.exhaust)
  with assms(2) obtain ids attn outs where r: "r = Ok (ids, attn, outs)" and l: "logits_of om outs = Ok scores"
    by (auto simp: score_batch_def bind_outcome_eq_Ok)
  from forward_pass_Ok [OF f [unfolded r]] obtain encodings types inputs where
    enc: "om_encode om ?pairs = Inr encodings" "input_arrays om (length ?pairs) encodings = Ok (ids, attn, types)"
      "make_inputs om ids attn types = Ok inputs" "fst (om_run om inputs e) = Ok outs" by (metis fst_conv)
  from l obtain shape data n w where t: "map_of outs ''logits'' = Some (F32_Tensor shape data)" "shape = [n, w]"
    and c: "collect_options (map (\<lambda>r. nth_opt data (r * w)) [0 ..< n]) = Some scores"
    by (auto simp: logits_of_def first_column_def split: option.splits ort_value.splits list.splits if_splits)
  have "hd shape = length ?pairs \<and> (\<forall>r<length ?pairs. \<forall>w. shape = [length ?pairs, w] \<longrightarrow>
      nth_opt data (r * w) = Some (logit (fst (?pairs ! r)) (snd (?pairs ! r))))"
    using assms(1) enc t(1) unfolding answers_logits_def by blast
  then have n: "n = length batch" and "\<forall>r<length batch. nth_opt data (r * w) = Some (logit query (batch ! r))"
    using t(2) by auto
  then have "collect_options (map (\<lambda>r. nth_opt data (r * w)) [0 ..< n]) = Some (map (\<lambda>r. logit query (batch ! r)) [0 ..< n])"
    by (intro collect_options_map) simp
  with c have "scores = map (\<lambda>r. logit query (batch ! r)) [0 ..< n]" by simp
  also have "\<dots> = map (logit query) (map ((!) batch) [0 ..< length batch])" by (simp add: n)
  finally show ?thesis by (simp only: map_nth)
qed

lemma cross_encode_Ok:
  assumes "fst (cross_encode om query documents n e) = Ok results"
  shows "\<exists>scores. fst (in_batches (score_batch om query) documents n e) = Ok scores \<and>
    mset results = mset (indexed_scores scores)"
proof -
  obtain r e' where c: "rerank om query documents False n e = (r, e')" by (metis prod.exhaust)
  with assms obtain rs where r: "r = Ok rs" and m: "results = map (\<lambda>x. (rs_index x, rs_score x)) rs"
    by (auto simp: cross_encode_def)
  from c r have "fst (rerank om query documents False n e) = Ok rs" by simp
  from rerank_Ok [OF this] obtain scores f where
    s: "fst (in_batches (score_batch om query) documents n e) = Ok scores"
    and rs: "rs = sort_results (map f (indexed_scores scores))"
    and f: "\<forall>x. rs_index (f x) = fst x \<and> rs_score (f x) = snd x" by blast
  have "mset results = image_mset (\<lambda>x. (rs_index (f x), rs_score (f x))) (mset (indexed_scores scores))"
    by (simp add: m rs sort_results_def multiset.map_comp comp_def)
  moreover have "(\<lambda>x. (rs_index (f x), rs_score (f x))) = (\<lambda>x. x)" using f by (intro ext) (metis prod.collapse)
  ultimately show ?thesis using s by simp
qed

lemma cross_encode_independent:
  assumes "answers_logits om logit" and "rr_call rq = cross_encode om"
  shows "scores_independently rq logit"
  unfolding scores_independently_def
proof (intro allI impI)
  fix query ds n e results
  assume "fst (rr_call rq query ds n e) = Ok results"
  from cross_encode_Ok [OF this [unfolded assms(2)]] obtain scores where
    s: "fst (in_batches (score_batch om query) ds n e) = Ok scores" and m: "mset results = mset (indexed_scores scores)"
    by blast
  from s have n: "0 < n" and r: "fst (run_batches (score_batch om query) (chunks n ds) e) = Ok scores"
    by (auto simp: in_batches_def split: if_splits)
  have "scores = map (logit query) (concat (chunks n ds))"
    by (rule run_batches_rowwise [OF score_batch_rowwise [OF assms(1)] r])
  with m n show "mset results = mset (zip [0 ..< length ds] (map (logit query) ds))"
    by (simp add: indexed_scores_def concat_chunks)
qed

text \<open>
  C4: A rerank answers for the documents that were sent. With the reranking engine over a session that returns one row
  of logits per pair, every answer holds, for the caller's documents and in their order, the sigmoid of the logit of
  that document with the query, whatever the batch size, the sort, and the rulers of a pinned batch.
\<close>

theorem rerank_service_scores_each_document:
  fixes st :: "('e, 'r, 't) app_state"
  assumes "rerank_blocking rq views query documents hint bt request_id st = Some (Ok resp, st')"
    and "rr_call rq = cross_encode om" and "answers_logits om logit"
  shows "rk_scores resp = map (\<lambda>d. sigmoid (rr_expf rq) (logit query d)) documents"
  using rerank_blocking_aligned [OF assms(1) cross_encode_independent [OF assms(3,2)]] by (simp add: comp_def)

text \<open>
  C38: A short batch of logits moves the scores of the documents behind it. When the session returns fewer rows than the
  first batch has documents and the second batch whatever it likes, the rerank succeeds, and the first document
  without a score of its own, which is in the first batch, is answered with the score of the first document of the
  second one.
\<close>

theorem short_logits_move_scores:
  assumes "chunks n documents = [first, second]" and "score_batch om query first e = (Ok xs, e1)"
    and "score_batch om query second e1 = (Ok ys, e2)" and "length xs < length first" and "ys \<noteq> []"
    and "rr_call rq = cross_encode om"
  shows "\<exists>scores pass. score_documents rq cfg query documents n (Some e) = (Ok (scores, pass), Some e2) \<and>
    length scores = length documents \<and> documents ! length xs = first ! length xs \<and>
    scores ! length xs = sigmoid (rr_expf rq) (ys ! 0)"
proof -
  have n: "0 < n" using assms(1) by (cases "n = 0") (auto simp: chunks.simps)
  then have "concat (chunks n documents) = documents" by (rule concat_chunks)
  then have d: "documents = first @ second" using assms(1) by simp
  have b: "in_batches (score_batch om query) documents n e = (Ok (xs @ ys), e2)"
    using n assms(1-3) by (simp add: in_batches_def)
  have "\<exists>results. cross_encode om query documents n e = (Ok results, e2)"
    by (simp add: cross_encode_def rerank_def b)
  then obtain results where c: "cross_encode om query documents n e = (Ok results, e2)" by blast
  from cross_encode_Ok [of om query documents n e results] c b have m: "mset results = mset (indexed_scores (xs @ ys))"
    by simp
  then have "mset (map fst results) = mset (map fst (indexed_scores (xs @ ys)))" by (metis mset_map)
  then have dist: "distinct (map fst results)"
    by (metis distinct_upt indexed_scores_props(2) mset_eq_imp_distinct_iff)
  have "(length xs, ys ! 0) \<in> set (indexed_scores (xs @ ys))"
    using assms(5) by (simp add: indexed_scores_props(3) nth_append)
  then have mem: "(length xs, ys ! 0) \<in> set results" using m by (metis mset_eq_setD)
  define scores where "scores = aligned_scores (rr_expf rq) (length documents) results"
  have "scores ! length xs = sigmoid (rr_expf rq) (ys ! 0)"
    using fold_scores_nth [OF dist mem, of "length documents" "replicate (length documents) 0"] assms(4) d
    by (simp add: scores_def aligned_scores_def)
  moreover have "length scores = length documents" by (simp add: scores_def aligned_scores_def length_fold_scores)
  moreover have "\<exists>pass. score_documents rq cfg query documents n (Some e) = (Ok (scores, pass), Some e2)"
    by (simp add: score_documents_def assms(6) c scores_def Let_def)
  ultimately show ?thesis using assms(4) d by (auto simp: nth_append)
qed

section \<open>Witnesses\<close>

text \<open>One token per pair; the first \<open>k\<close> runs of the session give one row, later ones a row per pair.\<close>

definition pair_model :: "nat \<Rightarrow> (string \<times> string, nat) onnx_model" where
  "pair_model k = \<lparr>om_encode = (\<lambda>batch. Inr (map (\<lambda>p. \<lparr>enc_ids = [7], enc_mask = [1], enc_types = [0]\<rparr>) batch)),
     om_need_types = True, om_value = (\<lambda>a. None),
     om_run = (\<lambda>inputs e.
       let rows = (if e < k then 1 else ar_rows (snd (hd inputs)))
       in (Ok [(''logits'', F32_Tensor [rows, 1] (replicate rows (if e < k then 0 else f32_one)))], Suc e)),
     om_shape_error = [], om_extract_error = [], om_show_names = concat, om_show_shape = (\<lambda>s. [])\<rparr>"

lemma flat_constant: "f enc = [x] \<Longrightarrow> flat_ids f (map (\<lambda>p. enc) xs) = replicate (length xs) (uint x)"
  by (induction xs) (simp_all add: flat_ids_def)

lemma pair_arrays_ok:
  assumes "batch \<noteq> []"
  shows "\<exists>ids attn types. input_arrays om (length batch)
    (map (\<lambda>p. \<lparr>enc_ids = [7], enc_mask = [1], enc_types = [0]\<rparr>) batch) = Ok (ids, attn, types)"
proof -
  obtain b bs where b: "batch = b # bs" using assms by (cases batch) auto
  let ?encs = "map (\<lambda>p. \<lparr>enc_ids = [7], enc_mask = [1], enc_types = [0]\<rparr>) batch"
  have "flat_ids enc_ids ?encs = replicate (length batch) (uint (7 :: 32 word))"
    "flat_ids enc_mask ?encs = replicate (length batch) (uint (1 :: 32 word))"
    "flat_ids enc_types ?encs = replicate (length batch) (uint (0 :: 32 word))"
    by (simp_all only: flat_constant encoding.simps)
  then show ?thesis by (simp add: input_arrays_def from_shape_vec_def b del: uint_numeral)
qed

lemma pair_arrays:
  "input_arrays om (length batch) (map (\<lambda>p. \<lparr>enc_ids = [7], enc_mask = [1], enc_types = [0]\<rparr>) batch) = Ok (ids, attn, types) \<Longrightarrow>
     ar_rows ids = length batch"
  by (auto simp: input_arrays_def from_shape_vec_def Let_def split: list.splits if_splits)

lemma pair_inputs: "make_inputs (pair_model k) ids attn types = Ok inputs \<Longrightarrow> snd (hd inputs) = ids"
  by (auto simp: make_inputs_def as_value_def pair_model_def)

lemma pair_rowwise: "answers_logits (pair_model 0) (\<lambda>q d. f32_one)"
  unfolding answers_logits_def
proof (intro allI impI)
  fix batch encodings ids attn types inputs e outs shape data
  assume a: "om_encode (pair_model 0) batch = Inr encodings \<and>
    input_arrays (pair_model 0) (length batch) encodings = Ok (ids, attn, types) \<and>
    make_inputs (pair_model 0) ids attn types = Ok inputs \<and> fst (om_run (pair_model 0) inputs e) = Ok outs \<and>
    map_of outs ''logits'' = Some (F32_Tensor shape data)"
  then have e: "encodings = map (\<lambda>p. \<lparr>enc_ids = [7], enc_mask = [1], enc_types = [0]\<rparr>) batch"
    by (simp add: pair_model_def)
  have "ar_rows ids = length batch" using a pair_arrays unfolding e by blast
  moreover have "snd (hd inputs) = ids" using a pair_inputs by blast
  ultimately show "hd shape = length batch \<and> (\<forall>r<length batch. \<forall>w. shape = [length batch, w] \<longrightarrow>
      nth_opt data (r * w) = Some f32_one)"
    using a by (auto simp: pair_model_def Let_def nth_opt_lt)
qed

lemma pair_batch:
  assumes "batch \<noteq> []"
  shows "score_batch (pair_model k) q batch e =
    (Ok (if e < k then [0] else replicate (length batch) f32_one), Suc e)"
proof -
  let ?enc = "map (\<lambda>p. \<lparr>enc_ids = [7], enc_mask = [1], enc_types = [0]\<rparr>) (map (\<lambda>d. (q, d)) batch)"
  obtain ids attn types where i: "input_arrays (pair_model k) (length (map (\<lambda>d. (q, d)) batch)) ?enc = Ok (ids, attn, types)"
    using pair_arrays_ok [of "map (\<lambda>d. (q, d)) batch" "pair_model k"] assms by auto
  then have rows: "ar_rows ids = length batch" using pair_arrays by fastforce
  obtain inputs where m: "make_inputs (pair_model k) ids attn types = Ok inputs"
    by (simp add: make_inputs_def as_value_def pair_model_def)
  have r: "om_run (pair_model k) inputs e = (Ok [(''logits'', F32_Tensor [if e < k then 1 else length batch, 1]
      (replicate (if e < k then 1 else length batch) (if e < k then 0 else f32_one)))], Suc e)"
    using pair_inputs [OF m] rows by (simp add: pair_model_def Let_def)
  have "collect_options (map (\<lambda>r. nth_opt (replicate n x) r) [0 ..< n]) = Some (replicate n x)" for n and x :: f32
    using collect_options_map [of "[0 ..< n]" "\<lambda>r. nth_opt (replicate n x) r" "\<lambda>r. x"]
    by (simp add: nth_opt_lt map_replicate_const)
  then have "first_column [n, 1] (replicate n x) = Some (replicate n x)" for n and x :: f32
    by (simp add: first_column_def)
  then have l: "logits_of (pair_model k) [(''logits'', F32_Tensor [n, 1] (replicate n x))] = Ok (replicate n x)" for n x
    by (simp add: logits_of_def)
  have "om_encode (pair_model k) (map (\<lambda>d. (q, d)) batch) = Inr ?enc" by (simp add: pair_model_def)
  then have "forward_pass (pair_model k) ''Failed to encode batch'' (map (\<lambda>d. (q, d)) batch) e =
      (Ok (ids, attn, [(''logits'', F32_Tensor [if e < k then 1 else length batch, 1]
        (replicate (if e < k then 1 else length batch) (if e < k then 0 else f32_one)))]), Suc e)"
    unfolding forward_pass_def by (simp add: i [simplified] m r)
  then show ?thesis unfolding score_batch_def by (simp add: l [simplified])
qed

lemma pair_chunks: "chunks 2 [a, b, c, d] = [[a, b], [c, d]]"
  by (simp add: chunks.simps [of 2 "[a, b, c, d]"] chunks.simps [of 2 "[c, d]"] chunks.simps [of 2 "[]"])

lemma short_logits_move_scores_witness:
  "\<exists>scores pass. score_documents (length_reranker\<lparr>rr_call := cross_encode (pair_model 1)\<rparr>) (config_from_env Map.empty) ''q''
     [''a'', ''b'', ''c'', ''d''] 2 (Some 0) = (Ok (scores, pass), Some 2) \<and> scores ! 1 = sigmoid (\<lambda>x. x) f32_one"
proof -
  have "score_batch (pair_model 1) ''q'' [''a'', ''b''] 0 = (Ok [0], 1)"
    "score_batch (pair_model 1) ''q'' [''c'', ''d''] 1 = (Ok [f32_one, f32_one], 2)"
    by (simp_all add: pair_batch numeral_2_eq_2)
  from short_logits_move_scores [OF pair_chunks this, of "length_reranker\<lparr>rr_call := cross_encode (pair_model 1)\<rparr>" "config_from_env Map.empty"]
  show ?thesis by (auto simp: length_reranker_def)
qed

lemma rerank_results_ordered_witness:
  "\<exists>results. fst (rerank (pair_model 0) ''q'' [''a'', ''b'', ''c'', ''d''] True 2 0) = Ok results \<and>
     sorted_wrt (\<lambda>a b. total_key (rs_score b) \<le> total_key (rs_score a)) results"
proof -
  have "\<exists>results. fst (rerank (pair_model 0) ''q'' [''a'', ''b'', ''c'', ''d''] True 2 0) = Ok results"
    by (simp add: rerank_def in_batches_def pair_chunks pair_batch)
  then obtain results where r: "fst (rerank (pair_model 0) ''q'' [''a'', ''b'', ''c'', ''d''] True 2 0) = Ok results" by blast
  from rerank_results_ordered [OF r] r show ?thesis by blast
qed

lemma rerank_service_scores_each_document_witness:
  "\<exists>resp st'. rerank_blocking (length_reranker\<lparr>rr_call := cross_encode (pair_model 0)\<rparr>) [free_slot (Some 1)] ''q'' [''a'']
      [] 1 ''r2'' (plain_state []) = Some (Ok resp, st') \<and> rk_scores resp = [sigmoid (\<lambda>x. x) f32_one]"
proof -
  have "chunks (Suc 0) [x] = [[x]]" for x :: string
    by (subst chunks.simps) (simp add: chunks.simps [of "Suc 0" "[]"])
  then have "\<exists>results. cross_encode (pair_model 0) q [''a''] (Suc 0) e = (Ok results, Suc e)" for q e
    by (simp add: cross_encode_def rerank_def in_batches_def pair_batch)
  then obtain g where g: "\<And>q e. cross_encode (pair_model 0) q [''a''] (Suc 0) e = (Ok (g q e), Suc e)" by metis
  have "\<exists>resp st'. rerank_blocking (length_reranker\<lparr>rr_call := cross_encode (pair_model 0)\<rparr>) [free_slot (Some 1)] ''q'' [''a'']
      [] 1 ''r2'' (plain_state []) = Some (Ok resp, st')"
    by (simp add: rerank_blocking_def mutex_simps Let_def rerank_engine_ready_def score_request_def score_documents_def
        length_reranker_def g split: prod.split)
  then obtain resp st' where b: "rerank_blocking (length_reranker\<lparr>rr_call := cross_encode (pair_model 0)\<rparr>)
      [free_slot (Some 1)] ''q'' [''a''] [] 1 ''r2'' (plain_state []) = Some (Ok resp, st')" by blast
  from rerank_service_scores_each_document [OF b _ pair_rowwise] b show ?thesis by (auto simp: length_reranker_def)
qed

end
