(* ===== verification/Engine_Setup.thy ===== *)
theory Engine_Setup
  imports Provider
begin

text \<open>
  How the vendored \<open>fastembed\<close> makes an engine (\<open>vendor-fastembed/src/common.rs\<close>, \<open>bgem3_dual/mod.rs\<close> and
  \<open>reranking/impl.rs\<close>): where the model files come from, how the tokenizer is put together from its four files, the
  settings of the session, and the two constructors that the sidecar calls. The hub client, the tokenizer and the
  session builder are libraries; their calls are parameters.
\<close>

section \<open>JSON, and its numbers\<close>

text \<open>
  A number of \<open>serde_json\<close>: an unsigned or a negative integer, or the bits of an \<open>f64\<close>. An object is the list of its
  members, each name once, in the order the parser's map gives them.
\<close>

datatype json_number = Pos_Int nat | Neg_Int nat | Float "64 word"

datatype json =
    Json_Null
  | Json_Bool bool
  | Json_Number json_number
  | Json_String string
  | Json_Array "json list"
  | Json_Object "(string \<times> json) list"

text \<open>Indexing with a name gives null where there is nothing.\<close>

definition json_at :: "json \<Rightarrow> string \<Rightarrow> json" where
  "json_at v key =
     (case v of
        Json_Object members \<Rightarrow> (case map_of members key of None \<Rightarrow> Json_Null | Some x \<Rightarrow> x)
      | _ \<Rightarrow> Json_Null)"

definition as_str :: "json \<Rightarrow> string option" where
  "as_str v = (case v of Json_String s \<Rightarrow> Some s | _ \<Rightarrow> None)"

definition as_bool :: "json \<Rightarrow> bool option" where
  "as_bool v = (case v of Json_Bool b \<Rightarrow> Some b | _ \<Rightarrow> None)"

definition as_u64 :: "json \<Rightarrow> nat option" where
  "as_u64 v = (case v of Json_Number (Pos_Int n) \<Rightarrow> Some n | _ \<Rightarrow> None)"

text \<open>The value of an \<open>f64\<close>, and an integer rounded to one (53 bits, ties to even).\<close>

definition f64_decode :: "64 word \<Rightarrow> f32_num" where
  "f64_decode x =
     (let n = unat x; s = (2 ^ 63 \<le> n); ex = (n div 2 ^ 52) mod 2048; fr = n mod 2 ^ 52
      in if ex = 2047 then (if fr = 0 then Inf s else Nan)
         else if ex = 0 then Fin s fr (-1074)
         else Fin s (fr + 2 ^ 52) (int ex - 1075))"

definition nat_as_f64 :: "bool \<Rightarrow> nat \<Rightarrow> f32_num" where
  "nat_as_f64 s n =
     (let k = bit_len n - 53 in if k = 0 then Fin s n 0 else Fin s (round_shift n k) (int k))"

definition as_f64 :: "json \<Rightarrow> f32_num option" where
  "as_f64 v =
     (case v of
        Json_Number (Pos_Int n) \<Rightarrow> Some (nat_as_f64 False n)
      | Json_Number (Neg_Int n) \<Rightarrow> Some (nat_as_f64 True n)
      | Json_Number (Float x) \<Rightarrow> Some (f64_decode x)
      | _ \<Rightarrow> None)"

text \<open>\<open>as f32\<close> rounds; \<open>as usize\<close> truncates and saturates, a NaN is zero.\<close>

definition f64_as_f32 :: "f32_num \<Rightarrow> f32" where
  "f64_as_f32 x =
     (case x of Nan \<Rightarrow> f32_nan | Inf s \<Rightarrow> f32_pack s (255 * 2 ^ 23) | Fin s m e \<Rightarrow> f32_round s m e)"

definition f32_as_usize :: "f32 \<Rightarrow> nat" where
  "f32_as_usize x =
     (case f32_decode x of
        Nan \<Rightarrow> 0
      | Inf s \<Rightarrow> if s then 0 else 2 ^ 64 - 1
      | Fin s m e \<Rightarrow>
          if s then 0
          else min (if 0 \<le> e then m * 2 ^ nat e else m div 2 ^ nat (- e)) (2 ^ 64 - 1))"

section \<open>The tokenizer\<close>

record tokenizer_files =
  tf_tokenizer :: string
  tf_config :: string
  tf_special_tokens :: string
  tf_tokenizer_config :: string

record added_token =
  at_content :: string
  at_single_word :: bool
  at_lstrip :: bool
  at_rstrip :: bool
  at_normalized :: bool
  at_special :: bool

record 't tokenizer_lib =
  tl_json :: "string \<Rightarrow> json option"
  tl_from_bytes :: "string \<Rightarrow> 't option"
  tl_pad :: "string \<Rightarrow> 32 word \<Rightarrow> 't \<Rightarrow> 't"
  tl_truncate :: "nat \<Rightarrow> 't \<Rightarrow> string + 't"
  tl_add_special :: "added_token \<Rightarrow> 't \<Rightarrow> 't"
  tl_token_default :: added_token

definition could_not_read :: "string \<Rightarrow> app_error" where
  "could_not_read file = Lib_Error (''Error building TokenizerFiles for UserDefinedEmbeddingModel. Could not read ''
     @ file @ '' file.'')"

definition read_part :: "string \<Rightarrow> 'a option \<Rightarrow> (app_error, 'a) outcome" where
  "read_part file v = (case v of None \<Rightarrow> Err (could_not_read file) | Some x \<Rightarrow> Ok x)"

definition require_field :: "string \<Rightarrow> 'a option \<Rightarrow> (app_error, 'a) outcome" where
  "require_field what v =
     (case v of
        None \<Rightarrow> Err (Message (''tokenizer_config.json is missing a '' @ what @ '' field''))
      | Some x \<Rightarrow> Ok x)"

text \<open>The cap on the length: the request, or the model's own length if that is smaller.\<close>

definition truncation_cap :: "nat \<Rightarrow> f32_num \<Rightarrow> nat" where
  "truncation_cap requested model_max_length = min requested (f32_as_usize (f64_as_f32 model_max_length))"

definition special_token :: "'t tokenizer_lib \<Rightarrow> json \<Rightarrow> added_token option" where
  "special_token lib v =
     (case v of
        Json_String s \<Rightarrow> Some ((tl_token_default lib)\<lparr>at_content := s, at_special := True\<rparr>)
      | Json_Object members \<Rightarrow>
          (case (as_str (json_at v ''content''), as_bool (json_at v ''single_word''), as_bool (json_at v ''lstrip''),
                 as_bool (json_at v ''rstrip''), as_bool (json_at v ''normalized'')) of
             (Some content, Some single_word, Some lstrip, Some rstrip, Some normalized) \<Rightarrow>
               Some \<lparr>at_content = content, at_single_word = single_word, at_lstrip = lstrip, at_rstrip = rstrip,
                 at_normalized = normalized, at_special = True\<rparr>
           | _ \<Rightarrow> None)
      | _ \<Rightarrow> None)"

definition add_special_tokens :: "'t tokenizer_lib \<Rightarrow> json \<Rightarrow> 't \<Rightarrow> 't" where
  "add_special_tokens lib special_map t =
     (case special_map of
        Json_Object members \<Rightarrow>
          fold (\<lambda>(k, v) acc. case special_token lib v of None \<Rightarrow> acc | Some token \<Rightarrow> tl_add_special lib token acc) members t
      | _ \<Rightarrow> t)"

definition load_tokenizer :: "'t tokenizer_lib \<Rightarrow> tokenizer_files \<Rightarrow> nat \<Rightarrow> (app_error, 't) outcome" where
  "load_tokenizer lib files requested =
     bind_outcome (read_part ''config.json'' (tl_json lib (tf_config files))) (\<lambda>config.
     bind_outcome (read_part ''special_tokens_map.json'' (tl_json lib (tf_special_tokens files))) (\<lambda>special_map.
     bind_outcome (read_part ''tokenizer_config.json'' (tl_json lib (tf_tokenizer_config files))) (\<lambda>tokenizer_config.
     bind_outcome (read_part ''tokenizer.json'' (tl_from_bytes lib (tf_tokenizer files))) (\<lambda>tokenizer.
     bind_outcome (require_field ''numeric `model_max_length`'' (as_f64 (json_at tokenizer_config ''model_max_length'')))
       (\<lambda>model_max_length.
     bind_outcome (require_field ''string `pad_token`'' (as_str (json_at tokenizer_config ''pad_token''))) (\<lambda>pad_token.
       let pad_id = (case as_u64 (json_at config ''pad_token_id'') of None \<Rightarrow> 0 | Some n \<Rightarrow> of_nat n)
       in case tl_truncate lib (truncation_cap requested model_max_length) (tl_pad lib pad_token pad_id tokenizer) of
            Inl e \<Rightarrow> Err (Message e)
          | Inr t \<Rightarrow> Ok (add_special_tokens lib special_map t)))))))"

section \<open>The session\<close>

datatype builder_step =
    Execution_Providers "ep_dispatch list"
  | Optimization_Level3
  | Intra_Threads nat
  | Memory_Pattern bool
  | Parallel_Execution bool

definition session_steps :: "bool \<Rightarrow> ep_dispatch list \<Rightarrow> nat \<Rightarrow> builder_step list" where
  "session_steps directml providers threads =
     [Execution_Providers providers, Optimization_Level3, Intra_Threads threads] @
     (if directml \<and> (\<exists>p\<in>set providers. ep_kind p = Dml_Ep)
      then [Memory_Pattern False, Parallel_Execution False] else [])"

fun apply_steps :: "(builder_step \<Rightarrow> 'b \<Rightarrow> string + 'b) \<Rightarrow> builder_step list \<Rightarrow> 'b \<Rightarrow> (app_error, 'b) outcome" where
  "apply_steps apply_step [] b = Ok b"
| "apply_steps apply_step (s # ss) b =
     (case apply_step s b of Inl e \<Rightarrow> Err (Message e) | Inr b' \<Rightarrow> apply_steps apply_step ss b')"

text \<open>\<open>directml\<close> is the build feature; \<open>cores\<close> what \<open>available_parallelism\<close> answers.\<close>

definition init_session_builder ::
  "bool \<Rightarrow> string + nat \<Rightarrow> string + 'b \<Rightarrow> (builder_step \<Rightarrow> 'b \<Rightarrow> string + 'b) \<Rightarrow>
     ep_dispatch list \<Rightarrow> nat option \<Rightarrow> (app_error, 'b) outcome" where
  "init_session_builder directml cores new_builder apply_step providers wanted_threads =
     (case (case wanted_threads of Some n \<Rightarrow> Inr n | None \<Rightarrow> cores) of
        Inl e \<Rightarrow> Err (Lib_Error e)
      | Inr threads \<Rightarrow>
          (case new_builder of
             Inl e \<Rightarrow> Err (Lib_Error e)
           | Inr b \<Rightarrow> apply_steps apply_step (session_steps directml providers threads) b))"

section \<open>The model files and the constructors\<close>

text \<open>
  The hub: \<open>hb_open\<close> makes a repository from a cache directory, an endpoint and a name, \<open>hb_get\<close> fetches a file and
  gives its path, \<open>hb_read\<close> reads one.
\<close>

record ('repo, 'b, 's, 't) setup_env =
  hb_open :: "string \<Rightarrow> string \<Rightarrow> bool \<Rightarrow> string \<Rightarrow> string + 'repo"
  hb_get :: "'repo \<Rightarrow> string \<Rightarrow> string + string"
  hb_read :: "string \<Rightarrow> string + string"
  su_environment :: environment
  su_directml :: bool
  su_cores :: "string + nat"
  su_builder :: "string + 'b"
  su_step :: "builder_step \<Rightarrow> 'b \<Rightarrow> string + 'b"
  su_commit :: "string \<Rightarrow> 'b \<Rightarrow> string + 's"
  su_inputs :: "'s \<Rightarrow> string list"
  su_tokenizers :: "'t tokenizer_lib"

definition lib_result :: "string + 'a \<Rightarrow> (app_error, 'a) outcome" where
  "lib_result r = (case r of Inl e \<Rightarrow> Err (Lib_Error e) | Inr x \<Rightarrow> Ok x)"

definition with_context :: "string \<Rightarrow> string + 'a \<Rightarrow> (app_error, 'a) outcome" where
  "with_context c r = (case r of Inl e \<Rightarrow> Err (Context c (Lib_Error e)) | Inr x \<Rightarrow> Ok x)"

definition pull_from_hf ::
  "('repo, 'b, 's, 't) setup_env \<Rightarrow> string \<Rightarrow> string \<Rightarrow> bool \<Rightarrow> (app_error, 'repo) outcome" where
  "pull_from_hf su name default_dir progress =
     lib_result (hb_open su
       (case su_environment su ''HF_HOME'' of None \<Rightarrow> default_dir | Some dir \<Rightarrow> dir)
       (case su_environment su ''HF_ENDPOINT'' of None \<Rightarrow> ''https://huggingface.co'' | Some url \<Rightarrow> url)
       progress name)"

fun fetch_all ::
  "('repo, 'b, 's, 't) setup_env \<Rightarrow> (string \<Rightarrow> string) \<Rightarrow> 'repo \<Rightarrow> string list \<Rightarrow> (app_error, unit) outcome" where
  "fetch_all su context repo [] = Ok ()"
| "fetch_all su context repo (file # rest) =
     bind_outcome (with_context (context file) (hb_get su repo file)) (\<lambda>path. fetch_all su context repo rest)"

definition read_hub_file :: "('repo, 'b, 's, 't) setup_env \<Rightarrow> 'repo \<Rightarrow> string \<Rightarrow> (app_error, string) outcome" where
  "read_hub_file su repo file = bind_outcome (lib_result (hb_get su repo file)) (\<lambda>path. lib_result (hb_read su path))"

definition load_tokenizer_hf_hub ::
  "('repo, 'b, 's, 't) setup_env \<Rightarrow> 'repo \<Rightarrow> nat \<Rightarrow> (app_error, 't) outcome" where
  "load_tokenizer_hf_hub su repo requested =
     bind_outcome (read_hub_file su repo ''tokenizer.json'') (\<lambda>a.
     bind_outcome (read_hub_file su repo ''config.json'') (\<lambda>b.
     bind_outcome (read_hub_file su repo ''special_tokens_map.json'') (\<lambda>c.
     bind_outcome (read_hub_file su repo ''tokenizer_config.json'') (\<lambda>d.
       load_tokenizer (su_tokenizers su)
         \<lparr>tf_tokenizer = a, tf_config = b, tf_special_tokens = c, tf_tokenizer_config = d\<rparr> requested))))"

record model_info =
  mi_code :: string
  mi_file :: string
  mi_additional :: "string list"

definition bgem3_info :: model_info where
  "bgem3_info = \<lparr>mi_code = ''BAAI/bge-m3'', mi_file = ''onnx/model.onnx'',
     mi_additional = [''onnx/model.onnx_data'', ''onnx/Constant_7_attr__value'']\<rparr>"

definition reranker_info :: model_info where
  "reranker_info = \<lparr>mi_code = ''perlets/bge-reranker-v2-m3'', mi_file = ''onnx/model.onnx'',
     mi_additional = [''onnx/model.onnx_data'']\<rparr>"

datatype reranker_model =
  BGERerankerBase | BGERerankerV2M3 | JINARerankerV1TurboEn | JINARerankerV2BaseMultiligual

definition reranker_model_list :: "(reranker_model \<times> model_info) list" where
  "reranker_model_list =
     [(BGERerankerBase, \<lparr>mi_code = ''BAAI/bge-reranker-base'', mi_file = ''onnx/model.onnx'', mi_additional = []\<rparr>),
      (BGERerankerV2M3, reranker_info),
      (JINARerankerV1TurboEn,
        \<lparr>mi_code = ''jinaai/jina-reranker-v1-turbo-en'', mi_file = ''onnx/model.onnx'', mi_additional = []\<rparr>),
      (JINARerankerV2BaseMultiligual,
        \<lparr>mi_code = ''jinaai/jina-reranker-v2-base-multilingual'', mi_file = ''onnx/model.onnx'', mi_additional = []\<rparr>)]"

text \<open>\<open>get_model_info\<close> panics, and \<open>fmt\<close> fails, for a model that is not listed.\<close>

definition reranker_model_info :: "reranker_model \<Rightarrow> (unit, model_info) outcome" where
  "reranker_model_info m = (case map_of reranker_model_list m of None \<Rightarrow> Panic | Some info \<Rightarrow> Ok info)"

definition reranker_name :: "reranker_model \<Rightarrow> string option" where
  "reranker_name m = map_option mi_code (map_of reranker_model_list m)"

definition reranker_from_str :: "string \<Rightarrow> string + reranker_model" where
  "reranker_from_str s =
     (case List.find (\<lambda>(m, info). lowercase (mi_code info) = lowercase s) reranker_model_list of
        None \<Rightarrow> Inl (''Unknown reranker model: '' @ s)
      | Some (m, info) \<Rightarrow> Inr m)"

record ('s, 't) engine_parts =
  ep_tokenizer :: 't
  ep_session :: 's
  ep_need_types :: bool

text \<open>What the two constructors have in common; \<open>progress\<close> and the texts of the contexts are their own.\<close>

definition make_engine ::
  "('repo, 'b, 's, 't) setup_env \<Rightarrow> model_info \<Rightarrow> bool \<Rightarrow> (string \<Rightarrow> string) \<Rightarrow> (string \<Rightarrow> string) \<Rightarrow> session_options \<Rightarrow>
     (app_error, ('s, 't) engine_parts) outcome" where
  "make_engine su info progress model_context file_context opts =
     bind_outcome (pull_from_hf su (mi_code info) (so_cache_dir opts) progress) (\<lambda>repo.
     bind_outcome (with_context (model_context (mi_file info)) (hb_get su repo (mi_file info))) (\<lambda>model_path.
     bind_outcome (fetch_all su file_context repo (mi_additional info)) (\<lambda>u.
     bind_outcome (init_session_builder (su_directml su) (su_cores su) (su_builder su) (su_step su) (so_providers opts)
       (so_threads opts)) (\<lambda>builder.
     bind_outcome (lib_result (su_commit su model_path builder)) (\<lambda>session.
     bind_outcome (load_tokenizer_hf_hub su repo (so_max_length opts)) (\<lambda>tokenizer.
       Ok \<lparr>ep_tokenizer = tokenizer, ep_session = session,
         ep_need_types = (''token_type_ids'' \<in> set (su_inputs su session))\<rparr>))))))"

definition dual_try_new ::
  "('repo, 'b, 's, 't) setup_env \<Rightarrow> session_options \<Rightarrow> (app_error, ('s, 't) engine_parts) outcome" where
  "dual_try_new su opts =
     make_engine su bgem3_info False (\<lambda>f. ''Failed to retrieve '' @ f) (\<lambda>f. ''Failed to retrieve '' @ f) opts"

definition rerank_try_new ::
  "('repo, 'b, 's, 't) setup_env \<Rightarrow> session_options \<Rightarrow> (app_error, ('s, 't) engine_parts) outcome" where
  "rerank_try_new su opts =
     make_engine su reranker_info True (\<lambda>f. ''Failed to retrieve model file: '' @ f)
       (\<lambda>f. ''Failed to retrieve additional file: '' @ f) opts"

section \<open>The rerankers by name\<close>

text \<open>
  Every reranker is listed, and its name in any case of letters is read back as that reranker and no other; what is
  read from a text has that text for a name, but for the case.
\<close>

theorem reranker_name_roundtrip:
  "reranker_model_info m \<noteq> Panic \<and>
   (\<exists>name. reranker_name m = Some name \<and> (\<forall>s. lowercase s = lowercase name \<longleftrightarrow> reranker_from_str s = Inr m))"
proof -
  note defs = reranker_model_info_def reranker_name_def reranker_from_str_def reranker_model_list_def reranker_info_def
  define codes where "codes = [''baai/bge-reranker-base'', ''perlets/bge-reranker-v2-m3'',
    ''jinaai/jina-reranker-v1-turbo-en'', ''jinaai/jina-reranker-v2-base-multilingual'']"
  have lower: "lowercase ''BAAI/bge-reranker-base'' = codes ! 0" "lowercase ''perlets/bge-reranker-v2-m3'' = codes ! 1"
    "lowercase ''jinaai/jina-reranker-v1-turbo-en'' = codes ! 2"
    "lowercase ''jinaai/jina-reranker-v2-base-multilingual'' = codes ! 3"
    unfolding codes_def by code_simp+
  have "distinct codes" "length codes = 4" unfolding codes_def by code_simp+
  then have "codes ! i = codes ! j \<longleftrightarrow> i = j" if "i < 4" "j < 4" for i j using that by (simp add: nth_eq_iff_index_eq)
  from this [of 0 1] this [of 0 2] this [of 0 3] this [of 1 2] this [of 1 3] this [of 2 3]
  show ?thesis by (cases m) (auto simp: defs lower)
qed

section \<open>What a constructor does\<close>

lemma bind_not_panic: "bind_outcome r f = Panic \<longleftrightarrow> r = Panic \<or> (\<exists>x. r = Ok x \<and> f x = Panic)"
  by (cases r) auto

lemma apply_steps_no_panic: "apply_steps f ss b \<noteq> Panic"
  by (induction ss arbitrary: b) (auto split: sum.splits)

lemma lib_no_panic: "lib_result r \<noteq> Panic" "with_context c r \<noteq> Panic" "read_part f v \<noteq> Panic" "require_field w v \<noteq> Panic"
  by (auto simp: lib_result_def with_context_def read_part_def require_field_def split: sum.splits option.splits)

lemma fetch_all_no_panic: "fetch_all su c repo fs \<noteq> Panic"
  by (induction fs) (auto simp: bind_not_panic lib_no_panic)

lemma load_tokenizer_no_panic: "load_tokenizer lib files n \<noteq> Panic"
  by (auto simp: load_tokenizer_def bind_not_panic lib_no_panic Let_def split: sum.splits)

lemma make_engine_no_panic: "make_engine su info progress c c' opts \<noteq> Panic"
  by (auto simp: make_engine_def bind_not_panic lib_no_panic fetch_all_no_panic apply_steps_no_panic
      pull_from_hf_def init_session_builder_def load_tokenizer_hf_hub_def read_hub_file_def load_tokenizer_no_panic
      split: sum.splits)

text \<open>What every constructed engine went through.\<close>

lemma fetch_all_Ok: "fetch_all su c repo fs = Ok () \<longleftrightarrow> (\<forall>f\<in>set fs. \<exists>path. hb_get su repo f = Inr path)"
  by (induction fs) (auto simp: bind_outcome_eq_Ok with_context_def split: sum.splits)

lemma read_hub_file_Ok: "read_hub_file su repo f = Ok x \<Longrightarrow> \<exists>path. hb_get su repo f = Inr path \<and> hb_read su path = Inr x"
  by (auto simp: read_hub_file_def lib_result_def bind_outcome_eq_Ok split: sum.splits)

lemma result_Ok: "lib_result r = Ok y \<longleftrightarrow> r = Inr y" "with_context c r = Ok y \<longleftrightarrow> r = Inr y"
  by (auto simp: lib_result_def with_context_def split: sum.splits)

lemma part_Ok: "read_part f v = Ok x \<longleftrightarrow> v = Some x" "require_field w v = Ok x \<longleftrightarrow> v = Some x"
  by (auto simp: read_part_def require_field_def split: option.splits)

lemma load_tokenizer_Ok:
  assumes "load_tokenizer lib files requested = Ok t"
  shows "\<exists>v model_max_length t0 t1. tl_json lib (tf_tokenizer_config files) = Some v \<and>
    as_f64 (json_at v ''model_max_length'') = Some model_max_length \<and>
    tl_truncate lib (truncation_cap requested model_max_length) t0 = Inr t1 \<and>
    (\<exists>special_map. tl_json lib (tf_special_tokens files) = Some special_map \<and> t = add_special_tokens lib special_map t1)"
proof -
  from assms obtain config sm v tk l pad where
    parts: "tl_json lib (tf_special_tokens files) = Some sm" "tl_json lib (tf_tokenizer_config files) = Some v"
      "as_f64 (json_at v ''model_max_length'') = Some l"
    and last: "(case tl_truncate lib (truncation_cap requested l)
        (tl_pad lib pad (case as_u64 (json_at config ''pad_token_id'') of None \<Rightarrow> 0 | Some n \<Rightarrow> of_nat n) tk) of
        Inl e \<Rightarrow> Err (Message e) | Inr t \<Rightarrow> Ok (add_special_tokens lib sm t)) = Ok t"
    unfolding load_tokenizer_def bind_outcome_eq_Ok part_Ok Let_def by blast
  from last obtain t0 t1 where "tl_truncate lib (truncation_cap requested l) t0 = Inr t1"
    "t = add_special_tokens lib sm t1"
    by (auto split: sum.splits)
  with parts show ?thesis by blast
qed

lemma make_engine_Ok:
  assumes "make_engine su info progress c c' opts = Ok parts"
  obtains repo path builder session tokenizer where
    "pull_from_hf su (mi_code info) (so_cache_dir opts) progress = Ok repo"
    "hb_get su repo (mi_file info) = Inr path"
    "\<forall>f\<in>set (mi_additional info). \<exists>p. hb_get su repo f = Inr p"
    "init_session_builder (su_directml su) (su_cores su) (su_builder su) (su_step su) (so_providers opts)
      (so_threads opts) = Ok builder"
    "su_commit su path builder = Inr session"
    "load_tokenizer_hf_hub su repo (so_max_length opts) = Ok tokenizer"
    "parts = \<lparr>ep_tokenizer = tokenizer, ep_session = session,
      ep_need_types = (''token_type_ids'' \<in> set (su_inputs su session))\<rparr>"
proof -
  have "\<exists>x. fetch_all su c' repo fs = Ok x \<longleftrightarrow> fetch_all su c' repo fs = Ok ()" for repo fs by auto
  with assms that show thesis
    unfolding make_engine_def bind_outcome_eq_Ok result_Ok by (auto simp: fetch_all_Ok)
qed

lemma dml_in_shared:
  "(\<exists>p\<in>set (so_providers (shared_options st provider n)). ep_kind p = Dml_Ep) \<longleftrightarrow> provider \<notin> {''cuda'', ''migraphx'', ''cpu''}"
  by (auto simp: shared_options_def execution_providers_def Let_def)

lemma dual_try_new_made:
  assumes "dual_try_new su (shared_options st provider n) = Ok parts"
  shows "\<exists>repo path threads b b' model_max_length t0 t1.
    pull_from_hf su ''BAAI/bge-m3'' (cache_dir (st_config st)) False = Ok repo \<and>
    hb_get su repo ''onnx/model.onnx'' = Inr path \<and>
    (\<forall>f\<in>{''onnx/model.onnx_data'', ''onnx/Constant_7_attr__value''}. \<exists>p. hb_get su repo f = Inr p) \<and>
    (if intra_threads (st_config st) = 0 then su_cores su = Inr threads else threads = intra_threads (st_config st)) \<and>
    su_builder su = Inr b \<and>
    apply_steps (su_step su) ([Execution_Providers (execution_providers provider (device_id (st_config st)) (dml_device_id st)),
      Optimization_Level3, Intra_Threads threads] @
      (if su_directml su \<and> provider \<notin> {''cuda'', ''migraphx'', ''cpu''} then [Memory_Pattern False, Parallel_Execution False]
       else [])) b = Ok b' \<and>
    su_commit su path b' = Inr (ep_session parts) \<and>
    tl_truncate (su_tokenizers su) (truncation_cap n model_max_length) t0 = Inr t1 \<and> truncation_cap n model_max_length \<le> n \<and>
    ep_need_types parts = (''token_type_ids'' \<in> set (su_inputs su (ep_session parts)))"
proof -
  let ?o = "shared_options st provider n"
  from assms [unfolded dual_try_new_def] obtain repo path builder session tokenizer where
    repo: "pull_from_hf su ''BAAI/bge-m3'' (cache_dir (st_config st)) False = Ok repo"
    and path: "hb_get su repo ''onnx/model.onnx'' = Inr path"
    and files: "\<forall>f\<in>{''onnx/model.onnx_data'', ''onnx/Constant_7_attr__value''}. \<exists>p. hb_get su repo f = Inr p"
    and builder: "init_session_builder (su_directml su) (su_cores su) (su_builder su) (su_step su) (so_providers ?o)
      (so_threads ?o) = Ok builder"
    and session: "su_commit su path builder = Inr session"
    and tokenizer: "load_tokenizer_hf_hub su repo n = Ok tokenizer"
    and parts: "parts = \<lparr>ep_tokenizer = tokenizer, ep_session = session,
      ep_need_types = (''token_type_ids'' \<in> set (su_inputs su session))\<rparr>"
    by (rule make_engine_Ok) (simp add: bgem3_info_def shared_options_def)
  from tokenizer obtain files' where "load_tokenizer (su_tokenizers su) files' n = Ok tokenizer"
    by (auto simp: load_tokenizer_hf_hub_def bind_outcome_eq_Ok)
  from load_tokenizer_Ok [OF this] obtain model_max_length t0 t1 where
    t: "tl_truncate (su_tokenizers su) (truncation_cap n model_max_length) t0 = Inr t1" by blast
  from builder obtain threads b where
    th: "if intra_threads (st_config st) = 0 then su_cores su = Inr threads else threads = intra_threads (st_config st)"
    and b: "su_builder su = Inr b"
    and steps: "apply_steps (su_step su) (session_steps (su_directml su) (so_providers ?o) threads) b = Ok builder"
    by (auto simp: init_session_builder_def shared_options_def split: sum.splits if_splits)
  have "so_providers ?o = execution_providers provider (device_id (st_config st)) (dml_device_id st)"
    by (simp add: shared_options_def)
  with steps have steps': "apply_steps (su_step su) ([Execution_Providers (execution_providers provider
      (device_id (st_config st)) (dml_device_id st)), Optimization_Level3, Intra_Threads threads] @
      (if su_directml su \<and> provider \<notin> {''cuda'', ''migraphx'', ''cpu''} then [Memory_Pattern False, Parallel_Execution False]
       else [])) b = Ok builder"
    unfolding session_steps_def dml_in_shared by simp
  have "truncation_cap n model_max_length \<le> n" by (simp add: truncation_cap_def)
  then show ?thesis using repo path files th b steps' session t unfolding parts by (intro exI conjI) (assumption | simp)+
qed


section \<open>The model's own length\<close>

lemma decode_pack:
  assumes "0 < ex" and "ex < 255" and "fr < 2 ^ 23"
  shows "f32_decode (f32_pack False (ex * 2 ^ 23 + fr)) = Fin False (fr + 2 ^ 23) (int ex - 150)"
proof -
  have unat_small: "unat (of_nat m :: f32) = m" if "m < 2 ^ 31" for m
    using that by (simp add: unat_of_nat take_bit_nat_eq_self)
  have lt: "ex * 2 ^ 23 + fr < 2 ^ 31" using assms by (auto simp: nat_less_iff)
  have u: "unat (f32_pack False (ex * 2 ^ 23 + fr)) = ex * 2 ^ 23 + fr"
    using unat_small [OF lt] unfolding f32_pack_def by (simp only: if_False add_0_right)
  have "(ex * 2 ^ 23 + fr) div 2 ^ 23 = ex" "(ex * 2 ^ 23 + fr) mod 2 ^ 23 = fr" using assms(3) by simp_all
  then show ?thesis using assms(1,2) lt unfolding f32_decode_def u Let_def by simp
qed

lemma bit_len_bounds: "0 < n \<Longrightarrow> 0 < bit_len n \<and> 2 ^ (bit_len n - 1) \<le> n \<and> n < 2 ^ bit_len n"
proof (induction n rule: bit_len.induct)
  case (1 n)
  show ?case
  proof (cases "n div 2 = 0")
    case True
    then have "n = 1" using 1(2) by simp
    then show ?thesis by (simp add: bit_len.simps)
  next
    case False
    have b: "bit_len n = Suc (bit_len (n div 2))" using 1(2) by (subst bit_len.simps) simp
    from 1 False have ih: "0 < bit_len (n div 2)" "2 ^ (bit_len (n div 2) - 1) \<le> n div 2" "n div 2 < 2 ^ bit_len (n div 2)"
      by simp_all
    then have "2 * 2 ^ (bit_len (n div 2) - 1) \<le> n" "n < 2 * 2 ^ bit_len (n div 2)" by linarith+
    moreover have "2 * 2 ^ (bit_len (n div 2) - 1) = (2 :: nat) ^ bit_len (n div 2)" using ih(1) by (simp flip: power_Suc)
    ultimately show ?thesis by (simp add: b)
  qed
qed

lemma bit_len_small: "0 < n \<Longrightarrow> n < 2 ^ k \<Longrightarrow> bit_len n \<le> k"
  using bit_len_bounds [of n] power_less_imp_less_exp [of "2 :: nat" "bit_len n - 1" k] by fastforce

lemma small_integer_survives:
  assumes "n < 2 ^ 24"
  shows "f32_as_usize (f64_as_f32 (nat_as_f64 False n)) = n"
proof (cases "n = 0")
  case True
  then show ?thesis
    by (simp add: nat_as_f64_def bit_len.simps f64_as_f32_def f32_round_def f32_pack_def f32_as_usize_def decode_zero)
next
  case False
  then have n: "0 < n" by simp
  define k where "k = bit_len n"
  have k: "0 < k" "k \<le> 24" "2 ^ (k - 1) \<le> n" "n < 2 ^ k"
    using bit_len_bounds [OF n] bit_len_small [OF n assms] by (simp_all add: k_def)
  define M where "M = n * 2 ^ (24 - k)"
  have lo: "2 ^ 23 \<le> M"
  proof -
    have "2 ^ 23 = 2 ^ (k - 1) * (2 :: nat) ^ (24 - k)" using k(1,2) by (simp flip: power_add)
    also have "\<dots> \<le> M" unfolding M_def using k(3) by (rule mult_le_mono1)
    finally show ?thesis .
  qed
  have hi: "M < 2 ^ 24"
  proof -
    have "M < 2 ^ k * 2 ^ (24 - k)" unfolding M_def using k(4) by simp
    then show ?thesis using k(2) by (simp flip: power_add)
  qed
  have q: "max (int (bit_len n) - 24 + 0) (- 149) = int k - 24" using k by (simp add: k_def)
  have e: "nat (int k - 24 + 150) = k + 126" "nat (0 - (int k - 24)) = 24 - k" using k by simp_all
  have "f32_assemble False M (int k - 24) = f32_pack False ((k + 126) * 2 ^ 23 + (M - 2 ^ 23))"
  proof -
    have "\<not> 2 ^ 24 \<le> M" "\<not> M < 2 ^ 23" using lo hi by simp_all
    moreover have "\<not> 255 \<le> int k - 24 + 150" using k(2) by simp
    ultimately show ?thesis unfolding f32_assemble_def by (simp only: if_False Let_def prod.case e(1))
  qed
  moreover have "f32_round False n 0 = f32_assemble False M (int k - 24)"
    using n k unfolding f32_round_def Let_def q e(2) by (simp add: M_def [symmetric])
  ultimately have "f32_round False n 0 = f32_pack False ((k + 126) * 2 ^ 23 + (M - 2 ^ 23))" by simp
  moreover have "f32_decode (f32_pack False ((k + 126) * 2 ^ 23 + (M - 2 ^ 23))) = Fin False M (int k - 24)"
    using decode_pack [of "k + 126" "M - 2 ^ 23"] k lo hi by simp
  moreover have "nat_as_f64 False n = Fin False n 0" using k by (simp add: nat_as_f64_def k_def [symmetric])
  moreover have "M div 2 ^ (24 - k) = n" by (simp add: M_def)
  moreover have "nat (- (int k - 24)) = 24 - k" by simp
  ultimately show ?thesis using assms k by (auto simp: f64_as_f32_def f32_as_usize_def M_def)
qed

text \<open>
  The model's own length is honoured exactly. For a \<open>model_max_length\<close> that is an integer below \<open>2 ^ 24\<close>, the way through
  \<open>f64\<close> and \<open>f32\<close> loses nothing: the tokenizer truncates at the lesser of the request and that integer.
\<close>

theorem model_length_is_exact:
  assumes "load_tokenizer lib files requested = Ok t"
    and "tl_json lib (tf_tokenizer_config files) = Some v"
    and "json_at v ''model_max_length'' = Json_Number (Pos_Int n)" and "n < 2 ^ 24"
  shows "\<exists>t0 t1. tl_truncate lib (min requested n) t0 = Inr t1 \<and>
    (\<exists>special_map. tl_json lib (tf_special_tokens files) = Some special_map \<and> t = add_special_tokens lib special_map t1)"
proof -
  from load_tokenizer_Ok [OF assms(1)] assms(2,3) obtain t0 t1 where
    "tl_truncate lib (truncation_cap requested (nat_as_f64 False n)) t0 = Inr t1"
    "\<exists>special_map. tl_json lib (tf_special_tokens files) = Some special_map \<and> t = add_special_tokens lib special_map t1"
    by (auto simp: as_f64_def)
  moreover have "truncation_cap requested (nat_as_f64 False n) = min requested n"
    by (simp add: truncation_cap_def small_integer_survives [OF assms(4)])
  ultimately show ?thesis by auto
qed

section \<open>Witnesses\<close>

text \<open>A hub whose files are their names, a builder that keeps its settings, a tokenizer that is its length.\<close>

definition named_file :: "string \<Rightarrow> json option" where
  "named_file t =
     Some (if t = ''tokenizer_config.json''
           then Json_Object [(''model_max_length'', Json_Number (Pos_Int 8192)), (''pad_token'', Json_String ''<pad>'')]
           else Json_Object [])"

definition length_tokenizers :: "nat tokenizer_lib" where
  "length_tokenizers = \<lparr>tl_json = named_file, tl_from_bytes = (\<lambda>t. Some 0), tl_pad = (\<lambda>p i t. t),
     tl_truncate = (\<lambda>m t. Inr m), tl_add_special = (\<lambda>a t. t),
     tl_token_default = \<lparr>at_content = [], at_single_word = False, at_lstrip = False, at_rstrip = False,
       at_normalized = False, at_special = False\<rparr>\<rparr>"

definition plain_setup :: "(string, builder_step list, string \<times> builder_step list, nat) setup_env" where
  "plain_setup = \<lparr>hb_open = (\<lambda>d u p name. Inr name), hb_get = (\<lambda>repo f. Inr f), hb_read = (\<lambda>path. Inr path),
     su_environment = (\<lambda>k. None), su_directml = True, su_cores = Inr 4, su_builder = Inr [],
     su_step = (\<lambda>x b. Inr (b @ [x])), su_commit = (\<lambda>path b. Inr (path, b)), su_inputs = (\<lambda>x. [''input_ids'']),
     su_tokenizers = length_tokenizers\<rparr>"

lemma plain_tokenizer:
  "load_tokenizer length_tokenizers \<lparr>tf_tokenizer = a, tf_config = b, tf_special_tokens = ''special_tokens_map.json'',
     tf_tokenizer_config = ''tokenizer_config.json''\<rparr> 256 = Ok 256"
proof -
  have "truncation_cap 256 (nat_as_f64 False 8192) = 256"
    by (simp add: truncation_cap_def small_integer_survives)
  then show ?thesis
    by (simp add: load_tokenizer_def read_part_def length_tokenizers_def named_file_def require_field_def json_at_def
        as_f64_def as_str_def add_special_tokens_def Let_def)
qed

definition setup_state :: "((string \<times> builder_step list, nat) engine_parts, unit, unit) app_state" where
  "setup_state = new_state ((config_from_env Map.empty)\<lparr>cf_provider := []\<rparr>) None [] 0 empty_world"

lemma setup_pin: "pin_provider [] setup_state = (''auto'', setup_state\<lparr>pinned_provider := Some ''auto''\<rparr>)"
  by (simp add: pin_provider_def setup_state_def new_state_def effective_provider_def lowercase_def Let_def)

lemma plain_engine:
  "\<exists>parts. dual_try_new plain_setup (shared_options (setup_state) ''dml'' 256) = Ok parts"
proof -
  have "load_tokenizer_hf_hub plain_setup repo 256 = Ok 256" for repo
    by (simp add: load_tokenizer_hf_hub_def read_hub_file_def lib_result_def plain_setup_def plain_tokenizer)
  moreover have "apply_steps (\<lambda>x b. Inr (b @ [x])) ss b = Ok (b @ ss)" for ss and b :: "builder_step list"
    by (induction ss arbitrary: b) simp_all
  ultimately show ?thesis
    by (simp add: dual_try_new_def make_engine_def bgem3_info_def pull_from_hf_def lib_result_def with_context_def
        init_session_builder_def shared_options_def plain_setup_def split: sum.splits)
qed


lemma model_length_is_exact_witness:
  "\<exists>t0. tl_truncate length_tokenizers 256 t0 = Inr (256 :: nat)"
  using model_length_is_exact [OF plain_tokenizer [of "[]" "[]"], of _ 8192]
  by (simp add: length_tokenizers_def named_file_def json_at_def add_special_tokens_def)

end
