(* ===== verification/Windows_Owner.thy ===== *)
theory Windows_Owner
  imports Scratch_Owner
begin

unbundle bit_operations_syntax

text \<open>
  \<open>src/test_scratch/win.rs\<close>: what the sweep asks Windows. The Win32 calls are parameters (the record \<open>win_api\<close>); the
  order of the calls, what each answer is taken for, and every handle that is opened or closed are the file's own.
  A function that opens or closes a handle returns the list of what it did beside its answer. A \<open>File\<close> is closed when
  it goes out of scope. Text of the system is a list of UTF-16 units; a SID is its bytes.
\<close>

section \<open>The calls\<close>

type_synonym win_handle = nat
type_synonym sid = "8 word list"
type_synonym wide = "16 word list"

datatype handle_event = Opened win_handle | Closed win_handle

text \<open>
  \<open>Inl\<close> is the \<open>HRESULT\<close> of a refusal. \<open>wa_token_user\<close> and \<open>wa_final_path\<close> are given the length of the buffer, the
  second also the number of the call, for a path may change between two; each answers the length and what it wrote.
\<close>

record win_api =
  wa_from_win32 :: "32 word \<Rightarrow> 32 word"
  wa_move :: "wide \<Rightarrow> wide \<Rightarrow> 32 word \<Rightarrow> 32 word option"
  wa_name_size :: nat
  wa_name :: "nat \<Rightarrow> (nat \<times> wide) option"
  wa_open_process :: "32 word \<Rightarrow> 32 word \<Rightarrow> 32 word + win_handle"
  wa_exit_code :: "win_handle \<Rightarrow> 32 word option"
  wa_process_times :: "win_handle \<Rightarrow> (32 word \<times> 32 word) option"
  wa_own_process :: win_handle
  wa_thread_token :: "32 word + win_handle"
  wa_process_token :: "32 word + win_handle"
  wa_token_user :: "win_handle \<Rightarrow> nat \<Rightarrow> nat \<times> sid option"
  wa_token_elevation :: "win_handle \<Rightarrow> 32 word option"
  wa_sid_text :: "sid \<Rightarrow> wide option"
  wa_equal_sid :: "sid \<Rightarrow> sid \<Rightarrow> bool"
  wa_open :: "32 word \<Rightarrow> 32 word \<Rightarrow> 32 word \<Rightarrow> wide \<Rightarrow> win_handle option"
  wa_information :: "win_handle \<Rightarrow> 32 word option"
  wa_file_id :: "win_handle \<Rightarrow> (64 word \<times> 8 word list) option"
  wa_basic :: "win_handle \<Rightarrow> 64 word option"
  wa_file_type :: "win_handle \<Rightarrow> 32 word"
  wa_final_path :: "win_handle \<Rightarrow> nat \<Rightarrow> nat \<Rightarrow> nat \<times> wide"
  wa_owner :: "win_handle \<Rightarrow> 32 word \<times> sid option"
  wa_profile :: "wide option"
  wa_canonicalize :: "wide \<Rightarrow> wide option"

text \<open>The values of the system's headers.\<close>

definition ERROR_INVALID_PARAMETER :: "32 word" where "ERROR_INVALID_PARAMETER = 87"
definition ERROR_NO_TOKEN :: "32 word" where "ERROR_NO_TOKEN = 1008"
definition STILL_ACTIVE :: "32 word" where "STILL_ACTIVE = 259"
definition PROCESS_QUERY_LIMITED_INFORMATION :: "32 word" where "PROCESS_QUERY_LIMITED_INFORMATION = 0x1000"
definition READ_CONTROL :: "32 word" where "READ_CONTROL = 0x00020000"
definition FILE_READ_ATTRIBUTES :: "32 word" where "FILE_READ_ATTRIBUTES = 0x80"
definition FLAG_OPEN_REPARSE_POINT :: "32 word" where "FLAG_OPEN_REPARSE_POINT = 0x00200000"
definition FLAG_BACKUP_SEMANTICS :: "32 word" where "FLAG_BACKUP_SEMANTICS = 0x02000000"
definition ATTRIBUTE_DIRECTORY :: "32 word" where "ATTRIBUTE_DIRECTORY = 0x10"
definition ATTRIBUTE_REPARSE_POINT :: "32 word" where "ATTRIBUTE_REPARSE_POINT = 0x400"
definition FILE_TYPE_DISK :: "32 word" where "FILE_TYPE_DISK = 1"

section \<open>Moves, and the error code\<close>

definition win32_code :: "32 word \<Rightarrow> 32 word" where
  "win32_code code = (if drop_bit 16 code = 0x8007 then code AND 0xFFFF else code)"

definition move_on_windows :: "win_api \<Rightarrow> wide \<Rightarrow> wide \<Rightarrow> 32 word option" where
  "move_on_windows W source target = map_option win32_code (wa_move W (source @ [0]) (target @ [0]) 0)"

section \<open>Text\<close>

fun utf16_points :: "wide \<Rightarrow> nat list option" where
  "utf16_points [] = Some []"
| "utf16_points (u # us) =
     (if unat u < 0xD800 \<or> 0xDFFF < unat u then map_option ((#) (unat u)) (utf16_points us)
      else if 0xDC00 \<le> unat u then None
      else (case us of [] \<Rightarrow> None
        | v # vs \<Rightarrow>
            if 0xDC00 \<le> unat v \<and> unat v \<le> 0xDFFF
            then map_option ((#) (0x10000 + (unat u - 0xD800) * 1024 + (unat v - 0xDC00))) (utf16_points vs)
            else None))"

definition utf8_point :: "nat \<Rightarrow> string" where
  "utf8_point n =
     (if n < 0x80 then [char_of n]
      else if n < 0x800 then [char_of (0xC0 + n div 64), char_of (0x80 + n mod 64)]
      else if n < 0x10000 then [char_of (0xE0 + n div 4096), char_of (0x80 + n div 64 mod 64), char_of (0x80 + n mod 64)]
      else [char_of (0xF0 + n div 262144), char_of (0x80 + n div 4096 mod 64), char_of (0x80 + n div 64 mod 64),
            char_of (0x80 + n mod 64)])"

definition from_utf16 :: "wide \<Rightarrow> string option" where
  "from_utf16 us = map_option (\<lambda>ps. concat (map utf8_point ps)) (utf16_points us)"

text \<open>The second call may answer another size; \<open>&buffer[..size]\<close> panics when it is past the buffer.\<close>

definition dns_host_name :: "win_api \<Rightarrow> (unit, string option) outcome" where
  "dns_host_name W =
     (if wa_name_size W = 0 then Ok None
      else (case wa_name W (wa_name_size W) of
          None \<Rightarrow> Ok None
        | Some (n, units) \<Rightarrow> if wa_name_size W < n then Panic else Ok (from_utf16 (take n units))))"

section \<open>Processes\<close>

definition UNIX_EPOCH_TICKS :: "64 word" where "UNIX_EPOCH_TICKS = 116444736000000000"

definition unix_seconds :: "32 word \<times> 32 word \<Rightarrow> 64 word option" where
  "unix_seconds t =
     (let ticks = push_bit 32 (ucast (fst t)) OR (ucast (snd t) :: 64 word)
      in if ticks < UNIX_EPOCH_TICKS then None else Some ((ticks - UNIX_EPOCH_TICKS) div 10000000))"

definition process_start :: "win_api \<Rightarrow> win_handle \<Rightarrow> 64 word option" where
  "process_start W h = (case wa_process_times W h of None \<Rightarrow> None | Some t \<Rightarrow> unix_seconds t)"

definition own_start_on_windows :: "win_api \<Rightarrow> 64 word option" where
  "own_start_on_windows W = process_start W (wa_own_process W)"

definition probe_on_windows :: "win_api \<Rightarrow> nat \<Rightarrow> probe_answer \<times> handle_event list" where
  "probe_on_windows W pid =
     (if 2 ^ 32 \<le> pid then (Probe_Unknown, [])
      else (case wa_open_process W PROCESS_QUERY_LIMITED_INFORMATION (of_nat pid) of
          Inl e \<Rightarrow> (if e = wa_from_win32 W ERROR_INVALID_PARAMETER then Probe_Gone else Probe_Unknown, [])
        | Inr h \<Rightarrow>
            ((case wa_exit_code W h of
                None \<Rightarrow> Probe_Unknown
              | Some code \<Rightarrow>
                  if code \<noteq> STILL_ACTIVE then Probe_Gone else Probe_Alive (map_option unat (process_start W h))),
             [Opened h, Closed h])))"

section \<open>The caller\<close>

definition caller_token :: "win_api \<Rightarrow> win_handle option \<times> handle_event list" where
  "caller_token W =
     (case wa_thread_token W of
        Inr t \<Rightarrow> (Some t, [Opened t])
      | Inl e \<Rightarrow>
          if e = wa_from_win32 W ERROR_NO_TOKEN
          then (case wa_process_token W of Inr t \<Rightarrow> (Some t, [Opened t]) | Inl e \<Rightarrow> (None, []))
          else (None, []))"

text \<open>The bytes of the buffer for an answer of a size; it is made of 64-bit words, at least one.\<close>

definition token_buffer_bytes :: "nat \<Rightarrow> nat" where
  "token_buffer_bytes needed = 8 * max ((needed + 7) div 8) 1"

definition user_sid_of :: "win_api \<Rightarrow> win_handle \<Rightarrow> sid option \<times> handle_event list" where
  "user_sid_of W token =
     (let needed = fst (wa_token_user W token 0);
          found = snd (wa_token_user W token needed)
      in (case found of None \<Rightarrow> None | Some bytes \<Rightarrow> if bytes = [] then None else Some bytes, [Closed token]))"

definition read_caller_sid :: "win_api \<Rightarrow> sid option \<times> handle_event list" where
  "read_caller_sid W =
     (case caller_token W of
        (None, ev) \<Rightarrow> (None, ev)
      | (Some t, ev) \<Rightarrow> (case user_sid_of W t of (s, ev') \<Rightarrow> (s, ev @ ev')))"

definition process_user_sid :: "win_api \<Rightarrow> sid option \<times> handle_event list" where
  "process_user_sid W =
     (case wa_process_token W of
        Inl e \<Rightarrow> (None, [])
      | Inr t \<Rightarrow> (case user_sid_of W t of (s, ev) \<Rightarrow> (s, Opened t # ev)))"

definition caller_sid :: "win_api \<Rightarrow> sid \<times> handle_event list" where
  "caller_sid W = (case read_caller_sid W of (s, ev) \<Rightarrow> (case s of None \<Rightarrow> [] | Some bytes \<Rightarrow> bytes, ev))"

definition is_elevated :: "win_api \<Rightarrow> bool option \<times> handle_event list" where
  "is_elevated W =
     (case caller_token W of
        (None, ev) \<Rightarrow> (None, ev)
      | (Some t, ev) \<Rightarrow> (map_option (\<lambda>v. v \<noteq> 0) (wa_token_elevation W t), ev @ [Closed t]))"

definition sid_text :: "win_api \<Rightarrow> sid \<Rightarrow> string" where
  "sid_text W s =
     (case wa_sid_text W s of
        None \<Rightarrow> ''<unprintable SID>''
      | Some units \<Rightarrow> (case from_utf16 units of None \<Rightarrow> ''<not UTF-16>'' | Some shown \<Rightarrow> shown))"

definition sid_equal :: "win_api \<Rightarrow> sid \<Rightarrow> sid \<Rightarrow> bool" where
  "sid_equal W a b \<longleftrightarrow> \<not> (a = [] \<or> b = []) \<and> wa_equal_sid W a b"

section \<open>One handle on the entry itself\<close>

definition open_entry :: "win_api \<Rightarrow> wide \<Rightarrow> win_handle option" where
  "open_entry W path =
     wa_open W (READ_CONTROL OR FILE_READ_ATTRIBUTES) 7 (FLAG_OPEN_REPARSE_POINT OR FLAG_BACKUP_SEMANTICS) path"

text \<open>The number of 16 bytes, the lowest first: \<open>u128::from_le_bytes\<close>.\<close>

fun le_value :: "8 word list \<Rightarrow> nat" where
  "le_value [] = 0"
| "le_value (b # bs) = unat b + 256 * le_value bs"

definition handle_identity :: "win_api \<Rightarrow> win_handle \<Rightarrow> (64 word \<times> 128 word \<times> 64 word) option" where
  "handle_identity W h =
     (case wa_file_id W h of
        None \<Rightarrow> None
      | Some (serial, bytes) \<Rightarrow>
          (case wa_basic W h of None \<Rightarrow> None | Some changed \<Rightarrow> Some (serial, of_nat (le_value bytes), changed)))"

definition file_identity :: "win_api \<Rightarrow> wide \<Rightarrow> (64 word \<times> 128 word \<times> 64 word) option \<times> handle_event list" where
  "file_identity W path =
     (case open_entry W path of None \<Rightarrow> (None, []) | Some h \<Rightarrow> (handle_identity W h, [Opened h, Closed h]))"

text \<open>
  \<open>changed_at\<close> of \<open>identity.rs\<close>: the nanoseconds since 1970 of a change time, which is signed; the product is checked.
\<close>

definition changed_at_on_windows :: "win_api \<Rightarrow> wide \<Rightarrow> nat option" where
  "changed_at_on_windows W path =
     (case fst (file_identity W path) of
        None \<Rightarrow> None
      | Some (serial, index, changed) \<Rightarrow>
          if sint changed < 0 \<or> nat (sint changed) < 116444736000000000 then None
          else (let n = (nat (sint changed) - 116444736000000000) * 100 in if n < 2 ^ 64 then Some n else None))"

definition is_plain_on_windows :: "win_api \<Rightarrow> win_handle \<Rightarrow> bool" where
  "is_plain_on_windows W h \<longleftrightarrow>
     (if wa_file_type W h \<noteq> FILE_TYPE_DISK then False
      else (case wa_information W h of
          None \<Rightarrow> False
        | Some attributes \<Rightarrow> attributes AND (ATTRIBUTE_DIRECTORY OR ATTRIBUTE_REPARSE_POINT) = 0))"

fun final_path_tries :: "(nat \<Rightarrow> nat \<Rightarrow> nat \<times> wide) \<Rightarrow> nat \<Rightarrow> nat \<Rightarrow> nat \<Rightarrow> wide option" where
  "final_path_tries call k buffer 0 = None"
| "final_path_tries call k buffer (Suc n) =
     (case call k buffer of (len, units) \<Rightarrow>
        if len = 0 then None
        else if len < buffer then Some (take len units)
        else final_path_tries call (Suc k) (len + 1) n)"

definition final_path_of :: "win_api \<Rightarrow> win_handle \<Rightarrow> wide option" where
  "final_path_of W h = final_path_tries (wa_final_path W h) 0 512 3"

definition owner_sid_of_handle :: "win_api \<Rightarrow> win_handle \<Rightarrow> sid option" where
  "owner_sid_of_handle W h = (case wa_owner W h of (status, owner) \<Rightarrow> if status = 0 then owner else None)"

definition owner_sid_of :: "win_api \<Rightarrow> wide \<Rightarrow> sid option \<times> handle_event list" where
  "owner_sid_of W path =
     (case open_entry W path of None \<Rightarrow> (None, []) | Some h \<Rightarrow> (owner_sid_of_handle W h, [Opened h, Closed h]))"

text \<open>
  \<open>Path::components\<close> of a path that begins \<open>\\?\<close>, as both the final path and a canonical one do: the prefix is the
  volume, or \<open>UNC\<close> with its server and share; then the root and the names.
\<close>

definition backslash :: "16 word" where "backslash = 0x5C"

fun split_units :: "wide \<Rightarrow> wide list" where
  "split_units [] = [[]]"
| "split_units (u # us) =
     (if u = backslash then [] # split_units us
      else (case split_units us of [] \<Rightarrow> [[u]] | w # ws \<Rightarrow> (u # w) # ws))"

definition verbatim_components :: "wide \<Rightarrow> wide list" where
  "verbatim_components p =
     (let parts = split_units (drop 4 p);
          k = (if take 1 parts = [[0x55, 0x4E, 0x43]] then 3 else 1);
          rest = drop k parts
      in concat (take k parts) # (if rest = [] then [] else [backslash] # filter (\<lambda>w. w \<noteq> []) rest))"

text \<open>\<open>lower\<close> is \<open>to_string_lossy().to_lowercase()\<close>.\<close>

definition inside_of :: "(wide \<Rightarrow> string) \<Rightarrow> wide \<Rightarrow> wide \<Rightarrow> bool" where
  "inside_of lower child parent =
     (let c = map lower (verbatim_components child); p = map lower (verbatim_components parent)
      in length p < length c \<and> take (length p) c = p)"

definition entry_is_mine :: "win_api \<Rightarrow> (wide \<Rightarrow> string) \<Rightarrow> sid \<Rightarrow> wide \<Rightarrow> win_handle \<Rightarrow> bool" where
  "entry_is_mine W lower caller profile h =
     (case wa_information W h of
        None \<Rightarrow> False
      | Some attributes \<Rightarrow>
          if attributes AND ATTRIBUTE_REPARSE_POINT \<noteq> 0 then False
          else (case final_path_of W h of
              None \<Rightarrow> False
            | Some resolved \<Rightarrow>
                inside_of lower resolved profile \<and>
                (case owner_sid_of_handle W h of None \<Rightarrow> False | Some owner \<Rightarrow> sid_equal W owner caller)))"

definition is_mine_on_windows :: "win_api \<Rightarrow> (wide \<Rightarrow> string) \<Rightarrow> wide \<Rightarrow> bool \<times> handle_event list" where
  "is_mine_on_windows W lower path =
     (case caller_sid W of (caller, ev) \<Rightarrow>
        if caller = [] then (False, ev)
        else (case (case wa_profile W of None \<Rightarrow> None | Some p \<Rightarrow> wa_canonicalize W p) of
            None \<Rightarrow> (False, ev)
          | Some profile \<Rightarrow>
              (case open_entry W path of
                 None \<Rightarrow> (False, ev)
               | Some h \<Rightarrow> (entry_is_mine W lower caller profile h, ev @ [Opened h, Closed h]))))"

section \<open>Handles\<close>

text \<open>The handles left open, none when one is closed that is not open.\<close>

fun run_handles :: "win_handle list \<Rightarrow> handle_event list \<Rightarrow> win_handle list option" where
  "run_handles hs [] = Some hs"
| "run_handles hs (Opened h # es) = run_handles (h # hs) es"
| "run_handles hs (Closed h # es) = (if h \<in> set hs then run_handles (remove1 h hs) es else None)"

definition closes_all :: "handle_event list \<Rightarrow> bool" where
  "closes_all es \<longleftrightarrow> run_handles [] es = Some []"

lemma closes_all_simps [simp]: "closes_all []" "closes_all [Opened h, Closed h]" "closes_all [Opened t, Closed t, Opened h, Closed h]"
  by (simp_all add: closes_all_def)

lemma sid_events: "\<exists>t. snd (read_caller_sid W) = [] \<or> snd (read_caller_sid W) = [Opened t, Closed t]"
  by (auto simp: read_caller_sid_def caller_token_def user_sid_of_def Let_def split: sum.splits if_splits)

lemma caller_sid_events: "snd (caller_sid W) = snd (read_caller_sid W)"
  by (simp add: caller_sid_def split: prod.splits)

lemma mine_events:
  "snd (is_mine_on_windows W lower path) = snd (read_caller_sid W) \<or>
   (\<exists>h. snd (is_mine_on_windows W lower path) = snd (read_caller_sid W) @ [Opened h, Closed h])"
proof -
  obtain caller ev where c: "caller_sid W = (caller, ev)" by (metis surjective_pairing)
  then have "ev = snd (read_caller_sid W)" using caller_sid_events [of W] by simp
  then show ?thesis by (auto simp: is_mine_on_windows_def c split: option.splits)
qed

text \<open>
  No handle leaks, and none is closed twice. Whatever the system answers to each call, every question of the sweep that
  opens a process, a token or an entry has closed exactly what it opened when it answers.
\<close>

theorem windows_handles_are_closed:
  "closes_all (snd (probe_on_windows W pid)) \<and> closes_all (snd (caller_sid W)) \<and>
   closes_all (snd (process_user_sid W)) \<and> closes_all (snd (is_elevated W)) \<and>
   closes_all (snd (owner_sid_of W path)) \<and> closes_all (snd (file_identity W path)) \<and>
   closes_all (snd (is_mine_on_windows W lower path))"
proof (intro conjI)
  show "closes_all (snd (caller_sid W))" using sid_events [of W] by (auto simp: caller_sid_events)
  show "closes_all (snd (is_mine_on_windows W lower path))"
    using mine_events [of W lower path] sid_events [of W] by auto
qed (auto simp: probe_on_windows_def process_user_sid_def user_sid_of_def is_elevated_def caller_token_def
    owner_sid_of_def file_identity_def Let_def split: sum.splits option.splits)

section \<open>Times\<close>

lemma ticks_value: "unat (push_bit 32 (ucast hi) OR (ucast lo :: 64 word)) = unat (hi :: 32 word) * 2 ^ 32 + unat (lo :: 32 word)"
proof -
  have u: "unat hi < 2 ^ LENGTH(32)" "unat lo < 2 ^ LENGTH(32)" by (rule unsigned_less)+
  have "push_bit 32 (ucast hi :: 64 word) AND ucast lo = 0"
  proof (rule bit_word_eqI)
    fix n
    assume "n < LENGTH(64)"
    then show "bit (push_bit 32 (ucast hi :: 64 word) AND ucast lo) n \<longleftrightarrow> bit (0 :: 64 word) n"
      using bit_imp_le_length [of lo n] by (auto simp: bit_simps)
  qed
  then have "push_bit 32 (ucast hi) OR ucast lo = (push_bit 32 (ucast hi) :: 64 word) + ucast lo"
    by (simp add: disjunctive_add_eq_or)
  moreover have "unat (ucast hi :: 64 word) = unat hi" "unat (ucast lo :: 64 word) = unat lo"
    using u by (simp_all add: unsigned_ucast_eq take_bit_nat_eq_self)
  moreover from this have "unat (push_bit 32 (ucast hi) :: 64 word) = unat hi * 2 ^ 32"
    using u by (simp only: unsigned_push_bit_eq) (simp add: take_bit_nat_eq_self push_bit_eq_mult)
  moreover have "unat hi * 2 ^ 32 + unat lo < 2 ^ 64" using u by simp
  ultimately show ?thesis by (simp add: unat_word_ariths)
qed

text \<open>
  The start of a process is the whole second of its creation time, for every pair of words, and none before 1970:
  nothing wraps.
\<close>

theorem unix_seconds_exact:
  "map_option unat (unix_seconds (hi, lo)) =
     (if unat hi * 2 ^ 32 + unat lo < 116444736000000000 then None
      else Some ((unat hi * 2 ^ 32 + unat lo - 116444736000000000) div 10000000))"
proof -
  let ?t = "push_bit 32 (ucast hi) OR (ucast lo :: 64 word)"
  have lt: "?t < UNIX_EPOCH_TICKS \<longleftrightarrow> unat hi * 2 ^ 32 + unat lo < 116444736000000000"
    unfolding word_less_nat_alt ticks_value by (simp add: UNIX_EPOCH_TICKS_def)
  have "unat ((?t - UNIX_EPOCH_TICKS) div 10000000) = (unat hi * 2 ^ 32 + unat lo - 116444736000000000) div 10000000"
    if "\<not> ?t < UNIX_EPOCH_TICKS"
  proof -
    from that have "unat (?t - UNIX_EPOCH_TICKS) = unat ?t - unat UNIX_EPOCH_TICKS"
      by (simp add: unat_sub)
    then show ?thesis by (simp add: unat_div ticks_value UNIX_EPOCH_TICKS_def)
  qed
  then show ?thesis using lt by (simp add: unix_seconds_def Let_def)
qed

section \<open>Paths\<close>

text \<open>
  What \<open>GetFinalPathNameByHandleW\<close> documents: for the path the entry has at the time of a call, its length when it fits
  with its terminator, then what is written begins with it, and otherwise the length with the terminator.
\<close>

definition answers_final_path :: "(nat \<Rightarrow> wide) \<Rightarrow> (nat \<Rightarrow> nat \<Rightarrow> nat \<times> wide) \<Rightarrow> bool" where
  "answers_final_path path_at call \<longleftrightarrow>
     (\<forall>k b. path_at k \<noteq> [] \<and>
        (if length (path_at k) < b
         then fst (call k b) = length (path_at k) \<and> take (length (path_at k)) (snd (call k b)) = path_at k
         else fst (call k b) = length (path_at k) + 1))"

lemma final_path_step:
  assumes "answers_final_path path_at call"
  shows "final_path_tries call k b (Suc n) =
    (if length (path_at k) < b then Some (path_at k) else final_path_tries call (Suc k) (length (path_at k) + 2) n)"
proof -
  obtain len units where c: "call k b = (len, units)" by (metis surjective_pairing)
  from assms have "path_at k \<noteq> []" and
    "if length (path_at k) < b then len = length (path_at k) \<and> take (length (path_at k)) units = path_at k
     else len = length (path_at k) + 1"
    unfolding answers_final_path_def by (metis c fst_conv, metis c fst_conv snd_conv)
  then show ?thesis by (auto simp: c split: if_splits)
qed

text \<open>
  The final path is whole. When the call keeps its documented contract, the answer is the entire path that the entry
  had at one of the three calls, of any length; none is given only when the path grew before the second and before the
  third call, which cannot happen to an entry that stays where it is.
\<close>

theorem final_path_is_whole:
  assumes "answers_final_path path_at (wa_final_path W h)"
  shows "(\<exists>k<3. final_path_of W h = Some (path_at k)) \<or>
    final_path_of W h = None \<and> length (path_at 0) + 1 < length (path_at 1) \<and> length (path_at 1) + 1 < length (path_at 2)"
proof -
  have "final_path_of W h = final_path_tries (wa_final_path W h) 0 512 (Suc (Suc (Suc 0)))"
    by (simp add: final_path_of_def numeral_3_eq_3)
  also have "\<dots> = (if length (path_at 0) < 512 then Some (path_at 0)
      else if length (path_at 1) < length (path_at 0) + 2 then Some (path_at 1)
      else if length (path_at 2) < length (path_at 1) + 2 then Some (path_at 2) else None)"
    unfolding final_path_step [OF assms] by (simp add: numeral_2_eq_2)
  finally have f: "final_path_of W h = (if length (path_at 0) < 512 then Some (path_at 0)
      else if length (path_at 1) < length (path_at 0) + 2 then Some (path_at 1)
      else if length (path_at 2) < length (path_at 1) + 2 then Some (path_at 2) else None)" .
  have w: "k < 3 \<Longrightarrow> \<exists>k'<3. Some (path_at k) = Some (path_at k')" for k :: nat by blast
  show ?thesis unfolding f using w [of 0] w [of 1] w [of 2] by simp
qed

lemma inside_trans: "inside_of lower a b \<Longrightarrow> inside_of lower b c \<Longrightarrow> inside_of lower a c"
proof -
  assume ab: "inside_of lower a b" and bc: "inside_of lower b c"
  define x y z where "x = map lower (verbatim_components a)" and "y = map lower (verbatim_components b)"
    and "z = map lower (verbatim_components c)"
  from ab bc have "length y < length x" "take (length y) x = y" "length z < length y" "take (length z) y = z"
    by (simp_all add: inside_of_def Let_def x_def y_def z_def)
  then have "length z < length x" "take (length z) x = z" by (simp, metis min.absorb1 less_imp_le take_take)
  then show "inside_of lower a c" by (simp add: inside_of_def Let_def x_def z_def)
qed

lemma inside_irrefl: "\<not> inside_of lower a a"
  by (simp add: inside_of_def Let_def)

section \<open>What is touched\<close>

text \<open>
  The second key on Windows. An entry counts as the caller's exactly when the caller's SID could be read, the profile
  of the environment resolves, the entry itself could be opened without following a link, it is no junction or
  symbolic link, its final path on that very handle lies strictly inside the profile, and the owner read on that
  handle is there and equals the caller, neither of them empty. Anything unreadable preserves the entry.
\<close>

theorem is_mine_on_windows_iff:
  "fst (is_mine_on_windows W lower path) \<longleftrightarrow>
     (\<exists>caller p profile h attributes resolved owner.
        fst (read_caller_sid W) = Some caller \<and> caller \<noteq> [] \<and>
        wa_profile W = Some p \<and> wa_canonicalize W p = Some profile \<and>
        wa_open W 0x20080 7 0x02200000 path = Some h \<and>
        wa_information W h = Some attributes \<and> attributes AND 0x400 = 0 \<and>
        final_path_of W h = Some resolved \<and> inside_of lower resolved profile \<and>
        wa_owner W h = (0, Some owner) \<and> owner \<noteq> [] \<and> wa_equal_sid W owner caller)"
proof -
  obtain s ev where c: "read_caller_sid W = (s, ev)" by (metis surjective_pairing)
  have flags: "READ_CONTROL OR FILE_READ_ATTRIBUTES = 0x20080"
    "FLAG_OPEN_REPARSE_POINT OR FLAG_BACKUP_SEMANTICS = 0x02200000" "ATTRIBUTE_REPARSE_POINT = 0x400"
    by (simp_all add: READ_CONTROL_def FILE_READ_ATTRIBUTES_def FLAG_OPEN_REPARSE_POINT_def
        FLAG_BACKUP_SEMANTICS_def ATTRIBUTE_REPARSE_POINT_def)
  have entry: "entry_is_mine W lower caller profile h \<longleftrightarrow>
    (\<exists>attributes resolved owner. wa_information W h = Some attributes \<and> attributes AND 0x400 = 0 \<and>
       final_path_of W h = Some resolved \<and> inside_of lower resolved profile \<and>
       wa_owner W h = (0, Some owner) \<and> owner \<noteq> [] \<and> caller \<noteq> [] \<and> wa_equal_sid W owner caller)" for caller profile h
    unfolding entry_is_mine_def flags sid_equal_def owner_sid_of_handle_def by (auto split: option.splits prod.splits)
  show ?thesis
    unfolding is_mine_on_windows_def caller_sid_def c open_entry_def flags
    by (cases s) (auto simp: entry split: option.splits)
qed

definition ruled_out_by_windows :: "win_api \<Rightarrow> nat \<Rightarrow> bool" where
  "ruled_out_by_windows W pid \<longleftrightarrow> pid < 2 ^ 32 \<and>
     (case wa_open_process W PROCESS_QUERY_LIMITED_INFORMATION (of_nat pid) of
        Inl e \<Rightarrow> e = wa_from_win32 W ERROR_INVALID_PARAMETER
      | Inr h \<Rightarrow> (case wa_exit_code W h of None \<Rightarrow> False | Some code \<Rightarrow> code \<noteq> STILL_ACTIVE))"

interpretation windows_probe: process_probe "\<lambda>pid. fst (probe_on_windows W pid)" "ruled_out_by_windows W" for W
  by unfold_locales (auto simp: probe_on_windows_def ruled_out_by_windows_def split: sum.splits option.splits)


section \<open>Identities and errors\<close>

lemma base_256: "x < 256 \<Longrightarrow> y < 256 \<Longrightarrow> x + 256 * a = y + 256 * b \<longleftrightarrow> x = y \<and> a = b" for x y a b :: nat
proof
  assume bounds: "x < 256" "y < 256" and e: "x + 256 * a = y + 256 * b"
  from bounds have "(x + 256 * a) mod 256 = x" "(x + 256 * a) div 256 = a" "(y + 256 * b) mod 256 = y"
    "(y + 256 * b) div 256 = b" by simp_all
  with e show "x = y \<and> a = b" by simp
qed simp

lemma le_value_inject: "length bs = length cs \<Longrightarrow> le_value bs = le_value cs \<longleftrightarrow> bs = cs"
proof (induction bs arbitrary: cs)
  case (Cons b bs)
  then obtain c cs' where cs: "cs = c # cs'" by (cases cs) auto
  have "unat b < 2 ^ LENGTH(8)" "unat c < 2 ^ LENGTH(8)" by (rule unsigned_less)+
  then have "unat b < 256" "unat c < 256" by simp_all
  then show ?case using Cons base_256 [of "unat b" "unat c"] by (simp add: cs word_unat_eq_iff)
qed simp

lemma le_value_bound: "le_value bs < 256 ^ length bs"
proof (induction bs)
  case (Cons b bs)
  have "unat b < 2 ^ LENGTH(8)" by (rule unsigned_less)
  then have "unat b < 256" by simp
  then show ?case using Cons by simp
qed simp

text \<open>
  The identity keeps all 128 bits. Two entries whose 16 identifier bytes differ, or whose volume or change time does,
  have different identities; an entry without an identifier has none.
\<close>

theorem windows_identity_is_exact:
  assumes "\<forall>h serial bytes. wa_file_id W h = Some (serial, bytes) \<longrightarrow> length bytes = 16"
    and "handle_identity W h = Some x" and "handle_identity W h' = Some x'"
  shows "x = x' \<longleftrightarrow> wa_file_id W h = wa_file_id W h' \<and> wa_basic W h = wa_basic W h'"
proof -
  from assms(2,3) obtain s b t s' b' t' where
    a: "wa_file_id W h = Some (s, b)" "wa_basic W h = Some t" "x = (s, of_nat (le_value b), t)"
      "wa_file_id W h' = Some (s', b')" "wa_basic W h' = Some t'" "x' = (s', of_nat (le_value b'), t')"
    by (auto simp: handle_identity_def split: option.splits)
  with assms(1) have l: "length b = 16" "length b' = 16" by blast+
  then have "le_value b < 2 ^ 128" "le_value b' < 2 ^ 128" using le_value_bound [of b] le_value_bound [of b'] by simp_all
  then have "(of_nat (le_value b) :: 128 word) = of_nat (le_value b') \<longleftrightarrow> le_value b = le_value b'"
    by (auto simp: of_nat_eq_iff take_bit_nat_eq_self word_of_nat_eq_iff)
  with a l show ?thesis by (simp add: le_value_inject)
qed

text \<open>
  A refused move is reported with the code of the system: every Win32 code the crate packs into an \<open>HRESULT\<close> comes back
  as it was, an existing target as 183, and any other \<open>HRESULT\<close> unchanged.
\<close>

theorem move_error_is_the_code:
  "move_on_windows W source target =
    map_option (\<lambda>e. if unat e div 2 ^ 16 = 0x8007 then of_nat (unat e mod 2 ^ 16) else e)
      (wa_move W (source @ [0]) (target @ [0]) 0)"
proof -
  have "drop_bit 16 e = 0x8007 \<longleftrightarrow> unat e div 2 ^ 16 = 0x8007" for e :: "32 word"
    by (simp add: word_unat_eq_iff drop_bit_eq_div unat_div)
  moreover have "e AND 0xFFFF = of_nat (unat e mod 2 ^ 16)" for e :: "32 word"
  proof -
    have "e AND 0xFFFF = take_bit 16 e" by (simp add: take_bit_eq_mask mask_eq_exp_minus_1)
    moreover have "unat e mod 2 ^ 16 < 2 ^ 32" by (rule less_trans [of _ "2 ^ 16"]) simp_all
    ultimately show ?thesis
      by (simp add: word_unat_eq_iff unsigned_take_bit_eq take_bit_eq_mod unat_of_nat take_bit_nat_eq_self unat_mod)
  qed
  ultimately have "win32_code = (\<lambda>e. if unat e div 2 ^ 16 = 0x8007 then of_nat (unat e mod 2 ^ 16) else e)"
    by (simp add: win32_code_def fun_eq_iff)
  then show ?thesis by (simp only: move_on_windows_def)
qed

section \<open>Witnesses\<close>

text \<open>A folder \<open>C:\u\x\<close> of the caller, whose run had a process number that is no longer there.\<close>

definition u_path :: wide where "u_path = [0x5C, 0x5C, 0x3F, 0x5C, 0x43, 0x3A, 0x5C, 0x75]"
definition x_path :: wide where "x_path = u_path @ [0x5C, 0x78]"

definition sample_windows :: win_api where
  "sample_windows = \<lparr>wa_from_win32 = (\<lambda>c. 0x80070000 OR c), wa_move = (\<lambda>a b f. None), wa_name_size = 3,
     wa_name = (\<lambda>n. Some (2, [0x62, 0x6F, 0])), wa_open_process = (\<lambda>a p. Inl (0x80070000 OR 87)),
     wa_exit_code = (\<lambda>h. None), wa_process_times = (\<lambda>h. None), wa_own_process = 0, wa_thread_token = Inr 7,
     wa_process_token = Inr 8, wa_token_user = (\<lambda>t n. (1, Some [1])), wa_token_elevation = (\<lambda>t. Some 0),
     wa_sid_text = (\<lambda>s. None), wa_equal_sid = (=), wa_open = (\<lambda>a s f p. Some 9), wa_information = (\<lambda>h. Some 0x10),
     wa_file_id = (\<lambda>h. Some (1, replicate 16 2)), wa_basic = (\<lambda>h. Some 3), wa_file_type = (\<lambda>h. 1),
     wa_final_path = (\<lambda>h k b. if 10 < b then (10, x_path) else (11, [])),
     wa_owner = (\<lambda>h. (0, Some [1])), wa_profile = Some u_path, wa_canonicalize = Some\<rparr>"

lemma sample_final_path: "answers_final_path (\<lambda>k. x_path) (wa_final_path sample_windows 9)"
  by (simp add: answers_final_path_def sample_windows_def x_path_def u_path_def)

lemma final_path_is_whole_witness: "final_path_of sample_windows 9 = Some x_path"
  using final_path_is_whole [OF sample_final_path] by simp

lemma sample_resolved: "final_path_of sample_windows 9 = Some x_path"
  by (simp add: final_path_of_def sample_windows_def numeral_3_eq_3 x_path_def u_path_def)

definition sample_run :: owner where
  "sample_run = \<lparr>ow_owner = ''w1'', ow_host = ''box@windows'', ow_pid = 5, ow_start = None, ow_ns = None,
     ow_canonical = True\<rparr>"

lemma sample_is_mine: "fst (is_mine_on_windows sample_windows (map (char_of \<circ> unat)) x_path)"
proof -
  have "inside_of (map (char_of \<circ> unat)) x_path u_path" by code_simp
  moreover have "fst (read_caller_sid sample_windows) = Some [1]"
    by (simp add: sample_windows_def read_caller_sid_def caller_token_def user_sid_of_def)
  ultimately show ?thesis
    unfolding is_mine_on_windows_iff using sample_resolved
    by (intro exI [of _ "[1]"] exI [of _ u_path] exI [of _ 9] exI [of _ "0x10"] exI [of _ x_path])
      (simp add: sample_windows_def)
qed


end
