(* ===== verification/Dxgi.thy ===== *)
theory Dxgi
  imports Adapters Windows_Owner
begin

unbundle bit_operations_syntax

text \<open>
  The module \<open>dxgi\<close> of \<open>src/adapters.rs\<close>: the walk over the display adapters, what is kept of each, and the memory of
  this process on one. The calls of DXGI are parameters: an enumeration answers an index with a card, with the end of
  the list or with a failure, and a card may refuse to describe itself.
\<close>

record dxgi_desc =
  dx_description :: wide
  dx_high :: "32 word"
  dx_low :: "32 word"
  dx_memory :: nat
  dx_flags :: "32 word"

datatype dxgi_answer = Card "dxgi_desc option" | No_More_Cards | Dxgi_Failed

definition FLAG_SOFTWARE :: "32 word" where "FLAG_SOFTWARE = 2"

text \<open>A surrogate without its pair is read as \<open>U+FFFD\<close>.\<close>

fun utf16_lossy :: "wide \<Rightarrow> nat list" where
  "utf16_lossy [] = []"
| "utf16_lossy (u # us) =
     (if unat u < 0xD800 \<or> 0xDFFF < unat u then unat u # utf16_lossy us
      else if 0xDC00 \<le> unat u then 0xFFFD # utf16_lossy us
      else (case us of [] \<Rightarrow> [0xFFFD]
        | v # vs \<Rightarrow>
            if 0xDC00 \<le> unat v \<and> unat v \<le> 0xDFFF
            then (0x10000 + (unat u - 0xD800) * 1024 + (unat v - 0xDC00)) # utf16_lossy vs
            else 0xFFFD # utf16_lossy us))"

definition luid_value :: "32 word \<Rightarrow> 32 word \<Rightarrow> 64 word" where
  "luid_value high low = push_bit 32 (scast high) OR ucast low"

definition describe :: "dxgi_desc option \<Rightarrow> adapter_desc option" where
  "describe desc =
     (case desc of
        None \<Rightarrow> None
      | Some d \<Rightarrow>
          (let len = (case position (\<lambda>c. c = 0) (dx_description d) of
               None \<Rightarrow> length (dx_description d) | Some i \<Rightarrow> i)
           in Some \<lparr>ad_luid = sint (luid_value (dx_high d) (dx_low d)),
                ad_name = concat (map utf8_point (utf16_lossy (take len (dx_description d)))),
                ad_vram_mb = dx_memory d div (1024 * 1024),
                ad_software = (dx_flags d AND FLAG_SOFTWARE \<noteq> 0)\<rparr>))"

text \<open>The loop over the indices from \<open>index\<close> on, at most \<open>n\<close> of them.\<close>

fun enumerate_from :: "(nat \<Rightarrow> dxgi_answer) \<Rightarrow> nat \<Rightarrow> nat \<Rightarrow> adapter_desc list option" where
  "enumerate_from get index 0 = Some []"
| "enumerate_from get index (Suc n) =
     (case get index of
        Dxgi_Failed \<Rightarrow> None
      | No_More_Cards \<Rightarrow> Some []
      | Card c \<Rightarrow>
          (case describe c of
             None \<Rightarrow> None
           | Some a \<Rightarrow> map_option ((#) a) (enumerate_from get (Suc index) n)))"

text \<open>\<open>factory\<close> says whether the factory could be made; each enumeration makes its own.\<close>

definition enumerate_adapters :: "bool \<Rightarrow> (nat \<Rightarrow> dxgi_answer) \<Rightarrow> adapter_desc list option" where
  "enumerate_adapters factory get = (if factory then enumerate_from get 0 64 else None)"

definition resolve_by_dxgi ::
  "bool \<Rightarrow> bool \<Rightarrow> (nat \<Rightarrow> dxgi_answer) \<Rightarrow> (nat \<Rightarrow> dxgi_answer) \<Rightarrow> int \<Rightarrow> resolved_adapter option" where
  "resolve_by_dxgi factory factory' by_speed in_order device_id =
     resolve_windows (enumerate_adapters factory by_speed) (enumerate_adapters factory' in_order) device_id"

text \<open>\<open>usage\<close> answers the bytes of this process in the local segment of the adapter at a plain index.\<close>

definition process_vram_bytes :: "bool \<Rightarrow> (nat \<Rightarrow> nat option) \<Rightarrow> int \<Rightarrow> nat option" where
  "process_vram_bytes factory usage plain_index =
     (if plain_index < 0 then None else if factory then usage (nat plain_index) else None)"

section \<open>The walk\<close>

lemma enumerate_from_nth:
  "enumerate_from get k n = Some l \<Longrightarrow> i < length l \<Longrightarrow> \<exists>d. get (k + i) = Card (Some d) \<and> describe (Some d) = Some (l ! i)"
proof (induction n arbitrary: k l i)
  case (Suc n)
  show ?case
  proof (cases "get k")
    case (Card c)
    with Suc.prems obtain a l' where a: "describe c = Some a" "enumerate_from get (Suc k) n = Some l'" "l = a # l'"
      by (auto split: option.splits)
    show ?thesis
    proof (cases i)
      case 0
      with a Card show ?thesis by (cases c) (simp_all add: describe_def)
    next
      case (Suc j)
      with Suc.IH [OF a(2), of j] Suc.prems(2) a(3) show ?thesis by simp
    qed
  qed (use Suc.prems in simp_all)
qed simp

lemma enumerate_from_length: "enumerate_from get k n = Some l \<Longrightarrow> length l \<le> n"
  by (induction n arbitrary: k l) (auto split: dxgi_answer.splits option.splits)

lemma luid_value_inject: "luid_value h l = luid_value h' l' \<longleftrightarrow> h = h' \<and> l = l'"
proof
  assume e: "luid_value h l = luid_value h' l'"
  have "bit l n \<longleftrightarrow> bit l' n" if "n < LENGTH(32)" for n
    using e [THEN arg_cong, of "\<lambda>w. bit w n"] that by (simp add: luid_value_def bit_simps)
  moreover have "bit h n \<longleftrightarrow> bit h' n" if n: "n < LENGTH(32)" for n
  proof -
    have "bit (luid_value a b) (32 + n) \<longleftrightarrow> bit a n" for a b
      using n bit_imp_le_length [of b "32 + n"] by (auto simp: luid_value_def bit_simps)
    then show ?thesis using e by metis
  qed
  ultimately show "h = h' \<and> l = l'" by (auto intro: bit_word_eqI)
qed simp

lemma described_luid:
  "describe (Some d) = Some a \<Longrightarrow> describe (Some e) = Some b \<Longrightarrow>
     ad_luid a = ad_luid b \<longleftrightarrow> dx_high d = dx_high e \<and> dx_low d = dx_low e"
  using luid_value_inject [of "dx_high d" "dx_low d" "dx_high e" "dx_low e"]
  by (auto simp: describe_def Let_def signed_word_eqI)

lemma filter_nth_prefix:
  "d < length (filter P l) \<Longrightarrow> \<exists>i<length l. l ! i = filter P l ! d \<and> P (l ! i) \<and> length (filter P (take i l)) = d"
proof (induction l arbitrary: d)
  case (Cons x l)
  show ?case
  proof (cases "P x")
    case True
    show ?thesis
    proof (cases d)
      case 0
      with True show ?thesis by (intro exI [of _ 0]) simp
    next
      case (Suc c)
      from Cons.prems True Suc have "c < length (filter P l)" by simp
      from Cons.IH [OF this] obtain i where "i < length l" "l ! i = filter P l ! c" "P (l ! i)"
        "length (filter P (take i l)) = c" by blast
      with Suc True show ?thesis by (intro exI [of _ "Suc i"]) simp
    qed
  next
    case False
    with Cons.prems have "d < length (filter P l)" by simp
    from Cons.IH [OF this] obtain i where "i < length l" "l ! i = filter P l ! d" "P (l ! i)"
      "length (filter P (take i l)) = d" by blast
    with False show ?thesis by (intro exI [of _ "Suc i"]) simp
  qed
qed simp

text \<open>
  The configured device reaches its own card. When a device id is resolved, the picker's order has at some index \<open>i\<close> a
  hardware card that exactly as many hardware cards precede as the id says, and the index handed to DirectML is the
  first place of the plain order whose card has the same two halves of the LUID, both kept in full; it is below 64,
  so that no conversion changes it, and the memory that is sampled is the one of that place.
\<close>

theorem device_reaches_its_card:
  assumes "resolve_by_dxgi f f' by_speed in_order device = Some r"
  shows "\<exists>i j d e. by_speed i = Card (Some d) \<and> dx_flags d AND 2 = 0 \<and>
    (\<exists>cards. enumerate_adapters f by_speed = Some cards \<and> int (length (filter (\<lambda>a. \<not> ad_software a) (take i cards))) = device) \<and>
    in_order j = Card (Some e) \<and> dx_high e = dx_high d \<and> dx_low e = dx_low d \<and> j < 64 \<and> ra_dml_device_id r = int j \<and>
    (\<forall>k<j. \<forall>e'. in_order k = Card (Some e') \<longrightarrow> dx_high e' \<noteq> dx_high d \<or> dx_low e' \<noteq> dx_low d) \<and>
    process_vram_bytes True usage (ra_dml_device_id r) = usage j"
proof -
  let ?hw = "filter (\<lambda>a. \<not> ad_software a)"
  from assms obtain hp pl j a where
    hp: "enumerate_adapters f by_speed = Some hp" and pl: "enumerate_adapters f' in_order = Some pl"
    and m: "map_device hp pl (nat device) = Some (j, a)" and dev: "0 \<le> device" and r: "ra_dml_device_id r = as_i32 j"
    by (auto simp: resolve_by_dxgi_def resolve_windows_def split: option.splits if_splits)
  from hp pl have hp': "enumerate_from by_speed 0 64 = Some hp" and pl': "enumerate_from in_order 0 64 = Some pl"
    by (auto simp: enumerate_adapters_def split: if_splits)
  from m [unfolded map_device_links_by_luid [THEN conjunct1]] have dn: "nat device < length (?hw hp)"
    and a: "a = ?hw hp ! nat device" and j: "j < length pl" "ad_luid (pl ! j) = ad_luid a"
    "\<forall>k<j. ad_luid (pl ! k) \<noteq> ad_luid a" by blast+
  from filter_nth_prefix [OF dn] obtain i where i: "i < length hp" "hp ! i = a" "\<not> ad_software a"
    "length (?hw (take i hp)) = nat device" using a by auto
  from enumerate_from_nth [OF hp' i(1)] i(2) obtain d where d: "by_speed i = Card (Some d)" "describe (Some d) = Some a"
    by auto
  from enumerate_from_nth [OF pl' j(1)] obtain e where e: "in_order j = Card (Some e)" "describe (Some e) = Some (pl ! j)"
    by auto
  have flags: "dx_flags d AND 2 = 0" using d(2) i(3) by (auto simp: describe_def Let_def FLAG_SOFTWARE_def)
  have same: "dx_high e = dx_high d \<and> dx_low e = dx_low d" using described_luid [OF e(2) d(2)] j(2) by simp
  have first: "dx_high e' \<noteq> dx_high d \<or> dx_low e' \<noteq> dx_low d" if "k < j" "in_order k = Card (Some e')" for k e'
  proof -
    from enumerate_from_nth [OF pl', of k] that j(1) have "describe (Some e') = Some (pl ! k)" by auto
    from described_luid [OF this d(2)] j(3) that(1) show ?thesis by auto
  qed
  have j64: "j < 64" using j(1) enumerate_from_length [OF pl'] by simp
  then have r': "ra_dml_device_id r = int j" by (simp add: r as_i32_def)
  have count: "int (length (?hw (take i hp))) = device" using i(4) dev by simp
  show ?thesis
    using d(1) flags hp count e(1) same j64 r' first by (intro exI [of _ i] exI [of _ j] exI [of _ d] exI [of _ e])
      (auto simp: process_vram_bytes_def)
qed

text \<open>Two cards in the two orders, the integrated one first in the plain order.\<close>

definition two_cards :: "dxgi_desc list \<Rightarrow> nat \<Rightarrow> dxgi_answer" where
  "two_cards ds i = (if i < length ds then Card (Some (ds ! i)) else No_More_Cards)"

definition plain_card :: "32 word \<Rightarrow> dxgi_desc" where
  "plain_card low = \<lparr>dx_description = [], dx_high = 0, dx_low = low, dx_memory = 0, dx_flags = 0\<rparr>"

lemma device_reaches_its_card_witness:
  "\<exists>r. resolve_by_dxgi True True (two_cards [plain_card 5, plain_card 3]) (two_cards [plain_card 3, plain_card 5]) 0 = Some r \<and>
     process_vram_bytes True (\<lambda>j. Some j) (ra_dml_device_id r) = Some 1"
proof -
  have en: "enumerate_adapters True (two_cards [plain_card x, plain_card y]) =
      Some [the (describe (Some (plain_card x))), the (describe (Some (plain_card y)))]" for x y
  proof -
    have "enumerate_from (two_cards [plain_card x, plain_card y]) 0 (Suc (Suc (Suc n))) =
      Some [the (describe (Some (plain_card x))), the (describe (Some (plain_card y)))]" for n
      by (simp add: two_cards_def describe_def Let_def)
    from this [of 61] show ?thesis by (simp add: enumerate_adapters_def)
  qed
  have ex: "describe (Some d) = Some (the (describe (Some d)))" for d by (simp add: describe_def Let_def)
  have l: "ad_luid (the (describe (Some (plain_card 5)))) \<noteq> ad_luid (the (describe (Some (plain_card 3))))"
    using described_luid [OF ex ex, of "plain_card 5" "plain_card 3"] by (simp add: plain_card_def)
  have s: "\<not> ad_software (the (describe (Some (plain_card 5))))" by (simp add: describe_def Let_def plain_card_def)
  obtain r where r: "resolve_by_dxgi True True (two_cards [plain_card 5, plain_card 3]) (two_cards [plain_card 3, plain_card 5]) 0 = Some r"
    "ra_dml_device_id r = 1"
    using l s by (auto simp: resolve_by_dxgi_def en resolve_windows_def map_device_def as_i32_def)
  from device_reaches_its_card [OF r(1), of "\<lambda>j. Some j"] r show ?thesis by auto
qed

end
