(* ===== verification/Contention.thy ===== *)
theory Contention
  imports Engine_Lock
begin

text \<open>
  One engine under many callers: the steps of \<open>lock_or_refuse\<close> (\<open>src/inference.rs\<close>) and of \<open>InFlightStamp\<close>
  (\<open>src/wedge.rs\<close>) of any number of threads, in any order. A thread polls the engine's mutex, then reads the stamp, then
  the clock, and each of the three may fall between the steps of others; the thread that got the engine stamps it, drops
  the stamp and then the guard, also when it unwinds. The stamp is read with \<open>try_lock\<close>, so a reader may find its mutex
  busy. Beside its step a thread keeps the polls it has made, which ties it to the function \<open>lock_or_refuse\<close>.
\<close>

section \<open>The steps\<close>

datatype 's thread_at =
    Outside
  | Polling nanos "'s poll_view list"
  | Blocked nanos "'s poll_view list" "'s mutex"
  | Seen nanos "'s poll_view list" "'s mutex" "in_flight option mutex"
  | Granted nanos "'s poll_view list"
  | Stamped in_flight
  | Leaving bool
  | Answered nanos "'s poll_view list" engine_wedged

record 's contention =
  ct_engine :: "'s mutex"
  ct_stamp :: "in_flight option mutex"
  ct_now :: nanos
  ct_at :: "nat \<Rightarrow> 's thread_at"

record 's callers =
  ca_discard :: "'s \<Rightarrow> 's"
  ca_what :: string
  ca_policy :: wedge_policy
  ca_patience :: "nat \<Rightarrow> patience"

definition moved :: "nat \<Rightarrow> 's thread_at \<Rightarrow> 's contention \<Rightarrow> 's contention" where
  "moved t a s = s\<lparr>ct_at := (ct_at s)(t := a)\<rparr>"

definition polled :: "'s contention \<Rightarrow> 's poll_view" where
  "polled s = \<lparr>pv_engine = ct_engine s, pv_stamp = ct_stamp s, pv_now = ct_now s, pv_later = ct_now s\<rparr>"

definition answer_of ::
  "'s callers \<Rightarrow> nat \<Rightarrow> nanos \<Rightarrow> 's poll_view list \<Rightarrow> 's poll_view \<Rightarrow> 's thread_at" where
  "answer_of c t since vs v =
     (case lock_or_refuse (ca_discard c) (ca_what c) (ca_policy c) (ca_patience c t) since [v] of
        Refused w \<Rightarrow> Answered since (vs @ [v]) w
      | _ \<Rightarrow> Polling since (vs @ [v]))"

inductive contention_step :: "'s callers \<Rightarrow> 's contention \<Rightarrow> 's contention \<Rightarrow> bool" for c where
  tick: "contention_step c s (s\<lparr>ct_now := ct_now s + d\<rparr>)"
| arrive: "ct_at s t = Outside \<Longrightarrow> contention_step c s (moved t (Polling (ct_now s) []) s)"
| acquire: "ct_at s t = Polling since vs \<Longrightarrow> try_lock (ct_engine s) = Acquired slot \<Longrightarrow>
    contention_step c s (moved t (Granted since (vs @ [polled s])) (s\<lparr>ct_engine := (ct_engine s)\<lparr>mx_held := True\<rparr>\<rparr>))"
| heal: "ct_at s t = Polling since vs \<Longrightarrow> try_lock (ct_engine s) = Poisoned slot \<Longrightarrow>
    contention_step c s (moved t (Granted since (vs @ [polled s]))
      (s\<lparr>ct_engine := \<lparr>mx_val = ca_discard c slot, mx_held = True, mx_poisoned = False\<rparr>\<rparr>))"
| block: "ct_at s t = Polling since vs \<Longrightarrow> try_lock (ct_engine s) = WouldBlock \<Longrightarrow>
    contention_step c s (moved t (Blocked since vs (ct_engine s)) s)"
| look: "ct_at s t = Blocked since vs m \<Longrightarrow> contention_step c s (moved t (Seen since vs m (ct_stamp s)) s)"
| look_busy: "ct_at s t = Blocked since vs m \<Longrightarrow>
    contention_step c s (moved t (Seen since vs m ((ct_stamp s)\<lparr>mx_held := True\<rparr>)) s)"
| judge: "ct_at s t = Seen since vs m p \<Longrightarrow>
    contention_step c s (moved t
      (answer_of c t since vs \<lparr>pv_engine = m, pv_stamp = p, pv_now = ct_now s, pv_later = ct_now s + d\<rparr>)
      (s\<lparr>ct_now := ct_now s + d\<rparr>))"
| enter: "(\<exists>since vs. ct_at s t = Granted since vs) \<or> (\<exists>h. ct_at s t = Stamped h) \<Longrightarrow>
    h' = \<lparr>if_phase = ph, if_label = label, if_since = ct_now s\<rparr> \<Longrightarrow>
    contention_step c s (moved t (Stamped h') (s\<lparr>ct_stamp := write_inflight (Some h') (ct_stamp s)\<rparr>))"
| unstamp: "(\<exists>since vs. ct_at s t = Granted since vs) \<or> (\<exists>h. ct_at s t = Stamped h) \<Longrightarrow>
    contention_step c s (moved t (Leaving unwinds) (s\<lparr>ct_stamp := write_inflight None (ct_stamp s)\<rparr>))"
| release: "ct_at s t = Leaving unwinds \<Longrightarrow>
    contention_step c s (moved t Outside (s\<lparr>ct_engine := \<lparr>mx_val = left, mx_held = False, mx_poisoned = unwinds\<rparr>\<rparr>))"
| release_unstamped: "ct_at s t = Granted since vs \<Longrightarrow>
    contention_step c s (moved t Outside (s\<lparr>ct_engine := \<lparr>mx_val = left, mx_held = False, mx_poisoned = unwinds\<rparr>\<rparr>))"
| return: "ct_at s t = Answered since vs w \<Longrightarrow> contention_step c s (moved t Outside s)"

definition uncontended :: "'s \<Rightarrow> 's contention" where
  "uncontended slot = \<lparr>ct_engine = new_mutex slot, ct_stamp = new_mutex None, ct_now = 0, ct_at = (\<lambda>t. Outside)\<rparr>"

inductive reached :: "'s callers \<Rightarrow> 's \<Rightarrow> 's contention \<Rightarrow> bool" for c slot where
  start: "reached c slot (uncontended slot)"
| step: "reached c slot s \<Longrightarrow> contention_step c s s' \<Longrightarrow> reached c slot s'"

section \<open>The engine and its stamp\<close>

fun holds :: "'s thread_at \<Rightarrow> bool" where
  "holds (Granted since vs) = True"
| "holds (Stamped h) = True"
| "holds (Leaving unwinds) = True"
| "holds _ = False"

text \<open>
  At most one thread holds the engine, its mutex says whether one does, and it is not poisoned meanwhile; the stamp is
  there exactly while a thread is in its stamped part, and it is that thread's, made in the past.
\<close>

definition contention_inv :: "'s contention \<Rightarrow> bool" where
  "contention_inv s \<longleftrightarrow>
     (\<forall>t u. holds (ct_at s t) \<longrightarrow> holds (ct_at s u) \<longrightarrow> t = u) \<and>
     (mx_held (ct_engine s) \<longleftrightarrow> (\<exists>t. holds (ct_at s t))) \<and>
     (mx_held (ct_engine s) \<longrightarrow> \<not> mx_poisoned (ct_engine s)) \<and>
     \<not> mx_held (ct_stamp s) \<and> \<not> mx_poisoned (ct_stamp s) \<and>
     (\<forall>h. mx_val (ct_stamp s) = Some h \<longleftrightarrow> (\<exists>t. ct_at s t = Stamped h)) \<and>
     (\<forall>t h. ct_at s t = Stamped h \<longrightarrow> if_since h \<le> ct_now s)"

lemma moved_simps [simp]:
  "ct_at (moved t a s) = (ct_at s)(t := a)" "ct_engine (moved t a s) = ct_engine s"
  "ct_stamp (moved t a s) = ct_stamp s" "ct_now (moved t a s) = ct_now s"
  by (simp_all add: moved_def)

lemma invD:
  assumes "contention_inv s"
  shows "holds (ct_at s t) \<Longrightarrow> holds (ct_at s u) \<Longrightarrow> t = u"
    and "mx_held (ct_engine s) \<longleftrightarrow> (\<exists>t. holds (ct_at s t))"
    and "mx_held (ct_engine s) \<Longrightarrow> \<not> mx_poisoned (ct_engine s)"
    and "\<not> mx_held (ct_stamp s)" "\<not> mx_poisoned (ct_stamp s)"
    and "mx_val (ct_stamp s) = Some h \<longleftrightarrow> (\<exists>t. ct_at s t = Stamped h)"
    and "ct_at s t = Stamped h \<Longrightarrow> if_since h \<le> ct_now s"
  using assms unfolding contention_inv_def by blast+

lemma inv_idle:
  assumes "contention_inv s" and "\<not> holds (ct_at s t)" and "\<not> holds a" and "ct_now s \<le> n"
  shows "contention_inv (moved t a (s\<lparr>ct_now := n\<rparr>))"
proof -
  let ?s = "moved t a (s\<lparr>ct_now := n\<rparr>)"
  have "ct_at s t \<noteq> Stamped h" "a \<noteq> Stamped h" for h using assms(2,3) by auto
  then have same: "holds (ct_at ?s u) = holds (ct_at s u)" "ct_at ?s u = Stamped h \<longleftrightarrow> ct_at s u = Stamped h" for u h
    using assms(2,3) by auto
  have keep: "ct_engine ?s = ct_engine s" "ct_stamp ?s = ct_stamp s" "ct_now ?s = n" by simp_all
  show ?thesis using assms(1,4) unfolding contention_inv_def same keep by (meson le_trans)
qed

lemma inv_gain:
  assumes "contention_inv s" and "\<not> mx_held (ct_engine s)" and "mx_held m" and "\<not> mx_poisoned m"
  shows "contention_inv (moved t (Granted since vs) (s\<lparr>ct_engine := m\<rparr>))"
proof -
  have none: "\<not> holds (ct_at s u)" for u using invD(2) [OF assms(1)] assms(2) by blast
  then have "ct_at s u \<noteq> Stamped h" for u h by (metis holds.simps(2))
  with none show ?thesis using assms unfolding contention_inv_def by auto
qed

lemma inv_enter:
  assumes "contention_inv s" and "holds (ct_at s t)" and "if_since h = ct_now s"
  shows "contention_inv (moved t (Stamped h) (s\<lparr>ct_stamp := write_inflight (Some h) (ct_stamp s)\<rparr>))"
proof -
  have only: "u = t" if "holds (ct_at s u)" for u using invD(1) [OF assms(1) that assms(2)] .
  then have "ct_at s u = Stamped g \<Longrightarrow> u = t" for u g by (metis holds.simps(2))
  with only show ?thesis using assms unfolding contention_inv_def by (auto simp: write_inflight_def)
qed

lemma inv_unstamp:
  assumes "contention_inv s" and "holds (ct_at s t)"
  shows "contention_inv (moved t (Leaving unwinds) (s\<lparr>ct_stamp := write_inflight None (ct_stamp s)\<rparr>))"
proof -
  have only: "u = t" if "holds (ct_at s u)" for u using invD(1) [OF assms(1) that assms(2)] .
  then have "ct_at s u = Stamped g \<Longrightarrow> u = t" for u g by (metis holds.simps(2))
  with only show ?thesis using assms unfolding contention_inv_def by (auto simp: write_inflight_def)
qed

lemma inv_release:
  assumes "contention_inv s" and "holds (ct_at s t)" and "\<And>h. ct_at s t \<noteq> Stamped h"
  shows "contention_inv (moved t Outside (s\<lparr>ct_engine := \<lparr>mx_val = left, mx_held = False, mx_poisoned = unwinds\<rparr>\<rparr>))"
proof -
  have only: "u = t" if "holds (ct_at s u)" for u using invD(1) [OF assms(1) that assms(2)] .
  then have "ct_at s u \<noteq> Stamped g" for u g using assms(3) by (metis holds.simps(2))
  with only show ?thesis using assms unfolding contention_inv_def by (auto simp: fun_upd_def)
qed

lemma inv_step: "contention_step c s s' \<Longrightarrow> contention_inv s \<Longrightarrow> contention_inv s'"
proof (induction rule: contention_step.induct)
  case (tick s d)
  then show ?case unfolding contention_inv_def by (simp add: trans_le_add1)
next
  case (judge s t since vs m p d)
  moreover have "\<not> holds (answer_of c t since vs v)" for v by (simp add: answer_of_def split: lock_answer.split)
  ultimately show ?case by (intro inv_idle) simp_all
next
  case (acquire s t since vs slot)
  then show ?case by (intro inv_gain) (auto simp: try_lock_def split: if_splits)
next
  case (heal s t since vs slot)
  then show ?case by (intro inv_gain) (auto simp: try_lock_def split: if_splits)
next
  case (enter s t h' ph label)
  then have "holds (ct_at s t)" by auto
  with enter show ?case by (intro inv_enter) auto
next
  case (unstamp s t unwinds)
  then have "holds (ct_at s t)" by auto
  with unstamp show ?case by (intro inv_unstamp)
next
  case (release s t unwinds left)
  then show ?case by (intro inv_release) auto
next
  case (release_unstamped s t since vs left unwinds)
  then show ?case by (intro inv_release) auto
qed (use inv_idle [of _ _ _ "ct_now _"] in \<open>force\<close>)+

lemma inv_reached: "reached c slot s \<Longrightarrow> contention_inv s"
proof (induction rule: reached.induct)
  case start
  show ?case by (simp add: contention_inv_def uncontended_def)
next
  case (step s s')
  then show ?case using inv_step by blast
qed

text \<open>
  C10: The engine and its stamp under every interleaving. In every reachable state at most one thread is between getting the
  engine and giving it back; the mutex is held exactly then, and a stamp stands exactly while some thread is in its
  stamped part: no stamp outlives its hold, whether the holder returned or unwound.
\<close>

theorem stamp_never_outlives_its_hold:
  assumes "reached c slot s"
  shows "(\<forall>t u. holds (ct_at s t) \<longrightarrow> holds (ct_at s u) \<longrightarrow> t = u) \<and>
    (mx_held (ct_engine s) \<longleftrightarrow> (\<exists>t. holds (ct_at s t))) \<and>
    (\<forall>h. inflight_now (ct_stamp s) = Some h \<longleftrightarrow> (\<exists>t. ct_at s t = Stamped h)) \<and>
    (\<not> mx_held (ct_engine s) \<longrightarrow> inflight_now (ct_stamp s) = None)"
proof -
  from inv_reached [OF assms] have inv: "contention_inv s" .
  have stamp: "inflight_now (ct_stamp s) = Some h \<longleftrightarrow> (\<exists>t. ct_at s t = Stamped h)" for h
    using inv unfolding contention_inv_def by (auto simp: inflight_now_def try_lock_ok_def try_lock_def)
  have "inflight_now (ct_stamp s) = None" if free: "\<not> mx_held (ct_engine s)"
  proof (rule ccontr)
    assume "inflight_now (ct_stamp s) \<noteq> None"
    then obtain h t where "ct_at s t = Stamped h" using stamp by blast
    then have "holds (ct_at s t)" by simp
    with free invD(2) [OF inv] show False by blast
  qed
  with stamp show ?thesis using inv unfolding contention_inv_def by blast
qed

text \<open>
  A thread that reads a stamp reads the one of the thread that holds the engine at that moment, and not its own.
\<close>

lemma reading_names_the_holder:
  assumes "reached c slot s" and "ct_at s t = Blocked since vs m" and "inflight_now (ct_stamp s) = Some h"
  shows "\<exists>u. u \<noteq> t \<and> ct_at s u = Stamped h \<and> mx_held (ct_engine s) \<and> if_since h \<le> ct_now s"
proof -
  from inv_reached [OF assms(1)] have inv: "contention_inv s" .
  from assms(3) have "mx_val (ct_stamp s) = Some h"
    by (auto simp: inflight_now_def try_lock_ok_def try_lock_def split: if_splits)
  then obtain u where "ct_at s u = Stamped h" using invD(6) [OF inv] by blast
  moreover from this have "mx_held (ct_engine s)" unfolding invD(2) [OF inv] by (intro exI [of _ u]) simp
  moreover have "u \<noteq> t" using calculation(1) assms(2) by auto
  ultimately show ?thesis using invD(7) [OF inv] by blast
qed

section \<open>The steps and the function\<close>

text \<open>What the polls of a thread say so far is what \<open>lock_or_refuse\<close> answers on them.\<close>

definition thread_ok :: "'s callers \<Rightarrow> nat \<Rightarrow> 's thread_at \<Rightarrow> bool" where
  "thread_ok c t a \<longleftrightarrow>
     (case a of
        Polling since vs \<Rightarrow> lock_or_refuse (ca_discard c) (ca_what c) (ca_policy c) (ca_patience c t) since vs = Still_Waiting
      | Blocked since vs m \<Rightarrow> try_lock m = WouldBlock \<and>
          lock_or_refuse (ca_discard c) (ca_what c) (ca_policy c) (ca_patience c t) since vs = Still_Waiting
      | Seen since vs m p \<Rightarrow> try_lock m = WouldBlock \<and>
          lock_or_refuse (ca_discard c) (ca_what c) (ca_policy c) (ca_patience c t) since vs = Still_Waiting
      | Granted since vs \<Rightarrow>
          (\<exists>slot. lock_or_refuse (ca_discard c) (ca_what c) (ca_policy c) (ca_patience c t) since vs = Locked slot)
      | Answered since vs w \<Rightarrow>
          lock_or_refuse (ca_discard c) (ca_what c) (ca_policy c) (ca_patience c t) since vs = Refused w
      | _ \<Rightarrow> True)"

lemma lock_appends:
  assumes "lock_or_refuse d w pol pat since vs = Still_Waiting"
  shows "lock_or_refuse d w pol pat since (vs @ us) = lock_or_refuse d w pol pat since us"
  using assms unfolding still_waiting_iff by (rule lock_skips)

lemma answer_of_ok:
  assumes "lock_or_refuse (ca_discard c) (ca_what c) (ca_policy c) (ca_patience c t) since vs = Still_Waiting"
    and "try_lock (pv_engine v) = WouldBlock"
  shows "thread_ok c t (answer_of c t since vs v)"
proof -
  let ?l = "lock_or_refuse (ca_discard c) (ca_what c) (ca_policy c) (ca_patience c t) since"
  have "?l (vs @ [v]) = ?l [v]" by (rule lock_appends [OF assms(1)])
  moreover have "?l [v] \<noteq> Locked slot" for slot
    using assms(2) by (auto simp: Let_def split: prod.splits if_splits patience.splits)
  ultimately show ?thesis by (auto simp: thread_ok_def answer_of_def split: lock_answer.split)
qed

lemma thread_ok_step:
  "contention_step c s s' \<Longrightarrow> (\<And>t. thread_ok c t (ct_at s t)) \<Longrightarrow> thread_ok c t (ct_at s' t)"
proof (induction rule: contention_step.induct)
  case (judge s u since vs m p d)
  from judge(2) [of u] judge(1) have "thread_ok c u (Seen since vs m p)" by simp
  then show ?case using judge(2) by (auto simp: thread_ok_def intro: answer_of_ok [unfolded thread_ok_def])
next
  case (acquire s u since vs slot)
  from acquire(3) [of u] acquire(1) have "thread_ok c u (Polling since vs)" by simp
  then have "thread_ok c u (Granted since (vs @ [polled s]))"
    using acquire(2) by (simp add: thread_ok_def lock_appends polled_def del: lock_or_refuse.simps) (simp add: polled_def)
  then show ?case using acquire(3) by simp
next
  case (heal s u since vs slot)
  from heal(3) [of u] heal(1) have "thread_ok c u (Polling since vs)" by simp
  then have "thread_ok c u (Granted since (vs @ [polled s]))"
    using heal(2) by (simp add: thread_ok_def lock_appends polled_def del: lock_or_refuse.simps) (simp add: polled_def)
  then show ?case using heal(3) by simp
next
  case (block s u since vs)
  from block(3) [of u] block(1) have "thread_ok c u (Polling since vs)" by simp
  then show ?case using block(2,3) by (simp add: thread_ok_def)
next
  case (look s u since vs m)
  from look(2) [of u] look(1) have "thread_ok c u (Blocked since vs m)" by simp
  then show ?case using look(2) by (simp add: thread_ok_def)
next
  case (look_busy s u since vs m)
  from look_busy(2) [of u] look_busy(1) have "thread_ok c u (Blocked since vs m)" by simp
  then show ?case using look_busy(2) by (simp add: thread_ok_def)
qed (simp_all add: thread_ok_def)


section \<open>Two races\<close>

definition contention_at ::
  "'s mutex \<Rightarrow> in_flight option mutex \<Rightarrow> nanos \<Rightarrow> (nat \<Rightarrow> 's thread_at) \<Rightarrow> 's contention" where
  "contention_at e p now at = \<lparr>ct_engine = e, ct_stamp = p, ct_now = now, ct_at = at\<rparr>"

definition first_pass :: in_flight where
  "first_pass = \<lparr>if_phase = Running, if_label = ''pass'', if_since = 0\<rparr>"

lemma contention_at_simps [simp]:
  "ct_engine (contention_at e p now at) = e" "ct_stamp (contention_at e p now at) = p"
  "ct_now (contention_at e p now at) = now" "ct_at (contention_at e p now at) = at"
  "moved t a (contention_at e p now at) = contention_at e p now (at(t := a))"
  "(contention_at e p now at)\<lparr>ct_engine := e'\<rparr> = contention_at e' p now at"
  "(contention_at e p now at)\<lparr>ct_stamp := p'\<rparr> = contention_at e p' now at"
  "(contention_at e p now at)\<lparr>ct_now := now'\<rparr> = contention_at e p now' at"
  "polled (contention_at e p now at) = \<lparr>pv_engine = e, pv_stamp = p, pv_now = now, pv_later = now\<rparr>"
  by (simp_all add: contention_at_def moved_def polled_def)

lemma race_mutexes [simp]:
  "write_inflight r (new_mutex q) = new_mutex r"
  "\<lparr>mx_val = slot, mx_held = False, mx_poisoned = False\<rparr> = new_mutex slot"
  "try_lock (new_mutex slot) = Acquired slot" "try_lock ((new_mutex slot)\<lparr>mx_held := True\<rparr>) = WouldBlock"
  by (simp_all add: write_inflight_def new_mutex_def try_lock_def)

text \<open>Thread 0 has been in its pass since the start, thread 1 waits as long.\<close>

lemma first_pass_reached:
  "reached c slot (contention_at ((new_mutex slot)\<lparr>mx_held := True\<rparr>) (new_mutex (Some first_pass)) n
     ((\<lambda>t. Outside)(0 := Stamped first_pass, 1 := Polling 0 [])))"
proof -
  let ?free = "new_mutex slot" and ?held = "(new_mutex slot)\<lparr>mx_held := True\<rparr>" and ?out = "\<lambda>t :: nat. Outside"
  let ?v = "\<lparr>pv_engine = ?free, pv_stamp = new_mutex None, pv_now = 0, pv_later = 0\<rparr>"
  have "reached c slot (contention_at ?free (new_mutex None) 0 ?out)"
    using reached.start [of c slot] by (simp add: contention_at_def uncontended_def)
  from reached.step [OF this contention_step.arrive [of _ 0]]
  have "reached c slot (contention_at ?free (new_mutex None) 0 (?out(0 := Polling 0 [])))" by simp
  from reached.step [OF this contention_step.acquire [of _ 0 0 "[]" slot]]
  have "reached c slot (contention_at ?held (new_mutex None) 0 (?out(0 := Granted 0 [?v])))" by simp
  from reached.step [OF this contention_step.enter [of _ 0 first_pass Running "''pass''"]]
  have "reached c slot (contention_at ?held (new_mutex (Some first_pass)) 0 (?out(0 := Stamped first_pass)))"
    by (simp add: first_pass_def)
  from reached.step [OF this contention_step.arrive [of _ 1]]
  have "reached c slot (contention_at ?held (new_mutex (Some first_pass)) 0 (?out(0 := Stamped first_pass, 1 := Polling 0 [])))"
    by simp
  from reached.step [OF this contention_step.tick [of _ _ n]] show ?thesis by simp
qed

text \<open>Thread 0 gives the engine back and thread 2 gets it, at the time \<open>n\<close>.\<close>

lemma handover_reached:
  "reached c slot (contention_at ((new_mutex slot)\<lparr>mx_held := True\<rparr>) (new_mutex None) n
     ((\<lambda>t. Outside)(1 := Polling 0 [], 0 := Outside, 2 := Granted n
        [\<lparr>pv_engine = new_mutex slot, pv_stamp = new_mutex None, pv_now = n, pv_later = n\<rparr>])))"
proof -
  let ?free = "new_mutex slot" and ?held = "(new_mutex slot)\<lparr>mx_held := True\<rparr>" and ?out = "\<lambda>t :: nat. Outside"
  from reached.step [OF first_pass_reached contention_step.unstamp [of _ 0 _ False]]
  have "reached c slot (contention_at ?held (new_mutex None) n (?out(1 := Polling 0 [], 0 := Leaving False)))" by simp
  from reached.step [OF this contention_step.release [of _ 0 False _ slot]]
  have "reached c slot (contention_at ?free (new_mutex None) n (?out(1 := Polling 0 [], 0 := Outside)))" by simp
  from reached.step [OF this contention_step.arrive [of _ 2]]
  have "reached c slot (contention_at ?free (new_mutex None) n (?out(1 := Polling 0 [], 0 := Outside, 2 := Polling n [])))"
    by simp
  from reached.step [OF this contention_step.acquire [of _ 2 n "[]" slot]] show ?thesis by simp
qed

text \<open>A caller that has waited \<open>running_after\<close> and reads no stamp is refused.\<close>

lemma unstamped_answer:
  assumes "ca_patience c t = Until_The_Holder_Is_Wedged" and "try_lock m = WouldBlock" and "inflight_now p = None"
    and "now = running_after (ca_policy c)"
  shows "answer_of c t 0 [] \<lparr>pv_engine = m, pv_stamp = p, pv_now = now, pv_later = now\<rparr> =
    Answered 0 [\<lparr>pv_engine = m, pv_stamp = p, pv_now = now, pv_later = now\<rparr>]
      \<lparr>ew_what = ca_what c, ew_activity = [], ew_elapsed = now, ew_wedged = True\<rparr>"
  using assms by (simp add: answer_of_def holder_view_def elapsed_def)

text \<open>
  A healthy engine is refused as WEDGED in a real run. For every ceiling there are interleavings in which one caller
  holds the engine for less than \<open>running_after\<close> and gives it back, a second one gets it a nanosecond before the clock
  reaches the ceiling, and a third, which has waited since the start, polls before the second has stamped: it is
  refused with the wedge verdict and no activity, while the engine has just changed hands.
\<close>

theorem healthy_engine_is_refused_in_a_race:
  assumes "0 < running_after (ca_policy c)" and "ca_patience c 1 = Until_The_Holder_Is_Wedged"
  shows "\<exists>s vs us w. reached c slot s \<and> ct_now s = running_after (ca_policy c) \<and>
    ct_at s 1 = Answered 0 vs w \<and> ew_wedged w \<and> ew_activity w = [] \<and> ct_at s 2 = Granted (ct_now s - 1) us"
proof -
  define n where "n = running_after (ca_policy c)"
  let ?held = "(new_mutex slot)\<lparr>mx_held := True\<rparr>" and ?out = "\<lambda>t :: nat. Outside"
  let ?u = "\<lparr>pv_engine = new_mutex slot, pv_stamp = new_mutex None, pv_now = n - 1, pv_later = n - 1\<rparr>"
  from reached.step [OF handover_reached [of c slot "n - 1"] contention_step.tick [of _ _ 1]]
  have "reached c slot (contention_at ?held (new_mutex None) n (?out(1 := Polling 0 [], 0 := Outside, 2 := Granted (n - 1) [?u])))"
    using assms(1) by (simp add: n_def)
  from reached.step [OF this contention_step.block [of _ 1 0 "[]"]]
  have "reached c slot (contention_at ?held (new_mutex None) n
      (?out(0 := Outside, 2 := Granted (n - 1) [?u], 1 := Blocked 0 [] ?held)))" by simp
  from reached.step [OF this contention_step.look [of _ 1 0 "[]" ?held]]
  have "reached c slot (contention_at ?held (new_mutex None) n
      (?out(0 := Outside, 2 := Granted (n - 1) [?u], 1 := Seen 0 [] ?held (new_mutex None))))" by simp
  from reached.step [OF this contention_step.judge [of _ 1 0 "[]" ?held "new_mutex None" _ 0]]
  have "reached c slot (contention_at ?held (new_mutex None) n (?out(0 := Outside, 2 := Granted (n - 1) [?u],
      1 := answer_of c 1 0 [] \<lparr>pv_engine = ?held, pv_stamp = new_mutex None, pv_now = n, pv_later = n\<rparr>)))"
    by simp
  moreover have "answer_of c 1 0 [] \<lparr>pv_engine = ?held, pv_stamp = new_mutex None, pv_now = n, pv_later = n\<rparr> =
    Answered 0 [\<lparr>pv_engine = ?held, pv_stamp = new_mutex None, pv_now = n, pv_later = n\<rparr>]
      \<lparr>ew_what = ca_what c, ew_activity = [], ew_elapsed = n, ew_wedged = True\<rparr>"
    by (rule unstamped_answer [OF assms(2)]) (simp_all add: n_def inflight_now_def mutex_simps)
  ultimately show ?thesis unfolding n_def [symmetric] by (intro exI conjI) (assumption | simp)+
qed


section \<open>Witnesses\<close>

definition sample_callers :: "nat option callers" where
  "sample_callers = \<lparr>ca_discard = option_discard_all, ca_what = ''rerank'', ca_policy = sample_policy,
     ca_patience = (\<lambda>t. Until_The_Holder_Is_Wedged)\<rparr>"

lemma stamp_never_outlives_its_hold_witness:
  "inflight_now (ct_stamp (contention_at ((new_mutex (Some (1 :: nat)))\<lparr>mx_held := True\<rparr>) (new_mutex (Some first_pass)) 5
     ((\<lambda>t. Outside)(0 := Stamped first_pass, 1 := Polling 0 [])))) = Some first_pass"
  (is "inflight_now (ct_stamp ?s) = Some first_pass")
proof -
  have "inflight_now (ct_stamp ?s) = Some first_pass \<longleftrightarrow> (\<exists>t. ct_at ?s t = Stamped first_pass)"
    using stamp_never_outlives_its_hold [OF first_pass_reached [of sample_callers "Some 1" 5]] by blast
  moreover have "ct_at ?s 0 = Stamped first_pass" by simp
  ultimately show ?thesis by blast
qed


lemma sample_callers_wait: "0 < running_after (ca_policy sample_callers)" "ca_patience sample_callers 1 = Until_The_Holder_Is_Wedged"
  by (simp_all add: sample_callers_def sample_policy_def)

lemma healthy_engine_is_refused_in_a_race_witness:
  "\<exists>s vs w. reached sample_callers (Some 1) s \<and> ct_at s 1 = Answered 0 vs w \<and> ew_wedged w \<and> ew_activity w = []"
  using healthy_engine_is_refused_in_a_race [OF sample_callers_wait, of "Some 1"]
  by (elim exE conjE) (intro exI conjI; assumption)


end
