(* ===== verification/Log_Start.thy ===== *)
theory Log_Start
  imports Log_Segments Env
begin

text \<open>
  The first steps of \<open>main\<close> in \<open>src/main.rs\<close>: where the log of this run goes and what retention removes, both from one
  reading of the environment and of the clock. \<open>listing\<close> gives the entries of a directory.
\<close>

definition log_prefix :: "environment \<Rightarrow> string" where
  "log_prefix env = ''bge-sidecar-device'' @ show_int (env_parse parse_i32 env ''ORT_DEVICE_ID'' 0)"

definition start_log ::
  "environment \<Rightarrow> (string \<Rightarrow> bool) \<Rightarrow> nat \<Rightarrow> nat \<Rightarrow> (string \<Rightarrow> log_entry list option) \<Rightarrow>
     day_segments option \<times> string \<times> string list" where
  "start_log env opens pid now listing =
     (let log_dir = env_str env ''SIDECAR_LOG_DIR'' ''logs'';
          (segments, log_path) = segments_open opens pid log_dir (log_prefix env) now;
          retention_days = env_parse (parse_unsigned (2 ^ 64 - 1)) env ''SIDECAR_LOG_RETENTION_DAYS'' default_retention_days
      in (segments, log_path, retire_day_folders (listing log_dir) retention_days now))"

lemma retired_is_expired:
  assumes "name \<in> set (retire_day_folders dir days now)"
  shows "0 < days \<and> day_expired ((now div DAY - days) * DAY) name"
  using assms by (auto simp: retire_day_folders_def Let_def split: if_splits option.splits)

lemma not_retired:
  assumes "t div DAY < last_written_day" and "now div DAY \<le> t div DAY + days"
  shows "fst (day_and_clock t) \<notin> set (retire_day_folders dir days now)"
proof
  assume "fst (day_and_clock t) \<in> set (retire_day_folders dir days now)"
  from retired_is_expired [OF this] utc.expired_iff [OF assms(1), of now days] assms(2)
  show False by (simp add: day_expired_def)
qed

text \<open>
  A start never removes the log of its own run. Whatever the environment says, down to a retention of one day, the
  folder that the run's first file stands in is kept, and so is that of every later segment and of every other day
  from the start on; and nothing at all is removed when retention is switched off with a zero.
\<close>

theorem start_keeps_its_own_log:
  assumes "start_log env opens pid now listing = (segments, log_path, retired)"
    and "now div DAY \<le> t div DAY" and "t div DAY < last_written_day"
  shows "fst (day_and_clock t) \<notin> set retired \<and>
    log_path = env_str env ''SIDECAR_LOG_DIR'' ''logs'' @ ''/'' @ fst (day_and_clock now) @ ''/'' @ log_prefix env @ ''-'' @
      snd (day_and_clock now) @ ''-'' @ show_nat pid @ ''.log'' \<and>
    (env ''SIDECAR_LOG_RETENTION_DAYS'' = Some ''0'' \<longrightarrow> retired = [])"
proof -
  let ?days = "env_parse (parse_unsigned (2 ^ 64 - 1)) env ''SIDECAR_LOG_RETENTION_DAYS'' default_retention_days"
  let ?dir = "env_str env ''SIDECAR_LOG_DIR'' ''logs''"
  from assms(1) have r: "retired = retire_day_folders (listing ?dir) ?days now"
    and p: "log_path = snd (segments_open opens pid ?dir (log_prefix env) now)"
    by (auto simp: start_log_def Let_def split: prod.splits)
  have "fst (day_and_clock t) \<notin> set retired" unfolding r by (rule not_retired) (use assms in simp_all)
  moreover have "retired = []" if "env ''SIDECAR_LOG_RETENTION_DAYS'' = Some ''0''"
  proof -
    have "show_nat 0 = ''0''" by code_simp
    with env_parse_number [of env "''SIDECAR_LOG_RETENTION_DAYS''" 0 "2 ^ 64 - 1"] that have "?days = 0" by simp
    then show ?thesis by (simp add: r retire_day_folders_def)
  qed
  ultimately show ?thesis by (simp add: p segments_open_def segment_path_def Let_def)
qed

lemma start_keeps_its_own_log_witness:
  "fst (day_and_clock 86400) \<notin> set (snd (snd (start_log Map.empty (\<lambda>p. True) 1 86400 (\<lambda>d. Some [midday_entry]))))"
proof -
  obtain a b c where "start_log Map.empty (\<lambda>p. True) 1 86400 (\<lambda>d. Some [midday_entry]) = (a, b, c)"
    by (metis prod.exhaust)
  with start_keeps_its_own_log [OF this, of 86400] show ?thesis by (simp add: DAY_def last_written_day_def)
qed

end
