(* ===== verification/Pooled_Output.thy ===== *)
theory Pooled_Output
  imports Lexical_Head
begin

text \<open>
  How the single-head engines of the vendored \<open>fastembed\<close> turn the outputs of a session into vectors: the choice of
  an output by an order of precedence (\<open>output/output_precedence.rs\<close>, \<open>output/embedding_output.rs\<close>,
  \<open>text_embedding/output.rs\<close>) and the pooling of its token vectors (\<open>pooling.rs\<close>). \<open>ort\<close> promises as many values
  as the shape has places; a slice that leaves the tensor is a panic.
\<close>

section \<open>Which output\<close>

datatype output_key = Only_One | By_Order nat | By_Name string

text \<open>The outputs of one run, with the attention mask that went in.\<close>

record single_batch_output =
  sb_outputs :: session_outputs
  sb_attention_mask :: "int array2"

fun find_map :: "('a \<Rightarrow> 'b option) \<Rightarrow> 'a list \<Rightarrow> 'b option" where
  "find_map f [] = None"
| "find_map f (x # xs) = (case f x of None \<Rightarrow> find_map f xs | Some y \<Rightarrow> Some y)"

definition output_for :: "session_outputs \<Rightarrow> output_key \<Rightarrow> ort_value option" where
  "output_for outs key =
     (case key of
        Only_One \<Rightarrow> if length outs = 1 then map_option snd (nth_opt outs 0) else None
      | By_Order i \<Rightarrow> map_option snd (nth_opt outs i)
      | By_Name name \<Rightarrow> map_option snd (List.find (\<lambda>(n, v). n = name) outs))"

definition select_output ::
  "('i, 'e) onnx_model \<Rightarrow> output_key list \<Rightarrow> single_batch_output \<Rightarrow> (app_error, nat list \<times> f32 list) outcome" where
  "select_output om precedence sb =
     (case find_map (output_for (sb_outputs sb)) precedence of
        None \<Rightarrow> Err (Message (''No suitable output found in the outputs. Available outputs: ''
          @ om_show_names om (map fst (sb_outputs sb))))
      | Some v \<Rightarrow> extract_tensor om v)"

section \<open>Pooling\<close>

datatype pooling = Cls | Mean

definition default_pooling :: pooling where
  "default_pooling = Cls"

definition bad_rank :: "('i, 'e) onnx_model \<Rightarrow> nat list \<Rightarrow> app_error" where
  "bad_rank om shape = Message (''Invalid output shape: '' @ om_show_shape om shape @ ''. Expected 2D or 3D tensor.'')"

definition or_panic :: "'a option \<Rightarrow> (app_error, 'a) outcome" where
  "or_panic v = (case v of None \<Rightarrow> Panic | Some x \<Rightarrow> Ok x)"

text \<open>The rows of a tensor of two dimensions.\<close>

definition tensor_rows :: "nat \<Rightarrow> nat \<Rightarrow> f32 list \<Rightarrow> f32 list list option" where
  "tensor_rows n width data =
     collect_options (map (\<lambda>row. slice_range (row * width) (Suc row * width) data) [0 ..< n])"

definition cls_pool :: "('i, 'e) onnx_model \<Rightarrow> nat list \<times> f32 list \<Rightarrow> (app_error, f32 list list) outcome" where
  "cls_pool om = (\<lambda>(shape, data).
     case shape of
       [n, width] \<Rightarrow> or_panic (tensor_rows n width data)
     | [n, len, width] \<Rightarrow>
         if len = 0 then Panic else or_panic (collect_options (map (\<lambda>b. hidden_at shape data b 0) [0 ..< n]))
     | _ \<Rightarrow> Err (bad_rank om shape))"

text \<open>
  The mean of the token vectors under the mask. The mask is broadcast as \<open>ndarray\<close> does it: an axis of length one is
  repeated. The sums run over the positions in order, from zero; a text without a token is divided by one.
\<close>

definition i64_as_f32 :: "int \<Rightarrow> f32" where
  "i64_as_f32 v = f32_round (v < 0) (nat \<bar>v\<bar>) 0"

definition broadcasts :: "nat \<Rightarrow> nat \<Rightarrow> bool" where
  "broadcasts from to \<longleftrightarrow> from = to \<or> from = 1"

definition mask_at :: "int array2 \<Rightarrow> nat \<Rightarrow> nat \<Rightarrow> f32 option" where
  "mask_at attn b s =
     map_option i64_as_f32
       (array_at attn (if ar_rows attn = 1 then 0 else b) (if ar_cols attn = 1 then 0 else s))"

definition masked_tokens :: "int array2 \<Rightarrow> nat list \<Rightarrow> f32 list \<Rightarrow> nat \<Rightarrow> nat \<Rightarrow> (f32 \<times> f32 list) list option" where
  "masked_tokens attn shape data len b =
     collect_options (map (\<lambda>s. case (mask_at attn b s, hidden_at shape data b s) of
       (Some m, Some v) \<Rightarrow> Some (m, v) | _ \<Rightarrow> None) [0 ..< len])"

definition add_token :: "f32 \<times> f32 list \<Rightarrow> f32 list \<Rightarrow> f32 list" where
  "add_token = (\<lambda>(m, v) acc. map2 f32_add acc (map (f32_mul m) v))"

definition mean_row :: "nat \<Rightarrow> (f32 \<times> f32 list) list \<Rightarrow> f32 list" where
  "mean_row width tokens =
     (let sum = fold add_token tokens (replicate width 0);
          total = fold (\<lambda>(m, v) acc. f32_add acc m) tokens 0;
          divisor = (if f32_eq total 0 then f32_one else total)
      in map (\<lambda>x. f32_div x divisor) sum)"

definition show_pair :: "nat \<Rightarrow> nat \<Rightarrow> string" where
  "show_pair a b = ''('' @ show_nat a @ '', '' @ show_nat b @ '')''"

definition mean_pool ::
  "('i, 'e) onnx_model \<Rightarrow> int array2 \<Rightarrow> nat list \<times> f32 list \<Rightarrow> (app_error, f32 list list) outcome" where
  "mean_pool om attn = (\<lambda>(shape, data).
     case shape of
       [n, width] \<Rightarrow> or_panic (tensor_rows n width data)
     | [n, len, width] \<Rightarrow>
         if broadcasts (ar_rows attn) n \<and> broadcasts (ar_cols attn) len
         then or_panic (map_option (map (mean_row width))
           (collect_options (map (masked_tokens attn shape data len) [0 ..< n])))
         else Err (Message (''Could not broadcast attention mask from '' @ show_pair (ar_rows attn) (ar_cols attn)
           @ '' to ('' @ show_nat n @ '', '' @ show_nat len @ '', '' @ show_nat width @ '')''))
     | _ \<Rightarrow> Err (bad_rank om shape))"

definition select_and_pool_output ::
  "('i, 'e) onnx_model \<Rightarrow> output_key list \<Rightarrow> pooling option \<Rightarrow> single_batch_output \<Rightarrow>
     (app_error, f32 list list) outcome" where
  "select_and_pool_output om precedence opt sb =
     bind_outcome (select_output om precedence sb) (\<lambda>tensor.
       case (case opt of None \<Rightarrow> default_pooling | Some p \<Rightarrow> p) of
         Cls \<Rightarrow> cls_pool om tensor
       | Mean \<Rightarrow> mean_pool om (sb_attention_mask sb) tensor)"

section \<open>The vectors of a call\<close>

definition text_precedence :: "output_key list" where
  "text_precedence =
     [Only_One, By_Name ''text_embeds'', By_Name ''last_hidden_state'', By_Name ''sentence_embedding'']"

text \<open>The batches are transformed in order; the first that fails ends it.\<close>

fun try_extend :: "('b \<Rightarrow> (app_error, 'a list) outcome) \<Rightarrow> 'b list \<Rightarrow> (app_error, 'a list) outcome" where
  "try_extend f [] = Ok []"
| "try_extend f (b # bs) = bind_outcome (f b) (\<lambda>rows. map_outcome (\<lambda>more_rows. rows @ more_rows) (try_extend f bs))"

definition transformer_with_precedence ::
  "('i, 'e) onnx_model \<Rightarrow> output_key list \<Rightarrow> pooling option \<Rightarrow> single_batch_output list \<Rightarrow>
     (app_error, f32 list list) outcome" where
  "transformer_with_precedence om precedence opt batches =
     try_extend (\<lambda>sb. map_outcome (map normalize_vec) (select_and_pool_output om precedence opt sb)) batches"

end
