(* ===== verification/Text_Models.thy ===== *)
theory Text_Models
  imports Engine_Setup Pooled_Output
begin

text \<open>
  The models that the vendored \<open>fastembed\<close> knows: the list of the text models with their files
  (\<open>models/text_embedding.rs\<close>), how each is pooled and quantized (\<open>text_embedding/impl.rs\<close>), and the list of the
  sparse models (\<open>models/sparse.rs\<close>). The text models sit in a hash map, so only what a lookup gives is modelled and
  not the order of \<open>models_list\<close>.
\<close>

section \<open>The text models\<close>

datatype embedding_model =
    AllMiniLML6V2 | AllMiniLML6V2Q | AllMiniLML12V2 | AllMiniLML12V2Q | AllMpnetBaseV2 | BGEBaseENV15 |
    BGEBaseENV15Q | BGELargeENV15 | BGELargeENV15Q | BGESmallENV15 | BGESmallENV15Q | NomicEmbedTextV1 |
    NomicEmbedTextV15 | NomicEmbedTextV15Q | ParaphraseMLMiniLML12V2 | ParaphraseMLMiniLML12V2Q |
    ParaphraseMLMpnetBaseV2 | BGESmallZHV15 | BGELargeZHV15 | BGEM3 | ModernBertEmbedLarge |
    MultilingualE5Small | MultilingualE5Base | MultilingualE5Large | MxbaiEmbedLargeV1 | MxbaiEmbedLargeV1Q |
    GTEBaseENV15 | GTEBaseENV15Q | GTELargeENV15 | GTELargeENV15Q | ClipVitB32 | JinaEmbeddingsV2BaseCode |
    JinaEmbeddingsV2BaseEN | EmbeddingGemma300M | EmbeddingGemma300MQ4 | EmbeddingGemma300MQ |
    SnowflakeArcticEmbedXS | SnowflakeArcticEmbedXSQ | SnowflakeArcticEmbedS | SnowflakeArcticEmbedSQ |
    SnowflakeArcticEmbedM | SnowflakeArcticEmbedMQ | SnowflakeArcticEmbedMLong | SnowflakeArcticEmbedMLongQ |
    SnowflakeArcticEmbedL | SnowflakeArcticEmbedLQ

text \<open>\<open>#[derive(Debug)]\<close> prints the name of the variant; \<open>Display\<close> prints the same.\<close>

primrec model_name :: "embedding_model \<Rightarrow> string" where
  "model_name AllMiniLML6V2 = ''AllMiniLML6V2''"
| "model_name AllMiniLML6V2Q = ''AllMiniLML6V2Q''"
| "model_name AllMiniLML12V2 = ''AllMiniLML12V2''"
| "model_name AllMiniLML12V2Q = ''AllMiniLML12V2Q''"
| "model_name AllMpnetBaseV2 = ''AllMpnetBaseV2''"
| "model_name BGEBaseENV15 = ''BGEBaseENV15''"
| "model_name BGEBaseENV15Q = ''BGEBaseENV15Q''"
| "model_name BGELargeENV15 = ''BGELargeENV15''"
| "model_name BGELargeENV15Q = ''BGELargeENV15Q''"
| "model_name BGESmallENV15 = ''BGESmallENV15''"
| "model_name BGESmallENV15Q = ''BGESmallENV15Q''"
| "model_name NomicEmbedTextV1 = ''NomicEmbedTextV1''"
| "model_name NomicEmbedTextV15 = ''NomicEmbedTextV15''"
| "model_name NomicEmbedTextV15Q = ''NomicEmbedTextV15Q''"
| "model_name ParaphraseMLMiniLML12V2 = ''ParaphraseMLMiniLML12V2''"
| "model_name ParaphraseMLMiniLML12V2Q = ''ParaphraseMLMiniLML12V2Q''"
| "model_name ParaphraseMLMpnetBaseV2 = ''ParaphraseMLMpnetBaseV2''"
| "model_name BGESmallZHV15 = ''BGESmallZHV15''"
| "model_name BGELargeZHV15 = ''BGELargeZHV15''"
| "model_name BGEM3 = ''BGEM3''"
| "model_name ModernBertEmbedLarge = ''ModernBertEmbedLarge''"
| "model_name MultilingualE5Small = ''MultilingualE5Small''"
| "model_name MultilingualE5Base = ''MultilingualE5Base''"
| "model_name MultilingualE5Large = ''MultilingualE5Large''"
| "model_name MxbaiEmbedLargeV1 = ''MxbaiEmbedLargeV1''"
| "model_name MxbaiEmbedLargeV1Q = ''MxbaiEmbedLargeV1Q''"
| "model_name GTEBaseENV15 = ''GTEBaseENV15''"
| "model_name GTEBaseENV15Q = ''GTEBaseENV15Q''"
| "model_name GTELargeENV15 = ''GTELargeENV15''"
| "model_name GTELargeENV15Q = ''GTELargeENV15Q''"
| "model_name ClipVitB32 = ''ClipVitB32''"
| "model_name JinaEmbeddingsV2BaseCode = ''JinaEmbeddingsV2BaseCode''"
| "model_name JinaEmbeddingsV2BaseEN = ''JinaEmbeddingsV2BaseEN''"
| "model_name EmbeddingGemma300M = ''EmbeddingGemma300M''"
| "model_name EmbeddingGemma300MQ4 = ''EmbeddingGemma300MQ4''"
| "model_name EmbeddingGemma300MQ = ''EmbeddingGemma300MQ''"
| "model_name SnowflakeArcticEmbedXS = ''SnowflakeArcticEmbedXS''"
| "model_name SnowflakeArcticEmbedXSQ = ''SnowflakeArcticEmbedXSQ''"
| "model_name SnowflakeArcticEmbedS = ''SnowflakeArcticEmbedS''"
| "model_name SnowflakeArcticEmbedSQ = ''SnowflakeArcticEmbedSQ''"
| "model_name SnowflakeArcticEmbedM = ''SnowflakeArcticEmbedM''"
| "model_name SnowflakeArcticEmbedMQ = ''SnowflakeArcticEmbedMQ''"
| "model_name SnowflakeArcticEmbedMLong = ''SnowflakeArcticEmbedMLong''"
| "model_name SnowflakeArcticEmbedMLongQ = ''SnowflakeArcticEmbedMLongQ''"
| "model_name SnowflakeArcticEmbedL = ''SnowflakeArcticEmbedL''"
| "model_name SnowflakeArcticEmbedLQ = ''SnowflakeArcticEmbedLQ''"

record embedding_model_info =
  em_model :: embedding_model
  em_dim :: nat
  em_description :: string
  em_files :: model_info
  em_output_key :: "output_key option"

definition plain_model ::
  "embedding_model \<Rightarrow> nat \<Rightarrow> string \<Rightarrow> string \<Rightarrow> string \<Rightarrow> string list \<Rightarrow> embedding_model_info" where
  "plain_model m dim description code file additional =
     \<lparr>em_model = m, em_dim = dim, em_description = description,
      em_files = \<lparr>mi_code = code, mi_file = file, mi_additional = additional\<rparr>, em_output_key = None\<rparr>"

definition text_models_1 :: "embedding_model_info list" where
  "text_models_1 = [
     plain_model AllMiniLML6V2 384
       ''Sentence Transformer model, MiniLM-L6-v2''
       ''Qdrant/all-MiniLM-L6-v2-onnx'' ''model.onnx'' [],
     plain_model AllMiniLML6V2Q 384
       ''Quantized Sentence Transformer model, MiniLM-L6-v2''
       ''Xenova/all-MiniLM-L6-v2'' ''onnx/model_quantized.onnx'' [],
     plain_model AllMiniLML12V2 384
       ''Sentence Transformer model, MiniLM-L12-v2''
       ''Xenova/all-MiniLM-L12-v2'' ''onnx/model.onnx'' [],
     plain_model AllMiniLML12V2Q 384
       ''Quantized Sentence Transformer model, MiniLM-L12-v2''
       ''Xenova/all-MiniLM-L12-v2'' ''onnx/model_quantized.onnx'' [],
     plain_model AllMpnetBaseV2 768
       ''Sentence Transformer model, mpnet-base-v2''
       ''Xenova/all-mpnet-base-v2'' ''onnx/model.onnx'' [],
     plain_model BGEBaseENV15 768
       ''v1.5 release of the base English model''
       ''Xenova/bge-base-en-v1.5'' ''onnx/model.onnx'' [],
     plain_model BGEBaseENV15Q 768
       ''Quantized v1.5 release of the large English model''
       ''Qdrant/bge-base-en-v1.5-onnx-Q'' ''model_optimized.onnx'' [],
     plain_model BGELargeENV15 1024
       ''v1.5 release of the large English model''
       ''Xenova/bge-large-en-v1.5'' ''onnx/model.onnx'' [],
     plain_model BGELargeENV15Q 1024
       ''Quantized v1.5 release of the large English model''
       ''Qdrant/bge-large-en-v1.5-onnx-Q'' ''model_optimized.onnx'' [],
     plain_model BGESmallENV15 384
       ''v1.5 release of the fast and default English model''
       ''Xenova/bge-small-en-v1.5'' ''onnx/model.onnx'' [],
     plain_model BGESmallENV15Q 384
       ''Quantized v1.5 release of the fast and default English model''
       ''Qdrant/bge-small-en-v1.5-onnx-Q'' ''model_optimized.onnx'' [],
     plain_model NomicEmbedTextV1 768
       ''8192 context length english model''
       ''nomic-ai/nomic-embed-text-v1'' ''onnx/model.onnx'' [],
     plain_model NomicEmbedTextV15 768
       ''v1.5 release of the 8192 context length english model''
       ''nomic-ai/nomic-embed-text-v1.5'' ''onnx/model.onnx'' [],
     plain_model NomicEmbedTextV15Q 768
       ''Quantized v1.5 release of the 8192 context length english model''
       ''nomic-ai/nomic-embed-text-v1.5'' ''onnx/model_quantized.onnx'' [],
     plain_model ParaphraseMLMiniLML12V2Q 384
       ''Quantized Multi-lingual model''
       ''Qdrant/paraphrase-multilingual-MiniLM-L12-v2-onnx-Q'' ''model_optimized.onnx'' []]"

definition text_models_2 :: "embedding_model_info list" where
  "text_models_2 = [
     plain_model ParaphraseMLMiniLML12V2 384
       ''Multi-lingual model''
       ''Xenova/paraphrase-multilingual-MiniLM-L12-v2'' ''onnx/model.onnx'' [],
     plain_model ParaphraseMLMpnetBaseV2 768
       ''Sentence-transformers model for tasks like clustering or semantic search''
       ''Xenova/paraphrase-multilingual-mpnet-base-v2'' ''onnx/model.onnx'' [],
     plain_model BGESmallZHV15 512
       ''v1.5 release of the small Chinese model''
       ''Xenova/bge-small-zh-v1.5'' ''onnx/model.onnx'' [],
     plain_model BGELargeZHV15 1024
       ''v1.5 release of the large Chinese model''
       ''Xenova/bge-large-zh-v1.5'' ''onnx/model.onnx'' [],
     plain_model BGEM3 1024
       ''Multilingual M3 model with 8192 context length, supports 100+ languages''
       ''BAAI/bge-m3'' ''onnx/model.onnx'' [''onnx/model.onnx_data'', ''onnx/Constant_7_attr__value''],
     plain_model ModernBertEmbedLarge 1024
       ''Large model of ModernBert Text Embeddings''
       ''lightonai/modernbert-embed-large'' ''onnx/model.onnx'' [],
     plain_model MultilingualE5Small 384
       ''Small model of multilingual E5 Text Embeddings''
       ''intfloat/multilingual-e5-small'' ''onnx/model.onnx'' [],
     plain_model MultilingualE5Base 768
       ''Base model of multilingual E5 Text Embeddings''
       ''intfloat/multilingual-e5-base'' ''onnx/model.onnx'' [],
     plain_model MultilingualE5Large 1024
       ''Large model of multilingual E5 Text Embeddings''
       ''Qdrant/multilingual-e5-large-onnx'' ''model.onnx'' [''model.onnx_data''],
     plain_model MxbaiEmbedLargeV1 1024
       ''Large English embedding model from MixedBreed.ai''
       ''mixedbread-ai/mxbai-embed-large-v1'' ''onnx/model.onnx'' [],
     plain_model MxbaiEmbedLargeV1Q 1024
       ''Quantized Large English embedding model from MixedBreed.ai''
       ''mixedbread-ai/mxbai-embed-large-v1'' ''onnx/model_quantized.onnx'' [],
     plain_model GTEBaseENV15 768
       ''Large multilingual embedding model from Alibaba''
       ''Alibaba-NLP/gte-base-en-v1.5'' ''onnx/model.onnx'' [],
     plain_model GTEBaseENV15Q 768
       ''Quantized Large multilingual embedding model from Alibaba''
       ''Alibaba-NLP/gte-base-en-v1.5'' ''onnx/model_quantized.onnx'' [],
     plain_model GTELargeENV15 1024
       ''Large multilingual embedding model from Alibaba''
       ''Alibaba-NLP/gte-large-en-v1.5'' ''onnx/model.onnx'' [],
     plain_model GTELargeENV15Q 1024
       ''Quantized Large multilingual embedding model from Alibaba''
       ''Alibaba-NLP/gte-large-en-v1.5'' ''onnx/model_quantized.onnx'' []]"

definition text_models_3 :: "embedding_model_info list" where
  "text_models_3 = [
     plain_model ClipVitB32 512
       ''CLIP text encoder based on ViT-B/32''
       ''Qdrant/clip-ViT-B-32-text'' ''model.onnx'' [],
     plain_model JinaEmbeddingsV2BaseCode 768
       ''Jina embeddings v2 base code''
       ''jinaai/jina-embeddings-v2-base-code'' ''onnx/model.onnx'' [],
     plain_model JinaEmbeddingsV2BaseEN 768
       ''Jina embeddings v2 base English''
       ''jinaai/jina-embeddings-v2-base-en'' ''model.onnx'' [],
     (plain_model EmbeddingGemma300M 768
       ''EmbeddingGemma is a 300M parameter from Google''
       ''onnx-community/embeddinggemma-300m-ONNX'' ''onnx/model.onnx'' [''onnx/model.onnx_data''])
       \<lparr>em_output_key := Some (By_Name ''sentence_embedding'')\<rparr>,
     (plain_model EmbeddingGemma300MQ4 768
       ''Quantized (4-bit) EmbeddingGemma is a 300M parameter from Google''
       ''onnx-community/embeddinggemma-300m-ONNX'' ''onnx/model_q4.onnx'' [''onnx/model_q4.onnx_data''])
       \<lparr>em_output_key := Some (By_Name ''sentence_embedding'')\<rparr>,
     (plain_model EmbeddingGemma300MQ 768
       ''Quantized EmbeddingGemma is a 300M parameter from Google''
       ''onnx-community/embeddinggemma-300m-ONNX'' ''onnx/model_quantized.onnx'' [''onnx/model_quantized.onnx_data''])
       \<lparr>em_output_key := Some (By_Name ''sentence_embedding'')\<rparr>,
     plain_model SnowflakeArcticEmbedXS 384
       ''Snowflake Arctic embed model, xs''
       ''snowflake/snowflake-arctic-embed-xs'' ''onnx/model.onnx'' [],
     plain_model SnowflakeArcticEmbedXSQ 384
       ''Quantized Snowflake Arctic embed model, xs''
       ''snowflake/snowflake-arctic-embed-xs'' ''onnx/model_quantized.onnx'' [],
     plain_model SnowflakeArcticEmbedS 384
       ''Snowflake Arctic embed model, small''
       ''snowflake/snowflake-arctic-embed-s'' ''onnx/model.onnx'' [],
     plain_model SnowflakeArcticEmbedSQ 384
       ''Quantized Snowflake Arctic embed model, small''
       ''snowflake/snowflake-arctic-embed-s'' ''onnx/model_quantized.onnx'' [],
     plain_model SnowflakeArcticEmbedM 768
       ''Snowflake Arctic embed model, medium''
       ''Snowflake/snowflake-arctic-embed-m'' ''onnx/model.onnx'' [],
     plain_model SnowflakeArcticEmbedMQ 768
       ''Quantized Snowflake Arctic embed model, medium''
       ''Snowflake/snowflake-arctic-embed-m'' ''onnx/model_quantized.onnx'' [],
     plain_model SnowflakeArcticEmbedMLong 768
       ''Snowflake Arctic embed model, medium with 2048 context''
       ''snowflake/snowflake-arctic-embed-m-long'' ''onnx/model.onnx'' [],
     plain_model SnowflakeArcticEmbedMLongQ 768
       ''Quantized Snowflake Arctic embed model, medium with 2048 context''
       ''snowflake/snowflake-arctic-embed-m-long'' ''onnx/model_quantized.onnx'' [],
     plain_model SnowflakeArcticEmbedL 1024
       ''Snowflake Arctic embed model, large''
       ''snowflake/snowflake-arctic-embed-l'' ''onnx/model.onnx'' [],
     plain_model SnowflakeArcticEmbedLQ 1024
       ''Quantized Snowflake Arctic embed model, large''
       ''snowflake/snowflake-arctic-embed-l'' ''onnx/model_quantized.onnx'' []]"

text \<open>A later entry of the list would overwrite an earlier one of the same model.\<close>

definition init_models_map :: "embedding_model \<Rightarrow> embedding_model_info option" where
  "init_models_map =
     fold (\<lambda>info table. table(em_model info \<mapsto> info)) (text_models_1 @ text_models_2 @ text_models_3) (\<lambda>m. None)"

text \<open>\<open>keys().find(..)\<close>: the keys in some order.\<close>

definition from_str_in :: "embedding_model list \<Rightarrow> string \<Rightarrow> string + embedding_model" where
  "from_str_in keys s =
     (case List.find (\<lambda>m. lowercase (model_name m) = lowercase s) keys of
        None \<Rightarrow> Inl (''Unknown embedding model: '' @ s)
      | Some m \<Rightarrow> Inr m)"

definition get_model_info :: "embedding_model \<Rightarrow> (app_error, embedding_model_info) outcome" where
  "get_model_info m =
     (case init_models_map m of
        None \<Rightarrow> Err (Message (''Model '' @ model_name m
          @ '' not found. Please check if the model is supported by the current version.''))
      | Some info \<Rightarrow> Ok info)"

section \<open>Pooling and quantization\<close>

primrec default_pooling_method :: "embedding_model \<Rightarrow> pooling option" where
  "default_pooling_method AllMiniLML6V2 = Some Mean"
| "default_pooling_method AllMiniLML6V2Q = Some Mean"
| "default_pooling_method AllMiniLML12V2 = Some Mean"
| "default_pooling_method AllMiniLML12V2Q = Some Mean"
| "default_pooling_method AllMpnetBaseV2 = Some Mean"
| "default_pooling_method BGEBaseENV15 = Some Cls"
| "default_pooling_method BGEBaseENV15Q = Some Cls"
| "default_pooling_method BGELargeENV15 = Some Cls"
| "default_pooling_method BGELargeENV15Q = Some Cls"
| "default_pooling_method BGESmallENV15 = Some Cls"
| "default_pooling_method BGESmallENV15Q = Some Cls"
| "default_pooling_method NomicEmbedTextV1 = Some Mean"
| "default_pooling_method NomicEmbedTextV15 = Some Mean"
| "default_pooling_method NomicEmbedTextV15Q = Some Mean"
| "default_pooling_method ParaphraseMLMiniLML12V2 = Some Mean"
| "default_pooling_method ParaphraseMLMiniLML12V2Q = Some Mean"
| "default_pooling_method ParaphraseMLMpnetBaseV2 = Some Mean"
| "default_pooling_method BGESmallZHV15 = Some Cls"
| "default_pooling_method BGELargeZHV15 = Some Cls"
| "default_pooling_method BGEM3 = Some Cls"
| "default_pooling_method ModernBertEmbedLarge = Some Mean"
| "default_pooling_method MultilingualE5Small = Some Mean"
| "default_pooling_method MultilingualE5Base = Some Mean"
| "default_pooling_method MultilingualE5Large = Some Mean"
| "default_pooling_method MxbaiEmbedLargeV1 = Some Cls"
| "default_pooling_method MxbaiEmbedLargeV1Q = Some Cls"
| "default_pooling_method GTEBaseENV15 = Some Cls"
| "default_pooling_method GTEBaseENV15Q = Some Cls"
| "default_pooling_method GTELargeENV15 = Some Cls"
| "default_pooling_method GTELargeENV15Q = Some Cls"
| "default_pooling_method ClipVitB32 = Some Mean"
| "default_pooling_method JinaEmbeddingsV2BaseCode = Some Mean"
| "default_pooling_method JinaEmbeddingsV2BaseEN = Some Mean"
| "default_pooling_method EmbeddingGemma300M = Some Mean"
| "default_pooling_method EmbeddingGemma300MQ4 = Some Mean"
| "default_pooling_method EmbeddingGemma300MQ = Some Mean"
| "default_pooling_method SnowflakeArcticEmbedXS = Some Cls"
| "default_pooling_method SnowflakeArcticEmbedXSQ = Some Cls"
| "default_pooling_method SnowflakeArcticEmbedS = Some Cls"
| "default_pooling_method SnowflakeArcticEmbedSQ = Some Cls"
| "default_pooling_method SnowflakeArcticEmbedM = Some Cls"
| "default_pooling_method SnowflakeArcticEmbedMQ = Some Cls"
| "default_pooling_method SnowflakeArcticEmbedMLong = Some Cls"
| "default_pooling_method SnowflakeArcticEmbedMLongQ = Some Cls"
| "default_pooling_method SnowflakeArcticEmbedL = Some Cls"
| "default_pooling_method SnowflakeArcticEmbedLQ = Some Cls"

datatype quantization_mode = Unquantized | Static | Dynamic

primrec quantization_mode_of :: "embedding_model \<Rightarrow> quantization_mode" where
  "quantization_mode_of AllMiniLML6V2 = Unquantized"
| "quantization_mode_of AllMiniLML6V2Q = Dynamic"
| "quantization_mode_of AllMiniLML12V2 = Unquantized"
| "quantization_mode_of AllMiniLML12V2Q = Dynamic"
| "quantization_mode_of AllMpnetBaseV2 = Unquantized"
| "quantization_mode_of BGEBaseENV15 = Unquantized"
| "quantization_mode_of BGEBaseENV15Q = Static"
| "quantization_mode_of BGELargeENV15 = Unquantized"
| "quantization_mode_of BGELargeENV15Q = Static"
| "quantization_mode_of BGESmallENV15 = Unquantized"
| "quantization_mode_of BGESmallENV15Q = Static"
| "quantization_mode_of NomicEmbedTextV1 = Unquantized"
| "quantization_mode_of NomicEmbedTextV15 = Unquantized"
| "quantization_mode_of NomicEmbedTextV15Q = Dynamic"
| "quantization_mode_of ParaphraseMLMiniLML12V2 = Unquantized"
| "quantization_mode_of ParaphraseMLMiniLML12V2Q = Static"
| "quantization_mode_of ParaphraseMLMpnetBaseV2 = Unquantized"
| "quantization_mode_of BGESmallZHV15 = Unquantized"
| "quantization_mode_of BGELargeZHV15 = Unquantized"
| "quantization_mode_of BGEM3 = Unquantized"
| "quantization_mode_of ModernBertEmbedLarge = Unquantized"
| "quantization_mode_of MultilingualE5Small = Unquantized"
| "quantization_mode_of MultilingualE5Base = Unquantized"
| "quantization_mode_of MultilingualE5Large = Unquantized"
| "quantization_mode_of MxbaiEmbedLargeV1 = Unquantized"
| "quantization_mode_of MxbaiEmbedLargeV1Q = Dynamic"
| "quantization_mode_of GTEBaseENV15 = Unquantized"
| "quantization_mode_of GTEBaseENV15Q = Dynamic"
| "quantization_mode_of GTELargeENV15 = Unquantized"
| "quantization_mode_of GTELargeENV15Q = Dynamic"
| "quantization_mode_of ClipVitB32 = Unquantized"
| "quantization_mode_of JinaEmbeddingsV2BaseCode = Unquantized"
| "quantization_mode_of JinaEmbeddingsV2BaseEN = Unquantized"
| "quantization_mode_of EmbeddingGemma300M = Unquantized"
| "quantization_mode_of EmbeddingGemma300MQ4 = Unquantized"
| "quantization_mode_of EmbeddingGemma300MQ = Dynamic"
| "quantization_mode_of SnowflakeArcticEmbedXS = Unquantized"
| "quantization_mode_of SnowflakeArcticEmbedXSQ = Dynamic"
| "quantization_mode_of SnowflakeArcticEmbedS = Unquantized"
| "quantization_mode_of SnowflakeArcticEmbedSQ = Dynamic"
| "quantization_mode_of SnowflakeArcticEmbedM = Unquantized"
| "quantization_mode_of SnowflakeArcticEmbedMQ = Dynamic"
| "quantization_mode_of SnowflakeArcticEmbedMLong = Unquantized"
| "quantization_mode_of SnowflakeArcticEmbedMLongQ = Dynamic"
| "quantization_mode_of SnowflakeArcticEmbedL = Unquantized"
| "quantization_mode_of SnowflakeArcticEmbedLQ = Dynamic"

section \<open>The sparse models\<close>

datatype sparse_model_enum = SPLADEPPV1 | Sparse_BGEM3

definition sparse_models :: "(sparse_model_enum \<times> model_info) list" where
  "sparse_models =
     [(SPLADEPPV1, \<lparr>mi_code = ''Qdrant/Splade_PP_en_v1'', mi_file = ''model.onnx'', mi_additional = []\<rparr>),
      (Sparse_BGEM3, \<lparr>mi_code = ''BAAI/bge-m3'', mi_file = ''onnx/model.onnx'',
         mi_additional = [''onnx/model.onnx_data'', ''onnx/Constant_7_attr__value'']\<rparr>)]"

definition sparse_model_info :: "sparse_model_enum \<Rightarrow> (app_error, model_info) outcome" where
  "sparse_model_info m = (case List.find (\<lambda>(m', info). m' = m) sparse_models of None \<Rightarrow> Panic | Some (m', info) \<Rightarrow> Ok info)"

definition sparse_name :: "sparse_model_enum \<Rightarrow> string option" where
  "sparse_name m = map_option (\<lambda>(m', info). mi_code info) (List.find (\<lambda>(m', info). m' = m) sparse_models)"

definition sparse_from_str :: "string \<Rightarrow> string + sparse_model_enum" where
  "sparse_from_str s =
     (case List.find (\<lambda>(m, info). lowercase (mi_code info) = lowercase s) sparse_models of
        None \<Rightarrow> Inl (''Unknown sparse model: '' @ s)
      | Some (m, info) \<Rightarrow> Inr m)"

section \<open>The lists are complete\<close>

text \<open>All variants, in the order of the declaration.\<close>

definition all_variants :: "embedding_model list" where
  "all_variants = [
    AllMiniLML6V2, AllMiniLML6V2Q, AllMiniLML12V2, AllMiniLML12V2Q, AllMpnetBaseV2, BGEBaseENV15, BGEBaseENV15Q,
    BGELargeENV15, BGELargeENV15Q, BGESmallENV15, BGESmallENV15Q, NomicEmbedTextV1, NomicEmbedTextV15,
    NomicEmbedTextV15Q, ParaphraseMLMiniLML12V2, ParaphraseMLMiniLML12V2Q, ParaphraseMLMpnetBaseV2,
    BGESmallZHV15, BGELargeZHV15, BGEM3, ModernBertEmbedLarge, MultilingualE5Small, MultilingualE5Base,
    MultilingualE5Large, MxbaiEmbedLargeV1, MxbaiEmbedLargeV1Q, GTEBaseENV15, GTEBaseENV15Q, GTELargeENV15,
    GTELargeENV15Q, ClipVitB32, JinaEmbeddingsV2BaseCode, JinaEmbeddingsV2BaseEN, EmbeddingGemma300M,
    EmbeddingGemma300MQ4, EmbeddingGemma300MQ, SnowflakeArcticEmbedXS, SnowflakeArcticEmbedXSQ,
    SnowflakeArcticEmbedS, SnowflakeArcticEmbedSQ, SnowflakeArcticEmbedM, SnowflakeArcticEmbedMQ,
    SnowflakeArcticEmbedMLong, SnowflakeArcticEmbedMLongQ, SnowflakeArcticEmbedL, SnowflakeArcticEmbedLQ]"

lemma all_variants_UNIV: "set all_variants = UNIV"
proof -
  have "m \<in> set all_variants" for m by (cases m) (simp_all add: all_variants_def)
  then show ?thesis by blast
qed

text \<open>A table made by insertion holds the last entry of each key.\<close>

lemma fold_table:
  "fold (\<lambda>info table. table(key info \<mapsto> info)) infos t m =
     (case List.find (\<lambda>info. key info = m) (rev infos) of None \<Rightarrow> t m | Some info \<Rightarrow> Some info)"
proof (induction infos arbitrary: t)
  case (Cons i infos)
  have "List.find P (xs @ [x]) = (case List.find P xs of None \<Rightarrow> if P x then Some x else None | Some y \<Rightarrow> Some y)" for P xs and x :: 'a
    by (induction xs) auto
  then show ?case using Cons by (auto split: option.split)
qed simp

lemma init_models_map_find:
  "init_models_map m = List.find (\<lambda>info. em_model info = m) (rev (text_models_1 @ text_models_2 @ text_models_3))"
  unfolding init_models_map_def fold_table by (simp split: option.split del: rev_append)

lemma listed_names: "map em_model (text_models_1 @ text_models_2 @ text_models_3) = [
    AllMiniLML6V2, AllMiniLML6V2Q, AllMiniLML12V2, AllMiniLML12V2Q, AllMpnetBaseV2, BGEBaseENV15, BGEBaseENV15Q,
    BGELargeENV15, BGELargeENV15Q, BGESmallENV15, BGESmallENV15Q, NomicEmbedTextV1, NomicEmbedTextV15,
    NomicEmbedTextV15Q, ParaphraseMLMiniLML12V2Q, ParaphraseMLMiniLML12V2, ParaphraseMLMpnetBaseV2,
    BGESmallZHV15, BGELargeZHV15, BGEM3, ModernBertEmbedLarge, MultilingualE5Small, MultilingualE5Base,
    MultilingualE5Large, MxbaiEmbedLargeV1, MxbaiEmbedLargeV1Q, GTEBaseENV15, GTEBaseENV15Q, GTELargeENV15,
    GTELargeENV15Q, ClipVitB32, JinaEmbeddingsV2BaseCode, JinaEmbeddingsV2BaseEN, EmbeddingGemma300M,
    EmbeddingGemma300MQ4, EmbeddingGemma300MQ, SnowflakeArcticEmbedXS, SnowflakeArcticEmbedXSQ,
    SnowflakeArcticEmbedS, SnowflakeArcticEmbedSQ, SnowflakeArcticEmbedM, SnowflakeArcticEmbedMQ,
    SnowflakeArcticEmbedMLong, SnowflakeArcticEmbedMLongQ, SnowflakeArcticEmbedL, SnowflakeArcticEmbedLQ]"
  by (simp add: text_models_1_def text_models_2_def text_models_3_def plain_model_def)

lemma listed_once: "distinct (map em_model (text_models_1 @ text_models_2 @ text_models_3))"
  unfolding listed_names by simp

lemma listed_all: "m \<in> set (map em_model (text_models_1 @ text_models_2 @ text_models_3))"
  unfolding listed_names by (cases m) simp_all

lemma table_total: "dom init_models_map = UNIV"
proof -
  have "init_models_map m \<noteq> None" for m
    using listed_all [of m] by (auto simp: init_models_map_find find_None_iff simp del: rev_append)
  then show ?thesis by (auto simp: dom_def)
qed

lemma dims_positive: "info \<in> set (text_models_1 @ text_models_2 @ text_models_3) \<Longrightarrow> 0 < em_dim info"
  by (auto simp: text_models_1_def text_models_2_def text_models_3_def plain_model_def)

lemma lower_names_inject: "lowercase (model_name m) = lowercase (model_name m') \<longleftrightarrow> m = m'"
proof -
  have "distinct (map (\<lambda>m. lowercase (model_name m)) all_variants)" by code_simp
  then have "inj (\<lambda>m. lowercase (model_name m))" by (simp add: distinct_map all_variants_UNIV)
  then show ?thesis by (auto dest: injD)
qed

section \<open>What a lookup gives\<close>

text \<open>
  Every text model is listed once, under its own name and with a dimension, and its name in any case of letters is read
  back as that model and no other, in whatever order the hash map gives its keys; the quantized models are those whose
  name ends in \<open>Q\<close>, and the one whose name ends in \<open>Q4\<close> is not taken for one of them.
\<close>

theorem text_model_names:
  assumes "set keys = dom init_models_map"
  shows "(\<exists>info. get_model_info m = Ok info \<and> em_model info = m \<and> 0 < em_dim info) \<and>
    (from_str_in keys s = Inr m \<longleftrightarrow> lowercase s = lowercase (model_name m)) \<and>
    (quantization_mode_of m = Unquantized \<longleftrightarrow> last (model_name m) \<noteq> CHR ''Q'')"
proof -
  have find: "\<exists>info. init_models_map m = Some info \<and> em_model info = m \<and> 0 < em_dim info" for m
  proof -
    have "m \<in> dom init_models_map" by (simp add: table_total)
    then obtain info where i: "init_models_map m = Some info" by blast
    then have "em_model info = m \<and> info \<in> set (text_models_1 @ text_models_2 @ text_models_3)"
      unfolding init_models_map_find find_Some_iff by (metis nth_mem set_rev)
    with i dims_positive show ?thesis by blast
  qed
  have keys: "set keys = UNIV" using assms by (simp add: table_total)
  have "from_str_in keys s = Inr m \<longleftrightarrow> lowercase s = lowercase (model_name m)"
  proof (cases "List.find (\<lambda>m. lowercase (model_name m) = lowercase s) keys")
    case None
    then have "lowercase (model_name m) \<noteq> lowercase s" using keys by (simp add: find_None_iff)
    with None show ?thesis by (auto simp: from_str_in_def)
  next
    case (Some m')
    then have "lowercase (model_name m') = lowercase s" by (auto simp: find_Some_iff)
    with Some show ?thesis by (auto simp: from_str_in_def lower_names_inject [symmetric])
  qed
  moreover have "quantization_mode_of m = Unquantized \<longleftrightarrow> last (model_name m) \<noteq> CHR ''Q''"
    by (cases m) simp_all
  moreover obtain info where "init_models_map m = Some info" "em_model info = m" "0 < em_dim info" using find by blast
  ultimately show ?thesis by (simp add: get_model_info_def)
qed

theorem text_model_names_witness:
  "from_str_in all_variants ''bgem3'' = Inr BGEM3"
proof -
  have "set all_variants = dom init_models_map" by (simp add: all_variants_UNIV table_total)
  moreover have "lowercase ''bgem3'' = lowercase (model_name BGEM3)" by code_simp
  ultimately show ?thesis using text_model_names [of all_variants BGEM3 "''bgem3''"] by blast
qed

text \<open>The three engines of BGE-M3 are made of the same files.\<close>

lemma bgem3_files: "\<exists>info. get_model_info BGEM3 = Ok info \<and> em_files info = bgem3_info \<and> em_output_key info = None"
  by (simp add: get_model_info_def init_models_map_find text_models_1_def text_models_2_def text_models_3_def
      plain_model_def bgem3_info_def)

lemma sparse_files: "sparse_model_info Sparse_BGEM3 = Ok bgem3_info"
  by (simp add: sparse_model_info_def sparse_models_def bgem3_info_def)

end
