(* ===== verification/Single_Heads.thy ===== *)
theory Single_Heads
  imports Dual_Serving Text_Models
begin

text \<open>
  The two engines of the vendored \<open>fastembed\<close> that carry one head each, \<open>TextEmbedding\<close>
  (\<open>text_embedding/impl.rs\<close>) and \<open>SparseTextEmbedding\<close> (\<open>sparse_text_embedding/impl.rs\<close>), and what the dual
  engine of this repository promises of itself: that it gives what those two give. The natural logarithm of the SPLADE
  head is a parameter, as the tokenizer and the session are.
\<close>

section \<open>The dense engine\<close>

record text_settings =
  tx_pooling :: "pooling option"
  tx_quantization :: quantization_mode
  tx_output_key :: "output_key option"

definition text_settings_of :: "embedding_model \<Rightarrow> embedding_model_info \<Rightarrow> text_settings" where
  "text_settings_of m info =
     \<lparr>tx_pooling = default_pooling_method m, tx_quantization = quantization_mode_of m,
      tx_output_key = em_output_key info\<rparr>"

definition text_try_new ::
  "('repo, 'b, 's, 't) setup_env \<Rightarrow> bool \<Rightarrow> embedding_model \<Rightarrow> session_options \<Rightarrow>
     (app_error, ('s, 't) engine_parts \<times> text_settings) outcome" where
  "text_try_new su progress m opts =
     bind_outcome (get_model_info m) (\<lambda>info.
       map_outcome (\<lambda>parts. (parts, text_settings_of m info))
         (make_engine su (em_files info) progress (\<lambda>f. ''Failed to retrieve '' @ f) (\<lambda>f. ''Failed to retrieve '' @ f)
           opts))"

definition default_batch_size :: nat where
  "default_batch_size = 256"

definition dynamic_batching_refused :: string where
  "dynamic_batching_refused =
     ''Dynamic quantization cannot be used with batching. This is due to the dynamic quantization process adjusting ''
       @ ''the data range to fit each batch, making the embeddings incompatible across batches. Try specifying a batch ''
       @ ''size of `None`, or use a model with static or no quantization.''"

definition batch_size_for :: "quantization_mode \<Rightarrow> nat option \<Rightarrow> nat \<Rightarrow> (app_error, nat) outcome" where
  "batch_size_for q wanted text_count =
     (case q of
        Dynamic \<Rightarrow>
          (case wanted of
             Some n \<Rightarrow> if n < text_count then Err (Message dynamic_batching_refused) else Ok text_count
           | None \<Rightarrow> Ok text_count)
      | _ \<Rightarrow> Ok (case wanted of None \<Rightarrow> default_batch_size | Some n \<Rightarrow> n))"

definition batch_output :: "int array2 \<times> int array2 \<times> session_outputs \<Rightarrow> single_batch_output" where
  "batch_output = (\<lambda>(ids, attn, outs). \<lparr>sb_outputs = outs, sb_attention_mask = attn\<rparr>)"

definition raw_batch ::
  "(string, 'e) onnx_model \<Rightarrow> string list \<Rightarrow> 'e \<Rightarrow> (app_error, single_batch_output list) outcome \<times> 'e" where
  "raw_batch om batch e =
     (case forward_pass om ''Failed to encode the batch.'' batch e of
        (r, e') \<Rightarrow> (map_outcome (\<lambda>x. [batch_output x]) r, e'))"

definition transform ::
  "(string, 'e) onnx_model \<Rightarrow> quantization_mode \<Rightarrow> string list \<Rightarrow> nat option \<Rightarrow> 'e \<Rightarrow>
     (app_error, single_batch_output list) outcome \<times> 'e" where
  "transform om q texts wanted e =
     (case batch_size_for q wanted (length texts) of
        Ok n \<Rightarrow> in_batches (raw_batch om) texts n e
      | Err x \<Rightarrow> (Err x, e)
      | Panic \<Rightarrow> (Panic, e))"

definition text_embed ::
  "(string, 'e) onnx_model \<Rightarrow> text_settings \<Rightarrow> string list \<Rightarrow> nat option \<Rightarrow> 'e \<Rightarrow>
     (app_error, f32 list list) outcome \<times> 'e" where
  "text_embed om cfg texts wanted e =
     (case transform om (tx_quantization cfg) texts wanted e of
        (r, e') \<Rightarrow>
          (bind_outcome r (transformer_with_precedence om
             (case tx_output_key cfg of Some key \<Rightarrow> [key] | None \<Rightarrow> text_precedence) (tx_pooling cfg)), e'))"

section \<open>The sparse engine\<close>

definition sparse_try_new ::
  "('repo, 'b, 's, 't) setup_env \<Rightarrow> bool \<Rightarrow> sparse_model_enum \<Rightarrow> session_options \<Rightarrow>
     (app_error, ('s, 't) engine_parts \<times> sparse_model_enum) outcome" where
  "sparse_try_new su progress m opts =
     bind_outcome (sparse_model_info m) (\<lambda>info.
       map_outcome (\<lambda>parts. (parts, m))
         (make_engine su info progress (\<lambda>f. ''Failed to retrieve '' @ f @ '' '') (\<lambda>f. ''Failed to retrieve '' @ f) opts))"

definition token_output_key :: "(string, 'e) onnx_model \<Rightarrow> session_outputs \<Rightarrow> (app_error, string) outcome" where
  "token_output_key om outs =
     (case List.find (contains_str ''token_embedding'') (map fst outs) of
        Some key \<Rightarrow> Ok key
      | None \<Rightarrow>
          (case List.find (\<lambda>(k, v). tensor_rank v = Some 3) outs of
             Some (key, v) \<Rightarrow> Ok key
           | None \<Rightarrow> Err (Message (''no token-level (3-D) output among the model outputs: ''
               @ om_show_names om (map fst outs)))))"

definition sparse_bgem3_output ::
  "(string, 'e) onnx_model \<Rightarrow> lexical_head \<Rightarrow> nat \<Rightarrow> nat \<Rightarrow> int array2 \<Rightarrow> int array2 \<Rightarrow> session_outputs \<Rightarrow>
     (app_error, sparse_embedding list) outcome" where
  "sparse_bgem3_output om lx nrows len ids attn outs =
     bind_outcome (token_output_key om outs) (\<lambda>key.
       case map_of outs key of
         None \<Rightarrow> Panic
       | Some v \<Rightarrow>
           bind_outcome (extract_tensor om v) (\<lambda>(shape, data).
             if \<not> output_covers_input shape nrows len
             then Err (Message (''bge-m3 sparse output `'' @ key @ ''` came back shaped '' @ om_show_shape om shape
               @ '', which does not cover the input batch x seq of '' @ show_nat nrows @ ''x'' @ show_nat len
               @ '' '' @ em_dash @ '' the runtime returned a mis-shaped tensor, so no sparse weights can be read from it''))
             else if length data < prod_list shape then Err (Lib_Error (om_shape_error om))
             else or_panic (post_process_bgem3 lx shape data ids attn)))"

text \<open>
  The SPLADE head multiplies a tensor of any rank with the mask, so the broadcasting of \<open>ndarray\<close> is written out: the
  axes are matched from the last, one of length one is repeated, two other lengths panic.
\<close>

fun broadcast_rev :: "nat list \<Rightarrow> nat list \<Rightarrow> nat list option" where
  "broadcast_rev [] ys = Some ys"
| "broadcast_rev xs [] = Some xs"
| "broadcast_rev (x # xs) (y # ys) =
     (if x = y \<or> y = 1 then map_option ((#) x) (broadcast_rev xs ys)
      else if x = 1 then map_option ((#) y) (broadcast_rev xs ys)
      else None)"

definition broadcast_shapes :: "nat list \<Rightarrow> nat list \<Rightarrow> nat list option" where
  "broadcast_shapes a b = map_option rev (broadcast_rev (rev a) (rev b))"

definition entry_at :: "nat list \<Rightarrow> 'a list \<Rightarrow> nat list \<Rightarrow> 'a option" where
  "entry_at shape data place =
     nth_opt data (fold (\<lambda>(d, i) acc. acc * d + (if d = 1 then 0 else i))
       (zip shape (drop (length place - length shape) place)) 0)"

fun multi_index :: "nat list \<Rightarrow> nat list list" where
  "multi_index [] = [[]]"
| "multi_index (n # ns) = concat (map (\<lambda>i. map ((#) i) (multi_index ns)) [0 ..< n])"

definition splade_weight ::
  "(f32 \<Rightarrow> f32) \<Rightarrow> nat list \<Rightarrow> f32 list \<Rightarrow> int array2 \<Rightarrow> nat list \<Rightarrow> f32 option" where
  "splade_weight ln_f32 shape data attn place =
     (case (entry_at shape data place, entry_at [ar_rows attn, ar_cols attn, 1] (ar_data attn) place) of
        (Some x, Some m) \<Rightarrow> Some (f32_mul (ln_f32 (f32_add f32_one (f32_max x 0))) (i64_as_f32 m))
      | _ \<Rightarrow> None)"

definition minus_infinity :: f32 where
  "minus_infinity = 0xFF800000"

definition splade_scores ::
  "(f32 \<Rightarrow> f32) \<Rightarrow> nat list \<Rightarrow> f32 list \<Rightarrow> int array2 \<Rightarrow> nat \<Rightarrow> nat \<Rightarrow> nat list \<Rightarrow> f32 list option" where
  "splade_scores ln_f32 shape data attn len width row =
     collect_options (map (\<lambda>j. map_option (\<lambda>ws. foldl f32_max minus_infinity ws)
       (collect_options (map (\<lambda>s. splade_weight ln_f32 shape data attn (hd row # s # tl row @ [j])) [0 ..< len])))
       [0 ..< width])"

definition positive_scores :: "f32 list \<Rightarrow> sparse_embedding" where
  "positive_scores scores =
     (let kept = filter (\<lambda>(i, w). f32_gt w 0) (zip [0 ..< length scores] scores)
      in \<lparr>se_indices = map fst kept, se_values = map snd kept\<rparr>)"

definition post_process_splade ::
  "(f32 \<Rightarrow> f32) \<Rightarrow> nat list \<Rightarrow> f32 list \<Rightarrow> int array2 \<Rightarrow> sparse_embedding list option" where
  "post_process_splade ln_f32 shape data attn =
     (case broadcast_shapes shape [ar_rows attn, ar_cols attn, 1] of
        Some (first # len # rest) \<Rightarrow>
          map_option (map positive_scores)
            (collect_options (map (splade_scores ln_f32 shape data attn len (last rest)) (multi_index (first # butlast rest))))
      | _ \<Rightarrow> None)"

definition splade_output ::
  "(string, 'e) onnx_model \<Rightarrow> (f32 \<Rightarrow> f32) \<Rightarrow> int array2 \<Rightarrow> session_outputs \<Rightarrow>
     (app_error, sparse_embedding list) outcome" where
  "splade_output om ln_f32 attn outs =
     (case map_of outs (case outs of [(k, v)] \<Rightarrow> k | _ \<Rightarrow> ''last_hidden_state'') of
        None \<Rightarrow> Panic
      | Some v \<Rightarrow>
          bind_outcome (extract_tensor om v) (\<lambda>(shape, data).
            if length data < prod_list shape then Err (Lib_Error (om_shape_error om))
            else or_panic (post_process_splade ln_f32 shape data attn)))"

definition sparse_batch ::
  "(string, 'e) onnx_model \<Rightarrow> lexical_head \<Rightarrow> (f32 \<Rightarrow> f32) \<Rightarrow> sparse_model_enum \<Rightarrow>
     int array2 \<times> int array2 \<times> session_outputs \<Rightarrow> (app_error, sparse_embedding list) outcome" where
  "sparse_batch om lx ln_f32 m = (\<lambda>(ids, attn, outs).
     case m of
       SPLADEPPV1 \<Rightarrow> splade_output om ln_f32 attn outs
     | Sparse_BGEM3 \<Rightarrow> sparse_bgem3_output om lx (ar_rows ids) (ar_cols ids) ids attn outs)"

definition sparse_embed ::
  "(string, 'e) onnx_model \<Rightarrow> lexical_head \<Rightarrow> (f32 \<Rightarrow> f32) \<Rightarrow> sparse_model_enum \<Rightarrow> string list \<Rightarrow> nat option \<Rightarrow> 'e \<Rightarrow>
     (app_error, sparse_embedding list) outcome \<times> 'e" where
  "sparse_embed om lx ln_f32 m texts wanted e =
     in_batches (\<lambda>batch e. case forward_pass om ''Failed to encode the batch.'' batch e of
         (r, e') \<Rightarrow> (bind_outcome r (sparse_batch om lx ln_f32 m), e'))
       texts (case wanted of None \<Rightarrow> default_batch_size | Some n \<Rightarrow> n) e"

section \<open>Made of the same parts\<close>

lemma map_outcome_eq_Panic: "map_outcome f r = Panic \<longleftrightarrow> r = Panic"
  by (cases r) auto

text \<open>
  The dual engine is constructed as the single-head engine of the same model: the same files in the same order, the
  same session settings, the same tokenizer, the same error. The sparse engine too, but for a space in the text of an
  error; and none of the three panics.
\<close>

theorem engines_share_their_parts:
  "text_try_new su False BGEM3 opts =
     map_outcome (\<lambda>parts. (parts, \<lparr>tx_pooling = Some Cls, tx_quantization = Unquantized, tx_output_key = None\<rparr>))
       (dual_try_new su opts) \<and>
   (sparse_try_new su False Sparse_BGEM3 opts = Ok (parts, Sparse_BGEM3) \<longleftrightarrow> dual_try_new su opts = Ok parts) \<and>
   dual_try_new su opts \<noteq> Panic \<and> sparse_try_new su False Sparse_BGEM3 opts \<noteq> Panic"
proof -
  obtain info where i: "get_model_info BGEM3 = Ok info" "em_files info = bgem3_info" "em_output_key info = None"
    using bgem3_files by blast
  have "make_engine su bgem3_info False c c' opts = Ok parts \<longleftrightarrow> make_engine su bgem3_info False d c' opts = Ok parts" for c d c'
    unfolding make_engine_def bind_outcome_eq_Ok result_Ok by (rule refl)
  moreover have "dual_try_new su opts \<noteq> Panic" by (simp add: dual_try_new_def make_engine_no_panic)
  moreover have "sparse_try_new su False Sparse_BGEM3 opts \<noteq> Panic"
    by (simp add: sparse_try_new_def sparse_files map_outcome_eq_Panic make_engine_no_panic)
  ultimately show ?thesis
    by (auto simp: text_try_new_def dual_try_new_def sparse_try_new_def sparse_files i text_settings_of_def)
qed

section \<open>One run of the session gives both heads\<close>

text \<open>A session that answers as its inputs say, whatever ran on it before.\<close>

lemma run_batches_pure:
  assumes "\<And>batch e. fst (pass batch e) = f batch"
  shows "fst (run_batches pass batches e) = try_extend f batches"
proof (induction batches arbitrary: e)
  case (Cons b bs)
  obtain r e' where p: "pass b e = (r, e')" by (cases "pass b e")
  then have "f b = r" using assms [of b e] by simp
  moreover obtain q e'' where q: "run_batches pass bs e' = (q, e'')" by (cases "run_batches pass bs e'")
  moreover have "try_extend f bs = q" using Cons [of e'] q by simp
  ultimately show ?case using p by (cases r) simp_all
qed simp

lemma in_batches_pure:
  assumes "\<And>batch e. fst (pass batch e) = f batch"
  shows "fst (in_batches pass texts n e) =
    (if n = 0 then Err (Message ''batch_size must be greater than 0'') else try_extend f (chunks n texts))"
  by (simp add: in_batches_def run_batches_pure [OF assms] del: chunks.simps)

lemma forward_pass_pure:
  assumes "\<And>inputs e e'. fst (om_run om inputs e) = fst (om_run om inputs e')"
  shows "fst (forward_pass om what batch e) = fst (forward_pass om what batch e')"
  by (simp add: forward_pass_def case_prod_beta assms [of _ e e'] split: sum.split outcome.split)

text \<open>Collecting the outputs of all batches first and transforming them afterwards is one pass per batch.\<close>

lemma try_extend_stages:
  "bind_outcome (try_extend (\<lambda>b. map_outcome (\<lambda>x. [h x]) (P b)) bs) (try_extend q) = Ok ys \<longleftrightarrow>
   try_extend (\<lambda>b. bind_outcome (P b) (\<lambda>x. q (h x))) bs = Ok ys"
proof (induction bs arbitrary: ys)
  case (Cons b bs)
  show ?case
  proof (cases "P b")
    case (Ok x)
    then show ?thesis
      using Cons.IH by (cases "try_extend (\<lambda>b. map_outcome (\<lambda>x. [h x]) (P b)) bs") (auto simp: bind_outcome_eq_Ok)
  qed simp_all
qed simp

lemma try_extend_zip:
  assumes "\<And>b r. b \<in> set bs \<Longrightarrow> g b = Ok r \<longleftrightarrow> (\<exists>d s. gd b = Ok d \<and> gs b = Ok s \<and> r = zip d s)"
    and "\<And>b d s. b \<in> set bs \<Longrightarrow> gd b = Ok d \<Longrightarrow> gs b = Ok s \<Longrightarrow> length d = length s"
  shows "try_extend g bs = Ok r \<longleftrightarrow>
    (\<exists>d s. try_extend gd bs = Ok d \<and> try_extend gs bs = Ok s \<and> length d = length s \<and> r = zip d s)"
  using assms
proof (induction bs arbitrary: r)
  case (Cons b bs)
  have IH: "try_extend g bs = Ok r \<longleftrightarrow>
    (\<exists>d s. try_extend gd bs = Ok d \<and> try_extend gs bs = Ok s \<and> length d = length s \<and> r = zip d s)" for r
    by (rule Cons.IH, rule Cons.prems(1), simp, rule Cons.prems(2) [OF list.set_intros(2)])
  have len: "gd b = Ok d \<Longrightarrow> gs b = Ok s \<Longrightarrow> length d = length s" for d s by (rule Cons.prems(2) [OF list.set_intros(1)])
  have "try_extend g (b # bs) = Ok r \<longleftrightarrow> (\<exists>d s d' s'. gd b = Ok d \<and> gs b = Ok s \<and> try_extend gd bs = Ok d' \<and>
      try_extend gs bs = Ok s' \<and> length d' = length s' \<and> r = zip d s @ zip d' s')"
    using Cons.prems(1) [of b] by (auto simp: bind_outcome_eq_Ok IH)
  also have "\<dots> \<longleftrightarrow> (\<exists>d s. try_extend gd (b # bs) = Ok d \<and> try_extend gs (b # bs) = Ok s \<and> length d = length s \<and> r = zip d s)"
    using len by (auto simp: bind_outcome_eq_Ok)
  finally show ?case .
qed auto

text \<open>
  What the export of BGE-M3 gives back for a batch: \<open>sentence_embedding\<close> with a row per text, and
  \<open>token_embeddings\<close>, in either order.
\<close>

fun row_per_text :: "nat \<Rightarrow> ort_value \<Rightarrow> bool" where
  "row_per_text n (F32_Tensor [rows, width] data) = (rows = n \<and> length data = rows * width)"
| "row_per_text n _ = False"

fun both_heads :: "nat \<Rightarrow> session_outputs \<Rightarrow> bool" where
  "both_heads n [(a, u), (b, v)] =
     (a = ''sentence_embedding'' \<and> b = ''token_embeddings'' \<and> row_per_text n u \<or>
      a = ''token_embeddings'' \<and> b = ''sentence_embedding'' \<and> row_per_text n v)"
| "both_heads n _ = False"

lemma name_facts:
  "contains_str ''token_embedding'' ''token_embeddings''" "\<not> contains_str ''token_embedding'' ''sentence_embedding''"
  "contains_str ''sentence_embedding'' ''sentence_embedding''" "\<not> contains_str ''sentence_embedding'' ''token_embeddings''"
  "''sentence_embedding'' \<noteq> ''token_embeddings''" "''text_embeds'' \<noteq> ''token_embeddings''"
  "''text_embeds'' \<noteq> ''sentence_embedding''" "''last_hidden_state'' \<noteq> ''token_embeddings''"
  "''last_hidden_state'' \<noteq> ''sentence_embedding''"
  by code_simp+

lemma both_heads_cases:
  assumes "both_heads n outs"
  obtains width data v where "map_of outs ''sentence_embedding'' = Some (F32_Tensor [n, width] data)"
    "length data = n * width" "map_of outs ''token_embeddings'' = Some v"
    "outs = [(''sentence_embedding'', F32_Tensor [n, width] data), (''token_embeddings'', v)] \<or>
     outs = [(''token_embeddings'', v), (''sentence_embedding'', F32_Tensor [n, width] data)]"
proof -
  from assms obtain a u b v where o: "outs = [(a, u), (b, v)]" by (cases "(n, outs)" rule: both_heads.cases) auto
  have r: "\<exists>width data. w = F32_Tensor [n, width] data \<and> length data = n * width" if "row_per_text n w" for w
    using that by (cases "(n, w)" rule: row_per_text.cases) auto
  from assms consider "a = ''sentence_embedding''" "b = ''token_embeddings''" "row_per_text n u"
    | "a = ''token_embeddings''" "b = ''sentence_embedding''" "row_per_text n v" unfolding o both_heads.simps by blast
  then show thesis
  proof cases
    case 1
    with r [of u] obtain width data where "u = F32_Tensor [n, width] data" "length data = n * width" by blast
    then show thesis using 1 by (intro that [of width data v]) (simp_all add: o)
  next
    case 2
    with r [of v] obtain width data where "v = F32_Tensor [n, width] data" "length data = n * width" by blast
    then show thesis using 2 by (intro that [of width data u]) (simp_all add: o)
  qed
qed

lemma tensor_rows_length: "tensor_rows n width data = Some rows \<Longrightarrow> length rows = n"
  by (auto simp: tensor_rows_def dest!: collect_options_length)

lemma dense_rows_alt: "dense_rows n width data = map_option (map normalize_vec) (tensor_rows n width data)"
  by (simp add: dense_rows_def tensor_rows_def)

lemma or_panic_Ok: "or_panic v = Ok x \<longleftrightarrow> v = Some x"
  by (simp add: or_panic_def split: option.split)

text \<open>The dense heads of the two engines read the same tensor and the same rows of it.\<close>

lemma dense_heads_agree:
  assumes "both_heads n outs"
  shows "dense_head om n outs = Ok d \<longleftrightarrow> map_outcome (map normalize_vec)
    (select_and_pool_output om text_precedence (Some Cls) \<lparr>sb_outputs = outs, sb_attention_mask = attn\<rparr>) = Ok d"
proof -
  from assms obtain width data v where o: "map_of outs ''sentence_embedding'' = Some (F32_Tensor [n, width] data)"
    and two: "outs = [(''sentence_embedding'', F32_Tensor [n, width] data), (''token_embeddings'', v)] \<or>
      outs = [(''token_embeddings'', v), (''sentence_embedding'', F32_Tensor [n, width] data)]"
    by (rule both_heads_cases)
  have "select_output_key om (named_ranks outs) ''sentence_embedding'' 2 = Ok ''sentence_embedding''"
    using two by (elim disjE) (simp_all only: select_output_key_def named_ranks_def list.map prod.case find.simps
      name_facts if_True if_False option.case)
  then have "dense_head om n outs = Ok d \<longleftrightarrow> map_option (map normalize_vec) (tensor_rows n width data) = Some d"
    by (auto simp: dense_head_def o extract_tensor_def dense_rows_alt split: option.split)
  moreover have "find_map (output_for outs) text_precedence = Some (F32_Tensor [n, width] data)"
    using two by (elim disjE) (simp_all add: text_precedence_def output_for_def)
  then have "select_output om text_precedence \<lparr>sb_outputs = outs, sb_attention_mask = attn\<rparr> = Ok ([n, width], data)"
    by (simp add: select_output_def extract_tensor_def)
  ultimately show ?thesis by (auto simp: select_and_pool_output_def cls_pool_def or_panic_Ok)
qed

lemma sparse_heads_agree:
  assumes "both_heads n outs"
  shows "sparse_head om lx n len ids attn outs = sparse_bgem3_output om lx n len ids attn outs"
proof -
  from assms obtain width data v where two:
    "outs = [(''sentence_embedding'', F32_Tensor [n, width] data), (''token_embeddings'', v)] \<or>
      outs = [(''token_embeddings'', v), (''sentence_embedding'', F32_Tensor [n, width] data)]"
    by (rule both_heads_cases)
  then have "select_output_key om (named_ranks outs) ''token_embedding'' 3 = Ok ''token_embeddings''"
    and "token_output_key om outs = Ok ''token_embeddings''"
    by (elim disjE; simp only: select_output_key_def token_output_key_def named_ranks_def list.map prod.case fst_conv
      find.simps name_facts if_True if_False option.case)+
  then show ?thesis by (simp only: sparse_head_def sparse_bgem3_output_def or_panic_def)
qed

lemma post_process_length: "post_process_bgem3 lx shape data ids attn = Some rows \<Longrightarrow> length rows = ar_rows ids"
  by (auto simp: post_process_bgem3_def dest: collect_options_length)

lemma sparse_head_length: "sparse_head om lx n len ids attn outs = Ok rows \<Longrightarrow> length rows = ar_rows ids"
  by (auto simp: sparse_head_def bind_outcome_eq_Ok dest: post_process_length split: option.splits if_splits)

text \<open>Each engine on such a session, as one function of its batches.\<close>

definition pass_of :: "(string, 'e) onnx_model \<Rightarrow> 'e \<Rightarrow> string list \<Rightarrow>
    (app_error, int array2 \<times> int array2 \<times> session_outputs) outcome" where
  "pass_of om e batch = fst (forward_pass om ''Failed to encode the batch.'' batch e)"

definition dense_of ::
  "(string, 'e) onnx_model \<Rightarrow> text_settings \<Rightarrow> single_batch_output \<Rightarrow> (app_error, f32 list list) outcome" where
  "dense_of om cfg sb = map_outcome (map normalize_vec) (select_and_pool_output om
     (case tx_output_key cfg of Some key \<Rightarrow> [key] | None \<Rightarrow> text_precedence) (tx_pooling cfg) sb)"

lemma pass_of_any:
  assumes "\<And>inputs e e'. fst (om_run om inputs e) = fst (om_run om inputs e')"
  shows "fst (forward_pass om ''Failed to encode the batch.'' batch e') = pass_of om e batch"
  unfolding pass_of_def by (rule forward_pass_pure [OF assms])

lemma dual_calls:
  assumes "\<And>inputs e e'. fst (om_run om inputs e) = fst (om_run om inputs e')" and "0 < n"
  shows "fst (dual_embed om lx texts n e1) =
     try_extend (\<lambda>b. bind_outcome (pass_of om e b) (read_heads om lx)) (chunks n texts)"
  using assms(2) unfolding dual_embed_def
  by (subst in_batches_pure [where f = "\<lambda>b. bind_outcome (pass_of om e b) (read_heads om lx)"])
    (simp_all add: embed_batch_def case_prod_beta pass_of_any [OF assms(1), of _ _ e])

lemma sparse_calls:
  assumes "\<And>inputs e e'. fst (om_run om inputs e) = fst (om_run om inputs e')" and "0 < n"
  shows "fst (sparse_embed om lx ln_f32 m texts (Some n) e1) =
     try_extend (\<lambda>b. bind_outcome (pass_of om e b) (sparse_batch om lx ln_f32 m)) (chunks n texts)"
  using assms(2) unfolding sparse_embed_def
  by (subst in_batches_pure [where f = "\<lambda>b. bind_outcome (pass_of om e b) (sparse_batch om lx ln_f32 m)"])
    (simp_all add: case_prod_beta pass_of_any [OF assms(1), of _ _ e])

lemma dense_calls:
  assumes "\<And>inputs e e'. fst (om_run om inputs e) = fst (om_run om inputs e')" and "0 < n"
    and "tx_quantization cfg \<noteq> Dynamic"
  shows "fst (text_embed om cfg texts (Some n) e1) = Ok d \<longleftrightarrow>
    try_extend (\<lambda>b. bind_outcome (pass_of om e b) (\<lambda>x. dense_of om cfg (batch_output x))) (chunks n texts) = Ok d"
proof -
  have "fst (in_batches (raw_batch om) texts n e1) =
      try_extend (\<lambda>b. map_outcome (\<lambda>x. [batch_output x]) (pass_of om e b)) (chunks n texts)"
    using assms(2) by (subst in_batches_pure [where f = "\<lambda>b. map_outcome (\<lambda>x. [batch_output x]) (pass_of om e b)"])
      (simp_all add: raw_batch_def case_prod_beta pass_of_any [OF assms(1), of _ _ e])
  moreover have "batch_size_for (tx_quantization cfg) (Some n) count = Ok n" for count
    using assms(3) by (cases "tx_quantization cfg") (simp_all add: batch_size_for_def)
  ultimately have "fst (text_embed om cfg texts (Some n) e1) =
      bind_outcome (try_extend (\<lambda>b. map_outcome (\<lambda>x. [batch_output x]) (pass_of om e b)) (chunks n texts))
        (try_extend (dense_of om cfg))"
    unfolding text_embed_def transform_def transformer_with_precedence_def dense_of_def [abs_def]
    by (simp add: case_prod_beta)
  then show ?thesis by (simp add: try_extend_stages)
qed

lemma pass_answers:
  assumes "\<And>ids rest e' outs. fst (om_run om ((''input_ids'', ids) # rest) e') = Ok outs \<Longrightarrow> both_heads (ar_rows ids) outs"
    and "pass_of om e batch = Ok (ids, attn, outs)"
  shows "both_heads (ar_rows ids) outs"
proof -
  obtain r e' where f: "forward_pass om ''Failed to encode the batch.'' batch e = (r, e')" by (metis prod.exhaust)
  with assms(2) have "r = Ok (ids, attn, outs)" by (simp add: pass_of_def)
  from forward_pass_Ok [OF f [unfolded this]] obtain types inputs where
    m: "make_inputs om ids attn types = Ok inputs" "om_run om inputs e = (Ok outs, e')" by blast
  from m(1) obtain rest where "inputs = (''input_ids'', ids) # rest"
    by (auto simp: make_inputs_def as_value_def bind_outcome_eq_Ok split: option.splits if_splits)
  with m(2) assms(1) show ?thesis by (metis fst_conv)
qed

text \<open>
  C5: One session and one pass give what two sessions give. Let the session answer as its inputs say and, for a batch,
  with the two outputs of the export in either order, the pooled one with a row per text; the token tensor may have any
  shape. Then the dual engine returns rows exactly when the dense and the sparse engine of the same model both return,
  each row is the vector of the one with the weights of the other, bit for bit, and no vector is left over.
\<close>

theorem dual_embed_is_both_engines:
  assumes "\<And>inputs e e'. fst (om_run om inputs e) = fst (om_run om inputs e')"
    and "\<And>ids rest e outs. fst (om_run om ((''input_ids'', ids) # rest) e) = Ok outs \<Longrightarrow> both_heads (ar_rows ids) outs"
    and "get_model_info BGEM3 = Ok info"
  shows "fst (dual_embed om lx texts n e) = Ok rows \<longleftrightarrow>
    (\<exists>dense sparse. fst (text_embed om (text_settings_of BGEM3 info) texts (Some n) e1) = Ok dense \<and>
      fst (sparse_embed om lx ln_f32 Sparse_BGEM3 texts (Some n) e2) = Ok sparse \<and>
      length dense = length sparse \<and> rows = zip dense sparse)"
proof (cases "n = 0")
  case True
  then show ?thesis by (simp add: dual_embed_def in_batches_def sparse_embed_def)
next
  case False
  let ?cfg = "text_settings_of BGEM3 info" and ?P = "pass_of om e"
  have cfg: "?cfg = \<lparr>tx_pooling = Some Cls, tx_quantization = Unquantized, tx_output_key = None\<rparr>"
    using bgem3_files assms(3) by (auto simp: text_settings_of_def)
  have heads: "both_heads (ar_rows ids) outs" if "?P b = Ok (ids, attn, outs)" for b ids attn outs
    by (rule pass_answers [OF _ that]) (rule assms(2))
  have dense: "bind_outcome (?P b) (\<lambda>x. dense_of om ?cfg (batch_output x)) = Ok d \<longleftrightarrow>
      (\<exists>ids attn outs. ?P b = Ok (ids, attn, outs) \<and> dense_head om (ar_rows ids) outs = Ok d)" for b d
  proof (cases "?P b")
    case (Ok x)
    obtain ids attn outs where "x = (ids, attn, outs)" by (metis prod_cases3)
    with Ok have p: "?P b = Ok (ids, attn, outs)" by simp
    show ?thesis
      using dense_heads_agree [OF heads [OF p], of om d attn] by (simp add: p cfg dense_of_def batch_output_def)
  qed simp_all
  have sparse: "bind_outcome (?P b) (sparse_batch om lx ln_f32 Sparse_BGEM3) = Ok s \<longleftrightarrow> (\<exists>ids attn outs.
      ?P b = Ok (ids, attn, outs) \<and> sparse_head om lx (ar_rows ids) (ar_cols ids) ids attn outs = Ok s)" for b s
  proof (cases "?P b")
    case (Ok x)
    obtain ids attn outs where "x = (ids, attn, outs)" by (metis prod_cases3)
    with Ok have p: "?P b = Ok (ids, attn, outs)" by simp
    show ?thesis using sparse_heads_agree [OF heads [OF p], of om] by (simp add: p sparse_batch_def)
  qed simp_all
  have len: "length d = length s" if "dense_head om (ar_rows ids) outs = Ok d"
    "sparse_head om lx (ar_rows ids) (ar_cols ids) ids attn outs = Ok s" for ids attn outs d s
    using dense_head_length [OF that(1)] sparse_head_length [OF that(2)] by simp
  have calls: "0 < n" "tx_quantization ?cfg \<noteq> Dynamic" using False by (simp_all add: cfg)
  show ?thesis
    unfolding dual_calls [OF assms(1) calls(1), of lx texts e e] sparse_calls [OF assms(1) calls(1), of lx ln_f32 Sparse_BGEM3 texts e2 e]
      dense_calls [OF assms(1) calls, of texts e1 _ e]
  proof (rule try_extend_zip)
    show "bind_outcome (?P b) (read_heads om lx) = Ok r \<longleftrightarrow> (\<exists>d s. bind_outcome (?P b) (\<lambda>x. dense_of om ?cfg (batch_output x)) = Ok d \<and>
        bind_outcome (?P b) (sparse_batch om lx ln_f32 Sparse_BGEM3) = Ok s \<and> r = zip d s)" for b r
      unfolding dense sparse using len
      by (fastforce simp: bind_outcome_eq_Ok read_heads_def zip_heads_def split: if_splits)
    show "length d = length s" if "bind_outcome (?P b) (\<lambda>x. dense_of om ?cfg (batch_output x)) = Ok d"
      "bind_outcome (?P b) (sparse_batch om lx ln_f32 Sparse_BGEM3) = Ok s" for b d s
      using that len unfolding dense sparse by fastforce
  qed
qed

theorem dual_embed_is_both_engines_witness:
  "\<exists>info dense sparse. get_model_info BGEM3 = Ok info \<and>
     fst (text_embed byte_model (text_settings_of BGEM3 info) [''ab''] (Some 1) 5) = Ok dense \<and>
     fst (sparse_embed byte_model unit_head (\<lambda>x. x) Sparse_BGEM3 [''ab''] (Some 1) 7) = Ok sparse \<and>
     length dense = length sparse \<and> fst (dual_embed byte_model unit_head [''ab''] 1 0) = Ok (zip dense sparse)"
proof -
  obtain rows where r: "fst (dual_embed byte_model unit_head [''ab''] 1 0) = Ok rows"
    using byte_embed_ab [of 0] by auto
  obtain info where i: "get_model_info BGEM3 = Ok info" using bgem3_files by blast
  have "fst (om_run byte_model inputs e) = fst (om_run byte_model inputs e')" for inputs e e'
    by (simp add: byte_model_def Let_def)
  moreover have "both_heads (ar_rows ids) outs" if "fst (om_run byte_model ((''input_ids'', ids) # rest) e) = Ok outs"
    for ids rest e outs
    using that by (auto simp: byte_model_def Let_def)
  ultimately show ?thesis
    using dual_embed_is_both_engines [OF _ _ i, of byte_model unit_head "[''ab'']" 1 0 rows 5 "\<lambda>x. x" 7] r i by blast
qed

section \<open>Dynamic quantization\<close>

text \<open>
  A dynamically quantized model runs all texts as one batch or refuses: a smaller batch is an error, and so is a call
  without texts, which any other model answers with nothing.
\<close>

theorem dynamic_models_never_split:
  assumes "tx_quantization cfg = Dynamic"
  shows "text_embed om cfg texts wanted e =
    (if \<exists>n. wanted = Some n \<and> n < length texts then (Err (Message dynamic_batching_refused), e)
     else if texts = [] then (Err (Message ''batch_size must be greater than 0''), e)
     else case raw_batch om texts e of
       (r, e') \<Rightarrow> (bind_outcome r (try_extend (dense_of om cfg)), e'))"
proof (cases "texts = []")
  case True
  then show ?thesis
    by (simp add: text_embed_def transform_def assms batch_size_for_def in_batches_def split: option.split)
next
  case False
  then have c: "chunks (length texts) texts = [texts]"
    by (subst chunks.simps) (simp add: chunks.simps [of _ "[]"])
  have "in_batches (raw_batch om) texts (length texts) e = raw_batch om texts e"
    using False by (cases "raw_batch om texts e"; cases "fst (raw_batch om texts e)") (simp_all add: in_batches_def c)
  then show ?thesis
    using False unfolding text_embed_def transform_def transformer_with_precedence_def dense_of_def [abs_def]
    by (auto simp: assms batch_size_for_def case_prod_beta split: option.split)
qed

end
