(* ===== verification/Triple_Heads.thy ===== *)
theory Triple_Heads
  imports Dual_Serving Text_Models Total_Order
begin

text \<open>
  The upstream engine of the vendored \<open>fastembed\<close> that reads three outputs of a quantized BGE-M3 by their position
  (\<open>bgem3_embedding/impl.rs\<close>), beside which this repository put its dual engine, with the list of its one model
  (\<open>models/bgem3.rs\<close>); and the similarity helpers (\<open>similarity.rs\<close>). The tensors of the session are those of theory
  \<open>Forward_Pass\<close>.
\<close>

section \<open>The model\<close>

datatype bgem3_model = BGEM3Q

definition bgem3_models :: "(bgem3_model \<times> model_info) list" where
  "bgem3_models =
     [(BGEM3Q, \<lparr>mi_code = ''gpahal/bge-m3-onnx-int8'', mi_file = ''model_quantized.onnx'', mi_additional = []\<rparr>)]"

definition bgem3_model_info :: "bgem3_model \<Rightarrow> (app_error, model_info) outcome" where
  "bgem3_model_info m = (case List.find (\<lambda>(m', info). m' = m) bgem3_models of None \<Rightarrow> Panic | Some (m', info) \<Rightarrow> Ok info)"

definition bgem3_from_str :: "string \<Rightarrow> string + bgem3_model" where
  "bgem3_from_str s =
     (case List.find (\<lambda>(m, info). lowercase (mi_code info) = lowercase s) bgem3_models of
        None \<Rightarrow> Inl (''Unknown BGEM3 model: '' @ s)
      | Some (m, info) \<Rightarrow> Inr m)"

definition bgem3_try_new ::
  "('repo, 'b, 's, 't) setup_env \<Rightarrow> bool \<Rightarrow> bgem3_model \<Rightarrow> session_options \<Rightarrow>
     (app_error, ('s, 't) engine_parts \<times> bgem3_model) outcome" where
  "bgem3_try_new su progress m opts =
     bind_outcome (bgem3_model_info m) (\<lambda>info.
       map_outcome (\<lambda>parts. (parts, m))
         (make_engine su info progress (\<lambda>f. ''Failed to retrieve '' @ f @ '' '') (\<lambda>f. ''Failed to retrieve '' @ f) opts))"

section \<open>The three heads\<close>

record bgem3_output =
  bo_dense :: "f32 list list"
  bo_sparse :: "sparse_embedding list"
  bo_colbert :: "f32 list list list"

text \<open>\<open>ArrayViewD::from_shape(..)?\<close>.\<close>

definition array_view ::
  "(string, 'e) onnx_model \<Rightarrow> nat list \<times> f32 list \<Rightarrow> (app_error, nat list \<times> f32 list) outcome" where
  "array_view om = (\<lambda>(shape, data).
     if length data < prod_list shape then Err (Lib_Error (om_shape_error om)) else Ok (shape, data))"

text \<open>The lanes along the last axis; a tensor without an axis is one lane of one value.\<close>

definition lanes :: "nat list \<Rightarrow> f32 list \<Rightarrow> f32 list list option" where
  "lanes shape data =
     (if shape = [] then tensor_rows 1 1 data else tensor_rows (prod_list (butlast shape)) (last shape) data)"

definition dense_output ::
  "(string, 'e) onnx_model \<Rightarrow> ort_value \<Rightarrow> (app_error, f32 list list) outcome" where
  "dense_output om v =
     bind_outcome (extract_tensor om v) (\<lambda>tensor. bind_outcome (array_view om tensor) (\<lambda>(shape, data).
       or_panic (lanes shape data)))"

text \<open>\<open>sparse_view[[b, s, 0]]\<close>.\<close>

definition given_weight :: "nat list \<Rightarrow> f32 list \<Rightarrow> nat \<Rightarrow> nat \<Rightarrow> f32 option" where
  "given_weight shape data b s =
     (case hidden_at shape data b s of Some (w # ws) \<Rightarrow> Some w | _ \<Rightarrow> None)"

fun read_weights ::
  "nat list \<Rightarrow> f32 list \<Rightarrow> int array2 \<Rightarrow> int array2 \<Rightarrow> nat \<Rightarrow> nat list \<Rightarrow> (nat \<times> f32) list \<Rightarrow> (nat \<times> f32) list option"
  where
  "read_weights shape data ids attn b [] tw = Some tw"
| "read_weights shape data ids attn b (s # ss) tw =
     (case (array_at attn b s, array_at ids b s) of
        (Some on, Some token) \<Rightarrow>
          if on = 0 \<or> token \<in> set special_tokens then read_weights shape data ids attn b ss tw
          else (case given_weight shape data b s of
              None \<Rightarrow> None
            | Some w \<Rightarrow>
                read_weights shape data ids attn b ss
                  (if f32_gt w 0 then note_weight (nat (token mod 2 ^ 64)) w tw else tw))
      | _ \<Rightarrow> None)"

definition sparse_output ::
  "(string, 'e) onnx_model \<Rightarrow> int array2 \<Rightarrow> int array2 \<Rightarrow> ort_value \<Rightarrow> (app_error, sparse_embedding list) outcome" where
  "sparse_output om ids attn v =
     bind_outcome (extract_tensor om v) (\<lambda>(shape, data).
       if length shape \<noteq> 3
       then Err (Message (''BGE-M3 sparse output must be rank-3 [batch, seq_len, 1], got shape '' @ om_show_shape om shape))
       else bind_outcome (array_view om (shape, data)) (\<lambda>(shape, data).
         or_panic (collect_options (map (\<lambda>b. map_option sparse_row
           (read_weights shape data ids attn b [0 ..< ar_cols ids] [])) [0 ..< ar_rows ids]))))"

fun colbert_doc :: "nat list \<Rightarrow> f32 list \<Rightarrow> int array2 \<Rightarrow> nat \<Rightarrow> nat list \<Rightarrow> f32 list list option" where
  "colbert_doc shape data attn b [] = Some []"
| "colbert_doc shape data attn b (s # ss) =
     (case array_at attn b (s + 1) of
        None \<Rightarrow> None
      | Some on \<Rightarrow>
          if on = 1
          then (case hidden_at shape data b s of
              None \<Rightarrow> None
            | Some v \<Rightarrow> map_option ((#) v) (colbert_doc shape data attn b ss))
          else colbert_doc shape data attn b ss)"

definition colbert_output ::
  "(string, 'e) onnx_model \<Rightarrow> nat \<Rightarrow> nat \<Rightarrow> int array2 \<Rightarrow> ort_value \<Rightarrow> (app_error, f32 list list list) outcome" where
  "colbert_output om nrows len attn v =
     bind_outcome (extract_tensor om v) (\<lambda>(shape, data).
       if \<not> (length shape = 3 \<and> shape ! 1 < len)
       then Err (Message (''BGE-M3 colbert output must be rank-3 [batch, seq_len - 1, dim] with seq_len - 1 < ''
         @ show_nat len @ '', got shape '' @ om_show_shape om shape))
       else bind_outcome (array_view om (shape, data)) (\<lambda>(shape, data).
         or_panic (collect_options (map (\<lambda>b. colbert_doc shape data attn b [0 ..< shape ! 1]) [0 ..< nrows]))))"

definition three_heads ::
  "(string, 'e) onnx_model \<Rightarrow> int array2 \<times> int array2 \<times> session_outputs \<Rightarrow> (app_error, bgem3_output list) outcome" where
  "three_heads om = (\<lambda>(ids, attn, outs).
     case outs of
       (k, dense) # (k', sparse) # (k'', colbert) # more_outs \<Rightarrow>
         bind_outcome (dense_output om dense) (\<lambda>d.
         bind_outcome (sparse_output om ids attn sparse) (\<lambda>s.
         bind_outcome (colbert_output om (ar_rows ids) (ar_cols ids) attn colbert) (\<lambda>c.
           Ok [\<lparr>bo_dense = d, bo_sparse = s, bo_colbert = c\<rparr>])))
     | _ \<Rightarrow> Err (Message (''BGE-M3 expects the model to return 3 outputs (dense, sparse, colbert), got ''
         @ show_nat (length outs))))"

text \<open>The three vectors of a call grow batch by batch.\<close>

definition bgem3_embed ::
  "(string, 'e) onnx_model \<Rightarrow> string list \<Rightarrow> nat option \<Rightarrow> 'e \<Rightarrow> (app_error, bgem3_output) outcome \<times> 'e" where
  "bgem3_embed om texts wanted e =
     (case in_batches (\<lambda>batch e. case forward_pass om ''Failed to encode the batch.'' batch e of
           (r, e') \<Rightarrow> (bind_outcome r (three_heads om), e'))
         texts (case wanted of None \<Rightarrow> 256 | Some n \<Rightarrow> n) e of
        (r, e') \<Rightarrow>
          (map_outcome (\<lambda>parts. \<lparr>bo_dense = concat (map bo_dense parts), bo_sparse = concat (map bo_sparse parts),
             bo_colbert = concat (map bo_colbert parts)\<rparr>) r, e'))"

section \<open>What the positions cost\<close>

text \<open>Every text has a sparse row and a list of token vectors; the dense rows are whatever the tensor holds.\<close>

lemma three_heads_lengths:
  assumes "three_heads om (ids, attn, outs) = Ok parts"
  shows "\<exists>p. parts = [p] \<and> length (bo_sparse p) = ar_rows ids \<and> length (bo_colbert p) = ar_rows ids"
proof -
  from assms obtain k d k' s k'' c more_outs where o: "outs = (k, d) # (k', s) # (k'', c) # more_outs"
    unfolding three_heads_def by (auto split: list.splits)
  from assms obtain dr sr cr where "sparse_output om ids attn s = Ok sr"
    and "colbert_output om (ar_rows ids) (ar_cols ids) attn c = Ok cr"
    and p: "parts = [\<lparr>bo_dense = dr, bo_sparse = sr, bo_colbert = cr\<rparr>]"
    by (auto simp: three_heads_def o bind_outcome_eq_Ok)
  moreover from this have "length sr = ar_rows ids" "length cr = ar_rows ids"
    by (auto simp: sparse_output_def colbert_output_def bind_outcome_eq_Ok or_panic_def
        dest: collect_options_length split: if_splits option.splits)
  ultimately show ?thesis by simp
qed

text \<open>
  The guard of the dual engine is missing here. When the second output has fewer rows than the batch, and the first
  text beyond it has an ordinary token, the read of its weight is out of bounds and the call panics, on the very
  tensors for which the dual engine answers with an error.
\<close>

theorem short_sparse_output_panics:
  assumes "from_shape_vec n len xs = Some ids" and "from_shape_vec n len ys = Some attn"
    and "short < n" and "0 < len" and "xs ! (short * len) \<notin> set special_tokens" and "ys ! (short * len) \<noteq> 0"
    and "length data = short * len * width"
  shows "sparse_output om ids attn (F32_Tensor [short, len, width] data) = Panic"
proof -
  have "read_weights [short, len, width] data ids attn short (0 # ss) tw = None" for ss tw
    using array_at_in [OF assms(1,3,4)] array_at_in [OF assms(2,3,4)] assms(5,6)
    by (simp add: given_weight_def hidden_at_def)
  moreover have "[0 ..< ar_cols ids] = 0 # [1 ..< ar_cols ids]" "short \<in> set [0 ..< ar_rows ids]"
    using assms(1,3,4) by (auto simp: from_shape_vec_Some upt_conv_Cons)
  ultimately have "collect_options (map (\<lambda>b. map_option sparse_row
      (read_weights [short, len, width] data ids attn b [0 ..< ar_cols ids] [])) [0 ..< ar_rows ids]) = None"
    unfolding collect_options_map_None by (metis option.map_disc_iff)
  then show ?thesis using assms(7) by (simp add: sparse_output_def extract_tensor_def array_view_def or_panic_def mult.assoc)
qed

theorem short_sparse_output_panics_witness:
  "sparse_output byte_model \<lparr>ar_rows = 2, ar_cols = 1, ar_data = [7, 7]\<rparr> \<lparr>ar_rows = 2, ar_cols = 1, ar_data = [1, 1]\<rparr>
     (F32_Tensor [1, 1, 1] [f32_one]) = Panic"
  by (rule short_sparse_output_panics [of 2 1 "[7, 7]" _ "[1, 1]"])
    (simp_all add: from_shape_vec_def special_tokens_def)

section \<open>Similarity\<close>

text \<open>The sum of an iterator of floats starts at a negative zero.\<close>

definition minus_zero :: f32 where
  "minus_zero = 0x80000000"

definition dot_product :: "f32 list \<Rightarrow> f32 list \<Rightarrow> f32" where
  "dot_product a b = fold (\<lambda>(x, y) acc. f32_add acc (f32_mul x y)) (zip a b) minus_zero"

definition cosine_similarity :: "f32 list \<Rightarrow> f32 list \<Rightarrow> f32" where
  "cosine_similarity a b =
     (let na = f32_sqrt (dot_product a a); nb = f32_sqrt (dot_product b b)
      in if f32_eq na 0 \<or> f32_eq nb 0 then 0 else f32_div (dot_product a b) (f32_mul na nb))"

text \<open>\<open>sort_unstable_by\<close> leaves the order of ties open: it is a parameter that sorts.\<close>

definition top_k ::
  "((nat \<times> f32) list \<Rightarrow> (nat \<times> f32) list) \<Rightarrow> f32 list \<Rightarrow> f32 list list \<Rightarrow> nat \<Rightarrow> (nat \<times> f32) list" where
  "top_k sorter query corpus k =
     take k (sorter (zip [0 ..< length corpus] (map (cosine_similarity query) corpus)))"

definition sorts_descending :: "((nat \<times> f32) list \<Rightarrow> (nat \<times> f32) list) \<Rightarrow> bool" where
  "sorts_descending sorter \<longleftrightarrow> (\<forall>xs. mset (sorter xs) = mset xs \<and>
     sorted_wrt (\<lambda>a b. total_key (snd b) \<le> total_key (snd a)) (sorter xs))"

text \<open>
  The best vectors come back, best first, each with its own score: nothing that is left out has a greater key than
  anything returned.
\<close>

theorem top_k_holds_the_closest:
  assumes "sorts_descending sorter"
  shows "length (top_k sorter query corpus k) = min k (length corpus) \<and>
    sorted_wrt (\<lambda>a b. total_key (snd b) \<le> total_key (snd a)) (top_k sorter query corpus k) \<and>
    distinct (map fst (top_k sorter query corpus k)) \<and>
    (\<forall>(i, s)\<in>set (top_k sorter query corpus k). i < length corpus \<and> s = cosine_similarity query (corpus ! i) \<and>
      (\<forall>j<length corpus. j \<notin> fst ` set (top_k sorter query corpus k) \<longrightarrow>
        total_key (cosine_similarity query (corpus ! j)) \<le> total_key s))"
proof -
  define xs where "xs = zip [0 ..< length corpus] (map (cosine_similarity query) corpus)"
  define ys where "ys = sorter xs"
  have ys: "mset ys = mset xs" "sorted_wrt (\<lambda>a b. total_key (snd b) \<le> total_key (snd a)) ys"
    using assms by (simp_all add: ys_def sorts_descending_def)
  have xs: "(i, s) \<in> set xs \<longleftrightarrow> i < length corpus \<and> s = cosine_similarity query (corpus ! i)" for i s
    by (auto simp: xs_def in_set_zip intro!: exI [of _ i])
  have set: "set ys = set xs" using ys(1) by (rule mset_eq_setD)
  have "length ys = length corpus" using mset_eq_length [OF ys(1)] by (simp add: xs_def)
  moreover have "mset (map fst ys) = mset [0 ..< length corpus]"
    using ys(1) by (metis map_fst_zip mset_map length_map length_upt diff_zero xs_def)
  then have d: "distinct (map fst ys)" by (metis distinct_upt mset_eq_imp_distinct_iff)
  moreover have "total_key (cosine_similarity query (corpus ! j)) \<le> total_key s"
    if "(i, s) \<in> set (take k ys)" "j < length corpus" "j \<notin> fst ` set (take k ys)" for i s j
  proof -
    have "(j, cosine_similarity query (corpus ! j)) \<in> set ys" using that(2) by (simp add: set xs)
    then have "(j, cosine_similarity query (corpus ! j)) \<in> set (take k ys) \<union> set (drop k ys)"
      by (metis append_take_drop_id set_append)
    with that(3) have "(j, cosine_similarity query (corpus ! j)) \<in> set (drop k ys)" by force
    moreover have "sorted_wrt (\<lambda>a b. total_key (snd b) \<le> total_key (snd a)) (take k ys @ drop k ys)" using ys(2) by simp
    ultimately show ?thesis using that(1) unfolding sorted_wrt_append by force
  qed
  moreover have "(i, s) \<in> set (take k ys) \<Longrightarrow> (i, s) \<in> set xs" for i s using set in_set_takeD by metis
  ultimately show ?thesis
    using ys(2) unfolding top_k_def xs_def [symmetric] ys_def [symmetric]
    by (auto simp: xs take_map [symmetric] sorted_wrt_take)
qed

end
