(* ===== verification/Image_Input.thy ===== *)
theory Image_Input
  imports Engine_Setup Pooled_Output
begin

text \<open>
  How the image engine of the vendored \<open>fastembed\<close> turns a picture into a tensor
  (\<open>image_embedding/utils.rs\<close>): the steps that a preprocessor file asks for, and what each does. Decoding,
  resizing and cropping are the library \<open>image\<close>: the fields of \<open>image_lib\<close>. Indexing an array out of its bounds
  panics.
\<close>

section \<open>Arrays and pictures\<close>

text \<open>An \<open>Array3\<close> in row order; \<open>place3\<close> is the position of an index, nothing outside.\<close>

record array3 =
  a3_c :: nat
  a3_h :: nat
  a3_w :: nat
  a3_data :: "f32 list"

definition zeros3 :: "nat \<Rightarrow> nat \<Rightarrow> nat \<Rightarrow> array3" where
  "zeros3 c h w = \<lparr>a3_c = c, a3_h = h, a3_w = w, a3_data = replicate (c * h * w) 0\<rparr>"

definition place3 :: "array3 \<Rightarrow> nat \<Rightarrow> nat \<Rightarrow> nat \<Rightarrow> nat option" where
  "place3 a c y x =
     (if c < a3_c a \<and> y < a3_h a \<and> x < a3_w a then Some ((c * a3_h a + y) * a3_w a + x) else None)"

definition put3 :: "nat \<Rightarrow> nat \<Rightarrow> nat \<Rightarrow> f32 \<Rightarrow> array3 \<Rightarrow> array3 option" where
  "put3 c y x v a = map_option (\<lambda>i. a\<lparr>a3_data := (a3_data a)[i := v]\<rparr>) (place3 a c y x)"

definition get3 :: "array3 \<Rightarrow> nat \<Rightarrow> nat \<Rightarrow> nat \<Rightarrow> f32 option" where
  "get3 a c y x = Option.bind (place3 a c y x) (nth_opt (a3_data a))"

type_synonym pixel = "8 word \<times> 8 word \<times> 8 word"

record 'img image_lib =
  il_size :: "'img \<Rightarrow> nat \<times> nat"
  il_pixel :: "'img \<Rightarrow> nat \<Rightarrow> nat \<Rightarrow> pixel"
  il_rgb :: "'img \<Rightarrow> 'img"
  il_resize :: "'img \<Rightarrow> nat \<Rightarrow> nat \<Rightarrow> 'img"
  il_crop :: "'img \<Rightarrow> nat \<Rightarrow> nat \<Rightarrow> nat \<Rightarrow> nat \<Rightarrow> 'img"

datatype 'img transform_data = Image 'img | Nd_Array array3

definition as_image :: "'img transform_data \<Rightarrow> (app_error, 'img) outcome" where
  "as_image d = (case d of Image img \<Rightarrow> Ok img | Nd_Array a \<Rightarrow> Err (Message ''TransformData convert error''))"

definition as_nd_array :: "'img transform_data \<Rightarrow> (app_error, array3) outcome" where
  "as_nd_array d = (case d of Nd_Array a \<Rightarrow> Ok a | Image img \<Rightarrow> Err (Message ''TransformData convert error''))"

section \<open>The steps\<close>

text \<open>The sizes are in the order of the fields: \<open>size.0\<close> and \<open>size.1\<close>.\<close>

datatype transform_step =
    Convert_To_RGB
  | Resize nat nat
  | Center_Crop nat nat
  | PIL_To_NDarray
  | Rescale f32
  | Normalize "f32 list" "f32 list"

text \<open>The pixels in the order of \<open>enumerate_pixels\<close>, each put at its place moved by the offsets; \<open>u32\<close> arithmetic.\<close>

definition u32_plus :: "nat \<Rightarrow> nat \<Rightarrow> nat" where
  "u32_plus a b = (a + b) mod 2 ^ 32"

definition u32_minus :: "nat \<Rightarrow> nat \<Rightarrow> nat" where
  "u32_minus a b = (a + 2 ^ 32 - b) mod 2 ^ 32"

definition pixel_places :: "nat \<Rightarrow> nat \<Rightarrow> (nat \<times> nat) list" where
  "pixel_places w h = concat (map (\<lambda>y. map (\<lambda>x. (x, y)) [0 ..< w]) [0 ..< h])"

definition u8_as_f32 :: "8 word \<Rightarrow> f32" where
  "u8_as_f32 v = f32_round False (unat v) 0"

fun draw_pixels ::
  "('img \<Rightarrow> nat \<Rightarrow> nat \<Rightarrow> pixel) \<Rightarrow> 'img \<Rightarrow> nat \<Rightarrow> nat \<Rightarrow> (nat \<times> nat) list \<Rightarrow> array3 \<Rightarrow> array3 option" where
  "draw_pixels pixel_of img off_x off_y [] a = Some a"
| "draw_pixels pixel_of img off_x off_y ((x, y) # places) a =
     (case pixel_of img x y of
        (r, g, b) \<Rightarrow>
          Option.bind (put3 0 (u32_plus y off_y) (u32_plus x off_x) (u8_as_f32 r) a) (\<lambda>a.
          Option.bind (put3 1 (u32_plus y off_y) (u32_plus x off_x) (u8_as_f32 g) a) (\<lambda>a.
          Option.bind (put3 2 (u32_plus y off_y) (u32_plus x off_x) (u8_as_f32 b) a)
            (draw_pixels pixel_of img off_x off_y places))))"

definition center_crop :: "'img image_lib \<Rightarrow> nat \<Rightarrow> nat \<Rightarrow> 'img \<Rightarrow> (app_error, 'img transform_data) outcome" where
  "center_crop lib crop_w crop_h img =
     (case il_size lib img of
        (w, h) \<Rightarrow>
          if crop_w \<le> w \<and> crop_h \<le> h
          then Ok (Image (il_crop lib img ((w - crop_w) div 2) ((h - crop_h) div 2) crop_w crop_h))
          else (let img' = (if crop_w < w \<or> crop_h < h
                            then (case (if crop_w < w then ((w - crop_w) div 2, 0) else (0, u32_minus h crop_h div 2)) of
                                    (x, y) \<Rightarrow> il_crop lib img x y (min w crop_w) (min h crop_h))
                            else img)
                in case il_size lib img' of
                     (w', h') \<Rightarrow>
                       map_outcome Nd_Array (or_panic (draw_pixels (il_pixel lib) img' (u32_minus crop_w w' div 2)
                         (u32_minus crop_h h' div 2) (pixel_places w' h') (zeros3 3 crop_w crop_h)))))"

definition to_nd_array :: "'img image_lib \<Rightarrow> 'img transform_data \<Rightarrow> (app_error, 'img transform_data) outcome" where
  "to_nd_array lib d =
     (case d of
        Image img \<Rightarrow>
          (case il_size lib img of (w, h) \<Rightarrow>
            map_outcome Nd_Array (or_panic (draw_pixels (il_pixel lib) img 0 0 (pixel_places w h) (zeros3 3 h w))))
      | Nd_Array a \<Rightarrow> Ok (Nd_Array a))"

definition map_array :: "(f32 \<Rightarrow> f32) \<Rightarrow> array3 \<Rightarrow> array3" where
  "map_array f a = a\<lparr>a3_data := map f (a3_data a)\<rparr>"

definition f32_sub :: "f32 \<Rightarrow> f32 \<Rightarrow> f32" where
  "f32_sub x y = f32_add x (xor y 0x80000000)"

text \<open>\<open>reshaped\<close> is the text of the shape error of \<open>ndarray\<close>.\<close>

definition normalize_array ::
  "string \<Rightarrow> f32 list \<Rightarrow> f32 list \<Rightarrow> array3 \<Rightarrow> (app_error, array3) outcome" where
  "normalize_array reshaped means stds a =
     (let shape = ''('' @ show_nat (a3_c a) @ '', '' @ show_nat (a3_h a) @ '', '' @ show_nat (a3_w a) @ '')''
      in if length means \<noteq> 3 then Err (Message (''Failed to reshape mean array: '' @ reshaped))
         else if length stds \<noteq> 3 then Err (Message (''Failed to reshape std array: '' @ reshaped))
         else if a3_c a \<noteq> 3 then Err (Message (''Failed to broadcast mean array to shape '' @ shape))
         else Ok (a\<lparr>a3_data := map (\<lambda>(i, v). let c = i div (a3_h a * a3_w a) in f32_div (f32_sub v (means ! c)) (stds ! c))
           (zip [0 ..< length (a3_data a)] (a3_data a))\<rparr>))"

definition transform_one ::
  "'img image_lib \<Rightarrow> string \<Rightarrow> transform_step \<Rightarrow> 'img transform_data \<Rightarrow> (app_error, 'img transform_data) outcome" where
  "transform_one lib reshaped step d =
     (case step of
        Convert_To_RGB \<Rightarrow> map_outcome (\<lambda>img. Image (il_rgb lib img)) (as_image d)
      | Resize a b \<Rightarrow> map_outcome (\<lambda>img. Image (il_resize lib img a b)) (as_image d)
      | Center_Crop a b \<Rightarrow> bind_outcome (as_image d) (center_crop lib a b)
      | PIL_To_NDarray \<Rightarrow> to_nd_array lib d
      | Rescale s \<Rightarrow> map_outcome (\<lambda>a. Nd_Array (map_array (\<lambda>v. f32_mul v s) a)) (as_nd_array d)
      | Normalize means stds \<Rightarrow>
          bind_outcome (as_nd_array d) (\<lambda>a. map_outcome Nd_Array (normalize_array reshaped means stds a)))"

fun compose_transform ::
  "'img image_lib \<Rightarrow> string \<Rightarrow> transform_step list \<Rightarrow> 'img transform_data \<Rightarrow> (app_error, 'img transform_data) outcome"
  where
  "compose_transform lib reshaped [] d = Ok d"
| "compose_transform lib reshaped (s # ss) d =
     bind_outcome (transform_one lib reshaped s d) (compose_transform lib reshaped ss)"

section \<open>The preprocessor file\<close>

text \<open>Division of two \<open>f64\<close>, rounded to 53 bits; \<open>as u32\<close> saturates.\<close>

definition f64_round :: "bool \<Rightarrow> nat \<Rightarrow> int \<Rightarrow> f32_num" where
  "f64_round s m e =
     (if m = 0 then Fin s 0 (-1074)
      else (let q = max (int (bit_len m) - 53 + e) (-1074);
                M = (if q \<le> e then m * 2 ^ nat (e - q) else round_shift m (nat (q - e)))
            in if 1024 < int (bit_len M) + q then Inf s else Fin s M q))"

fun f64_div :: "f32_num \<Rightarrow> f32_num \<Rightarrow> f32_num" where
  "f64_div Nan y = Nan"
| "f64_div x Nan = Nan"
| "f64_div (Inf s) (Inf t) = Nan"
| "f64_div (Inf s) (Fin t m e) = Inf (s \<noteq> t)"
| "f64_div (Fin s m e) (Inf t) = Fin (s \<noteq> t) 0 (-1074)"
| "f64_div (Fin s m e) (Fin t n f) =
     (if n = 0 then (if m = 0 then Nan else Inf (s \<noteq> t))
      else (let w = m * 2 ^ 120
            in f64_round (s \<noteq> t) (2 * (w div n) + (if w mod n = 0 then 0 else 1)) (e - f - 121)))"

definition f64_as_u32 :: "f32_num \<Rightarrow> nat" where
  "f64_as_u32 x =
     (case x of
        Nan \<Rightarrow> 0
      | Inf s \<Rightarrow> if s then 0 else 2 ^ 32 - 1
      | Fin s m e \<Rightarrow>
          if s then 0 else min (if 0 \<le> e then m * 2 ^ nat e else m div 2 ^ nat (- e)) (2 ^ 32 - 1))"

definition flag :: "json \<Rightarrow> string \<Rightarrow> bool \<Rightarrow> bool" where
  "flag config key fallback = (case as_bool (json_at config key) of None \<Rightarrow> fallback | Some b \<Rightarrow> b)"

definition u64_as_u32 :: "nat \<Rightarrow> nat" where
  "u64_as_u32 n = n mod 2 ^ 32"

text \<open>The resize of the CLIP and of the Bit preprocessor.\<close>

definition resize_steps :: "json \<Rightarrow> (app_error, transform_step list) outcome" where
  "resize_steps config =
     (if flag config ''do_resize'' False
      then (let dims = json_at config ''size''
            in case (as_u64 (json_at dims ''shortest_edge''), as_u64 (json_at dims ''height''), as_u64 (json_at dims ''width'')) of
                 (Some edge, _, _) \<Rightarrow> Ok [Resize (u64_as_u32 edge) (u64_as_u32 edge)]
               | (None, Some h, Some w) \<Rightarrow> Ok [Resize (u64_as_u32 h) (u64_as_u32 w)]
               | _ \<Rightarrow> Err (Message ''Size must contain either 'shortest_edge' or 'height' and 'width'.''))
      else Ok [])"

definition require_side :: "string \<Rightarrow> json \<Rightarrow> (app_error, nat) outcome" where
  "require_side side v =
     (case as_u64 (json_at v side) of
        None \<Rightarrow> Err (Message (''crop_size '' @ side @ '' must be contained''))
      | Some n \<Rightarrow> Ok (u64_as_u32 n))"

definition crop_steps :: "(json \<Rightarrow> string) \<Rightarrow> json \<Rightarrow> (app_error, transform_step list) outcome" where
  "crop_steps show_json config =
     (if flag config ''do_center_crop'' False
      then (let crop = json_at config ''crop_size''
            in case crop of
                 Json_Number (Pos_Int n) \<Rightarrow> Ok [Center_Crop (u64_as_u32 n) (u64_as_u32 n)]
               | Json_Object members \<Rightarrow>
                   bind_outcome (require_side ''height'' crop) (\<lambda>h.
                   bind_outcome (require_side ''width'' crop) (\<lambda>w. Ok [Center_Crop w h]))
               | _ \<Rightarrow> Err (Message (''Invalid crop size: '' @ show_json crop)))
      else Ok [])"

definition conv_next_steps :: "json \<Rightarrow> (app_error, transform_step list) outcome" where
  "conv_next_steps config =
     (case as_u64 (json_at (json_at config ''size'') ''shortest_edge'') of
        None \<Rightarrow> Err (Message ''Size dictionary must contain 'shortest_edge' key.'')
      | Some n \<Rightarrow>
          (let edge = u64_as_u32 n;
               crop_pct = (case as_f64 (json_at config ''crop_pct'') of None \<Rightarrow> Fin False 7 (-3) | Some p \<Rightarrow> p)
           in if edge < 384
              then (let larger = f64_as_u32 (f64_div (nat_as_f64 False edge) crop_pct)
                    in Ok [Resize larger larger, Center_Crop edge edge])
              else Ok [Resize edge edge]))"

definition mode_steps :: "(json \<Rightarrow> string) \<Rightarrow> json \<Rightarrow> (app_error, transform_step list) outcome" where
  "mode_steps show_json config =
     (let mode = (case as_str (json_at config ''image_processor_type'') of None \<Rightarrow> ''CLIPImageProcessor'' | Some m \<Rightarrow> m)
      in if mode = ''CLIPImageProcessor''
         then bind_outcome (resize_steps config) (\<lambda>r. map_outcome (\<lambda>c. r @ c) (crop_steps show_json config))
         else if mode = ''ConvNextFeatureExtractor'' then conv_next_steps config
         else if mode = ''BitImageProcessor''
         then bind_outcome (resize_steps config) (\<lambda>r. map_outcome (\<lambda>c.
           (if flag config ''do_convert_rgb'' False then [Convert_To_RGB] else []) @ r @ c) (crop_steps show_json config))
         else Err (Message (''Preprocessor '' @ mode @ '' is not supported'')))"

fun floats_of :: "string \<Rightarrow> json list \<Rightarrow> (app_error, f32 list) outcome" where
  "floats_of key [] = Ok []"
| "floats_of key (v # vs) =
     (case as_f64 v of
        None \<Rightarrow> Err (Message (key @ '' must be float''))
      | Some x \<Rightarrow> map_outcome ((#) (f64_as_f32 x)) (floats_of key vs))"

definition float_list :: "json \<Rightarrow> string \<Rightarrow> (app_error, f32 list) outcome" where
  "float_list config key =
     (case json_at config key of
        Json_Array vs \<Rightarrow> floats_of key vs
      | _ \<Rightarrow> Err (Message (key @ '' must be contained'')))"

definition rescale_steps :: "json \<Rightarrow> transform_step list" where
  "rescale_steps config =
     (if flag config ''do_rescale'' True
      then [Rescale (f64_as_f32 (case as_f64 (json_at config ''rescale_factor'') of
              None \<Rightarrow> f64_div (nat_as_f64 False 1) (nat_as_f64 False 255) | Some x \<Rightarrow> x))]
      else [])"

definition normalize_steps :: "json \<Rightarrow> (app_error, transform_step list) outcome" where
  "normalize_steps config =
     (if flag config ''do_normalize'' False
      then bind_outcome (float_list config ''image_mean'') (\<lambda>means.
           bind_outcome (float_list config ''image_std'') (\<lambda>stds. Ok [Normalize means stds]))
      else Ok [])"

definition load_preprocessor :: "(json \<Rightarrow> string) \<Rightarrow> json \<Rightarrow> (app_error, transform_step list) outcome" where
  "load_preprocessor show_json config =
     bind_outcome (mode_steps show_json config) (\<lambda>steps.
     bind_outcome (normalize_steps config) (\<lambda>norm.
       Ok (Convert_To_RGB # steps @ [PIL_To_NDarray] @ rescale_steps config @ norm)))"

section \<open>A picture becomes its pixels\<close>

definition array3_ok :: "array3 \<Rightarrow> bool" where
  "array3_ok a \<longleftrightarrow> length (a3_data a) = a3_c a * a3_h a * a3_w a"

lemma place3_lt:
  assumes "array3_ok a" and "place3 a c y x = Some i"
  shows "i < length (a3_data a)"
proof -
  from assms(2) have c: "c < a3_c a" "y < a3_h a" "x < a3_w a" and i: "i = (c * a3_h a + y) * a3_w a + x"
    by (auto simp: place3_def split: if_splits)
  have "c * a3_h a + y < a3_c a * a3_h a" using c by (intro row_place)
  then show ?thesis using assms(1) c(3) by (simp add: i array3_ok_def row_place)
qed

lemma place3_inject:
  assumes "place3 a c y x = Some i" and "place3 a c' y' x' = Some i"
  shows "c = c' \<and> y = y' \<and> x = x'"
proof -
  from assms have lt: "y < a3_h a" "x < a3_w a" "y' < a3_h a" "x' < a3_w a"
    and i: "i = (c * a3_h a + y) * a3_w a + x" "i = (c' * a3_h a + y') * a3_w a + x'"
    by (auto simp: place3_def split: if_splits)
  have "i div a3_w a = c * a3_h a + y" "i mod a3_w a = x" using lt by (simp_all add: i(1))
  moreover have "i div a3_w a = c' * a3_h a + y'" "i mod a3_w a = x'" using lt by (simp_all add: i(2))
  ultimately have x: "x = x'" and r: "c * a3_h a + y = c' * a3_h a + y'" by simp_all
  have "(c * a3_h a + y) div a3_h a = c" "(c * a3_h a + y) mod a3_h a = y" using lt by simp_all
  moreover have "(c' * a3_h a + y') div a3_h a = c'" "(c' * a3_h a + y') mod a3_h a = y'" using lt by simp_all
  ultimately show ?thesis using x r by metis
qed

lemma put3_Some:
  "put3 c y x v a = Some a' \<longleftrightarrow> (\<exists>i. place3 a c y x = Some i \<and> a' = a\<lparr>a3_data := (a3_data a)[i := v]\<rparr>)"
  by (auto simp: put3_def)

lemma put3_keeps:
  assumes "put3 c y x v a = Some a'"
  shows "a3_c a' = a3_c a" "a3_h a' = a3_h a" "a3_w a' = a3_w a" "array3_ok a' = array3_ok a"
    "place3 a' = place3 a"
  using assms by (auto simp: put3_Some array3_ok_def place3_def fun_eq_iff)

lemma put3_get:
  assumes "put3 c y x v a = Some a'" and "array3_ok a"
  shows "get3 a' c' y' x' = (if c' = c \<and> y' = y \<and> x' = x then Some v else get3 a c' y' x')"
proof -
  from assms(1) obtain i where i: "place3 a c y x = Some i" "a' = a\<lparr>a3_data := (a3_data a)[i := v]\<rparr>"
    by (auto simp: put3_Some)
  note lt = place3_lt [OF assms(2)]
  show ?thesis
  proof (cases "place3 a c' y' x'")
    case None
    then show ?thesis using i put3_keeps(5) [OF assms(1)] by (auto simp: get3_def)
  next
    case (Some j)
    then have "i = j \<longleftrightarrow> c' = c \<and> y' = y \<and> x' = x" using place3_inject i(1) by fastforce
    then show ?thesis
      using Some i lt [OF Some] put3_keeps(5) [OF assms(1)] by (auto simp: get3_def nth_list_update)
  qed
qed

lemma u32_plus_small: "a + b < 2 ^ 32 \<Longrightarrow> u32_plus a b = a + b"
  by (simp add: u32_plus_def)

text \<open>Three channels at every place of the frame, and nothing else changes.\<close>

definition frame_places :: "nat \<Rightarrow> nat \<Rightarrow> (nat \<times> nat) list \<Rightarrow> array3 \<Rightarrow> bool" where
  "frame_places off_x off_y places a \<longleftrightarrow> a3_c a = 3 \<and> a3_h a \<le> 2 ^ 32 \<and> a3_w a \<le> 2 ^ 32 \<and>
     (\<forall>(x, y)\<in>set places. y + off_y < a3_h a \<and> x + off_x < a3_w a)"

definition channel :: "nat \<Rightarrow> pixel \<Rightarrow> 8 word" where
  "channel c = (\<lambda>(r, g, b). if c = 0 then r else if c = 1 then g else b)"

lemma draw_step:
  assumes "frame_places off_x off_y ((x, y) # places) a" and "array3_ok a"
  shows "\<exists>a'. draw_pixels pixel_of img off_x off_y ((x, y) # places) a = draw_pixels pixel_of img off_x off_y places a' \<and>
    array3_ok a' \<and> frame_places off_x off_y places a' \<and> a3_h a' = a3_h a \<and> a3_w a' = a3_w a \<and>
    (\<forall>c y' x'. c < 3 \<longrightarrow> get3 a' c y' x' =
      (if y' = y + off_y \<and> x' = x + off_x then Some (u8_as_f32 (channel c (pixel_of img x y))) else get3 a c y' x'))"
proof -
  obtain r g b where p: "pixel_of img x y = (r, g, b)" by (metis prod_cases3)
  have xy: "y + off_y < a3_h a" "x + off_x < a3_w a" "a3_c a = 3" "a3_h a \<le> 2 ^ 32" "a3_w a \<le> 2 ^ 32"
    using assms(1) by (auto simp: frame_places_def)
  then have u: "u32_plus y off_y = y + off_y" "u32_plus x off_x = x + off_x" by (simp_all add: u32_plus_small)
  have "\<exists>i. place3 a c (y + off_y) (x + off_x) = Some i" if "c < 3" for c using xy that by (simp add: place3_def)
  note in_a = this
  obtain a0 where a0: "put3 0 (y + off_y) (x + off_x) (u8_as_f32 r) a = Some a0" using in_a [of 0] by (auto simp: put3_def)
  obtain a1 where a1: "put3 1 (y + off_y) (x + off_x) (u8_as_f32 g) a0 = Some a1"
    using in_a [of 1] put3_keeps(5) [OF a0] by (auto simp: put3_def)
  obtain a2 where a2: "put3 2 (y + off_y) (x + off_x) (u8_as_f32 b) a1 = Some a2"
    using in_a [of 2] put3_keeps(5) [OF a0] put3_keeps(5) [OF a1] by (auto simp: put3_def)
  note keeps = put3_keeps [OF a0] put3_keeps [OF a1] put3_keeps [OF a2]
  have ok: "array3_ok a0" "array3_ok a1" "array3_ok a2" using keeps assms(2) by simp_all
  have "draw_pixels pixel_of img off_x off_y ((x, y) # places) a = draw_pixels pixel_of img off_x off_y places a2"
    using a0 a1 a2 by (simp add: p u)
  moreover have "frame_places off_x off_y places a2" using assms(1) keeps by (simp add: frame_places_def)
  moreover have "get3 a2 c y' x' =
      (if y' = y + off_y \<and> x' = x + off_x then Some (u8_as_f32 (channel c (r, g, b))) else get3 a c y' x')" if "c < 3" for c y' x'
  proof -
    from that consider "c = 0" | "c = 1" | "c = 2" by linarith
    then show ?thesis
      by cases (auto simp: put3_get [OF a2 ok(2)] put3_get [OF a1 ok(1)] put3_get [OF a0 assms(2)] channel_def)
  qed
  ultimately show ?thesis using ok keeps by (intro exI [of _ a2]) (simp add: p)
qed

lemma draw_pixels_frame:
  assumes "frame_places off_x off_y places a" and "array3_ok a" and "distinct places"
  shows "\<exists>a'. draw_pixels pixel_of img off_x off_y places a = Some a' \<and> a3_c a' = 3 \<and> a3_h a' = a3_h a \<and> a3_w a' = a3_w a \<and>
    (\<forall>c x y. c < 3 \<longrightarrow> (x, y) \<in> set places \<longrightarrow>
       get3 a' c (y + off_y) (x + off_x) = Some (u8_as_f32 (channel c (pixel_of img x y)))) \<and>
    (\<forall>c y' x'. c < 3 \<longrightarrow> (\<forall>(x, y)\<in>set places. (y', x') \<noteq> (y + off_y, x + off_x)) \<longrightarrow> get3 a' c y' x' = get3 a c y' x')"
  using assms
proof (induction places arbitrary: a)
  case Nil
  then show ?case by (simp add: frame_places_def)
next
  case (Cons p places)
  obtain x y where p: "p = (x, y)" by (cases p)
  from draw_step [OF Cons.prems(1) [unfolded p] Cons.prems(2), of pixel_of img] obtain a1 where
    step: "draw_pixels pixel_of img off_x off_y ((x, y) # places) a = draw_pixels pixel_of img off_x off_y places a1"
    and a1: "array3_ok a1" "frame_places off_x off_y places a1" "a3_h a1 = a3_h a" "a3_w a1 = a3_w a"
    and get: "\<And>c y' x'. c < 3 \<Longrightarrow> get3 a1 c y' x' =
      (if y' = y + off_y \<and> x' = x + off_x then Some (u8_as_f32 (channel c (pixel_of img x y))) else get3 a c y' x')"
    by blast
  from Cons.IH [OF a1(2,1)] Cons.prems(3) obtain a' where
    a': "draw_pixels pixel_of img off_x off_y places a1 = Some a'" "a3_c a' = 3" "a3_h a' = a3_h a1" "a3_w a' = a3_w a1"
    and hit: "\<And>c x y. c < 3 \<Longrightarrow> (x, y) \<in> set places \<Longrightarrow>
      get3 a' c (y + off_y) (x + off_x) = Some (u8_as_f32 (channel c (pixel_of img x y)))"
    and miss: "\<And>c y' x'. c < 3 \<Longrightarrow> \<forall>(x, y)\<in>set places. (y', x') \<noteq> (y + off_y, x + off_x) \<Longrightarrow> get3 a' c y' x' = get3 a1 c y' x'"
    by auto
  have here: "get3 a' c (y + off_y) (x + off_x) = Some (u8_as_f32 (channel c (pixel_of img x y)))" if "c < 3" for c
  proof -
    have "\<forall>(u, v)\<in>set places. (y + off_y, x + off_x) \<noteq> (v + off_y, u + off_x)" using Cons.prems(3) by (auto simp: p)
    with miss [OF that] have "get3 a' c (y + off_y) (x + off_x) = get3 a1 c (y + off_y) (x + off_x)" by blast
    then show ?thesis by (simp add: get [OF that])
  qed
  have elsewhere: "get3 a' c y' x' = get3 a c y' x'"
    if "c < 3" "\<forall>(x, y)\<in>set (p # places). (y', x') \<noteq> (y + off_y, x + off_x)" for c y' x'
  proof -
    from that(2) have "\<forall>(x, y)\<in>set places. (y', x') \<noteq> (y + off_y, x + off_x)" "(y', x') \<noteq> (y + off_y, x + off_x)"
      by (simp_all add: p)
    with miss [OF that(1)] have "get3 a' c y' x' = get3 a1 c y' x'" "\<not> (y' = y + off_y \<and> x' = x + off_x)" by blast+
    then show ?thesis using get [OF that(1), of y' x'] by (simp only: if_False)
  qed
  show ?case
  proof (intro exI [of _ a'] conjI allI impI)
    show "draw_pixels pixel_of img off_x off_y (p # places) a = Some a'" unfolding p step by (rule a'(1))
    show "a3_c a' = 3" "a3_h a' = a3_h a" "a3_w a' = a3_w a" using a' a1(3,4) by simp_all
    fix c u v :: nat assume "c < 3" "(u, v) \<in> set (p # places)"
    then show "get3 a' c (v + off_y) (u + off_x) = Some (u8_as_f32 (channel c (pixel_of img u v)))"
      using here [of c] hit [of c u v] by (cases "(u, v) = p") (auto simp: p)
  qed (rule elsewhere)
qed

lemma pixel_places_props:
  "distinct (pixel_places w h)" "(x, y) \<in> set (pixel_places w h) \<longleftrightarrow> x < w \<and> y < h"
proof -
  have "distinct (concat (map (\<lambda>y. map (\<lambda>x. (x, y)) [0 ..< w]) ys))" if "distinct ys" for ys :: "nat list"
    using that by (induction ys) (auto simp: distinct_map inj_on_def)
  then show "distinct (pixel_places w h)" by (simp add: pixel_places_def)
  show "(x, y) \<in> set (pixel_places w h) \<longleftrightarrow> x < w \<and> y < h" by (auto simp: pixel_places_def intro!: bexI [of _ y])
qed

lemma zeros3_ok: "array3_ok (zeros3 c h w)"
  by (simp add: array3_ok_def zeros3_def)

lemma zeros3_get: "c < n \<Longrightarrow> y < h \<Longrightarrow> x < w \<Longrightarrow> get3 (zeros3 n h w) c y x = Some 0"
  using place3_lt [OF zeros3_ok [of n h w], of c y x] by (auto simp: get3_def place3_def zeros3_def)

text \<open>
  The array of a picture has its height and its width, and at every place the three channels of the pixel there.
\<close>

theorem picture_becomes_its_pixels:
  assumes "il_size lib img = (w, h)" and "w \<le> 2 ^ 32" and "h \<le> 2 ^ 32"
  shows "\<exists>a. to_nd_array lib (Image img) = Ok (Nd_Array a) \<and> a3_c a = 3 \<and> a3_h a = h \<and> a3_w a = w \<and>
    (\<forall>c<3. \<forall>x<w. \<forall>y<h. get3 a c y x = Some (u8_as_f32 (channel c (il_pixel lib img x y))))"
proof -
  have "frame_places 0 0 (pixel_places w h) (zeros3 3 h w)"
    using assms(2,3) by (auto simp: frame_places_def pixel_places_props zeros3_def)
  from draw_pixels_frame [OF this zeros3_ok pixel_places_props(1), of "il_pixel lib" img] obtain a where
    "draw_pixels (il_pixel lib) img 0 0 (pixel_places w h) (zeros3 3 h w) = Some a" "a3_c a = 3" "a3_h a = h" "a3_w a = w"
    and "\<And>c x y. c < 3 \<Longrightarrow> (x, y) \<in> set (pixel_places w h) \<Longrightarrow>
      get3 a c y x = Some (u8_as_f32 (channel c (il_pixel lib img x y)))"
    by (auto simp: zeros3_def)
  then show ?thesis by (intro exI [of _ a]) (simp add: to_nd_array_def assms(1) or_panic_def pixel_places_props)
qed

section \<open>Padding to the crop\<close>

lemma u32_minus_small: "b \<le> a \<Longrightarrow> a < 2 ^ 32 \<Longrightarrow> u32_minus a b = a - b"
proof -
  assume "b \<le> a" "a < 2 ^ 32"
  then have "a + 2 ^ 32 - b = (a - b) + 2 ^ 32" "a - b < 2 ^ 32" by simp_all
  then show ?thesis unfolding u32_minus_def by (metis mod_add_self2 mod_less)
qed

text \<open>
  A picture smaller than a square crop is put in the middle of a black one; a crop that is not square makes an array
  with its sides exchanged, and a picture that reaches beyond it panics.
\<close>

lemma small_picture_is_drawn:
  assumes "il_size lib img = (w, h)" and "w \<le> crop_w" and "h \<le> crop_h" and "w < crop_w \<or> h < crop_h"
    and "crop_w < 2 ^ 32" and "crop_h < 2 ^ 32"
  shows "center_crop lib crop_w crop_h img = map_outcome Nd_Array (or_panic (draw_pixels (il_pixel lib) img
    ((crop_w - w) div 2) ((crop_h - h) div 2) (pixel_places w h) (zeros3 3 crop_w crop_h)))"
  using assms by (auto simp: center_crop_def u32_minus_small)

theorem square_crop_centres:
  assumes "il_size lib img = (w, h)" and "w \<le> n" and "h \<le> n" and "w < n \<or> h < n" and "n < 2 ^ 32"
  shows "\<exists>a. center_crop lib n n img = Ok (Nd_Array a) \<and> a3_c a = 3 \<and> a3_h a = n \<and> a3_w a = n \<and>
    (\<forall>c<3. \<forall>x<w. \<forall>y<h. get3 a c (y + (n - h) div 2) (x + (n - w) div 2) =
       Some (u8_as_f32 (channel c (il_pixel lib img x y)))) \<and>
    (\<forall>c<3. \<forall>x<n. \<forall>y<n. x < (n - w) div 2 \<or> (n - w) div 2 + w \<le> x \<or> y < (n - h) div 2 \<or> (n - h) div 2 + h \<le> y \<longrightarrow>
       get3 a c y x = Some 0)"
proof -
  have "frame_places ((n - w) div 2) ((n - h) div 2) (pixel_places w h) (zeros3 3 n n)"
    using assms by (auto simp: frame_places_def pixel_places_props zeros3_def)
  from draw_pixels_frame [OF this zeros3_ok pixel_places_props(1), of "il_pixel lib" img] obtain a where
    d: "draw_pixels (il_pixel lib) img ((n - w) div 2) ((n - h) div 2) (pixel_places w h) (zeros3 3 n n) = Some a"
      "a3_c a = 3" "a3_h a = n" "a3_w a = n"
    and hit: "\<And>c x y. c < 3 \<Longrightarrow> (x, y) \<in> set (pixel_places w h) \<Longrightarrow>
      get3 a c (y + (n - h) div 2) (x + (n - w) div 2) = Some (u8_as_f32 (channel c (il_pixel lib img x y)))"
    and miss: "\<And>c y' x'. c < 3 \<Longrightarrow> \<forall>(x, y)\<in>set (pixel_places w h). (y', x') \<noteq> (y + (n - h) div 2, x + (n - w) div 2) \<Longrightarrow>
      get3 a c y' x' = get3 (zeros3 3 n n) c y' x'"
    by (auto simp: zeros3_def)
  have "get3 a c y x = Some 0" if "c < 3" "x < n" "y < n"
    "x < (n - w) div 2 \<or> (n - w) div 2 + w \<le> x \<or> y < (n - h) div 2 \<or> (n - h) div 2 + h \<le> y" for c x y
  proof -
    have "\<forall>(x', y')\<in>set (pixel_places w h). (y, x) \<noteq> (y' + (n - h) div 2, x' + (n - w) div 2)"
      using that(4) by (auto simp: pixel_places_props)
    with miss [OF that(1)] have "get3 a c y x = get3 (zeros3 3 n n) c y x" by blast
    then show ?thesis using zeros3_get that(1-3) by simp
  qed
  moreover have "center_crop lib n n img = Ok (Nd_Array a)"
    using small_picture_is_drawn [OF assms(1-4) assms(5,5)] d(1) by (simp add: or_panic_def)
  ultimately show ?thesis using d hit by (intro exI [of _ a]) (simp add: pixel_places_props)
qed

lemma draw_outside:
  assumes "(x, y) \<in> set places" and "a3_h a \<le> u32_plus y off_y \<or> a3_w a \<le> u32_plus x off_x"
  shows "draw_pixels pixel_of img off_x off_y places a = None"
  using assms
proof (induction places arbitrary: a)
  case (Cons p places)
  obtain u v where p: "p = (u, v)" by (cases p)
  obtain r g b where q: "pixel_of img u v = (r, g, b)" by (metis prod_cases3)
  show ?case
  proof (cases "p = (x, y)")
    case True
    then have "put3 0 (u32_plus v off_y) (u32_plus u off_x) (u8_as_f32 r) a = None"
      using Cons.prems(2) by (auto simp: p put3_def place3_def)
    then show ?thesis by (simp add: p q)
  next
    case False
    then have m: "(x, y) \<in> set places" using Cons.prems(1) by simp
    have step: "draw_pixels pixel_of img off_x off_y places a' = None" if "a3_h a' = a3_h a" "a3_w a' = a3_w a" for a'
      using Cons.IH [OF m, of a'] Cons.prems(2) that by simp
    show ?thesis
    proof (cases "put3 0 (u32_plus v off_y) (u32_plus u off_x) (u8_as_f32 r) a")
      case (Some a0)
      show ?thesis
      proof (cases "put3 1 (u32_plus v off_y) (u32_plus u off_x) (u8_as_f32 g) a0")
        case (Some a1)
        then show ?thesis
        proof (cases "put3 2 (u32_plus v off_y) (u32_plus u off_x) (u8_as_f32 b) a1")
          case (Some a2)
          note chain = \<open>put3 0 _ _ _ a = Some a0\<close> \<open>put3 1 _ _ _ a0 = Some a1\<close> Some
          have "draw_pixels pixel_of img off_x off_y places a2 = None"
            using put3_keeps(2,3) [OF chain(1)] put3_keeps(2,3) [OF chain(2)] put3_keeps(2,3) [OF chain(3)]
            by (intro step) simp_all
          then show ?thesis using chain by (simp add: p q)
        qed (simp add: p q \<open>put3 0 _ _ _ a = Some a0\<close>)
      qed (simp add: p q Some)
    qed (simp add: p q)
  qed
qed simp

theorem tall_crop_panics:
  assumes "il_size lib img = (w, h)" and "w \<le> crop_w" and "h \<le> crop_h" and "w < crop_w \<or> h < crop_h"
    and "0 < w" and "0 < h" and "crop_w < 2 ^ 32" and "crop_h < 2 ^ 32"
    and "crop_w \<le> (h - 1) + (crop_h - h) div 2"
  shows "center_crop lib crop_w crop_h img = Panic"
proof -
  have "(h - 1) + (crop_h - h) div 2 < 2 ^ 32" using assms(3,6,8) by linarith
  then have "draw_pixels (il_pixel lib) img ((crop_w - w) div 2) ((crop_h - h) div 2) (pixel_places w h) (zeros3 3 crop_w crop_h) = None"
    using assms(5,6,9) by (intro draw_outside [of 0 "h - 1"]) (simp_all add: pixel_places_props zeros3_def u32_plus_small)
  then show ?thesis using small_picture_is_drawn [OF assms(1-4,7,8)] by (simp add: or_panic_def)
qed

section \<open>A preprocessor ends in an array\<close>

lemma compose_append:
  "compose_transform lib r (xs @ ys) d = bind_outcome (compose_transform lib r xs d) (compose_transform lib r ys)"
proof (induction xs arbitrary: d)
  case (Cons s ss)
  then show ?case by (cases "transform_one lib r s d") simp_all
qed simp

lemma array_steps_keep:
  assumes "\<forall>s\<in>set steps. (\<exists>x. s = Rescale x) \<or> (\<exists>m sd. s = Normalize m sd)"
    and "compose_transform lib r steps (Nd_Array a) = Ok d"
  shows "\<exists>a'. d = Nd_Array a'"
  using assms
proof (induction steps arbitrary: a)
  case (Cons s ss)
  from Cons.prems(2) obtain d' where d': "transform_one lib r s (Nd_Array a) = Ok d'" "compose_transform lib r ss d' = Ok d"
    by (auto simp: bind_outcome_eq_Ok)
  from d'(1) Cons.prems(1) have "\<exists>a'. d' = Nd_Array a'"
    by (auto simp: transform_one_def as_nd_array_def)
  with Cons.IH Cons.prems(1) d'(2) show ?case by auto
qed auto

text \<open>
  Whatever a preprocessor file asks for, a picture that goes through it without an error has become an array: the
  engine never meets a picture where it wants pixel values.
\<close>

lemma preprocessor_ends_in_an_array:
  assumes "load_preprocessor show_json config = Ok steps"
    and "compose_transform lib reshaped steps (Image img) = Ok d"
  shows "\<exists>a. d = Nd_Array a"
proof -
  from assms(1) obtain first norm where s: "steps = (Convert_To_RGB # first @ [PIL_To_NDarray]) @ (rescale_steps config @ norm)"
    and n: "normalize_steps config = Ok norm"
    by (auto simp: load_preprocessor_def bind_outcome_eq_Ok)
  from assms(2) obtain d1 where d1: "compose_transform lib reshaped (Convert_To_RGB # first @ [PIL_To_NDarray]) (Image img) = Ok d1"
    and d2: "compose_transform lib reshaped (rescale_steps config @ norm) d1 = Ok d"
    unfolding s compose_append bind_outcome_eq_Ok by blast
  from d1 obtain d0 where "to_nd_array lib d0 = Ok d1"
    by (auto simp: compose_append bind_outcome_eq_Ok transform_one_def)
  then obtain a where "d1 = Nd_Array a"
    by (auto simp: to_nd_array_def split: transform_data.splits prod.splits)
  moreover have "\<forall>x\<in>set (rescale_steps config @ norm). (\<exists>v. x = Rescale v) \<or> (\<exists>m sd. x = Normalize m sd)"
    using n by (auto simp: rescale_steps_def normalize_steps_def bind_outcome_eq_Ok split: if_splits)
  ultimately show ?thesis using array_steps_keep d2 by blast
qed

end
