(* ===== verification/Image_Engine.thy ===== *)
theory Image_Engine
  imports Image_Input
begin

text \<open>
  The image engine of the vendored \<open>fastembed\<close>: the list of its models (\<open>models/image_embedding.rs\<close>), its
  construction and its calls (\<open>image_embedding/impl.rs\<close>). The decoder, the hub and the session are libraries.
\<close>

section \<open>The models\<close>

datatype image_embedding_model =
  Image_ClipVitB32 | Resnet50 | UnicomVitB16 | UnicomVitB32 | NomicEmbedVisionV15

definition image_models :: "(image_embedding_model \<times> nat \<times> model_info) list" where
  "image_models =
     [(Image_ClipVitB32, 512,
        \<lparr>mi_code = ''Qdrant/clip-ViT-B-32-vision'', mi_file = ''model.onnx'', mi_additional = []\<rparr>),
      (Resnet50, 2048, \<lparr>mi_code = ''Qdrant/resnet50-onnx'', mi_file = ''model.onnx'', mi_additional = []\<rparr>),
      (UnicomVitB16, 768, \<lparr>mi_code = ''Qdrant/Unicom-ViT-B-16'', mi_file = ''model.onnx'', mi_additional = []\<rparr>),
      (UnicomVitB32, 512, \<lparr>mi_code = ''Qdrant/Unicom-ViT-B-32'', mi_file = ''model.onnx'', mi_additional = []\<rparr>),
      (NomicEmbedVisionV15, 768,
        \<lparr>mi_code = ''nomic-ai/nomic-embed-vision-v1.5'', mi_file = ''onnx/model.onnx'', mi_additional = []\<rparr>)]"

definition image_model_info :: "image_embedding_model \<Rightarrow> (app_error, model_info) outcome" where
  "image_model_info m =
     (case List.find (\<lambda>(m', dim, info). m' = m) image_models of None \<Rightarrow> Panic | Some (m', dim, info) \<Rightarrow> Ok info)"

definition image_from_str :: "string \<Rightarrow> string + image_embedding_model" where
  "image_from_str s =
     (case List.find (\<lambda>(m, dim, info). lowercase (mi_code info) = lowercase s) image_models of
        None \<Rightarrow> Inl (''Unknown embedding model: '' @ s)
      | Some (m, dim, info) \<Rightarrow> Inr m)"

section \<open>The engine\<close>

record 's image_engine =
  ie_preprocessor :: "transform_step list"
  ie_session :: 's

text \<open>\<open>parse\<close> is the JSON parser; the show of a JSON value is a parameter of the preprocessor.\<close>

definition image_try_new ::
  "('repo, 'b, 's, 't) setup_env \<Rightarrow> (string \<Rightarrow> string + json) \<Rightarrow> (json \<Rightarrow> string) \<Rightarrow> bool \<Rightarrow> image_embedding_model \<Rightarrow>
     session_options \<Rightarrow> (app_error, 's image_engine) outcome" where
  "image_try_new su parse show_json progress m opts =
     bind_outcome (image_model_info m) (\<lambda>info.
     bind_outcome (pull_from_hf su (mi_code info) (so_cache_dir opts) progress) (\<lambda>repo.
     bind_outcome (with_context ''Failed to retrieve preprocessor_config.json'' (hb_get su repo ''preprocessor_config.json'')) (\<lambda>file.
     bind_outcome (lib_result (hb_read su file)) (\<lambda>content.
     bind_outcome (lib_result (parse content)) (\<lambda>config.
     bind_outcome (load_preprocessor show_json config) (\<lambda>steps.
     bind_outcome (with_context (''Failed to retrieve '' @ mi_file info) (hb_get su repo (mi_file info))) (\<lambda>model_path.
     bind_outcome (init_session_builder (su_directml su) (su_cores su) (su_builder su) (su_step su) (so_providers opts)
       (so_threads opts)) (\<lambda>builder.
     bind_outcome (lib_result (su_commit su model_path builder)) (\<lambda>session.
       Ok \<lparr>ie_preprocessor = steps, ie_session = session\<rparr>)))))))))"

text \<open>The session: the name of its first input, the making of a tensor and the run.\<close>

type_synonym pixel_values = "nat list \<times> f32 list"

record 'e image_session =
  is_input_name :: "string option"
  is_value :: "pixel_values \<Rightarrow> string option"
  is_run :: "string \<Rightarrow> pixel_values \<Rightarrow> 'e \<Rightarrow> (app_error, session_outputs) outcome \<times> 'e"
  is_shape_error :: string
  is_show_shape :: "nat list \<Rightarrow> string"

definition preprocess ::
  "'img image_lib \<Rightarrow> string \<Rightarrow> transform_step list \<Rightarrow> 'img \<Rightarrow> (app_error, array3) outcome" where
  "preprocess lib reshaped steps img =
     bind_outcome (compose_transform lib reshaped steps (Image img)) (\<lambda>d.
       case d of Nd_Array a \<Rightarrow> Ok a | Image i \<Rightarrow> Err (Message ''Preprocessor configuration error!''))"

fun preprocess_all ::
  "'img image_lib \<Rightarrow> string \<Rightarrow> transform_step list \<Rightarrow> 'img list \<Rightarrow> (app_error, array3 list) outcome" where
  "preprocess_all lib reshaped steps [] = Ok []"
| "preprocess_all lib reshaped steps (img # imgs) =
     bind_outcome (preprocess lib reshaped steps img) (\<lambda>a. map_outcome ((#) a) (preprocess_all lib reshaped steps imgs))"

text \<open>\<open>ndarray::stack\<close> wants one array at least, and all of one shape.\<close>

definition stack_arrays :: "string \<Rightarrow> array3 list \<Rightarrow> (app_error, pixel_values) outcome" where
  "stack_arrays shape_error arrays =
     (case arrays of
        [] \<Rightarrow> Err (Lib_Error shape_error)
      | a # rest \<Rightarrow>
          if list_all (\<lambda>b. a3_c b = a3_c a \<and> a3_h b = a3_h a \<and> a3_w b = a3_w a) rest
          then Ok ([length arrays, a3_c a, a3_h a, a3_w a], concat (map a3_data arrays))
          else Err (Lib_Error shape_error))"

definition image_tensor :: "session_outputs \<Rightarrow> (app_error, nat list \<times> f32 list) outcome" where
  "image_tensor outs =
     (let keys = (if length outs = 1 then map fst outs else [''image_embeds'', ''last_hidden_state''])
      in case find_map (\<lambda>k. case map_of outs k of Some (F32_Tensor shape data) \<Rightarrow> Some (shape, data) | _ \<Rightarrow> None) keys of
           None \<Rightarrow> Err (Message ''Could not extract tensor from any known output key'')
         | Some tensor \<Rightarrow> Ok tensor)"

definition image_rows ::
  "string \<Rightarrow> (nat list \<Rightarrow> string) \<Rightarrow> nat list \<times> f32 list \<Rightarrow> (app_error, f32 list list) outcome" where
  "image_rows shape_error show_shape = (\<lambda>(shape, data).
     if length data < prod_list shape then Err (Lib_Error shape_error)
     else case shape of
       [n, width] \<Rightarrow> map_outcome (map normalize_vec) (or_panic (tensor_rows n width data))
     | [n, len, width] \<Rightarrow>
         map_outcome (map normalize_vec) (or_panic (collect_options (map (\<lambda>b. hidden_at shape data b 0) [0 ..< n])))
     | _ \<Rightarrow> Err (Message (''Unexpected output tensor shape: '' @ show_shape shape)))"

definition embed_images ::
  "'img image_lib \<Rightarrow> 'e image_session \<Rightarrow> transform_step list \<Rightarrow> 'img list \<Rightarrow> 'e \<Rightarrow>
     (app_error, f32 list list) outcome \<times> 'e" where
  "embed_images lib is steps imgs e =
     (case bind_outcome (preprocess_all lib (is_shape_error is) steps imgs) (stack_arrays (is_shape_error is)) of
        Err x \<Rightarrow> (Err x, e)
      | Panic \<Rightarrow> (Panic, e)
      | Ok values \<Rightarrow>
          (case is_input_name is of
             None \<Rightarrow> (Panic, e)
           | Some name \<Rightarrow>
               (case is_value is values of
                  Some m \<Rightarrow> (Err (Lib_Error m), e)
                | None \<Rightarrow>
                    (case is_run is name values e of
                       (r, e') \<Rightarrow> (bind_outcome r (\<lambda>outs. bind_outcome (image_tensor outs)
                         (image_rows (is_shape_error is) (is_show_shape is))), e')))))"

text \<open>A source that is opened and then decoded: a path, or the bytes of a picture.\<close>

fun decode_all ::
  "('p \<Rightarrow> string + 'r) \<Rightarrow> ('r \<Rightarrow> string + 'img) \<Rightarrow> 'p list \<Rightarrow> (app_error, 'img list) outcome" where
  "decode_all open_with decode [] = Ok []"
| "decode_all open_with decode (p # ps) =
     (case open_with p of
        Inl m \<Rightarrow> Err (Lib_Error m)
      | Inr r \<Rightarrow>
          (case decode r of
             Inl m \<Rightarrow> Err (Message (''image decode: '' @ m))
           | Inr img \<Rightarrow> map_outcome ((#) img) (decode_all open_with decode ps)))"

definition image_embed ::
  "('p \<Rightarrow> string + 'r) \<Rightarrow> ('r \<Rightarrow> string + 'img) \<Rightarrow> 'img image_lib \<Rightarrow> 'e image_session \<Rightarrow> transform_step list \<Rightarrow>
     'p list \<Rightarrow> nat option \<Rightarrow> 'e \<Rightarrow> (app_error, f32 list list) outcome \<times> 'e" where
  "image_embed open_with decode lib is steps images wanted e =
     in_batches (\<lambda>batch e.
         case decode_all open_with decode batch of
           Ok imgs \<Rightarrow> embed_images lib is steps imgs e
         | Err x \<Rightarrow> (Err x, e)
         | Panic \<Rightarrow> (Panic, e))
       images (case wanted of None \<Rightarrow> 256 | Some n \<Rightarrow> n) e"

section \<open>What a call can say\<close>

lemma preprocess_all_Ok:
  "preprocess_all lib r steps imgs = Ok arrays \<Longrightarrow>
     length arrays = length imgs \<and> (\<forall>i<length imgs. compose_transform lib r steps (Image (imgs ! i)) = Ok (Nd_Array (arrays ! i)))"
proof (induction imgs arbitrary: arrays)
  case (Cons img imgs)
  from Cons.prems obtain a rest where a: "preprocess lib r steps img = Ok a" and rest: "preprocess_all lib r steps imgs = Ok rest"
    and arrays: "arrays = a # rest"
    by (auto simp: bind_outcome_eq_Ok)
  from a obtain d where "compose_transform lib r steps (Image img) = Ok d"
    "(case d of Nd_Array a \<Rightarrow> Ok a | Image i \<Rightarrow> Err (Message ''Preprocessor configuration error!'')) = Ok a"
    unfolding preprocess_def bind_outcome_eq_Ok by blast
  then have "compose_transform lib r steps (Image img) = Ok (Nd_Array a)" by (cases d) simp_all
  then show ?case using Cons.IH [OF rest] by (auto simp: arrays nth_Cons split: nat.split)
qed simp

text \<open>
  The tensor of a call that stacks is its pictures in order, all of one shape; and with steps from a preprocessor file
  the arm that blames the configuration is never taken.
\<close>

theorem pictures_are_stacked_in_order:
  assumes "bind_outcome (preprocess_all lib r steps imgs) (stack_arrays r) = Ok (shape, data)"
  shows "\<exists>arrays c h w. shape = [length imgs, c, h, w] \<and> data = concat (map a3_data arrays) \<and> length arrays = length imgs \<and>
    (\<forall>i<length imgs. compose_transform lib r steps (Image (imgs ! i)) = Ok (Nd_Array (arrays ! i)) \<and>
      a3_c (arrays ! i) = c \<and> a3_h (arrays ! i) = h \<and> a3_w (arrays ! i) = w)"
proof -
  from assms obtain arrays where p: "preprocess_all lib r steps imgs = Ok arrays" and s: "stack_arrays r arrays = Ok (shape, data)"
    by (auto simp: bind_outcome_eq_Ok)
  from s obtain a rest where a: "arrays = a # rest"
    and same: "\<forall>b\<in>set rest. a3_c b = a3_c a \<and> a3_h b = a3_h a \<and> a3_w b = a3_w a"
    and out: "shape = [length arrays, a3_c a, a3_h a, a3_w a]" "data = concat (map a3_data arrays)"
    by (auto simp: stack_arrays_def list_all_iff split: list.splits if_splits)
  have "a3_c b = a3_c a \<and> a3_h b = a3_h a \<and> a3_w b = a3_w a" if "b \<in> set arrays" for b
    using that same by (auto simp: a)
  with preprocess_all_Ok [OF p] out show ?thesis
    by (intro exI [of _ arrays] exI [of _ "a3_c a"] exI [of _ "a3_h a"] exI [of _ "a3_w a"]) simp
qed

theorem configuration_is_never_blamed:
  assumes "load_preprocessor show_json config = Ok steps"
  shows "preprocess lib r steps img =
    bind_outcome (compose_transform lib r steps (Image img)) (\<lambda>d. case d of Nd_Array a \<Rightarrow> Ok a | Image i \<Rightarrow> Panic)"
proof (cases "compose_transform lib r steps (Image img)")
  case (Ok d)
  from preprocessor_ends_in_an_array [OF assms Ok] obtain a where "d = Nd_Array a" by blast
  with Ok show ?thesis by (simp add: preprocess_def)
qed (simp_all add: preprocess_def)

end
