(* ===== verification/Qwen_Layout.thy ===== *)
theory Qwen_Layout
  imports Image_Input
begin

text \<open>
  The integer part of the Qwen3-VL models in the vendored \<open>fastembed\<close> (\<open>models/qwen3.rs\<close>,
  \<open>models/qwen3_vl.rs\<close>): the size a picture is resized to, the order of its patches, the prompt with its
  placeholders, the span of the picture among the tokens and the positions of all tokens. The tensors of
  \<open>candle\<close>, the decoder and the tokenizer are libraries. Sizes are natural numbers: the sides of a picture are
  \<open>u32\<close> and the factors of a configuration small, so no product of them leaves 64 bits. An error is the message of
  \<open>candle_core::Error::Msg\<close>.
\<close>

section \<open>Runs of a token\<close>

function run_end :: "32 word list \<Rightarrow> 32 word \<Rightarrow> nat \<Rightarrow> nat" where
  "run_end ids tok i = (if i < length ids \<and> ids ! i = tok then run_end ids tok (i + 1) else i)"
  by auto

termination by (relation "measure (\<lambda>(ids, tok, i). length ids - i)") auto

declare run_end.simps [simp del]

lemma run_end_ge: "i \<le> run_end ids tok i"
proof (induction ids tok i rule: run_end.induct)
  case (1 ids tok i)
  then show ?case by (subst run_end.simps) auto
qed

lemma run_end_gt: "i < length ids \<Longrightarrow> ids ! i = tok \<Longrightarrow> i < run_end ids tok i"
  using run_end_ge [of "i + 1" ids tok] by (subst run_end.simps) simp

function spans_from :: "32 word list \<Rightarrow> 32 word \<Rightarrow> nat \<Rightarrow> (nat \<times> nat) list" where
  "spans_from ids tok i =
     (if i < length ids
      then if ids ! i = tok then (i, run_end ids tok i) # spans_from ids tok (run_end ids tok i)
           else spans_from ids tok (i + 1)
      else [])"
  by auto

termination by (relation "measure (\<lambda>(ids, tok, i). length ids - i)") (auto intro: diff_less_mono2 run_end_gt)

declare spans_from.simps [simp del]

definition find_token_spans :: "32 word list \<Rightarrow> 32 word \<Rightarrow> (nat \<times> nat) list" where
  "find_token_spans ids tok = spans_from ids tok 0"

text \<open>What a run is: it cannot be longer on either side.\<close>

definition is_run :: "32 word list \<Rightarrow> 32 word \<Rightarrow> nat \<Rightarrow> nat \<Rightarrow> bool" where
  "is_run ids tok s e \<longleftrightarrow> s < e \<and> e \<le> length ids \<and> (\<forall>k. s \<le> k \<and> k < e \<longrightarrow> ids ! k = tok) \<and>
     (s = 0 \<or> ids ! (s - 1) \<noteq> tok) \<and> (e = length ids \<or> ids ! e \<noteq> tok)"

lemma run_end_run:
  assumes "i \<le> length ids" and "e = run_end ids tok i"
  shows "e \<le> length ids \<and> (\<forall>k. i \<le> k \<and> k < e \<longrightarrow> ids ! k = tok) \<and> (e = length ids \<or> ids ! e \<noteq> tok)"
  using assms
proof (induction ids tok i arbitrary: e rule: run_end.induct)
  case (1 ids tok i)
  show ?case
  proof (cases "i < length ids \<and> ids ! i = tok")
    case True
    then have e: "e = run_end ids tok (i + 1)" using 1(3) by (subst (asm) run_end.simps) simp
    have "k = i \<or> i + 1 \<le> k" if "i \<le> k" for k using that by linarith
    with 1(1) [OF True _ e] True show ?thesis by (metis Suc_eq_plus1 Suc_leI)
  next
    case False
    then have "e = i" using 1(3) by (subst (asm) run_end.simps) auto
    with False 1(2) show ?thesis by auto
  qed
qed

lemma spans_from_runs:
  assumes "i \<le> length ids" and "i = 0 \<or> i = length ids \<or> ids ! (i - 1) \<noteq> tok \<or> ids ! i \<noteq> tok"
  shows "(s, e) \<in> set (spans_from ids tok i) \<longleftrightarrow> is_run ids tok s e \<and> i \<le> s"
  using assms
proof (induction ids tok i rule: spans_from.induct)
  case (1 ids tok i)
  show ?case
  proof (cases "i < length ids")
    case False
    then show ?thesis using 1(3) by (subst spans_from.simps) (auto simp: is_run_def)
  next
    case i: True
    show ?thesis
    proof (cases "ids ! i = tok")
      case False
      have "(s, e) \<in> set (spans_from ids tok (i + 1)) \<longleftrightarrow> is_run ids tok s e \<and> i + 1 \<le> s"
        using 1(2) [OF i False] i False by simp
      moreover have "is_run ids tok s e \<Longrightarrow> s \<noteq> i" using False by (auto simp: is_run_def)
      ultimately show ?thesis using i False by (subst spans_from.simps) auto
    next
      case True
      define r where "r = run_end ids tok i"
      have r: "i < r" "r \<le> length ids" "\<forall>k. i \<le> k \<and> k < r \<longrightarrow> ids ! k = tok" "r = length ids \<or> ids ! r \<noteq> tok"
        using run_end_gt [OF i True] run_end_run [of i ids r tok] i by (auto simp: r_def)
      have IH: "(s, e) \<in> set (spans_from ids tok r) \<longleftrightarrow> is_run ids tok s e \<and> r \<le> s"
        using 1(1) [OF i True] r by (auto simp: r_def)
      have start: "i = 0 \<or> ids ! (i - 1) \<noteq> tok" using 1(4) True i by auto
      have "is_run ids tok s e \<and> i \<le> s \<longleftrightarrow> (s = i \<and> e = r) \<or> (is_run ids tok s e \<and> r \<le> s)"
      proof
        assume a: "is_run ids tok s e \<and> i \<le> s"
        have "\<not> (i < s \<and> s < r)"
        proof
          assume "i < s \<and> s < r"
          then have "i \<le> s - 1" "s - 1 < r" "s \<noteq> 0" by linarith+
          then have "ids ! (s - 1) = tok" using r(3) by blast
          then show False using a \<open>s \<noteq> 0\<close> by (simp add: is_run_def)
        qed
        moreover have "e = r" if "s = i"
        proof (rule ccontr)
          assume "e \<noteq> r"
          then consider "e < r" | "r < e" by linarith
          then show False
          proof cases
            case 1
            then have "ids ! e = tok" "e \<noteq> length ids" using a that r(2,3) by (simp_all add: is_run_def)
            then show False using a by (simp add: is_run_def)
          next
            case 2
            then have "ids ! r = tok" "r \<noteq> length ids" using a that r(1) by (simp_all add: is_run_def)
            then show False using r(4) by simp
          qed
        qed
        ultimately show "(s = i \<and> e = r) \<or> (is_run ids tok s e \<and> r \<le> s)" using a by force
      next
        assume "(s = i \<and> e = r) \<or> (is_run ids tok s e \<and> r \<le> s)"
        then show "is_run ids tok s e \<and> i \<le> s" using r start by (auto simp: is_run_def)
      qed
      then show ?thesis using i True IH by (subst spans_from.simps) (auto simp: r_def)
    qed
  qed
qed

lemma spans_from_sorted: "sorted_wrt (\<lambda>a b. snd a \<le> fst b) (spans_from ids tok i) \<and> (\<forall>p\<in>set (spans_from ids tok i). i \<le> fst p)"
proof (induction ids tok i rule: spans_from.induct)
  case (1 ids tok i)
  show ?case
  proof (cases "i < length ids \<and> ids ! i = tok")
    case True
    with 1(1) run_end_ge [of i ids tok] show ?thesis by (subst (1 2) spans_from.simps) force
  next
    case False
    then have "\<forall>p\<in>set (spans_from ids tok i). i \<le> fst p" if "i < length ids"
      using 1(2) [OF that] that by (subst spans_from.simps) (simp, meson Suc_leD)
    moreover have "\<not> i < length ids \<Longrightarrow> spans_from ids tok i = []" by (subst spans_from.simps) simp
    ultimately show ?thesis using 1(2) False by (cases "i < length ids") (subst (1) spans_from.simps, auto)
  qed
qed

text \<open>
  The scan ends, and what it finds are the runs of the token: each as long as it can be, in order, none left out.
\<close>

theorem spans_are_the_runs:
  "((s, e) \<in> set (find_token_spans ids tok) \<longleftrightarrow> is_run ids tok s e) \<and>
   sorted_wrt (\<lambda>a b. snd a \<le> fst b) (find_token_spans ids tok) \<and>
   (k < length ids \<longrightarrow> (ids ! k = tok \<longleftrightarrow> (\<exists>(s, e)\<in>set (find_token_spans ids tok). s \<le> k \<and> k < e)))"
proof -
  have runs: "(s, e) \<in> set (find_token_spans ids tok) \<longleftrightarrow> is_run ids tok s e" for s e
    using spans_from_runs [of 0 ids tok s e] by (simp add: find_token_spans_def)
  have "\<exists>s e. is_run ids tok s e \<and> s \<le> k \<and> k < e" if "k < length ids" "ids ! k = tok"
  proof -
    define s where "s = (LEAST s. s \<le> k \<and> (\<forall>j. s \<le> j \<and> j \<le> k \<longrightarrow> ids ! j = tok))"
    have s: "s \<le> k \<and> (\<forall>j. s \<le> j \<and> j \<le> k \<longrightarrow> ids ! j = tok)"
      unfolding s_def by (rule LeastI [of _ k]) (use that in auto)
    have first: "s = 0 \<or> ids ! (s - 1) \<noteq> tok"
    proof (rule ccontr)
      assume a: "\<not> (s = 0 \<or> ids ! (s - 1) \<noteq> tok)"
      then have "s - 1 \<le> k \<and> (\<forall>j. s - 1 \<le> j \<and> j \<le> k \<longrightarrow> ids ! j = tok)"
        using s by (metis One_nat_def Suc_pred diff_le_self le_antisym le_trans not_less_eq_eq not_gr_zero)
      then have "s \<le> s - 1" unfolding s_def by (rule Least_le)
      with a show False by (cases s) simp_all
    qed
    define e where "e = run_end ids tok k"
    have e: "e \<le> length ids" "\<forall>j. k \<le> j \<and> j < e \<longrightarrow> ids ! j = tok" "e = length ids \<or> ids ! e \<noteq> tok" "k < e"
      using run_end_run [of k ids e tok] run_end_gt [OF that] that by (auto simp: e_def)
    have "ids ! j = tok" if "s \<le> j" "j < e" for j using s e(2) that by (cases "j \<le> k") simp_all
    then show ?thesis using first e s by (intro exI [of _ s] exI [of _ e]) (simp add: is_run_def)
  qed
  note found = this
  have "k < length ids \<longrightarrow> (ids ! k = tok \<longleftrightarrow> (\<exists>(s, e)\<in>set (find_token_spans ids tok). s \<le> k \<and> k < e))"
  proof (intro impI iffI)
    assume "k < length ids" "ids ! k = tok"
    with found runs show "\<exists>(s, e)\<in>set (find_token_spans ids tok). s \<le> k \<and> k < e" by blast
  next
    assume "\<exists>(s, e)\<in>set (find_token_spans ids tok). s \<le> k \<and> k < e"
    then obtain s e where "is_run ids tok s e" "s \<le> k" "k < e" using runs by blast
    then show "ids ! k = tok" by (simp add: is_run_def)
  qed
  then show ?thesis using runs spans_from_sorted by (simp add: find_token_spans_def)
qed

section \<open>The size of a picture\<close>

text \<open>\<open>f64\<close> product and root, and the casts: \<open>as usize\<close> of the floor, of the ceiling and of the nearest integer.\<close>

fun f64_mul :: "f32_num \<Rightarrow> f32_num \<Rightarrow> f32_num" where
  "f64_mul Nan y = Nan"
| "f64_mul x Nan = Nan"
| "f64_mul (Inf s) (Inf t) = Inf (s \<noteq> t)"
| "f64_mul (Inf s) (Fin t m e) = (if m = 0 then Nan else Inf (s \<noteq> t))"
| "f64_mul (Fin t m e) (Inf s) = (if m = 0 then Nan else Inf (s \<noteq> t))"
| "f64_mul (Fin s m e) (Fin t n f) = f64_round (s \<noteq> t) (m * n) (e + f)"

fun f64_sqrt :: "f32_num \<Rightarrow> f32_num" where
  "f64_sqrt Nan = Nan"
| "f64_sqrt (Inf s) = (if s then Nan else Inf False)"
| "f64_sqrt (Fin s m e) =
     (if m = 0 then Fin s 0 (-1074)
      else if s then Nan
      else (let (n, f) = (if even e then (m, e) else (2 * m, e - 1));
                w = n * 2 ^ 120; r = isqrt w
            in f64_round False (2 * r + (if r * r = w then 0 else 1)) (f div 2 - 61)))"

definition as_usize :: "(nat \<Rightarrow> nat \<Rightarrow> nat) \<Rightarrow> f32_num \<Rightarrow> nat" where
  "as_usize to_whole x =
     (case x of
        Nan \<Rightarrow> 0
      | Inf s \<Rightarrow> if s then 0 else 2 ^ 64 - 1
      | Fin s m e \<Rightarrow> if s then 0 else min (if 0 \<le> e then m * 2 ^ nat e else to_whole m (nat (- e))) (2 ^ 64 - 1))"

definition floor_usize :: "f32_num \<Rightarrow> nat" where
  "floor_usize = as_usize (\<lambda>m k. m div 2 ^ k)"

definition ceil_usize :: "f32_num \<Rightarrow> nat" where
  "ceil_usize = as_usize (\<lambda>m k. (m + 2 ^ k - 1) div 2 ^ k)"

definition round_ties_to_even :: "f32_num \<Rightarrow> nat" where
  "round_ties_to_even = as_usize round_shift"

definition f64_gt :: "f32_num \<Rightarrow> f32_num \<Rightarrow> bool" where
  "f64_gt x y \<longleftrightarrow> le_num y x \<and> \<not> le_num x y"

definition f64_nat :: "nat \<Rightarrow> f32_num" where
  "f64_nat n = nat_as_f64 False n"

definition scaled_side :: "(f32_num \<Rightarrow> nat) \<Rightarrow> f32_num \<Rightarrow> nat \<Rightarrow> nat" where
  "scaled_side to_whole x factor = max (to_whole (f64_div x (f64_nat factor)) * factor) factor"

definition smart_resize :: "nat \<Rightarrow> nat \<Rightarrow> nat \<Rightarrow> nat \<Rightarrow> nat \<Rightarrow> string + nat \<times> nat" where
  "smart_resize height width factor min_pixels max_pixels =
     (if height = 0 \<or> width = 0 then Inl ''Image dimensions must be greater than zero''
      else if f64_gt (f64_div (f64_nat (max height width)) (f64_nat (min height width))) (Fin False 200 0)
      then Inl ''Absolute aspect ratio must be <= 200''
      else (let h_bar = scaled_side round_ties_to_even (f64_nat height) factor;
                w_bar = scaled_side round_ties_to_even (f64_nat width) factor;
                area = f64_nat (height * width)
            in if max_pixels < h_bar * w_bar
               then (let beta = f64_sqrt (f64_div area (f64_nat max_pixels))
                     in Inr (scaled_side floor_usize (f64_div (f64_nat height) beta) factor,
                             scaled_side floor_usize (f64_div (f64_nat width) beta) factor))
               else if h_bar * w_bar < min_pixels
               then (let beta = f64_sqrt (f64_div (f64_nat min_pixels) area)
                     in Inr (scaled_side ceil_usize (f64_mul (f64_nat height) beta) factor,
                             scaled_side ceil_usize (f64_mul (f64_nat width) beta) factor))
               else Inr (h_bar, w_bar)))"

lemma scaled_side_multiple: "factor dvd scaled_side to_whole x factor" "factor \<le> scaled_side to_whole x factor"
  by (auto simp: scaled_side_def max_def)

lemma smart_resize_multiple:
  "smart_resize height width factor min_pixels max_pixels = Inr (h, w) \<Longrightarrow>
     factor dvd h \<and> factor dvd w \<and> factor \<le> h \<and> factor \<le> w"
  using scaled_side_multiple by (auto simp: smart_resize_def Let_def split: if_splits)

lemma smart_resize_messages:
  "smart_resize height width factor min_pixels max_pixels = Inl m \<Longrightarrow>
     m = ''Image dimensions must be greater than zero'' \<or> m = ''Absolute aspect ratio must be <= 200''"
  by (auto simp: smart_resize_def Let_def split: if_splits)

lemma other_messages:
  "''Image dimensions must be greater than zero'' \<noteq> ''grid_h and grid_w must be divisible by merge_size''"
  "''Absolute aspect ratio must be <= 200'' \<noteq> ''grid_h and grid_w must be divisible by merge_size''"
  by simp_all

section \<open>The patches\<close>

record preprocessor_config =
  pc_min_pixels :: nat
  pc_max_pixels :: nat
  pc_patch :: nat
  pc_temporal :: nat
  pc_merge :: nat
  pc_rescale :: f32
  pc_mean :: "f32 list"
  pc_std :: "f32 list"

record prepared_image =
  pi_pixel_values :: "f32 list"
  pi_grid_t :: nat
  pi_grid_h :: nat
  pi_grid_w :: nat
  pi_llm_tokens :: nat

definition each :: "nat \<Rightarrow> (nat \<Rightarrow> 'a list) \<Rightarrow> 'a list" where
  "each n f = concat (map f [0 ..< n])"

text \<open>Channel, row and column of every value, in the order of the nested loops.\<close>

definition patch_places :: "preprocessor_config \<Rightarrow> nat \<Rightarrow> nat \<Rightarrow> (nat \<times> nat \<times> nat) list" where
  "patch_places cfg grid_h grid_w =
     each (grid_h div pc_merge cfg) (\<lambda>gh_block. each (grid_w div pc_merge cfg) (\<lambda>gw_block.
     each (pc_merge cfg) (\<lambda>mh. each (pc_merge cfg) (\<lambda>mw.
     each 3 (\<lambda>c. each (pc_temporal cfg) (\<lambda>tp. each (pc_patch cfg) (\<lambda>ph. map (\<lambda>pw.
       (c, (gh_block * pc_merge cfg + mh) * pc_patch cfg + ph, (gw_block * pc_merge cfg + mw) * pc_patch cfg + pw))
       [0 ..< pc_patch cfg])))))))"

definition patch_value :: "'img image_lib \<Rightarrow> preprocessor_config \<Rightarrow> 'img \<Rightarrow> nat \<times> nat \<times> nat \<Rightarrow> f32 option" where
  "patch_value lib cfg img = (\<lambda>(c, y, x).
     if x < fst (il_size lib img) \<and> y < snd (il_size lib img)
     then Some (f32_div (f32_sub (f32_mul (u8_as_f32 (channel c (il_pixel lib img x y))) (pc_rescale cfg)) (pc_mean cfg ! c))
            (pc_std cfg ! c))
     else None)"

definition preprocess_image ::
  "'img image_lib \<Rightarrow> 'img \<Rightarrow> preprocessor_config \<Rightarrow> nat \<Rightarrow> (string, prepared_image) outcome" where
  "preprocess_image lib img cfg max_image_tokens =
     (if length (pc_mean cfg) \<noteq> 3 \<or> length (pc_std cfg) \<noteq> 3
      then Err ''Expected image_mean and image_std length to be 3''
      else if pc_patch cfg = 0 \<or> pc_temporal cfg = 0 \<or> pc_merge cfg = 0
      then Err ''patch_size, temporal_patch_size and merge_size must be > 0''
      else (let rgb = il_rgb lib img; factor = pc_patch cfg * pc_merge cfg
            in case smart_resize (snd (il_size lib rgb)) (fst (il_size lib rgb)) factor (pc_min_pixels cfg)
                      (min (pc_max_pixels cfg) (max_image_tokens * factor * factor)) of
                 Inl m \<Rightarrow> Err m
               | Inr (h, w) \<Rightarrow>
                   (let resized = il_resize lib rgb (u64_as_u32 w) (u64_as_u32 h);
                        grid_h = h div pc_patch cfg; grid_w = w div pc_patch cfg
                    in if \<not> (pc_merge cfg dvd grid_h \<and> pc_merge cfg dvd grid_w)
                       then Err ''grid_h and grid_w must be divisible by merge_size''
                       else (case collect_options (map (patch_value lib cfg resized) (patch_places cfg grid_h grid_w)) of
                               None \<Rightarrow> Panic
                             | Some values \<Rightarrow>
                                 Ok \<lparr>pi_pixel_values = values, pi_grid_t = 1, pi_grid_h = u64_as_u32 grid_h,
                                   pi_grid_w = u64_as_u32 grid_w,
                                   pi_llm_tokens = grid_h * grid_w div (pc_merge cfg * pc_merge cfg)\<rparr>))))"

lemma each_length: "(\<And>i. i < n \<Longrightarrow> length (f i) = k) \<Longrightarrow> length (each n f) = n * k"
  by (induction n) (simp_all add: each_def)

lemma patch_places_length:
  "length (patch_places cfg grid_h grid_w) = (grid_h div pc_merge cfg) * ((grid_w div pc_merge cfg) * (pc_merge cfg *
     (pc_merge cfg * (3 * (pc_temporal cfg * (pc_patch cfg * pc_patch cfg))))))"
  unfolding patch_places_def by (intro each_length) simp

text \<open>
  A prepared picture is what the later steps count on: its grid is divided by the merge size, so the arm that
  complains of it is never taken, it has a value for every place of every patch, and as many tokens as the merged grid
  has places.
\<close>

theorem prepared_image_adds_up:
  assumes "preprocess_image lib img cfg max_image_tokens = r"
  shows "r \<noteq> Err ''grid_h and grid_w must be divisible by merge_size'' \<and>
    (\<forall>p. r = Ok p \<longrightarrow> (\<exists>h w. pi_grid_t p = 1 \<and> pi_grid_h p = u64_as_u32 (h * pc_merge cfg) \<and>
       pi_grid_w p = u64_as_u32 (w * pc_merge cfg) \<and> pi_llm_tokens p = h * w \<and> 0 < h \<and> 0 < w \<and>
       length (pi_pixel_values p) = (h * pc_merge cfg) * (w * pc_merge cfg) *
         (3 * pc_temporal cfg * pc_patch cfg * pc_patch cfg)))"
proof -
  let ?P = "pc_patch cfg" and ?M = "pc_merge cfg"
  have grid: "\<exists>i>0. x div ?P = i * ?M" if "?P * ?M dvd x" "?P * ?M \<le> x" "?P \<noteq> 0" "?M \<noteq> 0" for x
  proof -
    from that(1) obtain i where "x = ?P * ?M * i" by (rule dvdE)
    with that(2-4) show ?thesis by (intro exI [of _ i]) (auto simp: mult.assoc)
  qed
  define rgb where "rgb = il_rgb lib img"
  define sides where "sides = smart_resize (snd (il_size lib rgb)) (fst (il_size lib rgb)) (?P * ?M) (pc_min_pixels cfg)
    (min (pc_max_pixels cfg) (max_image_tokens * (?P * ?M) * (?P * ?M)))"
  show ?thesis
  proof (cases "length (pc_mean cfg) \<noteq> 3 \<or> length (pc_std cfg) \<noteq> 3 \<or> ?P = 0 \<or> pc_temporal cfg = 0 \<or> ?M = 0")
    case False
    then have nz: "?P \<noteq> 0" "?M \<noteq> 0" by simp_all
    show ?thesis
    proof (cases sides)
      case (Inl m)
      with assms False have "r = Err m"
        by (auto simp: preprocess_image_def Let_def sides_def rgb_def)
      then show ?thesis using smart_resize_messages [OF Inl [unfolded sides_def]] other_messages by auto
    next
      case (Inr hw)
      obtain h w where hw: "hw = (h, w)" by (cases hw)
      have m: "?P * ?M dvd h" "?P * ?M dvd w" "?P * ?M \<le> h" "?P * ?M \<le> w"
        using smart_resize_multiple Inr hw unfolding sides_def by blast+
      obtain i j where ij: "h div ?P = i * ?M" "w div ?P = j * ?M" "0 < i" "0 < j" using grid m nz by metis
      have tokens: "i * ?M * (j * ?M) div (?M * ?M) = i * j"
      proof -
        have "i * ?M * (j * ?M) = (i * j) * (?M * ?M)" by (simp add: ac_simps)
        then show ?thesis using nz(2) by simp
      qed
      define places where "places = patch_places cfg (i * ?M) (j * ?M)"
      have places: "length places = (i * ?M) * (j * ?M) * (3 * pc_temporal cfg * ?P * ?P)"
        using nz(2) by (simp add: places_def patch_places_length ac_simps)
      have "r = (case collect_options (map (patch_value lib cfg (il_resize lib rgb (u64_as_u32 w) (u64_as_u32 h))) places) of
          None \<Rightarrow> Panic
        | Some values \<Rightarrow> Ok \<lparr>pi_pixel_values = values, pi_grid_t = 1, pi_grid_h = u64_as_u32 (i * ?M),
            pi_grid_w = u64_as_u32 (j * ?M), pi_llm_tokens = i * j\<rparr>)"
        using assms False Inr hw ij(1,2)
        by (simp add: preprocess_image_def Let_def sides_def rgb_def places_def tokens cong: option.case_cong)
      then show ?thesis
        using ij(3,4) places collect_options_length by (fastforce split: option.splits)
    qed
  next
    case True
    then have "r = Err ''Expected image_mean and image_std length to be 3'' \<or>
        r = Err ''patch_size, temporal_patch_size and merge_size must be > 0''"
      using assms by (auto simp: preprocess_image_def split: if_splits)
    then show ?thesis by auto
  qed
qed

section \<open>The prompt\<close>

definition image_pad :: string where
  "image_pad = ''<|image_pad|>''"

definition build_vl_prompt :: "string option \<Rightarrow> bool \<Rightarrow> string \<Rightarrow> string" where
  "build_vl_prompt body include_image instruction =
     ''<|im_start|>system\<newline>'' @ instruction @ ''<|im_end|>\<newline><|im_start|>user\<newline>''
     @ (if include_image then ''<|vision_start|>'' @ image_pad @ ''<|vision_end|>'' else [])
     @ (case body of None \<Rightarrow> [] | Some t \<Rightarrow> t)
     @ ''<|im_end|>\<newline><|im_start|>assistant\<newline>''"

text \<open>\<open>replacen(pattern, with, 1)\<close> for a pattern that is not empty.\<close>

fun replace_first :: "string \<Rightarrow> string \<Rightarrow> string \<Rightarrow> string" where
  "replace_first p new [] = []"
| "replace_first p new (c # cs) =
     (if starts_with p (c # cs) then new @ drop (length p) (c # cs) else c # replace_first p new cs)"

definition expand_image_token_placeholders :: "string \<Rightarrow> nat \<Rightarrow> string + string" where
  "expand_image_token_placeholders prompt n =
     (if n = 0 then Inr prompt
      else if \<not> contains_str image_pad prompt then Inl ''Prompt contains no <|image_pad|> placeholder''
      else Inr (replace_first image_pad (concat (replicate n image_pad)) prompt))"

lemma replace_first_at:
  assumes "p \<noteq> []" and "contains_str p s"
  shows "\<exists>before after. s = before @ p @ after \<and> replace_first p new s = before @ new @ after \<and>
    (\<forall>a b. s = a @ p @ b \<longrightarrow> length before \<le> length a)"
  using assms(2)
proof (induction s)
  case Nil
  with assms(1) show ?case by simp
next
  case (Cons c cs)
  show ?case
  proof (cases "starts_with p (c # cs)")
    case True
    then have "c # cs = p @ drop (length p) (c # cs)" by (metis starts_with_iff append_eq_conv_conj)
    then show ?thesis using True by (intro exI [of _ "[]"] exI [of _ "drop (length p) (c # cs)"]) simp
  next
    case False
    with Cons obtain before after where IH: "cs = before @ p @ after" "replace_first p new cs = before @ new @ after"
      "\<And>a b. cs = a @ p @ b \<Longrightarrow> length before \<le> length a" by auto
    have "length (c # before) \<le> length a" if "c # cs = a @ p @ b" for a b
    proof (cases a)
      case Nil
      with that False show ?thesis by (metis append_Nil starts_with_iff)
    next
      case (Cons x xs)
      with that IH(3) show ?thesis by auto
    qed
    then show ?thesis using False IH(1,2) by (intro exI [of _ "c # before"] exI [of _ after]) simp
  qed
qed

section \<open>The positions of the tokens\<close>

text \<open>
  For one text: the place in the sequence and the three coordinates it gets, in the order of the writes. Text goes by
  its place; a picture by its place in the grid; text after a picture goes on behind its greatest coordinate.
\<close>

type_synonym positions = "(nat \<times> nat \<times> nat \<times> nat) list"

definition text_positions :: "nat \<Rightarrow> nat \<Rightarrow> nat \<Rightarrow> positions" where
  "text_positions place first len = map (\<lambda>i. (place + i, first + i, first + i, first + i)) [0 ..< len]"

definition grid_coordinates :: "nat \<Rightarrow> nat \<Rightarrow> nat \<Rightarrow> (nat \<times> nat \<times> nat) list" where
  "grid_coordinates nt nh nw = each nt (\<lambda>t. each nh (\<lambda>h. map (\<lambda>w. (t, h, w)) [0 ..< nw]))"

definition picture_positions :: "nat \<Rightarrow> nat \<Rightarrow> nat \<Rightarrow> nat \<Rightarrow> positions" where
  "picture_positions start nt nh nw =
     map (\<lambda>(i, t, h, w). (start + i, start + t, start + h, start + w))
       (zip [0 ..< nt * nh * nw] (grid_coordinates nt nh nw))"

definition after_picture :: "nat \<Rightarrow> nat \<Rightarrow> nat \<Rightarrow> nat \<Rightarrow> nat" where
  "after_picture start nt nh nw = max (start - 1) (start + (max (max nt nh) nw - 1)) + 1"

definition row_positions ::
  "nat \<Rightarrow> (nat \<times> nat) option \<Rightarrow> prepared_image option \<Rightarrow> nat \<Rightarrow> string + positions" where
  "row_positions merge_size span prepared visible_len =
     (case span of
        None \<Rightarrow> Inr (text_positions 0 0 visible_len)
      | Some (start, fin) \<Rightarrow>
          (case prepared of
             None \<Rightarrow> Inl ''Found image token span for a sample without prepared image''
           | Some p \<Rightarrow>
               if visible_len < fin then Inl ''Image token span exceeds visible sequence length''
               else (let nt = pi_grid_t p; nh = pi_grid_h p div merge_size; nw = pi_grid_w p div merge_size
                     in if fin - start \<noteq> nt * nh * nw
                        then Inl (''Image token span length '' @ show_nat (fin - start)
                          @ '' does not match expected LLM grid '' @ show_nat nt @ ''x'' @ show_nat nh @ ''x'' @ show_nat nw)
                        else Inr (text_positions 0 0 start @ picture_positions start nt nh nw
                          @ text_positions fin (after_picture start nt nh nw) (visible_len - fin)))))"

text \<open>\<open>data[index(dim, batch, pos)] = value\<close> in the flat array of all three coordinates; outside it panics.\<close>

definition put_position :: "nat \<Rightarrow> nat \<Rightarrow> nat \<Rightarrow> nat \<times> nat \<times> nat \<times> nat \<Rightarrow> 32 word list \<Rightarrow> 32 word list option" where
  "put_position batch_size seq_len batch = (\<lambda>(pos, a, b, c) xs.
     let at = (\<lambda>k. (k * batch_size + batch) * seq_len + pos)
     in if at 2 < length xs then Some (xs[at 0 := of_nat a, at 1 := of_nat b, at 2 := of_nat c]) else None)"

fun put_positions :: "nat \<Rightarrow> nat \<Rightarrow> nat \<Rightarrow> positions \<Rightarrow> 32 word list \<Rightarrow> 32 word list option" where
  "put_positions batch_size seq_len batch [] xs = Some xs"
| "put_positions batch_size seq_len batch (p # ps) xs =
     Option.bind (put_position batch_size seq_len batch p xs) (put_positions batch_size seq_len batch ps)"

fun write_rows ::
  "nat \<Rightarrow> nat \<Rightarrow> nat \<Rightarrow> nat \<Rightarrow> (encoding \<times> (nat \<times> nat) option \<times> prepared_image option) list \<Rightarrow> 32 word list \<Rightarrow>
     (string, 32 word list) outcome" where
  "write_rows merge_size batch_size seq_len batch [] xs = Ok xs"
| "write_rows merge_size batch_size seq_len batch ((enc, span, prepared) # rows) xs =
     (case row_positions merge_size span prepared (length (filter (\<lambda>m. m \<noteq> 0) (enc_mask enc))) of
        Inl m \<Rightarrow> Err m
      | Inr ps \<Rightarrow>
          (case put_positions batch_size seq_len batch ps xs of
             None \<Rightarrow> Panic
           | Some xs' \<Rightarrow> write_rows merge_size batch_size seq_len (batch + 1) rows xs'))"

definition build_image_position_ids ::
  "encoding list \<Rightarrow> (nat \<times> nat) option list \<Rightarrow> prepared_image option list \<Rightarrow> nat \<Rightarrow> (string, 32 word list) outcome" where
  "build_image_position_ids encodings spans prepared merge_size =
     (if encodings = [] then Err ''encodings cannot be empty when building position ids''
      else if length encodings \<noteq> length spans \<or> length encodings \<noteq> length prepared
      then Err ''batch size mismatch while building position ids''
      else (let batch_size = length encodings; seq_len = length (enc_ids (hd encodings))
            in write_rows merge_size batch_size seq_len 0 (zip encodings (zip spans prepared))
                 (replicate (3 * batch_size * seq_len) 1)))"

text \<open>The span of each picture among the tokens of its prompt.\<close>

definition image_span :: "32 word \<Rightarrow> encoding \<Rightarrow> prepared_image option \<Rightarrow> string + (nat \<times> nat) option" where
  "image_span image_token enc prepared =
     (case prepared of
        None \<Rightarrow> Inr None
      | Some p \<Rightarrow>
          (case find_token_spans (enc_ids enc) image_token of
             [(start, fin)] \<Rightarrow>
               if fin - start \<noteq> pi_llm_tokens p
               then Inl (''Image token span mismatch: prompt has '' @ show_nat (fin - start) @ '', preprocessor expects ''
                 @ show_nat (pi_llm_tokens p))
               else Inr (Some (start, fin))
           | _ \<Rightarrow> Inl ''Expected exactly one image token span per image input''))"

lemma grid_coordinates_props:
  "length (grid_coordinates nt nh nw) = nt * nh * nw"
  "(t, h, w) \<in> set (grid_coordinates nt nh nw) \<Longrightarrow> t < nt \<and> h < nh \<and> w < nw"
  by (auto simp: grid_coordinates_def each_length mult.assoc) (auto simp: each_def)

lemma text_positions_places: "map fst (text_positions place first len) = [place ..< place + len]"
  by (auto simp: text_positions_def intro!: nth_equalityI)

lemma picture_positions_places: "map fst (picture_positions start nt nh nw) = [start ..< start + nt * nh * nw]"
proof -
  have "map fst (picture_positions start nt nh nw) =
      map (\<lambda>i. start + i) (map fst (zip [0 ..< nt * nh * nw] (grid_coordinates nt nh nw)))"
    by (simp add: picture_positions_def comp_def case_prod_beta)
  also have "\<dots> = [start ..< start + nt * nh * nw]"
    by (simp add: grid_coordinates_props(1) map_add_upt add.commute)
  finally show ?thesis .
qed

text \<open>
  A prepared picture whose span was accepted always gets its positions: the lengths agree. Every visible token gets
  its three coordinates once and in order, a picture's lie in its own box, and the text behind a picture goes on
  past every coordinate before it, one by one.
\<close>

theorem picture_positions_fit:
  assumes "pi_grid_t p = 1" and "pi_grid_h p = h * merge" and "pi_grid_w p = w * merge" and "pi_llm_tokens p = h * w"
    and "0 < merge" and "0 < h" and "0 < w"
    and "image_span image_token enc (Some p) = Inr (Some (start, fin))" and "fin \<le> visible"
  shows "\<exists>ps. row_positions merge (Some (start, fin)) (Some p) visible = Inr ps \<and> map fst ps = [0 ..< visible] \<and>
    is_run (enc_ids enc) image_token start fin \<and>
    (\<forall>(i, a, b, c)\<in>set ps. (i < start \<longrightarrow> a = i \<and> b = i \<and> c = i) \<and>
       (start \<le> i \<and> i < fin \<longrightarrow> a = start \<and> start \<le> b \<and> b < start + h \<and> start \<le> c \<and> c < start + w) \<and>
       (fin \<le> i \<longrightarrow> a = start + max h w + (i - fin) \<and> b = a \<and> c = a))"
proof -
  from assms(8) have spans: "find_token_spans (enc_ids enc) image_token = [(start, fin)]" and len: "fin - start = h * w"
    by (auto simp: image_span_def assms(4) split: list.splits if_splits)
  then have run: "is_run (enc_ids enc) image_token start fin"
    using spans_are_the_runs [of start fin "enc_ids enc" image_token 0] by simp
  then have fin: "fin = start + h * w" "start < fin" using len by (auto simp: is_run_def)
  have grid: "pi_grid_h p div merge = h" "pi_grid_w p div merge = w" using assms by simp_all
  have next_at: "after_picture start 1 h w = start + max h w"
    using assms(6,7) by (auto simp: after_picture_def)
  define ps where "ps = text_positions 0 0 start @ picture_positions start 1 h w
    @ text_positions fin (start + max h w) (visible - fin)"
  have "row_positions merge (Some (start, fin)) (Some p) visible = Inr ps"
    using assms(9) len by (simp add: row_positions_def assms(1) grid next_at [simplified] ps_def)
  moreover have "map fst ps = [0 ..< visible]"
    using assms(9) fin upt_add_eq_append [of 0 start "visible - start"] upt_add_eq_append [of start fin "visible - fin"]
    by (simp add: ps_def text_positions_places picture_positions_places)
  moreover have "(i < start \<longrightarrow> a = i \<and> b = i \<and> c = i) \<and>
      (start \<le> i \<and> i < fin \<longrightarrow> a = start \<and> start \<le> b \<and> b < start + h \<and> start \<le> c \<and> c < start + w) \<and>
      (fin \<le> i \<longrightarrow> a = start + max h w + (i - fin) \<and> b = a \<and> c = a)" if "(i, a, b, c) \<in> set ps" for i a b c
  proof -
    from that consider "(i, a, b, c) \<in> set (text_positions 0 0 start)" | "(i, a, b, c) \<in> set (picture_positions start 1 h w)"
      | "(i, a, b, c) \<in> set (text_positions fin (start + max h w) (visible - fin))"
      by (auto simp: ps_def)
    then show ?thesis
    proof cases
      case 2
      then obtain j t y x where j: "i = start + j" "a = start + t" "b = start + y" "c = start + x"
        and z: "(j, t, y, x) \<in> set (zip [0 ..< 1 * h * w] (grid_coordinates 1 h w))"
        unfolding picture_positions_def by auto
      have "(t, y, x) \<in> set (grid_coordinates 1 h w)" "j < h * w"
        using set_zip_rightD [OF z] set_zip_leftD [OF z] by simp_all
      with j show ?thesis using grid_coordinates_props(2) [of t y x 1 h w] fin by auto
    qed (use fin in \<open>auto simp: text_positions_def\<close>)
  qed
  ultimately show ?thesis using run by blast
qed

text \<open>
  From the picture to its positions. Let a picture be prepared, with fewer than \<open>2 ^ 32\<close> values, and its span be found
  among the tokens of its prompt and be visible. Then none of the complaints about lengths is taken: the row has a
  position for every visible token, once and in order; the span is a whole run of the placeholder; the picture's
  tokens lie in a box of the size of its merged grid, of which the pixels are the patches; and the text behind it
  counts on past every coordinate of the picture.
\<close>

theorem prepared_picture_gets_its_positions:
  assumes "preprocess_image lib img cfg max_image_tokens = Ok p"
    and "length (pi_pixel_values p) < 2 ^ 32"
    and "image_span image_token enc (Some p) = Inr (Some (start, fin))" and "fin \<le> visible"
  shows "\<exists>h w ps. row_positions (pc_merge cfg) (Some (start, fin)) (Some p) visible = Inr ps \<and> map fst ps = [0 ..< visible] \<and>
    is_run (enc_ids enc) image_token start fin \<and> fin - start = h * w \<and>
    length (pi_pixel_values p) = (h * pc_merge cfg) * (w * pc_merge cfg) * (3 * pc_temporal cfg * pc_patch cfg * pc_patch cfg) \<and>
    (\<forall>(i, a, b, c)\<in>set ps. (i < start \<longrightarrow> a = i \<and> b = i \<and> c = i) \<and>
       (start \<le> i \<and> i < fin \<longrightarrow> a = start \<and> start \<le> b \<and> b < start + h \<and> start \<le> c \<and> c < start + w) \<and>
       (fin \<le> i \<longrightarrow> a = start + max h w + (i - fin) \<and> b = a \<and> c = a))"
proof -
  let ?M = "pc_merge cfg" and ?K = "3 * pc_temporal cfg * pc_patch cfg * pc_patch cfg"
  have pos: "0 < ?M" "0 < ?K" using assms(1) by (auto simp: preprocess_image_def split: if_splits)
  from prepared_image_adds_up [OF assms(1)] obtain h w where
    hw: "pi_grid_t p = 1" "pi_grid_h p = u64_as_u32 (h * ?M)" "pi_grid_w p = u64_as_u32 (w * ?M)" "pi_llm_tokens p = h * w"
      "0 < h" "0 < w" and len: "length (pi_pixel_values p) = (h * ?M) * (w * ?M) * ?K"
    by blast
  have factor: "a < n" if "a * b < n" "0 < b" for a b n :: nat
    using that by (metis le_less_trans le_add1 mult_Suc_right gr0_conv_Suc)
  have "h * ?M < 2 ^ 32" using factor [of "h * ?M" "(w * ?M) * ?K"] assms(2) hw(6) pos len by (simp add: mult.assoc)
  moreover have "w * ?M < 2 ^ 32" using factor [of "w * ?M" "(h * ?M) * ?K"] assms(2) hw(5) pos len by (simp add: ac_simps)
  ultimately have grid: "pi_grid_h p = h * ?M" "pi_grid_w p = w * ?M" by (simp_all add: hw u64_as_u32_def)
  have "fin - start = h * w" using assms(3) by (auto simp: image_span_def hw split: list.splits if_splits)
  with picture_positions_fit [OF hw(1) grid hw(4) pos(1) hw(5,6) assms(3,4)] len show ?thesis by blast
qed

definition dot_picture :: "unit image_lib" where
  "dot_picture = \<lparr>il_size = (\<lambda>img. (1, 1)), il_pixel = (\<lambda>img x y. (255, 0, 0)), il_rgb = (\<lambda>img. img),
     il_resize = (\<lambda>img w h. img), il_crop = (\<lambda>img x y w h. img)\<rparr>"

definition dot_config :: preprocessor_config where
  "dot_config = \<lparr>pc_min_pixels = 1, pc_max_pixels = 1, pc_patch = 1, pc_temporal = 1, pc_merge = 1,
     pc_rescale = f32_one, pc_mean = [0, 0, 0], pc_std = [f32_one, f32_one, f32_one]\<rparr>"

definition dot_prepared :: prepared_image where
  "dot_prepared = \<lparr>pi_pixel_values = map (\<lambda>c. the (patch_value dot_picture dot_config () (c, 0, 0))) [0 ..< 3], pi_grid_t = 1, pi_grid_h = 1, pi_grid_w = 1, pi_llm_tokens = 1\<rparr>"

lemma one_by_one: "f64_div (f64_nat 1) (f64_nat 1) = Fin False (2 ^ 52) (- 52)"
  by (simp add: f64_nat_def nat_as_f64_def f64_round_def bit_len.simps round_shift_def)

lemma dot_keeps_its_size: "smart_resize 1 1 1 1 1 = Inr (1, 1)"
  using one_by_one by (simp add: smart_resize_def scaled_side_def round_ties_to_even_def as_usize_def f64_gt_def round_shift_def with_sign_def)

lemma dot_fields:
  "il_size dot_picture img = (1, 1)" "il_rgb dot_picture img = img" "il_resize dot_picture img w h = img"
  "pc_min_pixels dot_config = 1" "pc_max_pixels dot_config = 1" "pc_patch dot_config = 1" "pc_temporal dot_config = 1"
  "pc_merge dot_config = 1" "length (pc_mean dot_config) = 3" "length (pc_std dot_config) = 3"
  by (simp_all add: dot_picture_def dot_config_def)

lemma dot_is_prepared: "preprocess_image dot_picture () dot_config 1 = Ok dot_prepared"
proof -
  have "patch_places dot_config 1 1 = map (\<lambda>c. (c, 0, 0)) [0 ..< 3]" by code_simp
  then have "map (patch_value dot_picture dot_config ()) (patch_places dot_config 1 1) = map Some (pi_pixel_values dot_prepared)"
    by (simp add: dot_prepared_def patch_value_def dot_fields)
  then have "collect_options (map (patch_value dot_picture dot_config ()) (patch_places dot_config 1 1)) =
      Some (pi_pixel_values dot_prepared)"
    by (metis collect_options_map_Some)
  then show ?thesis
    using dot_keeps_its_size by (simp add: preprocess_image_def dot_fields dot_prepared_def u64_as_u32_def)
qed

theorem prepared_picture_gets_its_positions_witness:
  "\<exists>ps. row_positions 1 (Some (1, 2)) (Some dot_prepared) 3 = Inr ps \<and> map fst ps = [0 ..< 3]"
proof -
  have "image_span 9 \<lparr>enc_ids = [5, 9, 6], enc_mask = [1, 1, 1], enc_types = [0, 0, 0]\<rparr> (Some dot_prepared) = Inr (Some (1, 2))"
  proof -
    have "find_token_spans [5, 9, 6] 9 = [(1, 2)]" by code_simp
    then show ?thesis by (simp add: image_span_def dot_prepared_def)
  qed
  from prepared_picture_gets_its_positions [OF dot_is_prepared _ this, of 3] show ?thesis
    by (auto simp: dot_prepared_def dot_config_def)
qed

section \<open>The vision tower's indices\<close>

text \<open>\<open>build_cu_seqlens\<close>: where the frames of all pictures end; the product of a grid is a \<open>u32\<close>.\<close>

fun add_frames :: "nat \<Rightarrow> nat \<Rightarrow> nat \<Rightarrow> nat list" where
  "add_frames acc area 0 = []"
| "add_frames acc area (Suc t) = (acc + area) # add_frames (acc + area) area t"

fun cu_from :: "nat \<Rightarrow> (nat \<times> nat \<times> nat) list \<Rightarrow> nat list" where
  "cu_from acc [] = []"
| "cu_from acc ((t, h, w) # grid) =
     (let area = u64_as_u32 (h * w) in add_frames acc area t @ cu_from (acc + t * area) grid)"

definition build_cu_seqlens :: "(nat \<times> nat \<times> nat) list \<Rightarrow> nat list" where
  "build_cu_seqlens grid = 0 # cu_from 0 grid"

text \<open>Row and column of every patch of a frame, block by block, as the patches come.\<close>

definition block_coordinates :: "nat \<Rightarrow> nat \<Rightarrow> nat \<Rightarrow> (nat \<times> nat) list" where
  "block_coordinates merge h w =
     each (h div merge) (\<lambda>br. each (w div merge) (\<lambda>bc. each merge (\<lambda>ir. map (\<lambda>ic. (br * merge + ir, bc * merge + ic))
       [0 ..< merge])))"

definition patch_coordinates :: "nat \<Rightarrow> (nat \<times> nat \<times> nat) list \<Rightarrow> (nat \<times> nat) list" where
  "patch_coordinates merge grid = concat (map (\<lambda>(t, h, w). concat (replicate t (block_coordinates merge h w))) grid)"

lemma add_frames_map: "add_frames acc area t = map (\<lambda>i. acc + Suc i * area) [0 ..< t]"
proof (induction t arbitrary: acc)
  case (Suc t)
  have "[0 ..< Suc t] = 0 # map Suc [0 ..< t]" by (simp add: upt_conv_Cons map_Suc_upt del: upt_Suc)
  then show ?case using Suc by (simp add: algebra_simps del: upt_Suc)
qed simp

lemma cu_from_sorted: "sorted (acc # cu_from acc grid)"
proof (induction acc grid rule: cu_from.induct)
  case (2 acc t h w grid)
  define area where "area = u64_as_u32 (h * w)"
  have "sorted (acc # map (\<lambda>i. acc + Suc i * area) [0 ..< t])"
    by (auto simp: sorted_iff_nth_mono nth_Cons split: nat.split intro!: add_left_mono mult_le_mono1)
  moreover have later: "sorted ((acc + t * area) # cu_from (acc + t * area) grid)" using 2 by (simp add: area_def Let_def)
  moreover have "acc + Suc i * area \<le> x" if "i < t" "x \<in> set (cu_from (acc + t * area) grid)" for i x
  proof -
    have "Suc i * area \<le> t * area" using that(1) by (intro mult_le_mono1) simp
    moreover have "acc + t * area \<le> x" using later that(2) by simp
    ultimately show ?thesis by linarith
  qed
  moreover have "acc \<le> acc + t * area" by simp
  ultimately show ?case
    by (auto simp: Let_def add_frames_map area_def [symmetric] sorted_append simp del: mult_Suc)
qed simp

text \<open>
  The ends of the frames: one for each frame of every picture and one at the start, never falling, the last of them the
  number of all patches.
\<close>

theorem frame_ends_add_up:
  "sorted (build_cu_seqlens grid) \<and> length (build_cu_seqlens grid) = 1 + sum_list (map fst grid) \<and>
   last (build_cu_seqlens grid) = sum_list (map (\<lambda>(t, h, w). t * u64_as_u32 (h * w)) grid)"
proof -
  have "length (cu_from acc grid) = sum_list (map fst grid)" for acc
    by (induction acc grid rule: cu_from.induct) (simp_all add: Let_def add_frames_map)
  moreover have "last (acc # cu_from acc grid) = acc + sum_list (map (\<lambda>(t, h, w). t * u64_as_u32 (h * w)) grid)" for acc
  proof (induction acc grid rule: cu_from.induct)
    case (2 acc t h w grid)
    define area where "area = u64_as_u32 (h * w)"
    have "last (acc # add_frames acc area t @ rest) = last ((acc + t * area) # rest)" for rest
      by (cases t) (auto simp: add_frames_map last_append)
    with 2 show ?case by (simp add: Let_def area_def algebra_simps del: last.simps)
  qed simp
  ultimately show ?thesis using cu_from_sorted [of 0 grid] by (simp add: build_cu_seqlens_def)
qed

end
