(* ===== verification/Qwen_Embed.thy ===== *)
theory Qwen_Embed
  imports Qwen_Layout
begin

text \<open>
  How a batch of texts and pictures goes through the Qwen3-VL engine of the vendored \<open>fastembed\<close>
  (\<open>models/qwen3.rs\<close>) around its tensor products: the inputs of the batch, the rows of the pictures put into those of
  the tokens, the frequencies of the rotary embedding, the row that is pooled, and the search for the weight files.
  The tokenizer and the hub are arguments; a vector of the model is a value of any type. \<open>candle\<close> refuses a range
  that leaves a tensor: \<open>range_error\<close> is its message.
\<close>

section \<open>The inputs of a batch\<close>

text \<open>An empty batch has no inputs: the engine answers it with no vectors.\<close>

fun prepare_images ::
  "'img image_lib \<Rightarrow> preprocessor_config \<Rightarrow> nat \<Rightarrow> 'img option list \<Rightarrow> (string, prepared_image option list) outcome" where
  "prepare_images lib cfg budget [] = Ok []"
| "prepare_images lib cfg budget (None # imgs) = map_outcome ((#) None) (prepare_images lib cfg budget imgs)"
| "prepare_images lib cfg budget (Some img # imgs) =
     bind_outcome (preprocess_image lib img cfg budget) (\<lambda>p.
       map_outcome ((#) (Some p)) (prepare_images lib cfg budget imgs))"

fun vl_prompts :: "string \<Rightarrow> (string option \<times> prepared_image option) list \<Rightarrow> (string, string list) outcome" where
  "vl_prompts instruction [] = Ok []"
| "vl_prompts instruction ((body, prepared) # rows) =
     (case (case prepared of
              None \<Rightarrow> Inr (build_vl_prompt body False instruction)
            | Some p \<Rightarrow> expand_image_token_placeholders (build_vl_prompt body True instruction) (pi_llm_tokens p)) of
        Inl m \<Rightarrow> Err m
      | Inr prompt \<Rightarrow> map_outcome ((#) prompt) (vl_prompts instruction rows))"

text \<open>\<open>prepared_images[batch_idx]\<close> panics when the tokenizer gives more encodings than it got prompts.\<close>

fun image_spans ::
  "32 word \<Rightarrow> prepared_image option list \<Rightarrow> encoding list \<Rightarrow> (string, (nat \<times> nat) option list) outcome" where
  "image_spans image_token prepared [] = Ok []"
| "image_spans image_token [] (enc # encs) = Panic"
| "image_spans image_token (p # prepared) (enc # encs) =
     (case image_span image_token enc p of
        Inl m \<Rightarrow> Err m
      | Inr span \<Rightarrow> map_outcome ((#) span) (image_spans image_token prepared encs))"

record vl_inputs =
  vi_prepared :: "prepared_image option list"
  vi_encodings :: "encoding list"
  vi_spans :: "(nat \<times> nat) option list"

definition batch_inputs ::
  "'img image_lib \<Rightarrow> (string list \<Rightarrow> string + encoding list) \<Rightarrow> preprocessor_config \<Rightarrow> nat \<Rightarrow> 32 word \<Rightarrow> string \<Rightarrow>
     string option list \<Rightarrow> 'img option list \<Rightarrow> (string, vl_inputs) outcome" where
  "batch_inputs lib encode cfg budget image_token instruction texts images =
     (if length texts \<noteq> length images then Err ''texts and images must have the same batch size''
      else if texts = [] then Ok \<lparr>vi_prepared = [], vi_encodings = [], vi_spans = []\<rparr>
      else
     bind_outcome (prepare_images lib cfg budget images) (\<lambda>prepared.
     bind_outcome (vl_prompts instruction (zip texts prepared)) (\<lambda>prompts.
       case encode prompts of
         Inl m \<Rightarrow> Err m
       | Inr encs \<Rightarrow>
           if encs = [] then Panic
           else map_outcome (\<lambda>spans. \<lparr>vi_prepared = prepared, vi_encodings = encs, vi_spans = spans\<rparr>)
             (image_spans image_token prepared encs))))"

text \<open>The values and grids of all pictures, one after the other: the input of the vision tower.\<close>

definition given_pictures :: "prepared_image option list \<Rightarrow> prepared_image list" where
  "given_pictures prepared = map the (filter (\<lambda>p. p \<noteq> None) prepared)"

definition tower_values :: "prepared_image option list \<Rightarrow> f32 list" where
  "tower_values prepared = concat (map pi_pixel_values (given_pictures prepared))"

definition tower_grid :: "prepared_image option list \<Rightarrow> (nat \<times> nat \<times> nat) list" where
  "tower_grid prepared = map (\<lambda>p. (pi_grid_t p, pi_grid_h p, pi_grid_w p)) (given_pictures prepared)"

section \<open>The rows of the pictures\<close>

text \<open>
  Row \<open>batch\<close> of the token vectors gets, over its span, the next vectors of the pictures; \<open>at\<close> is how many are used up.
\<close>

fun put_pictures ::
  "string \<Rightarrow> 'v list \<Rightarrow> nat \<Rightarrow> nat \<Rightarrow> (nat \<times> nat) option list \<Rightarrow> 'v list list \<Rightarrow> (string, nat \<times> 'v list list) outcome"
  where
  "put_pictures range_error vectors at batch [] xs = Ok (at, xs)"
| "put_pictures range_error vectors at batch (None # spans) xs = put_pictures range_error vectors at (batch + 1) spans xs"
| "put_pictures range_error vectors at batch (Some (s, f) # spans) xs =
     (if at + (f - s) \<le> length vectors \<and> batch < length xs \<and> f \<le> length (xs ! batch)
      then put_pictures range_error vectors (at + (f - s)) (batch + 1) spans
        (xs[batch := take s (xs ! batch) @ take (f - s) (drop at vectors) @ drop f (xs ! batch)])
      else Err range_error)"

definition inject_pictures ::
  "string \<Rightarrow> string \<Rightarrow> 'v list \<Rightarrow> (nat \<times> nat) option list \<Rightarrow> 'v list list \<Rightarrow> (string, 'v list list) outcome" where
  "inject_pictures range_error unconsumed vectors spans xs =
     bind_outcome (put_pictures range_error vectors 0 0 spans xs) (\<lambda>(used, xs').
       if used \<noteq> length vectors then Err unconsumed else Ok xs')"

definition inject_embeds ::
  "string \<Rightarrow> 'v list \<Rightarrow> (nat \<times> nat) option list \<Rightarrow> 'v list list \<Rightarrow> (string, 'v list list) outcome" where
  "inject_embeds range_error =
     inject_pictures range_error ''Unconsumed image embeddings remain after token injection''"

text \<open>What is added to the layers: the vectors of each layer in a batch of zero vectors.\<close>

fun deepstack_additions ::
  "string \<Rightarrow> 'v \<Rightarrow> nat \<Rightarrow> nat \<Rightarrow> 'v list list \<Rightarrow> (nat \<times> nat) option list \<Rightarrow> (string, 'v list list list) outcome" where
  "deepstack_additions range_error zero batch_size seq_len [] spans = Ok []"
| "deepstack_additions range_error zero batch_size seq_len (layer # layers) spans =
     bind_outcome (inject_pictures range_error ''Unconsumed deepstack image embeddings remain after token injection''
         layer spans (replicate batch_size (replicate seq_len zero))) (\<lambda>x.
       map_outcome ((#) x) (deepstack_additions range_error zero batch_size seq_len layers spans))"

section \<open>The rotary frequencies\<close>

definition u32_as_f32 :: "32 word \<Rightarrow> f32" where
  "u32_as_f32 v = f32_round False (unat v) 0"

text \<open>The places \<open>i\<close>, \<open>i + 3\<close>, \<open>i + 6\<close> and so on below the limit take the other coordinate.\<close>

function every_third :: "f32 list \<Rightarrow> f32 \<Rightarrow> nat \<Rightarrow> nat \<Rightarrow> nat \<Rightarrow> f32 list \<Rightarrow> f32 list" where
  "every_third inv_freq pos_dim base limit i freqs =
     (if i < limit then every_third inv_freq pos_dim base limit (i + 3) (freqs[base + i := f32_mul pos_dim (inv_freq ! i)]) else freqs)"
  by auto

termination by (relation "measure (\<lambda>(inv_freq, pos_dim, base, limit, i, freqs). limit - i)") auto

declare every_third.simps [simp del]

definition token_freqs ::
  "bool \<Rightarrow> nat list \<Rightarrow> f32 list \<Rightarrow> 32 word list list list \<Rightarrow> nat \<Rightarrow> nat \<times> nat \<Rightarrow> f32 list \<Rightarrow> f32 list" where
  "token_freqs interleaved sections inv_freq pos t = (\<lambda>(batch, tok) freqs.
     let base = (batch * t + tok) * length inv_freq;
         temporal = u32_as_f32 (pos ! 0 ! batch ! tok);
         freqs = fold (\<lambda>i freqs. freqs[base + i := f32_mul temporal (inv_freq ! i)]) [0 ..< length inv_freq] freqs
     in if interleaved
        then fold (\<lambda>dim. every_third inv_freq (u32_as_f32 (pos ! dim ! batch ! tok)) base (min (sections ! dim * 3) (length inv_freq)) dim)
               (drop 1 (take 3 [0 ..< length pos])) freqs
        else freqs)"

text \<open>The loops run over the positions of \<open>pos.iter()\<close>, of which there are as many as the tensor has coordinates.\<close>

definition mrope_freqs ::
  "bool \<Rightarrow> nat list \<Rightarrow> f32 list \<Rightarrow> nat \<Rightarrow> nat \<Rightarrow> 32 word list list list \<Rightarrow> f32 list" where
  "mrope_freqs interleaved sections inv_freq b t pos =
     fold (\<lambda>batch. fold (\<lambda>tok. token_freqs interleaved sections inv_freq pos t (batch, tok)) (take t [0 ..< length pos]))
       (take b [0 ..< length pos]) (replicate (b * t * length inv_freq) 0)"

section \<open>The row that is pooled\<close>

definition rposition :: "('a \<Rightarrow> bool) \<Rightarrow> 'a list \<Rightarrow> nat option" where
  "rposition p xs = (case filter (\<lambda>i. p (xs ! i)) [0 ..< length xs] of [] \<Rightarrow> None | is \<Rightarrow> Some (last is))"

fun pool_rows :: "string \<Rightarrow> nat \<Rightarrow> 'v list list \<Rightarrow> f32 list list \<Rightarrow> (string, 'v list) outcome" where
  "pool_rows range_error seq_len hidden [] = Ok []"
| "pool_rows range_error seq_len [] (row # masks) = Err range_error"
| "pool_rows range_error seq_len (h # hidden) (row # masks) =
     (let last_idx = (case rposition (\<lambda>v. f32_gt v 0) row of Some i \<Rightarrow> i | None \<Rightarrow> seq_len - 1)
      in if last_idx < length h then map_outcome ((#) (h ! last_idx)) (pool_rows range_error seq_len hidden masks)
         else Err range_error)"

definition last_token_pool :: "string \<Rightarrow> nat \<Rightarrow> 'v list list \<Rightarrow> f32 list list \<Rightarrow> (string, 'v list) outcome" where
  "last_token_pool range_error seq_len hidden masks =
     (if length masks \<noteq> length hidden then Err ''attention mask batch size mismatch''
      else pool_rows range_error seq_len hidden masks)"

section \<open>Positions beyond the third token are lost\<close>

lemma length_every_third: "length (every_third inv_freq v base limit i freqs) = length freqs"
  by (induction inv_freq v base limit i freqs rule: every_third.induct) (subst every_third.simps, simp)

lemma every_third_nth:
  assumes "base + limit \<le> length freqs"
  shows "every_third inv_freq v base limit i freqs ! j =
    (if base + i \<le> j \<and> j < base + limit \<and> (j - base - i) mod 3 = 0 then f32_mul v (inv_freq ! (j - base)) else freqs ! j)"
  using assms
proof (induction inv_freq v base limit i freqs rule: every_third.induct)
  case (1 inv_freq v base limit i freqs)
  show ?case
  proof (cases "i < limit")
    case True
    have later: "base + i \<le> j \<and> (j - base - i) mod 3 = 0 \<longleftrightarrow>
        j = base + i \<or> (base + (i + 3) \<le> j \<and> (j - base - (i + 3)) mod 3 = 0)" by presburger
    have "every_third inv_freq v base limit i freqs ! j =
        (if base + (i + 3) \<le> j \<and> j < base + limit \<and> (j - base - (i + 3)) mod 3 = 0 then f32_mul v (inv_freq ! (j - base))
         else freqs[base + i := f32_mul v (inv_freq ! i)] ! j)"
      using 1 True by (subst every_third.simps) simp
    then show ?thesis using later True 1(2) by (auto simp: nth_list_update)
  next
    case False
    then show ?thesis by (subst every_third.simps) auto
  qed
qed

lemma fill_nth:
  assumes "base + n \<le> length freqs"
  shows "fold (\<lambda>i freqs. freqs[base + i := g i]) [0 ..< n] freqs ! j =
      (if base \<le> j \<and> j < base + n then g (j - base) else freqs ! j) \<and>
    length (fold (\<lambda>i freqs. freqs[base + i := g i]) [0 ..< n] freqs) = length freqs"
  using assms by (induction n) (auto simp: nth_list_update less_Suc_eq)

text \<open>Which coordinate a place of the frequencies takes.\<close>

definition token_value ::
  "bool \<Rightarrow> nat list \<Rightarrow> f32 list \<Rightarrow> 32 word list list list \<Rightarrow> nat \<times> nat \<Rightarrow> nat \<Rightarrow> f32" where
  "token_value interleaved sections inv_freq pos = (\<lambda>(batch, tok) k.
     f32_mul (u32_as_f32 (pos ! (if interleaved \<and> k < sections ! (k mod 3) * 3 then k mod 3 else 0) ! batch ! tok)) (inv_freq ! k))"

lemma token_freqs_nth:
  assumes "length pos = 3" and "(batch * t + tok) * length inv_freq + length inv_freq \<le> length freqs"
  shows "token_freqs interleaved sections inv_freq pos t (batch, tok) freqs ! j =
      (let base = (batch * t + tok) * length inv_freq
       in if base \<le> j \<and> j < base + length inv_freq
          then token_value interleaved sections inv_freq pos (batch, tok) (j - base) else freqs ! j) \<and>
    length (token_freqs interleaved sections inv_freq pos t (batch, tok) freqs) = length freqs"
proof -
  let ?d = "length inv_freq" and ?v = "\<lambda>dim. u32_as_f32 (pos ! dim ! batch ! tok)"
  define base where "base = (batch * t + tok) * ?d"
  define f0 where "f0 = fold (\<lambda>i freqs. freqs[base + i := f32_mul (?v 0) (inv_freq ! i)]) [0 ..< ?d] freqs"
  define f1 where "f1 = every_third inv_freq (?v 1) base (min (sections ! 1 * 3) ?d) 1 f0"
  define f2 where "f2 = every_third inv_freq (?v 2) base (min (sections ! 2 * 3) ?d) 2 f1"
  have dims: "drop 1 (take 3 [0 ..< length pos]) = [1, 2]" by (simp add: assms(1) upt_rec)
  have whole: "token_freqs interleaved sections inv_freq pos t (batch, tok) freqs = (if interleaved then f2 else f0)"
    by (simp only: token_freqs_def prod.case Let_def base_def [symmetric] dims f0_def f1_def f2_def fold_simps id_apply comp_apply)
  have b: "base + ?d \<le> length freqs" using assms(2) by (simp add: base_def)
  have f0: "f0 ! j = (if base \<le> j \<and> j < base + ?d then f32_mul (?v 0) (inv_freq ! (j - base)) else freqs ! j)"
    "length f0 = length freqs"
    using fill_nth [OF b, where g = "\<lambda>i. f32_mul (?v 0) (inv_freq ! i)"] by (simp_all add: f0_def)
  have l1: "length f1 = length freqs" by (simp add: f1_def length_every_third f0)
  then have l2: "length f2 = length freqs" by (simp add: f2_def length_every_third)
  have f1: "f1 ! j = (if base + 1 \<le> j \<and> j < base + min (sections ! 1 * 3) ?d \<and> (j - base - 1) mod 3 = 0
      then f32_mul (?v 1) (inv_freq ! (j - base)) else f0 ! j)"
    unfolding f1_def using b f0(2) by (intro every_third_nth) simp
  have f2: "f2 ! j = (if base + 2 \<le> j \<and> j < base + min (sections ! 2 * 3) ?d \<and> (j - base - 2) mod 3 = 0
      then f32_mul (?v 2) (inv_freq ! (j - base)) else f1 ! j)"
    unfolding f2_def using b l1 by (intro every_third_nth) simp
  show ?thesis
  proof (cases "base \<le> j \<and> j < base + ?d")
    case False
    then have "f0 ! j = freqs ! j" "f1 ! j = f0 ! j" "f2 ! j = f1 ! j" unfolding f2 f1 f0 by auto
    then show ?thesis using False f0(2) l2 unfolding whole Let_def base_def [symmetric] by auto
  next
    case True
    define k where "k = j - base"
    have k: "j = base + k" "k < ?d" using True by (auto simp: k_def)
    have m1: "base + 1 \<le> j \<and> j < base + min (sections ! 1 * 3) ?d \<and> (j - base - 1) mod 3 = 0 \<longleftrightarrow>
        k mod 3 = 1 \<and> k < sections ! 1 * 3"
      using k by (auto, presburger+)
    have m2: "base + 2 \<le> j \<and> j < base + min (sections ! 2 * 3) ?d \<and> (j - base - 2) mod 3 = 0 \<longleftrightarrow>
        k mod 3 = 2 \<and> k < sections ! 2 * 3"
      using k by (auto, presburger+)
    have g0: "f0 ! j = f32_mul (?v 0) (inv_freq ! k)" using True by (simp add: f0(1) k_def)
    have g1: "f1 ! j = (if k mod 3 = 1 \<and> k < sections ! 1 * 3 then f32_mul (?v 1) (inv_freq ! k) else f0 ! j)"
      using f1 [unfolded m1] unfolding k_def [symmetric] .
    have g2: "f2 ! j = (if k mod 3 = 2 \<and> k < sections ! 2 * 3 then f32_mul (?v 2) (inv_freq ! k) else f1 ! j)"
      using f2 [unfolded m2] unfolding k_def [symmetric] .
    have "k mod 3 = 0 \<or> k mod 3 = 1 \<or> k mod 3 = 2" by presburger
    then have "(if interleaved then f2 ! j else f0 ! j) = token_value interleaved sections inv_freq pos (batch, tok) k"
      unfolding g2 g1 g0 token_value_def prod.case by (elim disjE) simp_all
    then show ?thesis using True f0(2) l2 unfolding whole Let_def base_def [symmetric] k_def by auto
  qed
qed

text \<open>Writing blocks of \<open>d\<close> places one after the other.\<close>

lemma fold_blocks:
  assumes "\<And>p freqs j. p \<in> set ps \<Longrightarrow> place p * d + d \<le> length freqs \<Longrightarrow>
      step p freqs ! j = (if place p * d \<le> j \<and> j < place p * d + d then v p (j - place p * d) else freqs ! j) \<and>
      length (step p freqs) = length freqs"
    and "distinct (map place ps)" and "\<And>p. p \<in> set ps \<Longrightarrow> place p * d + d \<le> length freqs" and "k < d"
  shows "(p \<in> set ps \<longrightarrow> fold step ps freqs ! (place p * d + k) = v p k) \<and>
    (q \<notin> place ` set ps \<longrightarrow> fold step ps freqs ! (q * d + k) = freqs ! (q * d + k))"
  using assms
proof (induction ps arbitrary: freqs p q)
  case (Cons x ps)
  have x: "step x freqs ! j = (if place x * d \<le> j \<and> j < place x * d + d then v x (j - place x * d) else freqs ! j)"
    "length (step x freqs) = length freqs" for j
    using Cons.prems(1) [of x freqs j] Cons.prems(3) [of x] by simp_all
  have own: "place x * d \<le> r * d + k \<and> r * d + k < place x * d + d \<longleftrightarrow> r = place x" for r
  proof
    assume "place x * d \<le> r * d + k \<and> r * d + k < place x * d + d"
    then have "(r * d + k) div d = place x" using Cons.prems(4) by (intro div_nat_eqI) (auto simp: ac_simps)
    then show "r = place x" using Cons.prems(4) by simp
  qed (use Cons.prems(4) in simp)
  have IH: "(p \<in> set ps \<longrightarrow> fold step ps (step x freqs) ! (place p * d + k) = v p k) \<and>
      (r \<notin> place ` set ps \<longrightarrow> fold step ps (step x freqs) ! (r * d + k) = step x freqs ! (r * d + k))" for p r
    by (rule Cons.IH, rule Cons.prems(1)) (use Cons.prems(2-4) x(2) in auto)
  have "place x \<notin> place ` set ps" using Cons.prems(2) by auto
  then have "fold step (x # ps) freqs ! (place x * d + k) = v x k"
    using IH [of _ "place x"] own [of "place x"] by (simp add: x(1))
  moreover have "q \<notin> place ` set (x # ps) \<Longrightarrow> fold step (x # ps) freqs ! (q * d + k) = freqs ! (q * d + k)"
    using IH [of _ q] own [of q] by (simp add: x(1))
  ultimately show ?case using IH [of p] by auto
qed simp

lemma fold_product: "fold (\<lambda>a. fold (f a) ys) xs s = fold (\<lambda>(a, b). f a b) (List.product xs ys) s"
  by (induction xs arbitrary: s) (simp_all add: fold_append fold_map comp_def)

lemma set_take_upt: "set (take b [0 ..< n]) = {x. x < b \<and> x < n}"
  by (cases "b \<le> n") auto

text \<open>The tokens that the loops reach, each with a block of its own.\<close>

definition filled_tokens :: "nat \<Rightarrow> nat \<Rightarrow> (nat \<times> nat) list" where
  "filled_tokens b t = List.product (take b [0 ..< 3]) (take t [0 ..< 3])"

lemma filled_tokens_iff: "(x, y) \<in> set (filled_tokens b t) \<longleftrightarrow> x < 3 \<and> x < b \<and> y < 3 \<and> y < t"
  by (auto simp: filled_tokens_def set_take_upt)

lemma token_place_inject: "y < t \<Longrightarrow> y' < t \<Longrightarrow> x * t + y = x' * t + y' \<Longrightarrow> x = x' \<and> y = (y' :: nat)"
  by (metis mod_mult_self3 mod_less div_mult_self3 div_less add.right_neutral add_0 less_nat_zero_code)

lemma mrope_freqs_blocks:
  fixes b t :: nat
  assumes "length pos = 3" and "k < length inv_freq" and "place = (\<lambda>(batch, tok). batch * t + tok)"
  shows "(p \<in> set (filled_tokens b t) \<longrightarrow>
      mrope_freqs interleaved sections inv_freq b t pos ! (place p * length inv_freq + k) =
        token_value interleaved sections inv_freq pos p k) \<and>
    (q \<notin> place ` set (filled_tokens b t) \<longrightarrow>
      mrope_freqs interleaved sections inv_freq b t pos ! (q * length inv_freq + k) =
        replicate (b * t * length inv_freq) 0 ! (q * length inv_freq + k))"
proof -
  let ?d = "length inv_freq" and ?zero = "replicate (b * t * length inv_freq) (0 :: f32)"
  have whole: "mrope_freqs interleaved sections inv_freq b t pos =
      fold (\<lambda>(batch, tok). token_freqs interleaved sections inv_freq pos t (batch, tok)) (filled_tokens b t) ?zero"
    unfolding mrope_freqs_def filled_tokens_def assms(1) by (rule fold_product)
  show ?thesis
    unfolding whole
  proof (rule fold_blocks [where v = "token_value interleaved sections inv_freq pos"])
    show "place p * ?d + ?d \<le> length ?zero" if "p \<in> set (filled_tokens b t)" for p
    proof -
      obtain x y where p: "p = (x, y)" by (rule prod.exhaust)
      have "place p < b * t" using that row_place [of x b y t] by (simp add: p filled_tokens_iff assms(3))
      then show ?thesis using mult_le_mono1 [OF Suc_leI, of "place p" "b * t" ?d] by simp
    qed
  next
    fix p j and freqs :: "f32 list"
    assume room: "place p * ?d + ?d \<le> length freqs"
    obtain x y where p: "p = (x, y)" by (rule prod.exhaust)
    show "(case p of (batch, tok) \<Rightarrow> token_freqs interleaved sections inv_freq pos t (batch, tok)) freqs ! j =
        (if place p * ?d \<le> j \<and> j < place p * ?d + ?d then token_value interleaved sections inv_freq pos p (j - place p * ?d)
         else freqs ! j) \<and>
      length ((case p of (batch, tok) \<Rightarrow> token_freqs interleaved sections inv_freq pos t (batch, tok)) freqs) = length freqs"
      using token_freqs_nth [OF assms(1) room [unfolded p assms(3) prod.case], of interleaved sections j]
      by (simp add: p assms(3) Let_def)
  next
    have "inj_on place (set (filled_tokens b t))"
    proof (rule inj_onI)
      fix p q
      assume pq: "p \<in> set (filled_tokens b t)" "q \<in> set (filled_tokens b t)" "place p = place q"
      obtain x y x' y' where "p = (x, y)" "q = (x', y')" by (metis prod.exhaust)
      with pq token_place_inject [of y t y' x x'] show "p = q" by (simp add: filled_tokens_iff assms(3))
    qed
    then show "distinct (map place (filled_tokens b t))" by (simp add: distinct_map filled_tokens_def distinct_product)
  qed (rule assms(2))
qed

text \<open>
  C37: The loops over the batch and over the tokens end with the three coordinates: a row of the batch or a token beyond
  the third keeps the frequencies zero, so that its rotation is the identity, whatever position it was given. The
  first three get what the interleaved scheme asks for.
\<close>

theorem late_tokens_lose_their_position:
  assumes "length pos = 3" and "batch < b" and "tok < t" and "k < length inv_freq"
  shows "mrope_freqs interleaved sections inv_freq b t pos ! ((batch * t + tok) * length inv_freq + k) =
    (if batch < 3 \<and> tok < 3 then token_value interleaved sections inv_freq pos (batch, tok) k else 0)"
proof -
  note blocks = mrope_freqs_blocks [OF assms(1,4) refl, of _ b t interleaved sections]
  show ?thesis
  proof (cases "batch < 3 \<and> tok < 3")
    case True
    then have "(batch, tok) \<in> set (filled_tokens b t)" using assms(2,3) by (simp add: filled_tokens_iff)
    then show ?thesis using blocks [of "(batch, tok)"] True by simp
  next
    case False
    have "batch * t + tok \<notin> (\<lambda>(batch, tok). batch * t + tok) ` set (filled_tokens b t)"
    proof
      assume "batch * t + tok \<in> (\<lambda>(batch, tok). batch * t + tok) ` set (filled_tokens b t)"
      then obtain x y where "(x, y) \<in> set (filled_tokens b t)" "batch * t + tok = x * t + y" by auto
      with token_place_inject [OF assms(3), of y batch x] False show False by (auto simp: filled_tokens_iff)
    qed
    moreover have "(batch * t + tok) * length inv_freq + k < b * t * length inv_freq"
      using row_place [OF row_place [OF assms(2,3)] assms(4)] by simp
    ultimately show ?thesis using blocks [of _ "batch * t + tok"] unfolding if_not_P [OF False] by simp
  qed
qed

theorem late_tokens_lose_their_position_witness:
  "mrope_freqs False [24, 20, 20] [f32_one] 1 4 [[[0, 1, 2, 3]], [[0, 1, 2, 3]], [[0, 1, 2, 3]]] ! 3 = 0"
  using late_tokens_lose_their_position
    [of "[[[0, 1, 2, 3]], [[0, 1, 2, 3]], [[0, 1, 2, 3]]]" 0 1 3 4 0 "[f32_one]" False "[24, 20, 20]"] by simp

section \<open>Every picture reaches its own tokens\<close>

definition picture_tokens :: "prepared_image option list \<Rightarrow> nat" where
  "picture_tokens prepared = sum_list (map pi_llm_tokens (given_pictures prepared))"

lemma picture_tokens_simps [simp]:
  "picture_tokens [] = 0" "picture_tokens (None # ps) = picture_tokens ps"
  "picture_tokens (Some p # ps) = pi_llm_tokens p + picture_tokens ps"
  by (simp_all add: picture_tokens_def given_pictures_def)

lemma image_span_Some:
  assumes "image_span image_token enc (Some p) = Inr r"
  shows "\<exists>s f. r = Some (s, f) \<and> is_run (enc_ids enc) image_token s f \<and> f - s = pi_llm_tokens p"
proof -
  from assms obtain s f where sf: "find_token_spans (enc_ids enc) image_token = [(s, f)]" "r = Some (s, f)" "f - s = pi_llm_tokens p"
    by (auto simp: image_span_def split: list.splits if_splits)
  then have "is_run (enc_ids enc) image_token s f"
    using spans_are_the_runs [of s f "enc_ids enc" image_token 0] by simp
  with sf show ?thesis by blast
qed

lemma image_spans_Ok:
  assumes "image_spans image_token prepared encs = Ok spans"
  shows "length spans = length encs \<and> length encs \<le> length prepared \<and>
    (\<forall>b<length encs. image_span image_token (encs ! b) (prepared ! b) = Inr (spans ! b))"
  using assms
proof (induction image_token prepared encs arbitrary: spans rule: image_spans.induct)
  case (3 image_token p prepared enc encs)
  from 3(2) obtain span rest where s: "image_span image_token enc p = Inr span"
    and rest: "image_spans image_token prepared encs = Ok rest" and spans: "spans = span # rest"
    by (auto split: sum.splits simp: map_outcome_eq_Ok)
  from 3(1) [OF s rest] s show ?case by (auto simp: spans less_Suc_eq_0_disj)
qed simp_all

text \<open>A span fits its picture when it has a place for each of its tokens.\<close>

fun span_fits :: "prepared_image option \<Rightarrow> (nat \<times> nat) option \<Rightarrow> bool" where
  "span_fits None span = (span = None)"
| "span_fits (Some p) None = False"
| "span_fits (Some p) (Some (s, f)) = (f - s = pi_llm_tokens p)"

lemma put_pictures_Ok:
  assumes "list_all2 span_fits ps spans"
    and "\<forall>i s f. i < length spans \<longrightarrow> spans ! i = Some (s, f) \<longrightarrow> batch + i < length xs \<and> f \<le> length (xs ! (batch + i))"
    and "at + picture_tokens ps \<le> length vectors"
  shows "\<exists>ys. put_pictures range_error vectors at batch spans xs = Ok (at + picture_tokens ps, ys) \<and> length ys = length xs \<and>
    (\<forall>j<length xs. ys ! j = (if batch \<le> j \<and> j < batch + length spans
       then (case spans ! (j - batch) of
               None \<Rightarrow> xs ! j
             | Some (s, f) \<Rightarrow> take s (xs ! j) @ take (f - s) (drop (at + picture_tokens (take (j - batch) ps)) vectors) @ drop f (xs ! j))
       else xs ! j))"
  using assms
proof (induction ps spans arbitrary: batch at xs rule: list_all2_induct)
  case (Cons p ps span spans)
  have places: thesis if "j < batch \<Longrightarrow> thesis" "j = batch \<Longrightarrow> thesis" "\<And>k. j = batch + 1 + k \<Longrightarrow> thesis" for j thesis
    using that by (metis add.commute add_Suc less_imp_Suc_add linorder_neqE_nat plus_1_eq_Suc)
  show ?case
  proof (cases span)
    case None
    with Cons(1) have p: "p = None" by (cases p) auto
    have "\<forall>i s f. i < length spans \<longrightarrow> spans ! i = Some (s, f) \<longrightarrow>
        batch + 1 + i < length xs \<and> f \<le> length (xs ! (batch + 1 + i))"
      using Cons.prems(1) [rule_format, of "Suc _"] by simp
    from Cons.IH [OF this, where at = at] Cons.prems(2) obtain ys where
      ys: "put_pictures range_error vectors at (batch + 1) spans xs = Ok (at + picture_tokens ps, ys)" "length ys = length xs"
      "\<And>j. j < length xs \<Longrightarrow> ys ! j = (if batch + 1 \<le> j \<and> j < batch + 1 + length spans
         then (case spans ! (j - (batch + 1)) of None \<Rightarrow> xs ! j
               | Some (s, f) \<Rightarrow> take s (xs ! j) @ take (f - s) (drop (at + picture_tokens (take (j - (batch + 1)) ps)) vectors)
                   @ drop f (xs ! j))
         else xs ! j)"
      by (auto simp: p)
    have "ys ! j = (if batch \<le> j \<and> j < batch + length (span # spans)
        then (case (span # spans) ! (j - batch) of None \<Rightarrow> xs ! j
              | Some (s', f') \<Rightarrow> take s' (xs ! j) @ take (f' - s') (drop (at + picture_tokens (take (j - batch) (p # ps))) vectors)
                  @ drop f' (xs ! j))
        else xs ! j)" if "j < length xs" for j
      using ys(3) [OF that] by (cases j rule: places) (auto simp: None p split: option.split)
    then show ?thesis using ys(1,2) by (intro exI [of _ ys]) (auto simp: None p)
  next
    case (Some sf)
    obtain s f where sf: "span = Some (s, f)" using Some by (cases sf) auto
    with Cons(1) obtain q where p: "p = Some q" and len: "f - s = pi_llm_tokens q" by (cases p) auto
    have here: "batch < length xs" "f \<le> length (xs ! batch)" using Cons.prems(1) [rule_format, of 0 s f] by (simp_all add: sf)
    define row where "row = take s (xs ! batch) @ take (f - s) (drop at vectors) @ drop f (xs ! batch)"
    have "\<forall>i r g. i < length spans \<longrightarrow> spans ! i = Some (r, g) \<longrightarrow>
        batch + 1 + i < length (xs[batch := row]) \<and> g \<le> length (xs[batch := row] ! (batch + 1 + i))"
      using Cons.prems(1) [rule_format, of "Suc _"] by simp
    from Cons.IH [OF this, where at = "at + (f - s)"] Cons.prems(2) obtain ys where
      ys: "put_pictures range_error vectors (at + (f - s)) (batch + 1) spans (xs[batch := row])
        = Ok (at + (f - s) + picture_tokens ps, ys)" "length ys = length xs"
      "\<And>j. j < length xs \<Longrightarrow> ys ! j = (if batch + 1 \<le> j \<and> j < batch + 1 + length spans
         then (case spans ! (j - (batch + 1)) of None \<Rightarrow> xs[batch := row] ! j
               | Some (s', f') \<Rightarrow> take s' (xs[batch := row] ! j)
                   @ take (f' - s') (drop (at + (f - s) + picture_tokens (take (j - (batch + 1)) ps)) vectors)
                   @ drop f' (xs[batch := row] ! j))
         else xs[batch := row] ! j)"
      by (auto simp: p len)
    have "put_pictures range_error vectors at batch (span # spans) xs = Ok (at + picture_tokens (p # ps), ys)"
      using ys(1) here Cons.prems(2) by (simp add: sf p len row_def add.assoc)
    moreover have "ys ! j = (if batch \<le> j \<and> j < batch + length (span # spans)
        then (case (span # spans) ! (j - batch) of None \<Rightarrow> xs ! j
              | Some (s', f') \<Rightarrow> take s' (xs ! j) @ take (f' - s') (drop (at + picture_tokens (take (j - batch) (p # ps))) vectors)
                  @ drop f' (xs ! j))
        else xs ! j)" if "j < length xs" for j
      using ys(3) [OF that] here by (cases j rule: places) (auto simp: sf p len row_def add.assoc split: option.split)
    ultimately show ?thesis using ys(2) by blast
  qed
qed auto

lemma image_span_None: "image_span image_token enc None = Inr r \<Longrightarrow> r = None"
  by (simp add: image_span_def)

text \<open>What the inputs of a batch agree on.\<close>

lemma batch_inputs_Ok:
  assumes "batch_inputs lib encode cfg budget image_token instruction texts images = Ok inputs"
    and "\<And>prompts encs. encode prompts = Inr encs \<Longrightarrow> length encs = length prompts"
  shows "length (vi_prepared inputs) = length texts \<and> length (vi_encodings inputs) = length texts \<and>
    length (vi_spans inputs) = length texts \<and>
    (\<forall>b<length texts. case vi_prepared inputs ! b of
        None \<Rightarrow> vi_spans inputs ! b = None
      | Some p \<Rightarrow> \<exists>s f. vi_spans inputs ! b = Some (s, f) \<and> is_run (enc_ids (vi_encodings inputs ! b)) image_token s f \<and>
          f - s = pi_llm_tokens p)"
proof (cases "texts = []")
  case True
  with assms(1) have "inputs = \<lparr>vi_prepared = [], vi_encodings = [], vi_spans = []\<rparr>"
    by (auto simp: batch_inputs_def split: if_splits)
  then show ?thesis by (simp add: True)
next
  case False
  have sizes: "length texts = length images" using assms(1) by (auto simp: batch_inputs_def split: if_splits)
  with assms(1) False have "bind_outcome (prepare_images lib cfg budget images) (\<lambda>prepared.
      bind_outcome (vl_prompts instruction (zip texts prepared)) (\<lambda>prompts.
        case encode prompts of Inl m \<Rightarrow> Err m | Inr encs \<Rightarrow> if encs = [] then Panic
          else map_outcome (\<lambda>spans. \<lparr>vi_prepared = prepared, vi_encodings = encs, vi_spans = spans\<rparr>)
            (image_spans image_token prepared encs))) = Ok inputs"
    unfolding batch_inputs_def by (simp only: if_False simp_thms)
  then obtain prepared prompts where prepared: "prepare_images lib cfg budget images = Ok prepared"
    and prompts: "vl_prompts instruction (zip texts prepared) = Ok prompts"
    and after: "(case encode prompts of Inl m \<Rightarrow> Err m | Inr encs \<Rightarrow> if encs = [] then Panic
      else map_outcome (\<lambda>spans. \<lparr>vi_prepared = prepared, vi_encodings = encs, vi_spans = spans\<rparr>)
        (image_spans image_token prepared encs)) = Ok inputs"
    unfolding bind_outcome_eq_Ok by blast
  from after obtain encs spans where encs: "encode prompts = Inr encs"
    and spans: "image_spans image_token prepared encs = Ok spans"
    and inputs: "inputs = \<lparr>vi_prepared = prepared, vi_encodings = encs, vi_spans = spans\<rparr>"
    by (auto split: sum.splits if_splits)
  have "length prepared = length images" using prepared
    by (induction lib cfg budget images arbitrary: prepared rule: prepare_images.induct) (auto simp: bind_outcome_eq_Ok)
  moreover have "length prompts = length rows" if "vl_prompts instruction rows = Ok prompts" for rows prompts
    using that by (induction instruction rows arbitrary: prompts rule: vl_prompts.induct) (auto split: sum.splits)
  then have "length prompts = length (zip texts prepared)" using prompts by blast
  ultimately have n: "length prepared = length texts" "length encs = length texts" "length spans = length texts"
    using assms(2) [OF encs] image_spans_Ok [OF spans] sizes by simp_all
  have each: "image_span image_token (encs ! b) (prepared ! b) = Inr (spans ! b)" if "b < length texts" for b
    using image_spans_Ok [OF spans] that n by simp
  have found: "case prepared ! b of None \<Rightarrow> spans ! b = None
      | Some p \<Rightarrow> \<exists>s f. spans ! b = Some (s, f) \<and> is_run (enc_ids (encs ! b)) image_token s f \<and> f - s = pi_llm_tokens p"
    if "b < length texts" for b
    using each [OF that] image_span_Some image_span_None by (cases "prepared ! b") fastforce+
  then show ?thesis using n unfolding inputs vl_inputs.simps by blast
qed

text \<open>
  C36: From the prompts to the vectors. Let the tokenizer give one encoding for each prompt and the vision tower one vector
  for each place of the merged grids, and let the token vectors be as many as the tokens. Then no range leaves a
  tensor and nothing is left over: each text without a picture keeps its vectors, and each picture's vectors, in their
  order, take the places of its own placeholder run and no others.
\<close>

theorem pictures_reach_their_tokens:
  assumes "batch_inputs lib encode cfg budget image_token instruction texts images = Ok inputs"
    and "\<And>prompts encs. encode prompts = Inr encs \<Longrightarrow> length encs = length prompts"
    and "length vectors = picture_tokens (vi_prepared inputs)"
    and "map length xs = map (\<lambda>enc. length (enc_ids enc)) (vi_encodings inputs)"
  shows "\<exists>ys. inject_embeds range_error vectors (vi_spans inputs) xs = Ok ys \<and> length ys = length texts \<and>
    (\<forall>b<length texts. case vi_prepared inputs ! b of
        None \<Rightarrow> ys ! b = xs ! b
      | Some p \<Rightarrow> \<exists>s f. is_run (enc_ids (vi_encodings inputs ! b)) image_token s f \<and> f - s = pi_llm_tokens p \<and>
          ys ! b = take s (xs ! b) @
            take (pi_llm_tokens p) (drop (picture_tokens (take b (vi_prepared inputs))) vectors) @ drop f (xs ! b))"
proof -
  obtain prepared encs spans where inputs: "inputs = \<lparr>vi_prepared = prepared, vi_encodings = encs, vi_spans = spans\<rparr>"
    by (rule vl_inputs.cases)
  note agreed = batch_inputs_Ok [OF assms(1) assms(2), unfolded inputs vl_inputs.simps]
  have n: "length prepared = length texts" "length encs = length texts" "length spans = length texts"
    and found: "\<And>b. b < length texts \<Longrightarrow> case prepared ! b of None \<Rightarrow> spans ! b = None
      | Some p \<Rightarrow> \<exists>s f. spans ! b = Some (s, f) \<and> is_run (enc_ids (encs ! b)) image_token s f \<and> f - s = pi_llm_tokens p"
    using agreed by blast+
  have xs: "length xs = length texts" "b < length texts \<Longrightarrow> length (xs ! b) = length (enc_ids (encs ! b))" for b
    using arg_cong [OF assms(4), of length] arg_cong [OF assms(4), of "\<lambda>l. l ! b"] n by (simp_all add: inputs)
  have "span_fits (prepared ! b) (spans ! b)" if "b < length texts" for b
    using found [OF that] by (auto split: option.splits)
  then have "list_all2 span_fits prepared spans" using n by (intro list_all2_all_nthI) simp_all
  moreover have "\<forall>i s f. i < length spans \<longrightarrow> spans ! i = Some (s, f) \<longrightarrow> 0 + i < length xs \<and> f \<le> length (xs ! (0 + i))"
    using found xs n by (fastforce simp: is_run_def split: option.splits)
  moreover have "0 + picture_tokens prepared \<le> length vectors" using assms(3) by (simp add: inputs)
  ultimately obtain ys where ys: "put_pictures range_error vectors 0 0 spans xs = Ok (picture_tokens prepared, ys)"
    "length ys = length xs"
    "\<And>j. j < length texts \<Longrightarrow> ys ! j = (case spans ! j of None \<Rightarrow> xs ! j
       | Some (s, f) \<Rightarrow> take s (xs ! j) @ take (f - s) (drop (picture_tokens (take j prepared)) vectors) @ drop f (xs ! j))"
    using put_pictures_Ok [of prepared spans 0 xs 0 vectors range_error, unfolded add_0 diff_zero] n xs(1) by auto
  have "case prepared ! b of None \<Rightarrow> ys ! b = xs ! b
      | Some p \<Rightarrow> \<exists>s f. is_run (enc_ids (encs ! b)) image_token s f \<and> f - s = pi_llm_tokens p \<and>
          ys ! b = take s (xs ! b) @ take (pi_llm_tokens p) (drop (picture_tokens (take b prepared)) vectors) @ drop f (xs ! b)"
    if "b < length texts" for b
  proof (cases "prepared ! b")
    case None
    then show ?thesis using found [OF that] ys(3) [OF that] by simp
  next
    case (Some p)
    with found [OF that] obtain s f where "spans ! b = Some (s, f)" "is_run (enc_ids (encs ! b)) image_token s f"
      "f - s = pi_llm_tokens p" by auto
    then show ?thesis using ys(3) [OF that] Some by (simp, intro exI [of _ s] exI [of _ f]) simp
  qed
  then show ?thesis
    using ys(1,2) xs(1) assms(3) unfolding inputs vl_inputs.simps
    by (intro exI [of _ ys]) (simp add: inject_embeds_def inject_pictures_def)
qed

text \<open>A picture of one token between two others.\<close>

definition dot_encoding :: encoding where
  "dot_encoding = \<lparr>enc_ids = [5, 9, 6], enc_mask = [1, 1, 1], enc_types = [0, 0, 0]\<rparr>"

lemma dot_inputs:
  "batch_inputs dot_picture (\<lambda>prompts. Inr (map (\<lambda>p. dot_encoding) prompts)) dot_config 1 9 [] [None] [Some ()] =
     Ok \<lparr>vi_prepared = [Some dot_prepared], vi_encodings = [dot_encoding], vi_spans = [Some (1, 2)]\<rparr>"
proof -
  have "find_token_spans [5, 9, 6] 9 = [(1, 2)]" by code_simp
  then have "image_span 9 dot_encoding (Some dot_prepared) = Inr (Some (1, 2))"
    by (simp add: image_span_def dot_encoding_def dot_prepared_def)
  moreover have "pi_llm_tokens dot_prepared = 1" by (simp add: dot_prepared_def)
  moreover have "contains_str image_pad (build_vl_prompt None True [])" by code_simp
  then have "\<exists>s. expand_image_token_placeholders (build_vl_prompt None True []) 1 = Inr s"
    by (simp add: expand_image_token_placeholders_def)
  ultimately show ?thesis using dot_is_prepared by (auto simp: batch_inputs_def)
qed

theorem pictures_reach_their_tokens_witness:
  "inject_embeds [] [7] [Some (1, 2)] [[1, 2, 3 :: nat]] = Ok [[1, 7, 3]]"
proof -
  have "picture_tokens [Some dot_prepared] = 1" by (simp add: dot_prepared_def)
  then show ?thesis
    using pictures_reach_their_tokens [OF dot_inputs, of "[7]" "[[1, 2, 3 :: nat]]" "[]"]
    by (auto simp: dot_encoding_def dot_prepared_def inject_embeds_def inject_pictures_def)
qed

end
