(* ===== verification/Spec2Isabelle.thy ===== *)
theory Spec2Isabelle
  imports Vram Log_Segments Process Sweep_Safety Dual_Serving Cross_Encoder Engine_Setup Dxgi
    Contention Log_Start Single_Heads Triple_Heads Image_Engine Qwen_Embed
begin

text \<open>
  A verification library for the embedding and reranking sidecar (\<open>src/\<close>) and for the parts of its vendored
  \<open>fastembed\<close> (\<open>vendor-fastembed/src/\<close>) that it runs. The sidecar is one process that loads an embedding engine and
  a reranker on an accelerator and serves \<open>/embed\<close>, \<open>/rerank\<close>, \<open>/tokenize\<close>, \<open>/health\<close>, \<open>/models\<close> and \<open>/unload\<close>.

  How the program is put together, and which theory models what.

  \<^item> Common ground. \<open>Prelude\<close> (the three ways a call ends: \<open>Ok\<close>, \<open>Err\<close>, \<open>Panic\<close>; a mutex with its poison flag; durations),
    \<open>Rust_Text\<close> (\<open>str\<close> on UTF-8 bytes), \<open>F32\<close> (binary32 with one rounding per operation), \<open>Total_Order\<close> (\<open>total_cmp\<close>).
  \<^item> Start. \<open>Env\<close> and \<open>Config\<close> (\<open>config.rs\<close>), \<open>Adapters\<close> and \<open>Dxgi\<close> (\<open>adapters.rs\<close>), \<open>Preflight\<close> (\<open>preflight.rs\<close>), \<open>Startup\<close>
    (\<open>main.rs\<close>, the reference generator of \<open>canary.rs\<close>), \<open>Log_Days\<close> and \<open>Log_Segments\<close> (\<open>logging.rs\<close>, \<open>log_segments.rs\<close>), \<open>Log_Start\<close>
    (the first steps of \<open>main\<close>).
  \<^item> State. \<open>Engine_Cache\<close> (\<open>engine_cache.rs\<close>), \<open>Compile_Cache\<close> (\<open>compile_cache.rs\<close>), \<open>Vram\<close> (\<open>vram.rs\<close>), \<open>Wedge\<close>
    (\<open>wedge.rs\<close>), \<open>State\<close> (\<open>state.rs\<close>, \<open>bookkeeping.rs\<close>: the record \<open>app_state\<close> has one field per cell of \<open>AppState\<close> and
    the process-global world of the cache leases), \<open>Errors\<close> (the typed errors and their contexts).
  \<^item> A request. \<open>Wire\<close> (\<open>wire.rs\<close>), \<open>Envelope\<close> (limits and caps), \<open>Row_Layout\<close> (\<open>pin_shape\<close>, \<open>unpin_rows\<close>, settling, the
    order of scores), \<open>Engine_Lock\<close> (\<open>lock_or_refuse\<close>), \<open>Contention\<close> (its steps and those of the stamp, by any number of threads), \<open>Provider\<close> (\<open>provider.rs\<close>), \<open>Canary\<close> (\<open>canary.rs\<close>), \<open>Inference\<close> and
    \<open>Rerank\<close> (the two paths of \<open>inference.rs\<close>), \<open>Tokens\<close> (\<open>tokens.rs\<close>), \<open>Handlers\<close> (\<open>handlers.rs\<close>), \<open>Introspection\<close>
    (\<open>introspection.rs\<close>). \<open>Process\<close> composes the requests and ticks of one process.
  \<^item> The engines. \<open>Engine_Setup\<close> (\<open>common.rs\<close> and the constructors), \<open>Forward_Pass\<close> (arrays, run and outputs of a session),
    \<open>Lexical_Head\<close> (the sparse rows), \<open>Dual_Engine\<close> (\<open>bgem3_dual/mod.rs\<close>), \<open>Cross_Encoder\<close> (\<open>reranking/impl.rs\<close>).
    \<open>Dual_Serving\<close> and the last part of \<open>Cross_Encoder\<close> put them under the paths of the sidecar.
  \<^item> The rest of the vendored crate. \<open>Pooled_Output\<close> (\<open>output/\<close>, \<open>pooling.rs\<close>, \<open>text_embedding/output.rs\<close>), \<open>Text_Models\<close>
    (\<open>models/text_embedding.rs\<close>, \<open>models/sparse.rs\<close>) and \<open>Single_Heads\<close> (\<open>text_embedding/impl.rs\<close>,
    \<open>sparse_text_embedding/impl.rs\<close>) are the two upstream engines that the dual engine replaces; \<open>Triple_Heads\<close>
    (\<open>bgem3_embedding/impl.rs\<close>, \<open>similarity.rs\<close>), \<open>Image_Input\<close> and \<open>Image_Engine\<close> (\<open>image_embedding/\<close>), \<open>Qwen_Layout\<close> and
    \<open>Qwen_Embed\<close> (\<open>models/qwen3.rs\<close>, \<open>models/qwen3_vl.rs\<close>).
  \<^item> Scratch folders of the tests. \<open>Scratch_Names\<close> (\<open>test_scratch.rs\<close>), \<open>Scratch_Owner\<close> (\<open>owner.rs\<close>), \<open>Windows_Owner\<close>
    (\<open>win.rs\<close>), \<open>Scratch_Files\<close> (\<open>identity.rs\<close>, \<open>rename.rs\<close>), \<open>Scratch\<close> (\<open>claim.rs\<close>, \<open>scratch.rs\<close>), \<open>Sweep\<close> (\<open>sweep.rs\<close>) and
    \<open>Sweep_Safety\<close>.

  State and operations. A function that mutates takes the state and returns it; a call that may unwind returns an
  \<open>outcome\<close>, and the state beside \<open>Panic\<close> is the one the destructors leave (the stamp cleared, the lease released, the
  mutex poisoned). A lock is taken by \<open>lock_or_refuse\<close> over the list of what its polls see, so that waiting for ever is
  a list that ends without an answer. The concurrent parts are steps on shared state: the polls and stamps of
  an engine's callers (\<open>Contention\<close>), which refine the function, the lease of the cache paths (\<open>Compile_Cache\<close>) and the window of a build (\<open>Vram\<close>) are inductive relations with invariants for every interleaving,
  and the file operations of the sweep run over a store that others change between two calls.

  What the lemmas show.

  \<^item> The state. After every request, unload and tick the committed cap names a loaded engine or nothing, no stamp is
    left, no lock is poisoned that was not; the rung cache is a least-recently-used list of bounded length; a lease
    owns the cache paths alone; a published figure of memory comes from a build that was alone.
  \<^item> The answers. A response is about the texts that were sent, in their order, from the session's tensors to the
    JSON arrays, through batching, pinning, settling, sorting and unpinning; a request is refused exactly when its
    lock says so; the provider reported active is the one whose settings the session was built with.
  \<^item> One session for two. The dual engine returns exactly what the dense and the sparse engine of the same model return on
    two sessions, row by row and bit for bit, and is constructed from the same files with the same settings.
  \<^item> Pictures. The values of a prepared picture, its placeholders, its span and its positions agree in number, and its
    vectors reach its own tokens; the rotary loops, though, fill three tokens only.
  \<^item> Errors. Each guard of the vendored engine turns a mis-shaped output into an error, and the two shapes that no guard
    covers are theorems too: a short batch of logits and a token tensor of the wrong width.
  \<^item> Tokens, times, bounds. Round trips of claims, rows and names; exact conversions of times, LUIDs and lengths; no
    wrap-around where the code works at a machine width.
  \<^item> The sweep. It removes only what a proved-dead run of this user left, identifies before and after each rename, and
    does remove an abandoned folder when nobody interferes; on Windows every handle that is opened is closed.

  Interfaces. \<open>engine_slot\<close> (what the lock code sees of a slot; the reranker's option and the rung cache), \<open>row_layout\<close>
  (pinned and natural layouts), \<open>civil_calendar\<close> (UTC), \<open>remover\<close> (files and trees), \<open>process_probe\<close> (Linux and Windows)
  are locales, each interpreted on the definitions of the model.

  Parameters. Code that is not in the repository is an argument: the ONNX session, the tokenizer and the products of
  \<open>ndarray\<close> (record \<open>onnx_model\<close>), the hub and the session builder (\<open>setup_env\<close>), SHA-256, the Unicode lower case, the
  clocks, the file systems, \<open>/proc\<close>, the Win32 and DXGI calls (\<open>win_api\<close>, \<open>dxgi_answer\<close>). What a theorem needs of them is a
  named hypothesis: \<open>pads_to_longest\<close>, \<open>reads_tokens\<close>, \<open>answers_rowwise\<close>, \<open>answers_logits\<close>, \<open>answers_final_path\<close>.

  Bounds. The loops of the source that are bounded are modelled with their own bounds: three settling attempts, three
  calls for a final path, 64 adapters, \<open>REMOVE_TRIES\<close> and the draws of the scratch. Lists stand for polls, ticks and
  batches, so every recursion is structural or has a measure; no fuel is used.

  Not modelled. The sockets, the signal handler, the spawned tasks and the subscriber of \<open>main.rs\<close>, and the texts of log
  lines that nothing reads: input and output only. \<open>testing.rs\<close>, \<open>recipes.rs\<close> and \<open>tests/\<close>: fixtures and checks of
  sources. The \<open>unsafe\<close> reads of the Win32 buffers: the copy of a SID or a path is a value here. Of the
  vendored crate, the constructors for models that the user brings and the builders of options, and what is products of
  \<open>candle\<close> tensors and the loading of their weights: the layers of the Qwen3 models and the Nomic model.
  The sizes of \<open>Qwen_Layout\<close> and \<open>Qwen_Embed\<close> are natural numbers, wrapped where the source casts them to \<open>u32\<close>.
\<close>

end
